(* ===== verification/NC_Prelude.thy ===== *)
theory NC_Prelude
  imports Main "HOL-Library.AList"
begin

text \<open>
  Shared vocabulary of the NetConsole development.

  The Python program passes most of its data as dictionaries with string keys and values of any
  type. \<open>pyval\<close> is that universe of values; a dictionary is an association list in insertion
  order, which \<open>AList.update\<close> updates exactly as Python does (in place when the key exists, at
  the end otherwise). A Python \<open>str\<close> is modelled by its UTF-8 byte sequence, a HOL \<open>string\<close>;
  character classes and case mapping are those of ASCII, every other byte is neither blank, digit
  nor letter. A \<open>float\<close> is modelled by its \<open>repr\<close> text where it only travels through a
  dictionary; code that computes with numbers uses \<open>rat\<close> (see the component theories).

  The theory holds the text operations (\<open>strip\<close>, \<open>casefold\<close>, \<open>split\<close>, \<open>join\<close>, decimal
  printing and parsing), truth value, \<open>str\<close> and \<open>int\<close> of a value, dictionary access, and the
  exceptions the modelled code raises or catches.
\<close>

section \<open>Lemma collections\<close>

named_theorems dict_simps \<open>lookups in updated dictionaries\<close>
named_theorems text_simps \<open>stripping, case mapping and splitting\<close>

section \<open>Exceptions\<close>

datatype pyerr =
    ValueError string
  | TypeError
  | OverflowError
  | RuntimeError string
  | OSError

type_synonym 'a result = "pyerr + 'a"

section \<open>Characters and text\<close>

definition is_space :: "char \<Rightarrow> bool" where
  "is_space c \<longleftrightarrow> (let n = of_char c :: nat in n = 32 \<or> (9 \<le> n \<and> n \<le> 13) \<or> (28 \<le> n \<and> n \<le> 31))"

definition is_digit :: "char \<Rightarrow> bool" where
  "is_digit c \<longleftrightarrow> (let n = of_char c :: nat in 48 \<le> n \<and> n \<le> 57)"

definition is_upper :: "char \<Rightarrow> bool" where
  "is_upper c \<longleftrightarrow> (let n = of_char c :: nat in 65 \<le> n \<and> n \<le> 90)"

definition is_lower :: "char \<Rightarrow> bool" where
  "is_lower c \<longleftrightarrow> (let n = of_char c :: nat in 97 \<le> n \<and> n \<le> 122)"

definition lower_char :: "char \<Rightarrow> char" where
  "lower_char c = (if is_upper c then char_of (of_char c + 32 :: nat) else c)"

definition upper_char :: "char \<Rightarrow> char" where
  "upper_char c = (if is_lower c then char_of (of_char c - 32 :: nat) else c)"

definition casefold :: "string \<Rightarrow> string" where
  "casefold s = map lower_char s"

definition upper :: "string \<Rightarrow> string" where
  "upper s = map upper_char s"

definition lstrip :: "string \<Rightarrow> string" where
  "lstrip s = dropWhile is_space s"

definition rstrip_by :: "(char \<Rightarrow> bool) \<Rightarrow> string \<Rightarrow> string" where
  "rstrip_by p s = rev (dropWhile p (rev s))"

definition strip :: "string \<Rightarrow> string" where
  "strip s = rstrip_by is_space (lstrip s)"

definition startswith :: "string \<Rightarrow> string \<Rightarrow> bool" where
  "startswith s p \<longleftrightarrow> take (length p) s = p"

definition isdigit :: "string \<Rightarrow> bool" where
  "isdigit s \<longleftrightarrow> s \<noteq> [] \<and> list_all is_digit s"

text \<open>\<open>occurs p s\<close> is Python's \<open>p in s\<close> on text.\<close>

fun occurs :: "string \<Rightarrow> string \<Rightarrow> bool" where
  "occurs p [] = (p = [])"
| "occurs p (c # cs) = (startswith (c # cs) p \<or> occurs p cs)"

text \<open>\<open>split_on c s\<close> is Python's \<open>s.split(c)\<close>: never empty, separators dropped.\<close>

fun split_on :: "char \<Rightarrow> string \<Rightarrow> string list" where
  "split_on d [] = [[]]"
| "split_on d (c # cs) =
     (if c = d then [] # split_on d cs
      else (case split_on d cs of [] \<Rightarrow> [[c]] | x # xs \<Rightarrow> (c # x) # xs))"

fun join :: "string \<Rightarrow> string list \<Rightarrow> string" where
  "join sep [] = []"
| "join sep [x] = x"
| "join sep (x # y # xs) = x @ sep @ join sep (y # xs)"

section \<open>Decimal numbers\<close>

definition digit_char :: "nat \<Rightarrow> char" where
  "digit_char d = char_of (48 + d)"

fun show_nat :: "nat \<Rightarrow> string" where
  "show_nat n = (if n < 10 then [digit_char n] else show_nat (n div 10) @ [digit_char (n mod 10)])"

declare show_nat.simps [simp del]

definition show_int :: "int \<Rightarrow> string" where
  "show_int i = (if i < 0 then CHR ''-'' # show_nat (nat (- i)) else show_nat (nat i))"

definition digit_val :: "char \<Rightarrow> nat" where
  "digit_val c = of_char c - 48"

definition nat_of_digits :: "string \<Rightarrow> nat" where
  "nat_of_digits s = foldl (\<lambda>n c. 10 * n + digit_val c) 0 s"

section \<open>Python values\<close>

datatype pyval =
    PNone
  | PBool bool
  | PInt int
  | PFloat string
  | PStr string
  | PList "pyval list"
  | PDict "(string \<times> pyval) list"

type_synonym pydict = "(string \<times> pyval) list"

fun truthy :: "pyval \<Rightarrow> bool" where
  "truthy PNone = False"
| "truthy (PBool b) = b"
| "truthy (PInt i) = (i \<noteq> 0)"
| "truthy (PFloat s) = (s \<noteq> ''0.0'' \<and> s \<noteq> ''-0.0'')"
| "truthy (PStr s) = (s \<noteq> [])"
| "truthy (PList xs) = (xs \<noteq> [])"
| "truthy (PDict d) = (d \<noteq> [])"

definition py_or :: "pyval \<Rightarrow> pyval \<Rightarrow> pyval" where
  "py_or a b = (if truthy a then a else b)"

text \<open>
  \<open>repr\<close> of a string: single quotes unless the text holds a single and no double quote; the
  backslash, the chosen quote and the control characters are escaped.
\<close>

definition hex_char :: "nat \<Rightarrow> char" where
  "hex_char d = (if d < 10 then char_of (48 + d) else char_of (87 + d))"

definition repr_char :: "char \<Rightarrow> char \<Rightarrow> string" where
  "repr_char q c =
     (let n = of_char c :: nat in
      if c = q \<or> n = 92 then [CHR 0x5C, c]
      else if n = 9 then [CHR 0x5C, CHR ''t'']
      else if n = 10 then [CHR 0x5C, CHR ''n'']
      else if n = 13 then [CHR 0x5C, CHR ''r'']
      else if n < 32 \<or> n = 127 then [CHR 0x5C, CHR ''x'', hex_char (n div 16), hex_char (n mod 16)]
      else [c])"

definition repr_str :: "string \<Rightarrow> string" where
  "repr_str s =
     (let q = (if CHR 0x27 \<in> set s \<and> CHR 0x22 \<notin> set s then CHR 0x22 else CHR 0x27)
      in [q] @ concat (map (repr_char q) s) @ [q])"

fun py_repr :: "pyval \<Rightarrow> string" where
  "py_repr PNone = ''None''"
| "py_repr (PBool b) = (if b then ''True'' else ''False'')"
| "py_repr (PInt i) = show_int i"
| "py_repr (PFloat s) = s"
| "py_repr (PStr s) = repr_str s"
| "py_repr (PList xs) = ''['' @ join '', '' (map py_repr xs) @ '']''"
| "py_repr (PDict d) =
     [CHR 0x7B] @ join '', '' (map (\<lambda>kv. repr_str (fst kv) @ '': '' @ py_repr (snd kv)) d) @ [CHR 0x7D]"

definition py_str :: "pyval \<Rightarrow> string" where
  "py_str v = (case v of PStr s \<Rightarrow> s | _ \<Rightarrow> py_repr v)"

text \<open>The idioms \<open>str(v or "")\<close> and \<open>str(v or "").strip()\<close>.\<close>

definition str_or_empty :: "pyval \<Rightarrow> string" where
  "str_or_empty v = py_str (py_or v (PStr []))"

definition text_of :: "pyval \<Rightarrow> string" where
  "text_of v = strip (str_or_empty v)"

text \<open>
  \<open>int(v)\<close>. A decimal literal may carry a sign, surrounding blanks and single underscores
  between digits; a float is truncated towards zero, infinities raise \<open>OverflowError\<close> and NaN
  \<open>ValueError\<close>; other types raise \<open>TypeError\<close>.
\<close>

fun digits_underscored :: "string \<Rightarrow> bool" where
  "digits_underscored [] = False"
| "digits_underscored [c] = is_digit c"
| "digits_underscored (c # d # cs) =
     (is_digit c \<and>
      (if d = CHR ''_'' then digits_underscored cs else digits_underscored (d # cs)))"

definition unsigned_int :: "string \<Rightarrow> nat option" where
  "unsigned_int s =
     (if digits_underscored s then Some (nat_of_digits (filter is_digit s)) else None)"

definition int_of_text :: "string \<Rightarrow> int result" where
  "int_of_text s =
     (let t = strip s in
      case t of
        [] \<Rightarrow> Inl (ValueError ''int'')
      | c # cs \<Rightarrow>
          (if c = CHR ''-''
           then (case unsigned_int cs of None \<Rightarrow> Inl (ValueError ''int'') | Some n \<Rightarrow> Inr (- int n))
           else if c = CHR ''+''
           then (case unsigned_int cs of None \<Rightarrow> Inl (ValueError ''int'') | Some n \<Rightarrow> Inr (int n))
           else (case unsigned_int t of None \<Rightarrow> Inl (ValueError ''int'') | Some n \<Rightarrow> Inr (int n))))"

text \<open>
  The integer part of a float literal \<open>ddd.ddd\<close> or \<open>d.ddde+xx\<close> without its sign: the exponent
  moves the point over the digits.
\<close>

definition trunc_float_digits :: "string \<Rightarrow> nat" where
  "trunc_float_digits s =
     (let mant = takeWhile (\<lambda>c. c \<noteq> CHR ''e'') s;
          expo = drop (Suc (length mant)) s;
          whole = takeWhile is_digit mant;
          frac = filter is_digit (drop (length whole) mant);
          e = nat_of_digits (filter is_digit expo)
      in if expo = [] then nat_of_digits whole
         else if CHR ''-'' \<in> set expo then nat_of_digits (take (length whole - e) whole)
         else nat_of_digits (whole @ take e frac) * 10 ^ (e - length frac))"

definition int_of_float :: "string \<Rightarrow> int result" where
  "int_of_float s =
     (if s = ''inf'' \<or> s = ''-inf'' then Inl OverflowError
      else if s = ''nan'' then Inl (ValueError ''int'')
      else (case s of
              [] \<Rightarrow> Inl (ValueError ''int'')
            | c # cs \<Rightarrow> (if c = CHR ''-'' then Inr (- int (trunc_float_digits cs))
                         else Inr (int (trunc_float_digits s)))))"

fun py_int :: "pyval \<Rightarrow> int result" where
  "py_int (PBool b) = Inr (if b then 1 else 0)"
| "py_int (PInt i) = Inr i"
| "py_int (PFloat s) = int_of_float s"
| "py_int (PStr s) = int_of_text s"
| "py_int _ = Inl TypeError"

section \<open>Dictionaries\<close>

definition dhas :: "pydict \<Rightarrow> string \<Rightarrow> bool" where
  "dhas d k \<longleftrightarrow> map_of d k \<noteq> None"

definition dget :: "pydict \<Rightarrow> string \<Rightarrow> pyval" where
  "dget d k = (case map_of d k of None \<Rightarrow> PNone | Some v \<Rightarrow> v)"

definition dput :: "string \<Rightarrow> pyval \<Rightarrow> pydict \<Rightarrow> pydict" where
  "dput k v d = AList.update k v d"

definition dsetdefault :: "string \<Rightarrow> pyval \<Rightarrow> pydict \<Rightarrow> pydict" where
  "dsetdefault k v d = (if dhas d k then d else dput k v d)"

text \<open>\<open>{**a, **b}\<close> and \<open>a.update(b)\<close>: the entries of \<open>b\<close> are written into \<open>a\<close> one by one.\<close>

definition dmerge :: "pydict \<Rightarrow> pydict \<Rightarrow> pydict" where
  "dmerge a b = fold (\<lambda>(k, v) d. dput k v d) b a"

fun is_pstr :: "pyval \<Rightarrow> bool" where
  "is_pstr (PStr _) = True"
| "is_pstr _ = False"

fun is_pbool :: "pyval \<Rightarrow> bool" where
  "is_pbool (PBool _) = True"
| "is_pbool _ = False"

fun is_pint :: "pyval \<Rightarrow> bool" where
  "is_pint (PInt _) = True"
| "is_pint _ = False"

fun is_pdict :: "pyval \<Rightarrow> bool" where
  "is_pdict (PDict _) = True"
| "is_pdict _ = False"

fun dict_of :: "pyval \<Rightarrow> pydict" where
  "dict_of (PDict d) = d"
| "dict_of _ = []"

section \<open>Lemmas on dictionaries\<close>

lemma map_of_dput [dict_simps]: "map_of (dput k v d) k' = (if k' = k then Some v else map_of d k')"
  by (simp add: dput_def update_conv')

lemma dget_dput [dict_simps]: "dget (dput k v d) k' = (if k' = k then v else dget d k')"
  by (simp add: dget_def map_of_dput)

lemma dhas_dput [dict_simps]: "dhas (dput k v d) k' \<longleftrightarrow> k' = k \<or> dhas d k'"
  by (simp add: dhas_def map_of_dput)

lemma dget_dsetdefault [dict_simps]:
  "dget (dsetdefault k v d) k' = (if k' = k \<and> \<not> dhas d k then v else dget d k')"
  by (auto simp: dsetdefault_def dget_dput)

lemma dhas_dsetdefault [dict_simps]: "dhas (dsetdefault k v d) k' \<longleftrightarrow> k' = k \<or> dhas d k'"
  by (auto simp: dsetdefault_def dhas_dput)

lemma dget_not_dhas: "\<not> dhas d k \<Longrightarrow> dget d k = PNone"
  by (simp add: dget_def dhas_def)

lemma dget_Nil [dict_simps]: "dget [] k = PNone"
  by (simp add: dget_def)

lemma dget_Cons [dict_simps]: "dget ((a, v) # d) k = (if a = k then v else dget d k)"
  by (simp add: dget_def)

lemma dhas_Nil [dict_simps]: "\<not> dhas [] k"
  by (simp add: dhas_def)

lemma dhas_Cons [dict_simps]: "dhas ((a, v) # d) k \<longleftrightarrow> a = k \<or> dhas d k"
  by (simp add: dhas_def)

lemma dhas_iff_key: "dhas d k \<longleftrightarrow> k \<in> fst ` set d"
  by (simp add: dhas_def map_of_eq_None_iff)

lemma dput_keys: "fst ` set (dput k v d) = insert k (fst ` set d)"
  by (auto simp: dput_def dom_update)

lemma distinct_dput: "distinct (map fst d) \<Longrightarrow> distinct (map fst (dput k v d))"
  by (simp add: dput_def distinct_update)

lemma dput_same: "map_of d k = Some v \<Longrightarrow> dput k v d = d"
  by (induction d) (auto simp: dput_def split: if_splits)

lemma dsetdefault_has: "dhas d k \<Longrightarrow> dsetdefault k v d = d"
  by (simp add: dsetdefault_def)

lemma map_of_dget: "dhas d k \<Longrightarrow> map_of d k = Some (dget d k)"
  by (auto simp: dhas_def dget_def)

lemma dmerge_Nil [dict_simps]: "dmerge a [] = a"
  by (simp add: dmerge_def)

lemma dmerge_Cons [dict_simps]: "dmerge a ((k, v) # b) = dmerge (dput k v a) b"
  by (simp add: dmerge_def)

lemma dput_nonempty [simp]: "dput k v d \<noteq> []"
  by (cases d) (auto simp: dput_def)

section \<open>Lemmas on text\<close>

lemma dropWhile_idem: "dropWhile p (dropWhile p xs) = dropWhile p xs"
  by (induction xs) auto

lemma rstrip_by_idem [text_simps]: "rstrip_by p (rstrip_by p s) = rstrip_by p s"
  by (simp add: rstrip_by_def dropWhile_idem)

lemma strip_Nil [simp]: "strip [] = []"
  by (simp add: strip_def lstrip_def rstrip_by_def)

lemma rstrip_by_append_last: "\<not> p x \<Longrightarrow> rstrip_by p (xs @ [x]) = xs @ [x]"
  by (simp add: rstrip_by_def)

lemma rstrip_by_Cons: "\<not> p c \<Longrightarrow> rstrip_by p (c # s) = c # rstrip_by p s"
  by (cases "\<forall>x \<in> set s. p x") (auto simp: rstrip_by_def dropWhile_append)

lemma hd_lstrip: "lstrip s = c # cs \<Longrightarrow> \<not> is_space c"
  by (metis hd_dropWhile list.distinct(1) list.sel(1) lstrip_def)

lemma strip_idem [text_simps]: "strip (strip s) = strip s"
proof (cases "lstrip s")
  case Nil
  then have "strip s = []" by (simp add: strip_def rstrip_by_def)
  then show ?thesis by simp
next
  case (Cons c cs)
  then have c: "\<not> is_space c" by (rule hd_lstrip)
  have "strip s = c # rstrip_by is_space cs"
    using Cons c by (simp add: strip_def rstrip_by_Cons)
  then show ?thesis
    using c by (simp add: strip_def lstrip_def rstrip_by_Cons rstrip_by_idem)
qed

lemma split_on_nonempty [simp]: "split_on d s \<noteq> []"
  by (induction s) (auto split: list.splits)

lemma split_on_append:
  "split_on d (a @ b) = butlast (split_on d a) @ split_on d (last (split_on d a) @ b)"
proof (induction a)
  case Nil
  then show ?case by simp
next
  case (Cons c cs)
  obtain x xs where x: "split_on d cs = x # xs"
    by (meson list.exhaust split_on_nonempty)
  show ?case
  proof (cases xs)
    case Nil
    then show ?thesis using Cons x by auto
  next
    case (Cons y ys)
    then show ?thesis using Cons.IH x by auto
  qed
qed

lemma split_on_no_sep: "d \<notin> set s \<Longrightarrow> split_on d s = [s]"
  by (induction s) auto

lemma last_split_no_sep: "d \<notin> set (last (split_on d s))"
  by (induction s) (auto split: list.splits)

lemma isdigit_Cons: "isdigit (c # cs) \<longleftrightarrow> is_digit c \<and> list_all is_digit cs"
  by (simp add: isdigit_def)

lemma is_digit_digit_char [simp]: "d < 10 \<Longrightarrow> is_digit (digit_char d)"
  by (simp add: is_digit_def digit_char_def)

lemma digit_val_digit_char [simp]: "d < 10 \<Longrightarrow> digit_val (digit_char d) = d"
  by (simp add: digit_val_def digit_char_def)

lemma nat_of_digits_snoc: "nat_of_digits (s @ [c]) = 10 * nat_of_digits s + digit_val c"
  by (simp add: nat_of_digits_def)

text \<open>Printing a number and reading it back.\<close>

lemma nat_of_digits_show_nat [simp]: "nat_of_digits (show_nat n) = n"
proof (induction n rule: show_nat.induct)
  case (1 n)
  show ?case
  proof (cases "n < 10")
    case True
    then show ?thesis by (simp add: show_nat.simps [of n] nat_of_digits_def)
  next
    case False
    with 1 show ?thesis by (simp add: show_nat.simps [of n] nat_of_digits_snoc)
  qed
qed

lemma show_nat_digits: "list_all is_digit (show_nat n) \<and> show_nat n \<noteq> []"
proof (induction n rule: show_nat.induct)
  case (1 n)
  then show ?case by (cases "n < 10") (simp_all add: show_nat.simps [of n])
qed

lemma isdigit_show_nat [simp]: "isdigit (show_nat n)"
  using show_nat_digits [of n] by (simp add: isdigit_def)

section \<open>Lemmas on values\<close>

lemma py_str_PStr [simp]: "py_str (PStr s) = s"
  by (simp add: py_str_def)

lemma str_or_empty_PStr [simp]: "str_or_empty (PStr s) = s"
  by (simp add: str_or_empty_def py_or_def)

lemma str_or_empty_PNone [simp]: "str_or_empty PNone = []"
  by (simp add: str_or_empty_def py_or_def)

lemma text_of_PStr [simp]: "text_of (PStr s) = strip s"
  by (simp add: text_of_def)

lemma text_of_PNone [simp]: "text_of PNone = []"
  by (simp add: text_of_def)

lemma py_or_simps [simp]:
  "py_or PNone b = b" "py_or (PStr []) b = b" "py_or (PStr (c # cs)) b = PStr (c # cs)"
  "py_or (PBool True) b = PBool True" "py_or (PBool False) b = b"
  by (simp_all add: py_or_def)

section \<open>Evaluation of character tests\<close>

text \<open>The character classes on the bits of a character, which evaluation uses.\<close>

lemma is_digit_code [code]:
  "is_digit (Char b0 b1 b2 b3 b4 b5 b6 b7) \<longleftrightarrow> \<not> b7 \<and> \<not> b6 \<and> b5 \<and> b4 \<and> \<not> (b3 \<and> (b2 \<or> b1))"
  by (cases b0; cases b1; cases b2; cases b3; cases b4; cases b5; cases b6; cases b7) (simp_all add: is_digit_def)

lemma is_upper_code [code]:
  "is_upper (Char b0 b1 b2 b3 b4 b5 b6 b7) \<longleftrightarrow>
     \<not> b7 \<and> b6 \<and> \<not> b5 \<and> (b0 \<or> b1 \<or> b2 \<or> b3 \<or> b4) \<and> \<not> (b4 \<and> b3 \<and> (b2 \<or> b1 \<and> b0))"
  by (cases b0; cases b1; cases b2; cases b3; cases b4; cases b5; cases b6; cases b7) (simp_all add: is_upper_def)

lemma is_lower_code [code]:
  "is_lower (Char b0 b1 b2 b3 b4 b5 b6 b7) \<longleftrightarrow>
     \<not> b7 \<and> b6 \<and> b5 \<and> (b0 \<or> b1 \<or> b2 \<or> b3 \<or> b4) \<and> \<not> (b4 \<and> b3 \<and> (b2 \<or> b1 \<and> b0))"
  by (cases b0; cases b1; cases b2; cases b3; cases b4; cases b5; cases b6; cases b7) (simp_all add: is_lower_def)

lemma is_space_code [code]:
  "is_space (Char b0 b1 b2 b3 b4 b5 b6 b7) \<longleftrightarrow>
     \<not> b7 \<and> \<not> b6 \<and>
     (if b5 then \<not> b4 \<and> \<not> b3 \<and> \<not> b2 \<and> \<not> b1 \<and> \<not> b0
      else b3 \<and> (if b4 then b2 else (b0 \<or> b1 \<or> b2) \<and> \<not> (b2 \<and> b1)))"
  by (cases b0; cases b1; cases b2; cases b3; cases b4; cases b5; cases b6; cases b7) (simp_all add: is_space_def)

lemma lower_char_code [code]:
  "lower_char (Char b0 b1 b2 b3 b4 b5 b6 b7) =
     (if is_upper (Char b0 b1 b2 b3 b4 b5 b6 b7) then Char b0 b1 b2 b3 b4 True b6 b7
      else Char b0 b1 b2 b3 b4 b5 b6 b7)"
  by (cases b0; cases b1; cases b2; cases b3; cases b4; cases b5; cases b6; cases b7)
     (simp_all add: lower_char_def is_upper_def char_of_def bit_0)

lemma upper_char_code [code]:
  "upper_char (Char b0 b1 b2 b3 b4 b5 b6 b7) =
     (if is_lower (Char b0 b1 b2 b3 b4 b5 b6 b7) then Char b0 b1 b2 b3 b4 False b6 b7
      else Char b0 b1 b2 b3 b4 b5 b6 b7)"
  by (cases b0; cases b1; cases b2; cases b3; cases b4; cases b5; cases b6; cases b7)
     (simp_all add: upper_char_def is_lower_def char_of_def bit_0)

lemma startswith_code [code]:
  "startswith s [] = True"
  "startswith [] (d # ds) = False"
  "startswith (c # cs) (d # ds) = (c = d \<and> startswith cs ds)"
  by (simp_all add: startswith_def)

end
