(* ===== verification/Chunk_Reader.thy ===== *)
theory Chunk_Reader
  imports NC_Prelude
begin

text \<open>
  The contract of a component that reads a byte stream in pieces of any size: reading two pieces one
  after the other gives the joined output and the final state of reading them at once, and an error
  of the first piece is the error of the whole. The lemma about any number of pieces is proved once
  and used for the frame reader of the worker protocol and for the incremental decoder.
\<close>

definition then_feed ::
  "('o \<Rightarrow> 'o \<Rightarrow> 'o) \<Rightarrow> 'e + 'o \<times> 's \<Rightarrow> ('s \<Rightarrow> 'e + 'o \<times> 's) \<Rightarrow> 'e + 'o \<times> 's" where
  "then_feed glue r f =
     (case r of
        Inl e \<Rightarrow> Inl e
      | Inr (o1, s1) \<Rightarrow> (case f s1 of Inl e \<Rightarrow> Inl e | Inr (o2, s2) \<Rightarrow> Inr (glue o1 o2, s2)))"

text \<open>Reading the piece \<open>c\<close> and then the pieces of a list.\<close>

fun feed_all ::
  "('s \<Rightarrow> 'b list \<Rightarrow> 'e + 'o \<times> 's) \<Rightarrow> ('o \<Rightarrow> 'o \<Rightarrow> 'o) \<Rightarrow> 's \<Rightarrow> 'b list \<Rightarrow> 'b list list \<Rightarrow> 'e + 'o \<times> 's" where
  "feed_all feed glue s c [] = feed s c"
| "feed_all feed glue s c (c' # cs) = then_feed glue (feed s c) (\<lambda>s1. feed_all feed glue s1 c' cs)"

locale chunk_reader =
  fixes feed :: "'s \<Rightarrow> 'b list \<Rightarrow> 'e + 'o \<times> 's"
    and glue :: "'o \<Rightarrow> 'o \<Rightarrow> 'o"
  assumes feed_append: "feed s (a @ b) = then_feed glue (feed s a) (\<lambda>s1. feed s1 b)"
begin

lemma feed_all_concat: "feed_all feed glue s c cs = feed s (c @ concat cs)"
proof (induction cs arbitrary: s c)
  case Nil
  then show ?case by simp
next
  case (Cons c' cs)
  then show ?case by (simp add: feed_append [of s c "c' @ concat cs"])
qed

end

end
