(* ===== verification/NC_Texts.thy ===== *)
theory NC_Texts
  imports NC_Prelude
begin

text \<open>
  The non-ASCII literals of the modelled sources, as the UTF-8 byte sequences that model their
  text. The names paraphrase the Chinese messages and status words; U+FFFD is the replacement
  character the worker protocol treats as corruption.
\<close>

section \<open>Worker protocol and task runtime messages\<close>

definition replacement_char :: string where
  "replacement_char =
     [CHR 0xEF, CHR 0xBF, CHR 0xBD]"

definition msg_job_finished :: string where
  "msg_job_finished =
     [CHR 0xE5, CHR 0x90, CHR 0x8E, CHR 0xE5, CHR 0x8F, CHR 0xB0, CHR 0xE4, CHR 0xBB, CHR
      0xBB, CHR 0xE5, CHR 0x8A, CHR 0xA1, CHR 0xE5, CHR 0xAE, CHR 0x8C, CHR 0xE6, CHR 0x88,
      CHR 0x90]"

definition msg_job_failed :: string where
  "msg_job_failed =
     [CHR 0xE5, CHR 0x90, CHR 0x8E, CHR 0xE5, CHR 0x8F, CHR 0xB0, CHR 0xE4, CHR 0xBB, CHR
      0xBB, CHR 0xE5, CHR 0x8A, CHR 0xA1, CHR 0xE5, CHR 0xA4, CHR 0xB1, CHR 0xE8, CHR 0xB4,
      CHR 0xA5]"

definition msg_job_cancelled :: string where
  "msg_job_cancelled =
     [CHR 0xE5, CHR 0x90, CHR 0x8E, CHR 0xE5, CHR 0x8F, CHR 0xB0, CHR 0xE4, CHR 0xBB, CHR
      0xBB, CHR 0xE5, CHR 0x8A, CHR 0xA1, CHR 0xE5, CHR 0xB7, CHR 0xB2, CHR 0xE5, CHR 0x8F,
      CHR 0x96, CHR 0xE6, CHR 0xB6, CHR 0x88]"

definition msg_missing_task_type :: string where
  "msg_missing_task_type =
     [CHR 0xE5, CHR 0x90, CHR 0x8E, CHR 0xE5, CHR 0x8F, CHR 0xB0, CHR 0xE4, CHR 0xBB, CHR
      0xBB, CHR 0xE5, CHR 0x8A, CHR 0xA1, CHR 0xE7, CHR 0xBC, CHR 0xBA, CHR 0xE5, CHR 0xB0,
      CHR 0x91, CHR 0x20, CHR 0x74, CHR 0x61, CHR 0x73, CHR 0x6B, CHR 0x5F, CHR 0x74, CHR
      0x79, CHR 0x70, CHR 0x65]"

definition msg_start_failed :: string where
  "msg_start_failed =
     [CHR 0xE5, CHR 0x90, CHR 0x8E, CHR 0xE5, CHR 0x8F, CHR 0xB0, CHR 0xE8, CHR 0xBF, CHR
      0x9B, CHR 0xE7, CHR 0xA8, CHR 0x8B, CHR 0xE5, CHR 0x90, CHR 0xAF, CHR 0xE5, CHR 0x8A,
      CHR 0xA8, CHR 0xE5, CHR 0xA4, CHR 0xB1, CHR 0xE8, CHR 0xB4, CHR 0xA5]"

definition msg_abnormal_exit :: string where
  "msg_abnormal_exit =
     [CHR 0xE5, CHR 0x90, CHR 0x8E, CHR 0xE5, CHR 0x8F, CHR 0xB0, CHR 0xE4, CHR 0xBB, CHR
      0xBB, CHR 0xE5, CHR 0x8A, CHR 0xA1, CHR 0xE5, CHR 0xBC, CHR 0x82, CHR 0xE5, CHR 0xB8,
      CHR 0xB8, CHR 0xE9, CHR 0x80, CHR 0x80, CHR 0xE5, CHR 0x87, CHR 0xBA, CHR 0xEF, CHR
      0xBC, CHR 0x8C, CHR 0xE9, CHR 0x80, CHR 0x80, CHR 0xE5, CHR 0x87, CHR 0xBA, CHR 0xE7,
      CHR 0xA0, CHR 0x81, CHR 0x20]"

definition msg_protocol_broken :: string where
  "msg_protocol_broken =
     [CHR 0x57, CHR 0x6F, CHR 0x72, CHR 0x6B, CHR 0x65, CHR 0x72, CHR 0x20, CHR 0xE5, CHR
      0x86, CHR 0x85, CHR 0xE9, CHR 0x83, CHR 0xA8, CHR 0xE9, CHR 0x80, CHR 0x9A, CHR 0xE4,
      CHR 0xBF, CHR 0xA1, CHR 0xE5, CHR 0x8D, CHR 0x8F, CHR 0xE8, CHR 0xAE, CHR 0xAE, CHR
      0xE6, CHR 0x8D, CHR 0x9F, CHR 0xE5, CHR 0x9D, CHR 0x8F, CHR 0xEF, CHR 0xBC, CHR 0x8C,
      CHR 0xE4, CHR 0xBB, CHR 0xBB, CHR 0xE5, CHR 0x8A, CHR 0xA1, CHR 0xE5, CHR 0xB7, CHR
      0xB2, CHR 0xE5, CHR 0xBC, CHR 0xBA, CHR 0xE5, CHR 0x88, CHR 0xB6, CHR 0xE7, CHR 0xBB,
      CHR 0x88, CHR 0xE6, CHR 0xAD, CHR 0xA2, CHR 0xE3, CHR 0x80, CHR 0x82]"

definition msg_controlled_replacement :: string where
  "msg_controlled_replacement =
     [CHR 0xE5, CHR 0x86, CHR 0x85, CHR 0xE9, CHR 0x83, CHR 0xA8, CHR 0x20, CHR 0x55, CHR
      0x54, CHR 0x46, CHR 0x2D, CHR 0x38, CHR 0x20, CHR 0xE5, CHR 0xAD, CHR 0x97, CHR 0xE8,
      CHR 0x8A, CHR 0x82, CHR 0xE6, CHR 0xB5, CHR 0x81, CHR 0xE5, CHR 0x8C, CHR 0x85, CHR
      0xE5, CHR 0x90, CHR 0xAB, CHR 0xE9, CHR 0x9D, CHR 0x9E, CHR 0xE6, CHR 0xB3, CHR 0x95,
      CHR 0xE5, CHR 0xBA, CHR 0x8F, CHR 0xE5, CHR 0x88, CHR 0x97, CHR 0xEF, CHR 0xBC, CHR
      0x8C, CHR 0xE5, CHR 0xB7, CHR 0xB2, CHR 0xE6, CHR 0x89, CHR 0xA7, CHR 0xE8, CHR 0xA1,
      CHR 0x8C, CHR 0xE5, CHR 0x8F, CHR 0x97, CHR 0xE6, CHR 0x8E, CHR 0xA7, CHR 0xE6, CHR
      0x9B, CHR 0xBF, CHR 0xE4, CHR 0xBB, CHR 0xA3, CHR 0xE3, CHR 0x80, CHR 0x82]"

section \<open>Optical status words and reasons\<close>

definition zh_normal :: string where
  "zh_normal =
     [CHR 0xE6, CHR 0xAD, CHR 0xA3, CHR 0xE5, CHR 0xB8, CHR 0xB8]"

definition zh_notice :: string where
  "zh_notice =
     [CHR 0xE5, CHR 0x81, CHR 0x8F, CHR 0xE4, CHR 0xBD, CHR 0x8E, CHR 0xE5, CHR 0x85, CHR
      0xB3, CHR 0xE6, CHR 0xB3, CHR 0xA8]"

definition zh_warning :: string where
  "zh_warning =
     [CHR 0xE6, CHR 0x8F, CHR 0x90, CHR 0xE7, CHR 0xA4, CHR 0xBA, CHR 0xE5, CHR 0x91, CHR
      0x8A, CHR 0xE8, CHR 0xAD, CHR 0xA6]"

definition zh_alarm :: string where
  "zh_alarm =
     [CHR 0xE4, CHR 0xB8, CHR 0x80, CHR 0xE8, CHR 0x88, CHR 0xAC, CHR 0xE5, CHR 0x91, CHR
      0x8A, CHR 0xE8, CHR 0xAD, CHR 0xA6]"

definition zh_abnormal :: string where
  "zh_abnormal =
     [CHR 0xE5, CHR 0x85, CHR 0x89, CHR 0xE8, CHR 0xA1, CHR 0xB0, CHR 0xE5, CHR 0xA4, CHR
      0xA7]"

definition zh_link_abnormal :: string where
  "zh_link_abnormal =
     [CHR 0xE9, CHR 0x93, CHR 0xBE, CHR 0xE8, CHR 0xB7, CHR 0xAF, CHR 0xE5, CHR 0xBC, CHR
      0x82, CHR 0xE5, CHR 0xB8, CHR 0xB8]"

definition zh_link_down :: string where
  "zh_link_down =
     [CHR 0xE9, CHR 0x93, CHR 0xBE, CHR 0xE8, CHR 0xB7, CHR 0xAF, CHR 0xE6, CHR 0x96, CHR
      0xAD, CHR 0xE5, CHR 0xBC, CHR 0x80]"

definition zh_no_light :: string where
  "zh_no_light =
     [CHR 0xE6, CHR 0x97, CHR 0xA0, CHR 0xE5, CHR 0x85, CHR 0x89]"

definition zh_no_module :: string where
  "zh_no_module =
     [CHR 0xE6, CHR 0x97, CHR 0xA0, CHR 0xE5, CHR 0x85, CHR 0x89, CHR 0xE6, CHR 0xA8, CHR
      0xA1, CHR 0xE5, CHR 0x9D, CHR 0x97]"

definition zh_skipped :: string where
  "zh_skipped =
     [CHR 0xE6, CHR 0x9C, CHR 0xAA, CHR 0xE6, CHR 0xA3, CHR 0x80, CHR 0xE6, CHR 0x9F, CHR
      0xA5]"

definition zh_not_collected :: string where
  "zh_not_collected =
     [CHR 0xE6, CHR 0x9C, CHR 0xAA, CHR 0xE9, CHR 0x87, CHR 0x87, CHR 0xE9, CHR 0x9B, CHR
      0x86]"

definition zh_not_applicable :: string where
  "zh_not_applicable =
     [CHR 0xE4, CHR 0xB8, CHR 0x8D, CHR 0xE9, CHR 0x80, CHR 0x82, CHR 0xE7, CHR 0x94, CHR
      0xA8]"

definition zh_unknown :: string where
  "zh_unknown =
     [CHR 0xE6, CHR 0x9C, CHR 0xAA, CHR 0xE7, CHR 0x9F, CHR 0xA5]"

definition zh_unverified :: string where
  "zh_unverified =
     [CHR 0xE7, CHR 0x8A, CHR 0xB6, CHR 0xE6, CHR 0x80, CHR 0x81, CHR 0xE6, CHR 0x9C, CHR
      0xAA, CHR 0xE7, CHR 0x9F, CHR 0xA5, CHR 0x2F, CHR 0xE7, CHR 0xAC, CHR 0xAC, CHR 0xE4,
      CHR 0xB8, CHR 0x89, CHR 0xE6, CHR 0x96, CHR 0xB9, CHR 0xE6, CHR 0xA8, CHR 0xA1, CHR
      0xE5, CHR 0x9D, CHR 0x97]"

definition zh_dom_unavailable :: string where
  "zh_dom_unavailable =
     [CHR 0xE4, CHR 0xB8, CHR 0x8D, CHR 0xE6, CHR 0x94, CHR 0xAF, CHR 0xE6, CHR 0x8C, CHR
      0x81, CHR 0x20, CHR 0x44, CHR 0x4F, CHR 0x4D]"

definition zh_collection_failed :: string where
  "zh_collection_failed =
     [CHR 0xE9, CHR 0x87, CHR 0x87, CHR 0xE9, CHR 0x9B, CHR 0x86, CHR 0xE5, CHR 0xA4, CHR
      0xB1, CHR 0xE8, CHR 0xB4, CHR 0xA5, CHR 0x2F, CHR 0xE8, CHR 0xAE, CHR 0xBE, CHR 0xE5,
      CHR 0xA4, CHR 0x87, CHR 0xE4, CHR 0xB8, CHR 0x8D, CHR 0xE5, CHR 0x8F, CHR 0xAF, CHR
      0xE8, CHR 0xBE, CHR 0xBE]"

definition zh_critical :: string where
  "zh_critical =
     [CHR 0xE4, CHR 0xB8, CHR 0xA5, CHR 0xE9, CHR 0x87, CHR 0x8D, CHR 0xE5, CHR 0x91, CHR
      0x8A, CHR 0xE8, CHR 0xAD, CHR 0xA6]"

definition zh_power_abnormal :: string where
  "zh_power_abnormal =
     [CHR 0xE5, CHR 0x8A, CHR 0x9F, CHR 0xE7, CHR 0x8E, CHR 0x87, CHR 0xE5, CHR 0xBC, CHR
      0x82, CHR 0xE5, CHR 0xB8, CHR 0xB8]"

definition zh_module_not_inserted :: string where
  "zh_module_not_inserted =
     [CHR 0xE6, CHR 0x9C, CHR 0xAA, CHR 0xE6, CHR 0x8F, CHR 0x92, CHR 0xE5, CHR 0x85, CHR
      0x89, CHR 0xE6, CHR 0xA8, CHR 0xA1, CHR 0xE5, CHR 0x9D, CHR 0x97]"

definition zh_module_missing :: string where
  "zh_module_missing =
     [CHR 0xE5, CHR 0x85, CHR 0x89, CHR 0xE6, CHR 0xA8, CHR 0xA1, CHR 0xE5, CHR 0x9D, CHR
      0x97, CHR 0xE4, CHR 0xB8, CHR 0x8D, CHR 0xE5, CHR 0xAD, CHR 0x98, CHR 0xE5, CHR 0x9C,
      CHR 0xA8]"

definition msg_zte_offline :: string where
  "msg_zte_offline =
     [CHR 0xE8, CHR 0xAE, CHR 0xBE, CHR 0xE5, CHR 0xA4, CHR 0x87, CHR 0xE8, CHR 0xBF, CHR
      0x94, CHR 0xE5, CHR 0x9B, CHR 0x9E, CHR 0x20, CHR 0x6F, CHR 0x66, CHR 0x66, CHR 0x6C,
      CHR 0x69, CHR 0x6E, CHR 0x65, CHR 0xEF, CHR 0xBC, CHR 0x8C, CHR 0xE6, CHR 0x9C, CHR
      0xAA, CHR 0xE6, CHR 0xA3, CHR 0x80, CHR 0xE6, CHR 0xB5, CHR 0x8B, CHR 0xE5, CHR 0x88,
      CHR 0xB0, CHR 0xE5, CHR 0x85, CHR 0x89, CHR 0xE6, CHR 0xA8, CHR 0xA1, CHR 0xE5, CHR
      0x9D, CHR 0x97]"

definition ZTE_NO_LIGHT_REASON :: string where
  "ZTE_NO_LIGHT_REASON =
     [CHR 0xE8, CHR 0xAE, CHR 0xBE, CHR 0xE5, CHR 0xA4, CHR 0x87, CHR 0xE6, CHR 0x9C, CHR
      0xAA, CHR 0xE8, CHR 0xBF, CHR 0x94, CHR 0xE5, CHR 0x9B, CHR 0x9E, CHR 0xE6, CHR 0x8E,
      CHR 0xA5, CHR 0xE6, CHR 0x94, CHR 0xB6, CHR 0xE5, CHR 0x85, CHR 0x89, CHR 0xE5, CHR
      0x8A, CHR 0x9F, CHR 0xE7, CHR 0x8E, CHR 0x87]"

section \<open>Online MR and unattended collection\<close>

definition msg_mr_already_active :: string where
  "msg_mr_already_active =
     [CHR 0xE5, CHR 0x90, CHR 0x8C, CHR 0xE4, CHR 0xB8, CHR 0x80, CHR 0x20, CHR 0x4D, CHR
      0x52, CHR 0x20, CHR 0xE5, CHR 0xB7, CHR 0xB2, CHR 0xE6, CHR 0x9C, CHR 0x89, CHR 0xE9,
      CHR 0x87, CHR 0x87, CHR 0xE9, CHR 0x9B, CHR 0x86, CHR 0xE4, CHR 0xBB, CHR 0xBB, CHR
      0xE5, CHR 0x8A, CHR 0xA1]"

definition msg_mr_capacity :: string where
  "msg_mr_capacity =
     [CHR 0x4F, CHR 0x6E, CHR 0x6C, CHR 0x69, CHR 0x6E, CHR 0x65, CHR 0x20, CHR 0x4D, CHR
      0x52, CHR 0x20, CHR 0xE6, CHR 0xB4, CHR 0xBB, CHR 0xE5, CHR 0x8A, CHR 0xA8, CHR 0xE8,
      CHR 0xB5, CHR 0x84, CHR 0xE6, CHR 0xBA, CHR 0x90, CHR 0xE9, CHR 0xA2, CHR 0x84, CHR
      0xE7, CHR 0xAE, CHR 0x97, CHR 0xE5, CHR 0xB7, CHR 0xB2, CHR 0xE6, CHR 0xBB, CHR 0xA1]"

definition msg_mr_starting_capacity :: string where
  "msg_mr_starting_capacity =
     [CHR 0x4F, CHR 0x6E, CHR 0x6C, CHR 0x69, CHR 0x6E, CHR 0x65, CHR 0x20, CHR 0x4D, CHR
      0x52, CHR 0x20, CHR 0xE5, CHR 0x90, CHR 0xAF, CHR 0xE5, CHR 0x8A, CHR 0xA8, CHR 0xE5,
      CHR 0xB9, CHR 0xB6, CHR 0xE5, CHR 0x8F, CHR 0x91, CHR 0xE9, CHR 0xA2, CHR 0x84, CHR
      0xE7, CHR 0xAE, CHR 0x97, CHR 0xE5, CHR 0xB7, CHR 0xB2, CHR 0xE6, CHR 0xBB, CHR 0xA1]"

definition msg_mr_finalizing_capacity :: string where
  "msg_mr_finalizing_capacity =
     [CHR 0x4F, CHR 0x6E, CHR 0x6C, CHR 0x69, CHR 0x6E, CHR 0x65, CHR 0x20, CHR 0x4D, CHR
      0x52, CHR 0x20, CHR 0xE6, CHR 0x9C, CHR 0x80, CHR 0xE7, CHR 0xBB, CHR 0x88, CHR 0xE5,
      CHR 0x8C, CHR 0x96, CHR 0xE5, CHR 0xB9, CHR 0xB6, CHR 0xE5, CHR 0x8F, CHR 0x91, CHR
      0xE9, CHR 0xA2, CHR 0x84, CHR 0xE7, CHR 0xAE, CHR 0x97, CHR 0xE5, CHR 0xB7, CHR 0xB2,
      CHR 0xE6, CHR 0xBB, CHR 0xA1]"

definition reason_pinned_first_round :: string where
  "reason_pinned_first_round =
     [CHR 0xE7, CHR 0xBD, CHR 0xAE, CHR 0xE9, CHR 0xA1, CHR 0xB6, CHR 0xE5, CHR 0x88, CHR
      0x97, CHR 0xE8, CHR 0xBD, CHR 0xA6, CHR 0xE4, CHR 0xBB, CHR 0x8A, CHR 0xE6, CHR 0x97,
      CHR 0xA5, CHR 0xE5, CHR 0xB0, CHR 0x9A, CHR 0xE6, CHR 0x9C, CHR 0xAA, CHR 0xE5, CHR
      0xAE, CHR 0x8C, CHR 0xE6, CHR 0x88, CHR 0x90, CHR 0xE7, CHR 0xAC, CHR 0xAC, CHR 0xE4,
      CHR 0xB8, CHR 0x80, CHR 0xE8, CHR 0xBD, CHR 0xAE]"

definition reason_never_collected :: string where
  "reason_never_collected =
     [CHR 0xE4, CHR 0xBB, CHR 0x8A, CHR 0xE6, CHR 0x97, CHR 0xA5, CHR 0xE4, CHR 0xBB, CHR
      0x8E, CHR 0xE6, CHR 0x9C, CHR 0xAA, CHR 0xE8, CHR 0xBF, CHR 0x9B, CHR 0xE8, CHR 0xA1,
      CHR 0x8C, CHR 0xE6, CHR 0xB7, CHR 0xB1, CHR 0xE5, CHR 0xBA, CHR 0xA6, CHR 0xE9, CHR
      0x87, CHR 0x87, CHR 0xE9, CHR 0x9B, CHR 0x86]"

definition reason_partial_retry :: string where
  "reason_partial_retry =
     [CHR 0xE4, CHR 0xBB, CHR 0x8A, CHR 0xE6, CHR 0x97, CHR 0xA5, CHR 0xE9, CHR 0x83, CHR
      0xA8, CHR 0xE5, CHR 0x88, CHR 0x86, CHR 0xE7, CHR 0xBB, CHR 0x93, CHR 0xE6, CHR 0x9E,
      CHR 0x9C, CHR 0xE7, CHR 0xAD, CHR 0x89, CHR 0xE5, CHR 0xBE, CHR 0x85, CHR 0xE8, CHR
      0xA1, CHR 0xA5, CHR 0xE9, CHR 0x87, CHR 0x87]"

definition reason_first_round :: string where
  "reason_first_round =
     [CHR 0xE4, CHR 0xBB, CHR 0x8A, CHR 0xE6, CHR 0x97, CHR 0xA5, CHR 0xE7, CHR 0xAC, CHR
      0xAC, CHR 0xE4, CHR 0xB8, CHR 0x80, CHR 0xE8, CHR 0xBD, CHR 0xAE, CHR 0xE5, CHR 0xB0,
      CHR 0x9A, CHR 0xE6, CHR 0x9C, CHR 0xAA, CHR 0xE5, CHR 0xAE, CHR 0x8C, CHR 0xE6, CHR
      0x88, CHR 0x90]"

definition reason_later_round :: string where
  "reason_later_round =
     [CHR 0xE5, CHR 0x85, CHR 0xA8, CHR 0xE9, CHR 0x83, CHR 0xA8, CHR 0xE5, CHR 0x8F, CHR
      0xAF, CHR 0xE9, CHR 0x87, CHR 0x87, CHR 0xE9, CHR 0x9B, CHR 0x86, CHR 0xE5, CHR 0x88,
      CHR 0x97, CHR 0xE8, CHR 0xBD, CHR 0xA6, CHR 0xE5, CHR 0xB7, CHR 0xB2, CHR 0xE5, CHR
      0xAE, CHR 0x8C, CHR 0xE6, CHR 0x88, CHR 0x90, CHR 0xE7, CHR 0xAC, CHR 0xAC, CHR 0xE4,
      CHR 0xB8, CHR 0x80, CHR 0xE8, CHR 0xBD, CHR 0xAE, CHR 0xEF, CHR 0xBC, CHR 0x8C, CHR
      0xE8, CHR 0xBF, CHR 0x9B, CHR 0xE5, CHR 0x85, CHR 0xA5, CHR 0xE5, CHR 0x90, CHR 0x8E,
      CHR 0xE7, CHR 0xBB, CHR 0xAD, CHR 0xE8, CHR 0xBD, CHR 0xAE, CHR 0xE6, CHR 0xAC, CHR
      0xA1]"

definition msg_mapping_lost :: string where
  "msg_mapping_lost =
     [CHR 0xE8, CHR 0xBD, CHR 0xAF, CHR 0xE4, CHR 0xBB, CHR 0xB6, CHR 0xE9, CHR 0x87, CHR
      0x8D, CHR 0xE5, CHR 0x90, CHR 0xAF, CHR 0xE5, CHR 0x90, CHR 0x8E, CHR 0xE6, CHR 0x97,
      CHR 0xA0, CHR 0xE6, CHR 0xB3, CHR 0x95, CHR 0xE6, CHR 0x81, CHR 0xA2, CHR 0xE5, CHR
      0xA4, CHR 0x8D, CHR 0xE5, CHR 0xAF, CHR 0xB9, CHR 0xE5, CHR 0xBA, CHR 0x94, CHR 0x20,
      CHR 0x4F, CHR 0x6E, CHR 0x6C, CHR 0x69, CHR 0x6E, CHR 0x65, CHR 0x20, CHR 0x4D, CHR
      0x52, CHR 0x20, CHR 0xE4, CHR 0xBB, CHR 0xBB, CHR 0xE5, CHR 0x8A, CHR 0xA1, CHR 0xE6,
      CHR 0x98, CHR 0xA0, CHR 0xE5, CHR 0xB0, CHR 0x84]"

definition msg_no_session :: string where
  "msg_no_session =
     [CHR 0xE6, CHR 0x9C, CHR 0xAA, CHR 0xE5, CHR 0x88, CHR 0x9B, CHR 0xE5, CHR 0xBB, CHR
      0xBA, CHR 0x20, CHR 0x4F, CHR 0x6E, CHR 0x6C, CHR 0x69, CHR 0x6E, CHR 0x65, CHR 0x20,
      CHR 0x4D, CHR 0x52, CHR 0x20, CHR 0x53, CHR 0x65, CHR 0x73, CHR 0x73, CHR 0x69, CHR
      0x6F, CHR 0x6E]"

definition msg_conditions_missing :: string where
  "msg_conditions_missing =
     [CHR 0xE6, CHR 0xB7, CHR 0xB1, CHR 0xE5, CHR 0xBA, CHR 0xA6, CHR 0xE9, CHR 0x87, CHR
      0x87, CHR 0xE9, CHR 0x9B, CHR 0x86, CHR 0xE5, CHR 0xAE, CHR 0x8C, CHR 0xE6, CHR 0x88,
      CHR 0x90, CHR 0xE6, CHR 0x9D, CHR 0xA1, CHR 0xE4, CHR 0xBB, CHR 0xB6, CHR 0xE4, CHR
      0xB8, CHR 0x8D, CHR 0xE8, CHR 0xB6, CHR 0xB3, CHR 0xEF, CHR 0xBC, CHR 0x9A]"

definition zh_list_comma :: string where
  "zh_list_comma =
     [CHR 0xE3, CHR 0x80, CHR 0x81]"

definition zh_semicolon :: string where
  "zh_semicolon =
     [CHR 0xEF, CHR 0xBC, CHR 0x9B]"

definition msg_bad_timezone :: string where
  "msg_bad_timezone =
     [CHR 0xE6, CHR 0x97, CHR 0xB6, CHR 0xE5, CHR 0x8C, CHR 0xBA, CHR 0xE5, CHR 0x90, CHR
      0x8D, CHR 0xE7, CHR 0xA7, CHR 0xB0, CHR 0xE6, CHR 0x97, CHR 0xA0, CHR 0xE6, CHR 0x95,
      CHR 0x88]"

definition msg_same_clock :: string where
  "msg_same_clock =
     [CHR 0xE5, CHR 0xBC, CHR 0x80, CHR 0xE5, CHR 0xA7, CHR 0x8B, CHR 0xE6, CHR 0x97, CHR
      0xB6, CHR 0xE9, CHR 0x97, CHR 0xB4, CHR 0xE5, CHR 0x92, CHR 0x8C, CHR 0xE7, CHR 0xBB,
      CHR 0x93, CHR 0xE6, CHR 0x9D, CHR 0x9F, CHR 0xE6, CHR 0x97, CHR 0xB6, CHR 0xE9, CHR
      0x97, CHR 0xB4, CHR 0xE4, CHR 0xB8, CHR 0x8D, CHR 0xE8, CHR 0x83, CHR 0xBD, CHR 0xE7,
      CHR 0x9B, CHR 0xB8, CHR 0xE5, CHR 0x90, CHR 0x8C]"

definition msg_bad_clock :: string where
  "msg_bad_clock =
     [CHR 0xE6, CHR 0x97, CHR 0xB6, CHR 0xE9, CHR 0x97, CHR 0xB4, CHR 0xE5, CHR 0xBF, CHR
      0x85, CHR 0xE9, CHR 0xA1, CHR 0xBB, CHR 0xE4, CHR 0xBD, CHR 0xBF, CHR 0xE7, CHR 0x94,
      CHR 0xA8, CHR 0x20, CHR 0x48, CHR 0x48, CHR 0x3A, CHR 0x4D, CHR 0x4D, CHR 0x20, CHR
      0xE6, CHR 0xA0, CHR 0xBC, CHR 0xE5, CHR 0xBC, CHR 0x8F]"

section \<open>Mileage and access point identity\<close>

definition zh_nothing :: string where
  "zh_nothing =
     [CHR 0xE6, CHR 0x97, CHR 0xA0]"

definition zh_left_line :: string where
  "zh_left_line =
     [CHR 0xE5, CHR 0xB7, CHR 0xA6, CHR 0xE7, CHR 0xBA, CHR 0xBF]"

definition zh_left_line_mileage :: string where
  "zh_left_line_mileage =
     [CHR 0xE5, CHR 0xB7, CHR 0xA6, CHR 0xE7, CHR 0xBA, CHR 0xBF, CHR 0xE9, CHR 0x87, CHR
      0x8C, CHR 0xE7, CHR 0xA8, CHR 0x8B]"

definition zh_left :: string where
  "zh_left =
     [CHR 0xE5, CHR 0xB7, CHR 0xA6]"

definition zh_down_direction :: string where
  "zh_down_direction =
     [CHR 0xE4, CHR 0xB8, CHR 0x8B, CHR 0xE8, CHR 0xA1, CHR 0x8C]"

definition zh_down :: string where
  "zh_down =
     [CHR 0xE4, CHR 0xB8, CHR 0x8B]"

definition zh_right_line :: string where
  "zh_right_line =
     [CHR 0xE5, CHR 0x8F, CHR 0xB3, CHR 0xE7, CHR 0xBA, CHR 0xBF]"

definition zh_right_line_mileage :: string where
  "zh_right_line_mileage =
     [CHR 0xE5, CHR 0x8F, CHR 0xB3, CHR 0xE7, CHR 0xBA, CHR 0xBF, CHR 0xE9, CHR 0x87, CHR
      0x8C, CHR 0xE7, CHR 0xA8, CHR 0x8B]"

definition zh_right :: string where
  "zh_right =
     [CHR 0xE5, CHR 0x8F, CHR 0xB3]"

definition zh_up_direction :: string where
  "zh_up_direction =
     [CHR 0xE4, CHR 0xB8, CHR 0x8A, CHR 0xE8, CHR 0xA1, CHR 0x8C]"

definition zh_up :: string where
  "zh_up =
     [CHR 0xE4, CHR 0xB8, CHR 0x8A]"

definition zh_exit_line :: string where
  "zh_exit_line =
     [CHR 0xE5, CHR 0x87, CHR 0xBA, CHR 0xE6, CHR 0xAE, CHR 0xB5, CHR 0xE7, CHR 0xBA, CHR
      0xBF]"

definition zh_exit :: string where
  "zh_exit =
     [CHR 0xE5, CHR 0x87, CHR 0xBA, CHR 0xE6, CHR 0xAE, CHR 0xB5]"

definition zh_exit_depot_line :: string where
  "zh_exit_depot_line =
     [CHR 0xE5, CHR 0x87, CHR 0xBA, CHR 0xE5, CHR 0xBA, CHR 0x93, CHR 0xE7, CHR 0xBA, CHR
      0xBF]"

definition zh_entry_line :: string where
  "zh_entry_line =
     [CHR 0xE5, CHR 0x85, CHR 0xA5, CHR 0xE6, CHR 0xAE, CHR 0xB5, CHR 0xE7, CHR 0xBA, CHR
      0xBF]"

definition zh_entry :: string where
  "zh_entry =
     [CHR 0xE5, CHR 0x85, CHR 0xA5, CHR 0xE6, CHR 0xAE, CHR 0xB5]"

definition zh_entry_depot_line :: string where
  "zh_entry_depot_line =
     [CHR 0xE5, CHR 0x85, CHR 0xA5, CHR 0xE5, CHR 0xBA, CHR 0x93, CHR 0xE7, CHR 0xBA, CHR
      0xBF]"

definition zh_wide_colon :: string where
  "zh_wide_colon =
     [CHR 0xEF, CHR 0xBC, CHR 0x9A]"

definition zh_wide_left_bracket :: string where
  "zh_wide_left_bracket =
     [CHR 0xEF, CHR 0xBC, CHR 0x88]"

definition zh_wide_right_bracket :: string where
  "zh_wide_right_bracket =
     [CHR 0xEF, CHR 0xBC, CHR 0x89]"

definition msg_mileage_unparsable :: string where
  "msg_mileage_unparsable =
     [CHR 0xE9, CHR 0x87, CHR 0x8C, CHR 0xE7, CHR 0xA8, CHR 0x8B, CHR 0xE6, CHR 0x97, CHR
      0xA0, CHR 0xE6, CHR 0xB3, CHR 0x95, CHR 0xE8, CHR 0xA7, CHR 0xA3, CHR 0xE6, CHR 0x9E,
      CHR 0x90]"

definition msg_reason_ap_uuid :: string where
  "msg_reason_ap_uuid =
     [CHR 0x61, CHR 0x70, CHR 0x5F, CHR 0x75, CHR 0x75, CHR 0x69, CHR 0x64, CHR 0x20, CHR
      0xE7, CHR 0xB2, CHR 0xBE, CHR 0xE7, CHR 0xA1, CHR 0xAE, CHR 0xE5, CHR 0x8C, CHR 0xB9,
      CHR 0xE9, CHR 0x85, CHR 0x8D]"

definition msg_reason_scoped_ap_id :: string where
  "msg_reason_scoped_ap_id =
     [CHR 0x41, CHR 0x43, CHR 0x20, CHR 0xE4, CHR 0xBD, CHR 0x9C, CHR 0xE7, CHR 0x94, CHR
      0xA8, CHR 0xE5, CHR 0x9F, CHR 0x9F, CHR 0xE5, CHR 0x86, CHR 0x85, CHR 0x20, CHR 0x41,
      CHR 0x50, CHR 0x49, CHR 0x44, CHR 0x20, CHR 0xE7, CHR 0xB2, CHR 0xBE, CHR 0xE7, CHR
      0xA1, CHR 0xAE, CHR 0xE5, CHR 0x8C, CHR 0xB9, CHR 0xE9, CHR 0x85, CHR 0x8D]"

definition msg_reason_scoped_ap_mac :: string where
  "msg_reason_scoped_ap_mac =
     [CHR 0x41, CHR 0x43, CHR 0x20, CHR 0xE4, CHR 0xBD, CHR 0x9C, CHR 0xE7, CHR 0x94, CHR
      0xA8, CHR 0xE5, CHR 0x9F, CHR 0x9F, CHR 0xE5, CHR 0x86, CHR 0x85, CHR 0x20, CHR 0x41,
      CHR 0x50, CHR 0x20, CHR 0x4D, CHR 0x41, CHR 0x43, CHR 0x20, CHR 0xE7, CHR 0xB2, CHR
      0xBE, CHR 0xE7, CHR 0xA1, CHR 0xAE, CHR 0xE5, CHR 0x8C, CHR 0xB9, CHR 0xE9, CHR 0x85,
      CHR 0x8D]"

definition msg_reason_ap_mac :: string where
  "msg_reason_ap_mac =
     [CHR 0x41, CHR 0x50, CHR 0x20, CHR 0x4D, CHR 0x41, CHR 0x43, CHR 0x20, CHR 0xE7, CHR
      0xB2, CHR 0xBE, CHR 0xE7, CHR 0xA1, CHR 0xAE, CHR 0xE5, CHR 0x8C, CHR 0xB9, CHR 0xE9,
      CHR 0x85, CHR 0x8D]"

definition msg_reason_scoped_ap_name :: string where
  "msg_reason_scoped_ap_name =
     [CHR 0x41, CHR 0x43, CHR 0x20, CHR 0xE4, CHR 0xBD, CHR 0x9C, CHR 0xE7, CHR 0x94, CHR
      0xA8, CHR 0xE5, CHR 0x9F, CHR 0x9F, CHR 0xE5, CHR 0x86, CHR 0x85, CHR 0x20, CHR 0x41,
      CHR 0x50, CHR 0x20, CHR 0xE5, CHR 0x90, CHR 0x8D, CHR 0xE7, CHR 0xA7, CHR 0xB0, CHR
      0xE7, CHR 0xB2, CHR 0xBE, CHR 0xE7, CHR 0xA1, CHR 0xAE, CHR 0xE5, CHR 0x8C, CHR 0xB9,
      CHR 0xE9, CHR 0x85, CHR 0x8D]"

definition msg_reason_ap_name :: string where
  "msg_reason_ap_name =
     [CHR 0x41, CHR 0x50, CHR 0x20, CHR 0xE5, CHR 0x90, CHR 0x8D, CHR 0xE7, CHR 0xA7, CHR
      0xB0, CHR 0xE7, CHR 0xB2, CHR 0xBE, CHR 0xE7, CHR 0xA1, CHR 0xAE, CHR 0xE5, CHR 0x8C,
      CHR 0xB9, CHR 0xE9, CHR 0x85, CHR 0x8D]"

definition msg_reason_radio_mac :: string where
  "msg_reason_radio_mac =
     [CHR 0xE6, CHR 0x98, CHR 0xBE, CHR 0xE5, CHR 0xBC, CHR 0x8F, CHR 0x20, CHR 0x52, CHR
      0x61, CHR 0x64, CHR 0x69, CHR 0x6F, CHR 0x20, CHR 0x4D, CHR 0x41, CHR 0x43, CHR 0x20,
      CHR 0xE6, CHR 0x98, CHR 0xA0, CHR 0xE5, CHR 0xB0, CHR 0x84]"

definition msg_reason_bssid :: string where
  "msg_reason_bssid =
     [CHR 0xE6, CHR 0x98, CHR 0xBE, CHR 0xE5, CHR 0xBC, CHR 0x8F, CHR 0x20, CHR 0x42, CHR
      0x53, CHR 0x53, CHR 0x49, CHR 0x44, CHR 0x2F, CHR 0x42, CHR 0x42, CHR 0x53, CHR 0x53,
      CHR 0x49, CHR 0x44, CHR 0x20, CHR 0xE6, CHR 0x98, CHR 0xA0, CHR 0xE5, CHR 0xB0, CHR
      0x84]"

definition msg_reason_peer_radio :: string where
  "msg_reason_peer_radio =
     [CHR 0x50, CHR 0x65, CHR 0x65, CHR 0x72, CHR 0x20, CHR 0x6F, CHR 0x62, CHR 0x73, CHR
      0x65, CHR 0x72, CHR 0x76, CHR 0x61, CHR 0x74, CHR 0x69, CHR 0x6F, CHR 0x6E, CHR 0x20,
      CHR 0xE5, CHR 0x91, CHR 0xBD, CHR 0xE4, CHR 0xB8, CHR 0xAD, CHR 0xE6, CHR 0x98, CHR
      0xBE, CHR 0xE5, CHR 0xBC, CHR 0x8F, CHR 0x20, CHR 0x52, CHR 0x61, CHR 0x64, CHR 0x69,
      CHR 0x6F, CHR 0x2F, CHR 0x42, CHR 0x53, CHR 0x53, CHR 0x49, CHR 0x44, CHR 0x20, CHR
      0xE6, CHR 0x98, CHR 0xA0, CHR 0xE5, CHR 0xB0, CHR 0x84]"

definition msg_reason_peer_ap_mac :: string where
  "msg_reason_peer_ap_mac =
     [CHR 0x50, CHR 0x65, CHR 0x65, CHR 0x72, CHR 0x20, CHR 0x6F, CHR 0x62, CHR 0x73, CHR
      0x65, CHR 0x72, CHR 0x76, CHR 0x61, CHR 0x74, CHR 0x69, CHR 0x6F, CHR 0x6E, CHR 0x20,
      CHR 0xE4, CHR 0xBD, CHR 0x8E, CHR 0xE7, CHR 0xBD, CHR 0xAE, CHR 0xE4, CHR 0xBF, CHR
      0xA1, CHR 0xE5, CHR 0x91, CHR 0xBD, CHR 0xE4, CHR 0xB8, CHR 0xAD, CHR 0x20, CHR 0x41,
      CHR 0x50, CHR 0x20, CHR 0x4D, CHR 0x41, CHR 0x43]"

definition msg_reason_location :: string where
  "msg_reason_location =
     [CHR 0xE4, CHR 0xBD, CHR 0x8D, CHR 0xE7, CHR 0xBD, CHR 0xAE, CHR 0xE5, CHR 0xAD, CHR
      0x97, CHR 0xE6, CHR 0xAE, CHR 0xB5, CHR 0xE4, CHR 0xBB, CHR 0x85, CHR 0xE4, CHR 0xBD,
      CHR 0x9C, CHR 0xE4, CHR 0xB8, CHR 0xBA, CHR 0xE8, CHR 0xBE, CHR 0x85, CHR 0xE5, CHR
      0x8A, CHR 0xA9, CHR 0xE8, CHR 0xAF, CHR 0x81, CHR 0xE6, CHR 0x8D, CHR 0xAE]"

definition msg_reason_peer_duplicate :: string where
  "msg_reason_peer_duplicate =
     [CHR 0xE4, CHR 0xB8, CHR 0xA4, CHR 0xE4, CHR 0xB8, CHR 0xAA, CHR 0x20, CHR 0x6F, CHR
      0x62, CHR 0x73, CHR 0x65, CHR 0x72, CHR 0x76, CHR 0x61, CHR 0x74, CHR 0x69, CHR 0x6F,
      CHR 0x6E, CHR 0x20, CHR 0xE5, CHR 0xAD, CHR 0x97, CHR 0xE6, CHR 0xAE, CHR 0xB5, CHR
      0xE8, CHR 0xA7, CHR 0x84, CHR 0xE8, CHR 0x8C, CHR 0x83, CHR 0xE5, CHR 0x8C, CHR 0x96,
      CHR 0xE5, CHR 0x90, CHR 0x8E, CHR 0xE9, CHR 0x87, CHR 0x8D, CHR 0xE5, CHR 0xA4, CHR
      0x8D, CHR 0xEF, CHR 0xBC, CHR 0x8C, CHR 0xE4, CHR 0xBB, CHR 0x85, CHR 0xE8, CHR 0xAE,
      CHR 0xB0, CHR 0xE5, CHR 0xBD, CHR 0x95, CHR 0xE6, CHR 0x8F, CHR 0x90, CHR 0xE7, CHR
      0xA4, CHR 0xBA]"

definition PEER_MAC_DUPLICATE_WARNING :: string where
  "PEER_MAC_DUPLICATE_WARNING =
     [CHR 0x70, CHR 0x65, CHR 0x65, CHR 0x72, CHR 0x5F, CHR 0x6D, CHR 0x61, CHR 0x63, CHR
      0x20, CHR 0xE4, CHR 0xB8, CHR 0x8E, CHR 0x20, CHR 0x70, CHR 0x65, CHR 0x65, CHR 0x72,
      CHR 0x5F, CHR 0x72, CHR 0x61, CHR 0x64, CHR 0x69, CHR 0x6F, CHR 0x5F, CHR 0x6D, CHR
      0x61, CHR 0x63, CHR 0x20, CHR 0xE8, CHR 0xA7, CHR 0x84, CHR 0xE8, CHR 0x8C, CHR 0x83,
      CHR 0xE5, CHR 0x8C, CHR 0x96, CHR 0xE5, CHR 0x90, CHR 0x8E, CHR 0xE9, CHR 0x87, CHR
      0x8D, CHR 0xE5, CHR 0xA4, CHR 0x8D]"

definition PEER_AP_MAC_FALLBACK_WARNING :: string where
  "PEER_AP_MAC_FALLBACK_WARNING =
     [CHR 0x70, CHR 0x65, CHR 0x65, CHR 0x72, CHR 0x20, CHR 0x6F, CHR 0x62, CHR 0x73, CHR
      0x65, CHR 0x72, CHR 0x76, CHR 0x61, CHR 0x74, CHR 0x69, CHR 0x6F, CHR 0x6E, CHR 0x20,
      CHR 0xE4, CHR 0xBB, CHR 0x85, CHR 0xE5, CHR 0x91, CHR 0xBD, CHR 0xE4, CHR 0xB8, CHR
      0xAD, CHR 0x20, CHR 0x41, CHR 0x50, CHR 0x20, CHR 0x4D, CHR 0x41, CHR 0x43, CHR 0xEF,
      CHR 0xBC, CHR 0x8C, CHR 0xE6, CHR 0x9C, CHR 0xAA, CHR 0xE5, CHR 0x8F, CHR 0x91, CHR
      0xE7, CHR 0x8E, CHR 0xB0, CHR 0xE6, CHR 0x98, CHR 0xBE, CHR 0xE5, CHR 0xBC, CHR 0x8F,
      CHR 0x20, CHR 0x52, CHR 0x61, CHR 0x64, CHR 0x69, CHR 0x6F, CHR 0x2F, CHR 0x42, CHR
      0x53, CHR 0x53, CHR 0x49, CHR 0x44, CHR 0x20, CHR 0xE6, CHR 0x98, CHR 0xA0, CHR 0xE5,
      CHR 0xB0, CHR 0x84]"

section \<open>Decoding of text files\<close>

definition msg_encoding_unknown :: string where
  "msg_encoding_unknown =
     [CHR 0xE6, CHR 0x96, CHR 0x87, CHR 0xE4, CHR 0xBB, CHR 0xB6, CHR 0xE7, CHR 0xBC, CHR
      0x96, CHR 0xE7, CHR 0xA0, CHR 0x81, CHR 0xE6, CHR 0x97, CHR 0xA0, CHR 0xE6, CHR 0xB3,
      CHR 0x95, CHR 0xE8, CHR 0xAF, CHR 0x86, CHR 0xE5, CHR 0x88, CHR 0xAB]"

definition msg_all_encodings_failed :: string where
  "msg_all_encodings_failed =
     [CHR 0xE6, CHR 0x89, CHR 0x80, CHR 0xE6, CHR 0x9C, CHR 0x89, CHR 0xE5, CHR 0x80, CHR
      0x99, CHR 0xE9, CHR 0x80, CHR 0x89, CHR 0xE7, CHR 0xBC, CHR 0x96, CHR 0xE7, CHR 0xA0,
      CHR 0x81, CHR 0xE5, CHR 0x9D, CHR 0x87, CHR 0xE4, CHR 0xB8, CHR 0xA5, CHR 0xE6, CHR
      0xA0, CHR 0xBC, CHR 0xE8, CHR 0xA7, CHR 0xA3, CHR 0xE7, CHR 0xA0, CHR 0x81, CHR 0xE5,
      CHR 0xA4, CHR 0xB1, CHR 0xE8, CHR 0xB4, CHR 0xA5, CHR 0xEF, CHR 0xBC, CHR 0x8C, CHR
      0xE5, CHR 0xB7, CHR 0xB2, CHR 0xE6, CHR 0x89, CHR 0xA7, CHR 0xE8, CHR 0xA1, CHR 0x8C,
      CHR 0xE5, CHR 0x8F, CHR 0x97, CHR 0xE6, CHR 0x8E, CHR 0xA7, CHR 0xE6, CHR 0x9B, CHR
      0xBF, CHR 0xE4, CHR 0xBB, CHR 0xA3, CHR 0xE3, CHR 0x80, CHR 0x82]"

section \<open>Mesh analysis parameters\<close>

definition choice_signal :: string where
  "choice_signal =
     [CHR 0xE4, CHR 0xBF, CHR 0xA1, CHR 0xE5, CHR 0x8F, CHR 0xB7]"

definition choice_other :: string where
  "choice_other =
     [CHR 0xE5, CHR 0x85, CHR 0xB6, CHR 0xE4, CHR 0xBB, CHR 0x96]"

definition word_enabled :: string where
  "word_enabled =
     [CHR 0xE5, CHR 0xBC, CHR 0x80, CHR 0xE5, CHR 0x90, CHR 0xAF]"

definition word_disabled :: string where
  "word_disabled =
     [CHR 0xE5, CHR 0x85, CHR 0xB3, CHR 0xE9, CHR 0x97, CHR 0xAD]"

section \<open>Network calculator\<close>

definition msg_ipv4_required :: string where
  "msg_ipv4_required =
     [CHR 0xE8, CHR 0xAF, CHR 0xB7, CHR 0xE8, CHR 0xBE, CHR 0x93, CHR 0xE5, CHR 0x85, CHR
      0xA5, CHR 0x20, CHR 0x49, CHR 0x50, CHR 0x76, CHR 0x34, CHR 0x20, CHR 0xE7, CHR 0xBD,
      CHR 0x91, CHR 0xE7, CHR 0xBB, CHR 0x9C, CHR 0xE3, CHR 0x80, CHR 0x82]"

definition msg_capacity :: string where
  "msg_capacity =
     [CHR 0xE4, CHR 0xB8, CHR 0xBB, CHR 0xE7, CHR 0xBD, CHR 0x91, CHR 0xE7, CHR 0xBB, CHR
      0x9C, CHR 0xE5, CHR 0xAE, CHR 0xB9, CHR 0xE9, CHR 0x87, CHR 0x8F, CHR 0xE4, CHR 0xB8,
      CHR 0x8D, CHR 0xE8, CHR 0xB6, CHR 0xB3, CHR 0xEF, CHR 0xBC, CHR 0x8C, CHR 0xE6, CHR
      0x97, CHR 0xA0, CHR 0xE6, CHR 0xB3, CHR 0x95, CHR 0xE5, CHR 0x88, CHR 0x86, CHR 0xE9,
      CHR 0x85, CHR 0x8D, CHR 0x20]"

definition msg_capacity_needs :: string where
  "msg_capacity_needs =
     [CHR 0x20, CHR 0xE9, CHR 0x9C, CHR 0x80, CHR 0xE8, CHR 0xA6, CHR 0x81, CHR 0xE7, CHR
      0x9A, CHR 0x84, CHR 0x20]"

definition msg_capacity_hosts :: string where
  "msg_capacity_hosts =
     [CHR 0x20, CHR 0xE4, CHR 0xB8, CHR 0xAA, CHR 0xE4, CHR 0xB8, CHR 0xBB, CHR 0xE6, CHR
      0x9C, CHR 0xBA, CHR 0xE5, CHR 0x9C, CHR 0xB0, CHR 0xE5, CHR 0x9D, CHR 0x80, CHR 0xE3,
      CHR 0x80, CHR 0x82]"

definition msg_target_prefix :: string where
  "msg_target_prefix =
     [CHR 0xE7, CHR 0x9B, CHR 0xAE, CHR 0xE6, CHR 0xA0, CHR 0x87, CHR 0xE5, CHR 0xAD, CHR
      0x90, CHR 0xE7, CHR 0xBD, CHR 0x91, CHR 0xE5, CHR 0x89, CHR 0x8D, CHR 0xE7, CHR 0xBC,
      CHR 0x80, CHR 0xE5, CHR 0xBF, CHR 0x85, CHR 0xE9, CHR 0xA1, CHR 0xBB, CHR 0xE5, CHR
      0xA4, CHR 0xA7, CHR 0xE4, CHR 0xBA, CHR 0x8E, CHR 0xE4, CHR 0xB8, CHR 0xBB, CHR 0xE7,
      CHR 0xBD, CHR 0x91, CHR 0xE7, CHR 0xBB, CHR 0x9C, CHR 0xE5, CHR 0x89, CHR 0x8D, CHR
      0xE7, CHR 0xBC, CHR 0x80, CHR 0xEF, CHR 0xBC, CHR 0x8C, CHR 0xE4, CHR 0xB8, CHR 0x94,
      CHR 0xE4, CHR 0xB8, CHR 0x8D, CHR 0xE8, CHR 0xB6, CHR 0x85, CHR 0xE8, CHR 0xBF, CHR
      0x87, CHR 0x20, CHR 0x33, CHR 0x32, CHR 0xE3, CHR 0x80, CHR 0x82]"

definition msg_line :: string where
  "msg_line =
     [CHR 0xE7, CHR 0xAC, CHR 0xAC, CHR 0x20]"

definition msg_line_error :: string where
  "msg_line_error =
     [CHR 0x20, CHR 0xE8, CHR 0xA1, CHR 0x8C, CHR 0xE9, CHR 0x94, CHR 0x99, CHR 0xE8, CHR
      0xAF, CHR 0xAF, CHR 0xEF, CHR 0xBC, CHR 0x9A]"

definition msg_line_format :: string where
  "msg_line_format =
     [CHR 0x20, CHR 0xE8, CHR 0xA1, CHR 0x8C, CHR 0xE6, CHR 0xA0, CHR 0xBC, CHR 0xE5, CHR
      0xBC, CHR 0x8F, CHR 0xE5, CHR 0xBA, CHR 0x94, CHR 0xE4, CHR 0xB8, CHR 0xBA, CHR 0xEF,
      CHR 0xBC, CHR 0x9A, CHR 0xE5, CHR 0x90, CHR 0x8D, CHR 0xE7, CHR 0xA7, CHR 0xB0, CHR
      0x2C, CHR 0xE4, CHR 0xB8, CHR 0xBB, CHR 0xE6, CHR 0x9C, CHR 0xBA, CHR 0xE6, CHR 0x95,
      CHR 0xB0]"

definition msg_line_positive :: string where
  "msg_line_positive =
     [CHR 0x20, CHR 0xE8, CHR 0xA1, CHR 0x8C, CHR 0xE4, CHR 0xB8, CHR 0xBB, CHR 0xE6, CHR
      0x9C, CHR 0xBA, CHR 0xE6, CHR 0x95, CHR 0xB0, CHR 0xE5, CHR 0xBF, CHR 0x85, CHR 0xE9,
      CHR 0xA1, CHR 0xBB, CHR 0xE4, CHR 0xB8, CHR 0xBA, CHR 0xE6, CHR 0xAD, CHR 0xA3, CHR
      0xE6, CHR 0x95, CHR 0xB4, CHR 0xE6, CHR 0x95, CHR 0xB0]"

definition full_comma :: string where
  "full_comma =
     [CHR 0xEF, CHR 0xBC, CHR 0x8C]"

definition list_comma :: string where
  "list_comma =
     [CHR 0xE3, CHR 0x80, CHR 0x81]"

definition note_point_to_point :: string where
  "note_point_to_point =
     [CHR 0x2F, CHR 0x33, CHR 0x31, CHR 0x20, CHR 0xE6, CHR 0x98, CHR 0xAF, CHR 0xE7, CHR
      0x82, CHR 0xB9, CHR 0xE5, CHR 0x88, CHR 0xB0, CHR 0xE7, CHR 0x82, CHR 0xB9, CHR 0xE7,
      CHR 0x89, CHR 0xB9, CHR 0xE6, CHR 0xAE, CHR 0x8A, CHR 0xE7, CHR 0xBD, CHR 0x91, CHR
      0xE6, CHR 0xAE, CHR 0xB5, CHR 0xEF, CHR 0xBC, CHR 0x8C, CHR 0xE4, CHR 0xB8, CHR 0xA4,
      CHR 0xE4, CHR 0xB8, CHR 0xAA, CHR 0xE5, CHR 0x9C, CHR 0xB0, CHR 0xE5, CHR 0x9D, CHR
      0x80, CHR 0xE5, CHR 0x9C, CHR 0xA8, CHR 0x20, CHR 0x50, CHR 0x32, CHR 0x50, CHR 0x20,
      CHR 0xE5, CHR 0x9C, CHR 0xBA, CHR 0xE6, CHR 0x99, CHR 0xAF, CHR 0xE9, CHR 0x83, CHR
      0xBD, CHR 0xE5, CHR 0x8F, CHR 0xAF, CHR 0xE7, CHR 0x94, CHR 0xA8, CHR 0xE3, CHR 0x80,
      CHR 0x82]"

definition note_single_host :: string where
  "note_single_host =
     [CHR 0x2F, CHR 0x33, CHR 0x32, CHR 0x20, CHR 0xE6, CHR 0x98, CHR 0xAF, CHR 0xE5, CHR
      0x8D, CHR 0x95, CHR 0xE4, CHR 0xB8, CHR 0xBB, CHR 0xE6, CHR 0x9C, CHR 0xBA, CHR 0xE8,
      CHR 0xB7, CHR 0xAF, CHR 0xE7, CHR 0x94, CHR 0xB1, CHR 0xE3, CHR 0x80, CHR 0x82]"

end
