(* ===== verification/Worker_Protocol.thy ===== *)
theory Worker_Protocol
  imports Chunk_Reader NC_Texts
begin

text \<open>
  The job model and the JSON-lines protocol between the backend and its worker processes:
  \<^verbatim>\<open>models/task_state.py\<close>, \<^verbatim>\<open>services/job_center/job_models.py\<close>, \<^verbatim>\<open>job_events.py\<close> and
  \<^verbatim>\<open>worker_protocol.py\<close>. The JSON codec of the standard library is a parameter: \<open>loads\<close> maps a
  text to the value \<open>json.loads\<close> returns, \<open>None\<close> standing for \<open>JSONDecodeError\<close>; \<open>dumps\<close> is
  \<open>json.dumps\<close> with ASCII output.
\<close>

section \<open>Task states\<close>

datatype TaskState = PENDING | STARTING | RUNNING | STOPPING | COMPLETED | FAILED | CANCELLED

fun state_value :: "TaskState \<Rightarrow> string" where
  "state_value PENDING = ''PENDING''"
| "state_value STARTING = ''STARTING''"
| "state_value RUNNING = ''RUNNING''"
| "state_value STOPPING = ''STOPPING''"
| "state_value COMPLETED = ''COMPLETED''"
| "state_value FAILED = ''FAILED''"
| "state_value CANCELLED = ''CANCELLED''"

text \<open>The enumeration call \<open>TaskState(text)\<close>; \<open>None\<close> is its \<open>ValueError\<close>.\<close>

definition TaskState_of :: "string \<Rightarrow> TaskState option" where
  "TaskState_of s =
     find (\<lambda>st. state_value st = s)
       [PENDING, STARTING, RUNNING, STOPPING, COMPLETED, FAILED, CANCELLED]"

definition TERMINAL_TASK_STATES :: "TaskState set" where
  "TERMINAL_TASK_STATES = {COMPLETED, FAILED, CANCELLED}"

lemma TaskState_of_value [simp]: "TaskState_of (state_value st) = Some st"
  by (cases st) (simp_all add: TaskState_of_def)

section \<open>Job specifications\<close>

definition TASK_TRIGGER_SOURCE_VALUES :: "string list" where
  "TASK_TRIGGER_SOURCE_VALUES =
     [''ui'', ''api'', ''retry'', ''recovery'', ''scheduler'', ''internal'', ''unknown'']"

definition normalize_task_trigger_source :: "pyval \<Rightarrow> string \<Rightarrow> string" where
  "normalize_task_trigger_source value dflt =
     (let normalized = casefold (text_of value) in
      if normalized \<in> set TASK_TRIGGER_SOURCE_VALUES then normalized
      else if dflt \<in> set TASK_TRIGGER_SOURCE_VALUES then dflt else ''unknown'')"

record JobSpec =
  job_id :: string
  task_type :: string
  params :: pydict
  cancel_path :: string
  trigger_source :: string
  parent_task_id :: string
  retry_of_task_id :: string
  recovery_source :: string

text \<open>\<open>validate\<close> raises when the task type is missing.\<close>

definition job_validate :: "JobSpec \<Rightarrow> unit result" where
  "job_validate j = (if task_type j = [] then Inl (ValueError msg_missing_task_type) else Inr ())"

definition job_to_dict :: "JobSpec \<Rightarrow> pydict" where
  "job_to_dict j =
     [(''job_id'', PStr (job_id j)),
      (''task_type'', PStr (task_type j)),
      (''params'', PDict (params j)),
      (''cancel_path'', PStr (cancel_path j)),
      (''trigger_source'',
        PStr (normalize_task_trigger_source (PStr (trigger_source j)) ''unknown'')),
      (''parent_task_id'', PStr (strip (parent_task_id j))),
      (''retry_of_task_id'', PStr (strip (retry_of_task_id j))),
      (''recovery_source'', PStr (strip (recovery_source j)))]"

text \<open>\<open>dict(x or {})\<close>: a non-empty value that is no dictionary is an error.\<close>

definition py_dict :: "pyval \<Rightarrow> pydict result" where
  "py_dict v =
     (if \<not> truthy v then Inr []
      else (case v of PDict d \<Rightarrow> Inr d | _ \<Rightarrow> Inl (ValueError ''dict'')))"

definition job_from_dict :: "pydict \<Rightarrow> JobSpec result" where
  "job_from_dict data =
     (case py_dict (dget data ''params'') of
        Inl e \<Rightarrow> Inl e
      | Inr ps \<Rightarrow> Inr
          \<lparr> job_id = str_or_empty (dget data ''job_id''),
            task_type = str_or_empty (py_or (dget data ''task_type'') (dget data ''job_type'')),
            params = ps,
            cancel_path = str_or_empty (dget data ''cancel_path''),
            trigger_source =
              normalize_task_trigger_source (dget data ''trigger_source'') ''unknown'',
            parent_task_id = text_of (dget data ''parent_task_id''),
            retry_of_task_id = text_of (dget data ''retry_of_task_id''),
            recovery_source = text_of (dget data ''recovery_source'') \<rparr>)"

text \<open>\<open>with_runtime_paths\<close>; \<open>fresh\<close> is the \<open>uuid4\<close> hex text used when the job has no id.\<close>

definition with_runtime_paths :: "string \<Rightarrow> string \<Rightarrow> JobSpec \<Rightarrow> JobSpec" where
  "with_runtime_paths fresh cpath j =
     j\<lparr>job_id := (if job_id j = [] then fresh else job_id j), cancel_path := cpath\<rparr>"

section \<open>Event builders\<close>

definition base_event :: "string \<Rightarrow> string \<Rightarrow> pydict" where
  "base_event event_type jid =
     [(''type'', PStr event_type), (''job_id'', PStr jid), (''stage'', PStr []),
      (''current'', PInt 0), (''total'', PInt 0), (''message'', PStr []), (''result'', PNone),
      (''error'', PStr []), (''traceback'', PStr []), (''cancelled'', PBool False)]"

definition or_text :: "string \<Rightarrow> string \<Rightarrow> string" where
  "or_text a b = (if a = [] then b else a)"

definition progress_event ::
  "string \<Rightarrow> string \<Rightarrow> int \<Rightarrow> int \<Rightarrow> string \<Rightarrow> pydict option \<Rightarrow> pydict" where
  "progress_event jid stage cur tot message details =
     (let event = dmerge (base_event ''progress'' jid)
            [(''stage'', PStr stage), (''current'', PInt cur), (''total'', PInt tot),
             (''message'', PStr (or_text message stage))]
      in case details of
           None \<Rightarrow> event
         | Some d \<Rightarrow> if d = [] then event else dput ''details'' (PDict d) event)"

definition log_event :: "string \<Rightarrow> string \<Rightarrow> string \<Rightarrow> string \<Rightarrow> pydict" where
  "log_event jid message stage level =
     dmerge (base_event ''log'' jid)
       [(''stage'', PStr stage), (''message'', PStr message),
        (''level'', PStr (or_text level ''info''))]"

definition finished_event :: "string \<Rightarrow> pydict \<Rightarrow> string \<Rightarrow> string \<Rightarrow> pydict" where
  "finished_event jid res message terminal_state =
     (let event = dmerge (base_event ''finished'' jid)
            [(''message'', PStr (or_text message msg_job_finished)), (''result'', PDict res)]
      in if terminal_state = [] then event
         else dput ''terminal_state'' (PStr (upper terminal_state)) event)"

definition error_event :: "string \<Rightarrow> string \<Rightarrow> string \<Rightarrow> string \<Rightarrow> pydict" where
  "error_event jid err message traceback_text =
     (let error_text = or_text (or_text err message) msg_job_failed
      in dmerge (base_event ''error'' jid)
           [(''message'', PStr (or_text message error_text)), (''error'', PStr error_text),
            (''traceback'', PStr traceback_text)])"

definition cancelled_event :: "string \<Rightarrow> string \<Rightarrow> pydict" where
  "cancelled_event jid message =
     (let message_text = or_text message msg_job_cancelled
      in dmerge (base_event ''cancelled'' jid)
           [(''message'', PStr message_text), (''error'', PStr message_text),
            (''cancelled'', PBool True)])"

section \<open>Outcome objects and their events\<close>

record JobProgress =
  jp_job_id :: string
  jp_stage :: string
  jp_current :: int
  jp_total :: int
  jp_message :: string

definition progress_to_event :: "JobProgress \<Rightarrow> pydict" where
  "progress_to_event p =
     progress_event (jp_job_id p) (jp_stage p) (jp_current p) (jp_total p) (jp_message p) None"

record JobError =
  je_job_id :: string
  je_message :: string
  je_traceback :: string
  je_cancelled :: bool

definition job_error_to_event :: "JobError \<Rightarrow> pydict" where
  "job_error_to_event e =
     (if je_cancelled e then cancelled_event (je_job_id e) (je_message e)
      else error_event (je_job_id e) (je_message e) [] (je_traceback e))"

record JobResult =
  jr_job_id :: string
  jr_ok :: bool
  jr_result :: pydict
  jr_message :: string
  jr_error :: string
  jr_traceback :: string
  jr_cancelled :: bool
  jr_terminal_state :: string

definition job_result_to_event :: "JobResult \<Rightarrow> pydict" where
  "job_result_to_event r =
     (if jr_cancelled r
      then cancelled_event (jr_job_id r)
             (or_text (or_text (jr_message r) (jr_error r)) msg_job_cancelled)
      else if \<not> jr_ok r
      then error_event (jr_job_id r)
             (or_text (or_text (jr_error r) (jr_message r)) msg_job_failed) [] (jr_traceback r)
      else finished_event (jr_job_id r) (jr_result r)
             (or_text (jr_message r) msg_job_finished) (jr_terminal_state r))"

section \<open>Frames\<close>

definition WORKER_EVENT_TYPES :: "string list" where
  "WORKER_EVENT_TYPES = [''progress'', ''log'', ''finished'', ''error'', ''cancelled'']"

definition WORKER_PROTOCOL_MAX_FRAME_BYTES :: nat where
  "WORKER_PROTOCOL_MAX_FRAME_BYTES = 1048576"

definition newline :: char where
  "newline = CHR 0x0A"

definition encode_event :: "(pydict \<Rightarrow> string) \<Rightarrow> pydict \<Rightarrow> string" where
  "encode_event dumps event = dumps event @ [newline]"

definition encode_event_bytes :: "(pydict \<Rightarrow> string) \<Rightarrow> pydict \<Rightarrow> string result" where
  "encode_event_bytes dumps event =
     (let payload = encode_event dumps event in
      if length payload > WORKER_PROTOCOL_MAX_FRAME_BYTES
      then Inl (ValueError ''WorkerProtocolFrameTooLarge'') else Inr payload)"

text \<open>
  The normalisation inside \<open>parse_event_line\<close>. The type aliases come first; \<open>int(done or 0)\<close> is
  evaluated whether or not the event already has a \<open>current\<close> entry, so it can raise.
\<close>

definition resolve_event_alias :: "pydict \<Rightarrow> string \<times> pydict" where
  "resolve_event_alias event =
     (let event_type = str_or_empty (py_or (dget event ''type'') (dget event ''event'')) in
      if event_type = ''started''
      then (''progress'', dsetdefault ''total'' (PInt 0) (dsetdefault ''current'' (PInt 0) event))
      else if event_type = ''success'' then (''finished'', dsetdefault ''ok'' (PBool True) event)
      else if event_type = ''failed'' then (''error'', dsetdefault ''ok'' (PBool False) event)
      else if event_type = ''result''
      then ((if truthy (dget event ''ok'') then ''finished'' else ''error''), event)
      else (event_type, event))"

definition event_error_text :: "pydict \<Rightarrow> pyval" where
  "event_error_text event = py_or (dget event ''error_message'') (PStr [])"

definition event_message_text :: "pydict \<Rightarrow> pyval" where
  "event_message_text event =
     py_or (py_or (dget event ''error_message'') (dget event ''error'')) (PStr [])"

definition fill_event_defaults :: "int \<Rightarrow> pydict \<Rightarrow> pydict" where
  "fill_event_defaults finished_count e0 =
     (let e1 = dsetdefault ''stage'' (PStr []) (dsetdefault ''job_id'' (PStr []) e0);
          e2 = dsetdefault ''total'' (PInt 0) (dsetdefault ''current'' (PInt finished_count) e1);
          e3 = dsetdefault ''message'' (event_message_text e2) e2;
          e4 = dsetdefault ''result'' PNone e3;
          e5 = dsetdefault ''error'' (event_error_text e4) e4
      in dsetdefault ''cancelled'' (PBool False) (dsetdefault ''traceback'' (PStr []) e5))"

definition normalize_event :: "pydict \<Rightarrow> pydict result" where
  "normalize_event value =
     (let (event_type, e1) = resolve_event_alias value;
          e2 = (if event_type = ''cancelled''
                then dsetdefault ''ok'' (PBool False) (dput ''cancelled'' (PBool True) e1)
                else e1);
          e3 = dput ''type'' (PStr event_type) e2
      in case py_int (py_or (dget e3 ''done'') (PInt 0)) of
           Inl err \<Rightarrow> Inl err
         | Inr n \<Rightarrow> Inr (fill_event_defaults n e3))"

definition parse_event_line :: "(string \<Rightarrow> pyval option) \<Rightarrow> string \<Rightarrow> pydict option result" where
  "parse_event_line loads line =
     (let text = strip line in
      if text = [] then Inr None
      else (case loads text of
              Some (PDict value) \<Rightarrow>
                (case normalize_event value of Inl err \<Rightarrow> Inl err | Inr event \<Rightarrow> Inr (Some event))
            | _ \<Rightarrow> Inr None))"

definition SCHEMA_INVALID :: string where
  "SCHEMA_INVALID = ''worker_protocol_schema_invalid''"

definition check_worker_event :: "pydict \<Rightarrow> pydict option \<times> string" where
  "check_worker_event event =
     (let event_type = str_or_empty (dget event ''type'') in
      if event_type \<notin> set WORKER_EVENT_TYPES then (None, ''worker_protocol_unexpected_message'')
      else if text_of (dget event ''job_id'') = [] then (None, SCHEMA_INVALID)
      else if \<not> list_all (\<lambda>key. is_pstr (dget event key))
                   [''stage'', ''message'', ''error'', ''traceback'']
      then (None, SCHEMA_INVALID)
      else if \<not> list_all (\<lambda>key. is_pint (dget event key)) [''current'', ''total'']
      then (None, SCHEMA_INVALID)
      else if \<not> is_pbool (dget event ''cancelled'') then (None, SCHEMA_INVALID)
      else if dget event ''result'' \<noteq> PNone \<and> \<not> is_pdict (dget event ''result'')
      then (None, SCHEMA_INVALID)
      else (Some event, []))"

definition parse_worker_event_line ::
  "(string \<Rightarrow> pyval option) \<Rightarrow> string \<Rightarrow> (pydict option \<times> string) result" where
  "parse_worker_event_line loads line =
     (let text = strip line in
      if text = [] then Inr (None, SCHEMA_INVALID)
      else (case loads text of
              None \<Rightarrow> Inr (None, ''worker_protocol_json_invalid'')
            | Some value \<Rightarrow>
                (if \<not> is_pdict value then Inr (None, SCHEMA_INVALID)
                 else (case parse_event_line loads text of
                         Inl TypeError \<Rightarrow> Inr (None, SCHEMA_INVALID)
                       | Inl (ValueError _) \<Rightarrow> Inr (None, SCHEMA_INVALID)
                       | Inl err \<Rightarrow> Inl err
                       | Inr None \<Rightarrow> Inr (None, SCHEMA_INVALID)
                       | Inr (Some event) \<Rightarrow> Inr (check_worker_event event)))))"

text \<open>\<open>feed_jsonl\<close> on decoded text: complete lines become events or diagnostics.\<close>

definition clean_line :: "string \<Rightarrow> string" where
  "clean_line raw = strip (rstrip_by (\<lambda>c. c = CHR 0x0D) raw)"

fun feed_lines ::
  "(string \<Rightarrow> pyval option) \<Rightarrow> string list \<Rightarrow> (pydict list \<times> string list) result" where
  "feed_lines loads [] = Inr ([], [])"
| "feed_lines loads (raw # rest) =
     (let line = clean_line raw in
      if line = [] then feed_lines loads rest
      else (case parse_event_line loads line of
              Inl err \<Rightarrow> Inl err
            | Inr ev \<Rightarrow>
                (case feed_lines loads rest of
                   Inl err \<Rightarrow> Inl err
                 | Inr (events, diagnostics) \<Rightarrow>
                     (case ev of
                        None \<Rightarrow> Inr (events, line # diagnostics)
                      | Some e \<Rightarrow> Inr (e # events, diagnostics)))))"

definition feed_jsonl ::
  "(string \<Rightarrow> pyval option) \<Rightarrow> string \<Rightarrow> string \<Rightarrow> (pydict list \<times> string list \<times> string) result" where
  "feed_jsonl loads buffer text =
     (let lines = split_on newline (buffer @ text) in
      case feed_lines loads (butlast lines) of
        Inl err \<Rightarrow> Inl err
      | Inr (events, diagnostics) \<Rightarrow> Inr (events, diagnostics, last lines))"


section \<open>What an accepted frame looks like\<close>

definition worker_event_wf :: "pydict \<Rightarrow> bool" where
  "worker_event_wf event \<longleftrightarrow>
     str_or_empty (dget event ''type'') \<in> set WORKER_EVENT_TYPES \<and>
     text_of (dget event ''job_id'') \<noteq> [] \<and>
     (\<forall>key \<in> {''stage'', ''message'', ''error'', ''traceback''}. is_pstr (dget event key)) \<and>
     (\<forall>key \<in> {''current'', ''total''}. is_pint (dget event key)) \<and>
     is_pbool (dget event ''cancelled'') \<and>
     (dget event ''result'' = PNone \<or> is_pdict (dget event ''result''))"

lemma check_worker_event_cases:
  "check_worker_event event = (if worker_event_wf event then (Some event, [])
     else (None, snd (check_worker_event event)))"
  by (auto simp: check_worker_event_def worker_event_wf_def Let_def)

lemma check_worker_event_reason: "snd (check_worker_event event) = [] \<longleftrightarrow> worker_event_wf event"
  by (auto simp: check_worker_event_def worker_event_wf_def Let_def SCHEMA_INVALID_def)

lemma parse_worker_event_line_cases:
  assumes "parse_worker_event_line loads line = Inr (ev, reason)"
  shows "(reason = [] \<longrightarrow> (\<exists>event. ev = Some event \<and> worker_event_wf event)) \<and>
         (reason \<noteq> [] \<longrightarrow> ev = None)"
proof -
  have chk: "check_worker_event event = (ev, reason) \<Longrightarrow> ?thesis" for event
    by (metis check_worker_event_cases check_worker_event_reason prod.inject snd_conv)
  show ?thesis
    using assms chk
    by (auto simp: parse_worker_event_line_def Let_def SCHEMA_INVALID_def
        split: if_splits option.splits sum.splits pyerr.splits)
qed

text \<open>
  C23. Every frame the parser accepts is well typed: the event type is one of the five worker
  types, the job id is not blank, the text fields are strings, \<open>current\<close> and \<open>total\<close> are
  integers (not Booleans), \<open>cancelled\<close> is a Boolean and \<open>result\<close> is absent or a dictionary; and an
  event is returned exactly when the reason text is empty.
\<close>

theorem parse_worker_event_line_sound:
  assumes "parse_worker_event_line loads line = Inr (ev, reason)"
  shows "(ev \<noteq> None \<longleftrightarrow> reason = []) \<and> (\<forall>event. ev = Some event \<longrightarrow> worker_event_wf event)"
  using parse_worker_event_line_cases [OF assms] by auto

theorem parse_worker_event_line_sound_witness:
  "let loads = (\<lambda>_. Some (PDict (base_event ''log'' ''j1''))); ev = base_event ''log'' ''j1''
   in parse_worker_event_line loads ''x'' = Inr (Some ev, []) \<and> worker_event_wf ev"
proof -
  have h: "parse_worker_event_line (\<lambda>_. Some (PDict (base_event ''log'' ''j1''))) ''x''
             = Inr (Some (base_event ''log'' ''j1''), [])"
    by code_simp
  show ?thesis
    using h parse_worker_event_line_sound [OF h] by simp
qed

section \<open>Events built by the worker pass the parser unchanged\<close>

definition complete_event :: "string \<Rightarrow> pydict \<Rightarrow> bool" where
  "complete_event t event \<longleftrightarrow>
     map_of event ''type'' = Some (PStr t) \<and>
     (\<forall>key \<in> {''job_id'', ''stage'', ''current'', ''total'', ''message'', ''result'', ''error'',
               ''traceback'', ''cancelled''}. dhas event key) \<and>
     dget event ''done'' = PNone"

lemma complete_event_type: "complete_event t event \<Longrightarrow> dget event ''type'' = PStr t"
  by (simp add: complete_event_def dget_def)

lemma fill_event_defaults_complete: "complete_event t event \<Longrightarrow> fill_event_defaults n event = event"
  by (simp add: complete_event_def fill_event_defaults_def dsetdefault_has Let_def)

lemma normalize_event_complete:
  assumes c: "complete_event t event" and t: "t \<in> {''progress'', ''log'', ''finished'', ''error''}"
  shows "normalize_event event = Inr event"
proof -
  have ty: "dget event ''type'' = PStr t" using c by (rule complete_event_type)
  have "resolve_event_alias event = (t, event)"
    using t by (auto simp: resolve_event_alias_def str_or_empty_def py_or_def py_str_def ty)
  moreover have "dput ''type'' (PStr t) event = event"
    using c by (simp add: complete_event_def dput_same)
  moreover have "dget event ''done'' = PNone"
    using c by (simp add: complete_event_def)
  ultimately show ?thesis
    using t fill_event_defaults_complete [OF c]
    by (auto simp: normalize_event_def py_or_def Let_def)
qed

lemma map_of_base_event: "map_of (base_event t jid) ''type'' = Some (PStr t)"
  by (simp add: base_event_def)

lemmas builder_defs = base_event_def progress_event_def log_event_def finished_event_def
  error_event_def cancelled_event_def

lemma complete_progress: "complete_event ''progress'' (progress_event jid stage c n m d)"
  by (simp add: complete_event_def progress_event_def base_event_def dict_simps map_of_dput
      Let_def split: option.splits)

lemma complete_log: "complete_event ''log'' (log_event jid m stage level)"
  by (simp add: complete_event_def log_event_def base_event_def dict_simps map_of_dput)

lemma complete_finished: "complete_event ''finished'' (finished_event jid res m ts)"
  by (simp add: complete_event_def finished_event_def base_event_def dict_simps map_of_dput Let_def)

lemma complete_error: "complete_event ''error'' (error_event jid err m tb)"
  by (simp add: complete_event_def error_event_def base_event_def dict_simps map_of_dput Let_def)

lemmas complete_builders = complete_progress complete_log complete_finished complete_error

lemma wf_builders:
  assumes "strip jid \<noteq> []"
  shows "worker_event_wf (progress_event jid stage c n m d)"
    and "worker_event_wf (log_event jid m stage level)"
    and "worker_event_wf (finished_event jid res m ts)"
    and "worker_event_wf (error_event jid err m tb)"
  using assms
  by (cases jid; auto simp: worker_event_wf_def builder_defs dict_simps WORKER_EVENT_TYPES_def
      str_or_empty_def text_of_def py_or_def py_str_def Let_def split: option.splits)+

lemma parse_complete:
  assumes "strip line \<noteq> []" and "loads (strip line) = Some (PDict event)"
    and "complete_event t event" and "t \<in> {''progress'', ''log'', ''finished'', ''error''}"
    and "worker_event_wf event"
  shows "parse_worker_event_line loads line = Inr (Some event, [])"
proof -
  have "parse_event_line loads (strip line) = Inr (Some event)"
    using assms(1,2) normalize_event_complete [OF assms(3,4)]
    by (simp add: parse_event_line_def strip_idem)
  moreover have "check_worker_event event = (Some event, [])"
    using assms(5) by (subst check_worker_event_cases) simp
  ultimately show ?thesis
    using assms(1,2) by (simp add: parse_worker_event_line_def)
qed



text \<open>
  The guard around the frame parser is incomplete: it turns \<open>TypeError\<close> and \<open>ValueError\<close>
  into a schema error, but a frame whose \<open>done\<close> entry is an infinite float (JSON accepts
  \<open>Infinity\<close> and overflowing literals) raises \<open>OverflowError\<close> out of \<open>parse_worker_event_line\<close>.
\<close>

theorem parse_worker_event_line_overflow:
  assumes "strip line \<noteq> []" and "loads (strip line) = Some (PDict event)"
    and "dget event ''done'' = PFloat ''inf''"
  shows "parse_worker_event_line loads line = Inl OverflowError"
proof -
  have "dget (snd (resolve_event_alias event)) ''done'' = PFloat ''inf''"
    using assms(3) by (simp add: resolve_event_alias_def Let_def dict_simps)
  then have "normalize_event event = Inl OverflowError"
    by (auto simp: normalize_event_def dict_simps py_or_def int_of_float_def Let_def
        split: prod.splits)
  then show ?thesis
    using assms(1,2) by (simp add: parse_worker_event_line_def parse_event_line_def strip_idem)
qed

theorem parse_worker_event_line_overflow_witness:
  "parse_worker_event_line (\<lambda>_. Some (PDict [(''done'', PFloat ''inf'')])) ''x'' = Inl OverflowError"
proof -
  have "strip ''x'' \<noteq> []" by code_simp
  then show ?thesis
    using parse_worker_event_line_overflow
      [of "''x''" "\<lambda>_. Some (PDict [(''done'', PFloat ''inf'')])" "[(''done'', PFloat ''inf'')]"]
    by (simp add: dict_simps)
qed

section \<open>Chunks\<close>

definition append_feed ::
  "(pydict list \<times> string list) result \<Rightarrow> (pydict list \<times> string list) result \<Rightarrow>
   (pydict list \<times> string list) result" where
  "append_feed r1 r2 =
     (case r1 of Inl err \<Rightarrow> Inl err
      | Inr (e1, d1) \<Rightarrow> (case r2 of Inl err \<Rightarrow> Inl err | Inr (e2, d2) \<Rightarrow> Inr (e1 @ e2, d1 @ d2)))"

lemma feed_lines_append:
  "feed_lines loads (xs @ ys) = append_feed (feed_lines loads xs) (feed_lines loads ys)"
proof (induction xs)
  case Nil
  then show ?case by (auto simp: append_feed_def split: sum.splits)
next
  case (Cons raw rest)
  then show ?case
    by (auto simp: append_feed_def Let_def split: sum.splits option.splits)
qed

lemma feed_jsonl_append:
  "feed_jsonl loads buffer (a @ b) =
     (case feed_jsonl loads buffer a of
        Inl err \<Rightarrow> Inl err
      | Inr (e1, d1, rest) \<Rightarrow>
          (case feed_jsonl loads rest b of
             Inl err \<Rightarrow> Inl err
           | Inr (e2, d2, rest') \<Rightarrow> Inr (e1 @ e2, d1 @ d2, rest')))"
proof -
  let ?s = "split_on newline (buffer @ a)"
  have "split_on newline (buffer @ a @ b) = butlast ?s @ split_on newline (last ?s @ b)"
    using split_on_append [of newline "buffer @ a" b] by simp
  then show ?thesis
    by (auto simp: feed_jsonl_def Let_def butlast_append feed_lines_append append_feed_def
        split: sum.splits)
qed

text \<open>The frame reader as a reader of pieces: events and diagnostics are its output, the rest its state.\<close>

definition jsonl_reader ::
  "(string \<Rightarrow> pyval option) \<Rightarrow> string \<Rightarrow> string \<Rightarrow> ((pydict list \<times> string list) \<times> string) result" where
  "jsonl_reader loads buffer chunk =
     map_sum id (\<lambda>(events, diagnostics, rest). ((events, diagnostics), rest)) (feed_jsonl loads buffer chunk)"

definition join_output ::
  "pydict list \<times> string list \<Rightarrow> pydict list \<times> string list \<Rightarrow> pydict list \<times> string list" where
  "join_output x y = (fst x @ fst y, snd x @ snd y)"

interpretation jsonl: chunk_reader "jsonl_reader loads" join_output for loads
  by unfold_locales
     (auto simp: jsonl_reader_def join_output_def feed_jsonl_append then_feed_def split: sum.split prod.split)

text \<open>
  Reading the worker stream does not depend on how it is cut into chunks: feeding any number of
  chunks one after the other, each with the remainder of the previous call as buffer, gives the
  events, diagnostics, remainder and exceptions of feeding the whole text at once.
\<close>

theorem feed_jsonl_chunks:
  "feed_all (jsonl_reader loads) join_output buffer c cs = jsonl_reader loads buffer (c @ concat cs)"
  by (rule jsonl.feed_all_concat)

end
