(* ===== verification/Text_Decoder.thy ===== *)
theory Text_Decoder
  imports Chunk_Reader NC_Texts
begin

text \<open>
  \<^verbatim>\<open>utils/text_encoding.py\<close>, the strict \<open>Utf8IncrementalTextDecoder\<close> that the task runtime puts in
  front of both worker streams, and the text clean-up applied to device output. The decoder of
  the codecs module is a byte automaton: its state is the incomplete code point read so far.
  Since text is modelled by its UTF-8 bytes, decoding validates and regroups bytes.
\<close>

section \<open>The UTF-8 automaton\<close>

text \<open>Number of bytes of the code point a lead byte opens; 0 for bytes that cannot start one.\<close>

definition utf8_need :: "nat \<Rightarrow> nat" where
  "utf8_need n =
     (if n < 0x80 then 1
      else if 0xC2 \<le> n \<and> n \<le> 0xDF then 2
      else if 0xE0 \<le> n \<and> n \<le> 0xEF then 3
      else if 0xF0 \<le> n \<and> n \<le> 0xF4 then 4 else 0)"

text \<open>Second bytes exclude overlong forms, surrogates and values above U+10FFFF.\<close>

definition utf8_second_ok :: "nat \<Rightarrow> nat \<Rightarrow> bool" where
  "utf8_second_ok lead n \<longleftrightarrow>
     (if lead = 0xE0 then 0xA0 \<le> n \<and> n \<le> 0xBF
      else if lead = 0xED then 0x80 \<le> n \<and> n \<le> 0x9F
      else if lead = 0xF0 then 0x90 \<le> n \<and> n \<le> 0xBF
      else if lead = 0xF4 then 0x80 \<le> n \<and> n \<le> 0x8F
      else 0x80 \<le> n \<and> n \<le> 0xBF)"

text \<open>One byte: the text it completes and the new pending bytes, or \<open>None\<close> (\<open>UnicodeDecodeError\<close>).\<close>

definition utf8_step :: "string \<Rightarrow> char \<Rightarrow> (string \<times> string) option" where
  "utf8_step pending c =
     (let n = of_char c :: nat in
      case pending of
        [] \<Rightarrow> (if utf8_need n = 0 then None
               else if utf8_need n = 1 then Some ([c], []) else Some ([], [c]))
      | l # rest \<Rightarrow>
          (let lead = of_char l :: nat;
               ok = (if rest = [] then utf8_second_ok lead n else 0x80 \<le> n \<and> n \<le> 0xBF)
           in if \<not> ok then None
              else if Suc (length pending) = utf8_need lead then Some (pending @ [c], [])
              else Some ([], pending @ [c])))"

fun utf8_feed :: "string \<Rightarrow> string \<Rightarrow> (string \<times> string) option" where
  "utf8_feed pending [] = Some ([], pending)"
| "utf8_feed pending (c # cs) =
     (case utf8_step pending c of
        None \<Rightarrow> None
      | Some (out, pending') \<Rightarrow>
          (case utf8_feed pending' cs of
             None \<Rightarrow> None
           | Some (text, pending'') \<Rightarrow> Some (out @ text, pending'')))"

section \<open>The decoder object\<close>

record TextDecodeResult =
  td_text :: string
  td_encoding :: string
  td_used_replacement :: bool
  td_had_bom :: bool
  td_decode_warning :: string
  td_source :: string

record Utf8Decoder =
  dec_source :: string
  dec_pending :: string

definition new_decoder :: "string \<Rightarrow> Utf8Decoder" where
  "new_decoder src = \<lparr>dec_source = (if src = [] then ''internal_stream'' else src), dec_pending = []\<rparr>"

text \<open>\<open>decode(data, final)\<close> in strict mode; a pending code point at the end is an error.\<close>

definition decoder_decode ::
  "Utf8Decoder \<Rightarrow> string \<Rightarrow> bool \<Rightarrow> (TextDecodeResult \<times> Utf8Decoder) option" where
  "decoder_decode d bytes final =
     (case utf8_feed (dec_pending d) bytes of
        None \<Rightarrow> None
      | Some (text, pending) \<Rightarrow>
          (if final \<and> pending \<noteq> [] then None
           else Some
             (\<lparr>td_text = text, td_encoding = ''utf-8'',
               td_used_replacement = occurs replacement_char text, td_had_bom = False,
               td_decode_warning =
                 (if occurs replacement_char text then msg_controlled_replacement else []),
               td_source = dec_source d\<rparr>,
              d\<lparr>dec_pending := pending\<rparr>)))"

section \<open>Device text clean-up\<close>

fun replace_all :: "string \<Rightarrow> string \<Rightarrow> string \<Rightarrow> string" where
  "replace_all old new [] = []"
| "replace_all old new (c # cs) =
     (if old \<noteq> [] \<and> startswith (c # cs) old
      then new @ replace_all old new (drop (length old - 1) cs)
      else c # replace_all old new cs)"

definition byte_order_mark :: string where
  "byte_order_mark = [CHR 0xEF, CHR 0xBB, CHR 0xBF]"

definition clean_device_text :: "string \<Rightarrow> string" where
  "clean_device_text text =
     replace_all [CHR 0x0D] [CHR 0x0A]
       (replace_all [CHR 0x0D, CHR 0x0A] [CHR 0x0A] (replace_all byte_order_mark [] text))"

text \<open>The backspace loop of \<open>clean_interactive_device_text\<close>; \<open>chars\<close> is kept reversed.\<close>

fun apply_backspaces :: "string \<Rightarrow> string \<Rightarrow> string" where
  "apply_backspaces chars [] = rev chars"
| "apply_backspaces chars (c # cs) =
     (if c = CHR 0x08 then apply_backspaces (tl chars) cs else apply_backspaces (c # chars) cs)"

section \<open>Lemmas\<close>

lemma utf8_step_bytes:
  "utf8_step pending c = Some (out, pending') \<Longrightarrow> pending @ [c] = out @ pending'"
  by (auto simp: utf8_step_def Let_def split: list.splits if_splits)

lemma utf8_feed_bytes:
  "utf8_feed pending bytes = Some (tx, pending') \<Longrightarrow> pending @ bytes = tx @ pending'"
proof (induction bytes arbitrary: pending tx)
  case Nil
  then show ?case by simp
next
  case (Cons c cs)
  then obtain out p1 rest where step: "utf8_step pending c = Some (out, p1)"
    and feed: "utf8_feed p1 cs = Some (rest, pending')" and tx: "tx = out @ rest"
    by (auto split: option.splits prod.splits)
  have "pending @ [c] = out @ p1" using step by (rule utf8_step_bytes)
  moreover have "p1 @ cs = rest @ pending'" using feed by (rule Cons.IH)
  ultimately show ?case using tx by (metis append.assoc append_Cons append_Nil)
qed

lemma utf8_feed_append:
  "utf8_feed pending (a @ b) =
     (case utf8_feed pending a of
        None \<Rightarrow> None
      | Some (t1, p1) \<Rightarrow>
          (case utf8_feed p1 b of None \<Rightarrow> None | Some (t2, p2) \<Rightarrow> Some (t1 @ t2, p2)))"
  by (induction a arbitrary: pending) (auto split: option.splits)

lemma utf8_step_pending_short:
  "utf8_step pending c = Some (out, pending') \<Longrightarrow> length pending < 4 \<Longrightarrow> pending \<noteq> [] \<longrightarrow>
     length pending < utf8_need (of_char (hd pending)) \<Longrightarrow>
   pending' \<noteq> [] \<longrightarrow> length pending' < utf8_need (of_char (hd pending'))"
  by (cases pending; cases "tl pending"; cases "tl (tl pending)")
     (auto simp: utf8_step_def utf8_need_def Let_def split: if_splits)

lemma utf8_need_le: "utf8_need n \<le> 4"
  by (simp add: utf8_need_def)

text \<open>A decoder is well formed when its pending bytes are a proper prefix of one code point.\<close>

definition pending_wf :: "string \<Rightarrow> bool" where
  "pending_wf p \<longleftrightarrow> p = [] \<or> length p < utf8_need (of_char (hd p))"

lemma utf8_feed_pending_wf:
  "utf8_feed pending bytes = Some (tx, pending') \<Longrightarrow> pending_wf pending \<Longrightarrow> pending_wf pending'"
proof (induction bytes arbitrary: pending tx)
  case Nil
  then show ?case by simp
next
  case (Cons c cs)
  then obtain out p1 rest where step: "utf8_step pending c = Some (out, p1)"
    and feed: "utf8_feed p1 cs = Some (rest, pending')"
    by (auto split: option.splits prod.splits)
  have "pending_wf p1"
    using utf8_step_pending_short [OF step] Cons.prems(2) utf8_need_le
    by (auto simp: pending_wf_def intro: order_less_le_trans)
  then show ?case using feed by (intro Cons.IH)
qed

lemma pending_wf_length: "pending_wf p \<Longrightarrow> length p \<le> 3"
  using utf8_need_le [of "of_char (hd p)"] by (auto simp: pending_wf_def)

text \<open>The decoder as a reader of pieces, while more input is expected.\<close>

definition decoder_reader :: "Utf8Decoder \<Rightarrow> string \<Rightarrow> unit + string \<times> Utf8Decoder" where
  "decoder_reader d chunk =
     (case decoder_decode d chunk False of None \<Rightarrow> Inl () | Some (r, d') \<Rightarrow> Inr (td_text r, d'))"

interpretation utf8: chunk_reader decoder_reader "(@)"
  by unfold_locales
     (auto simp: decoder_reader_def decoder_decode_def utf8_feed_append then_feed_def
        split: option.split prod.split)

lemma decoder_last_chunk:
  "map_option (\<lambda>(r, d'). (td_text r, d')) (decoder_decode d (a @ b) final) =
     (case decoder_reader d a of
        Inl _ \<Rightarrow> None
      | Inr (tx, d1) \<Rightarrow> map_option (\<lambda>(r, d'). (tx @ td_text r, d')) (decoder_decode d1 b final))"
  by (auto simp: decoder_reader_def decoder_decode_def utf8_feed_append split: option.splits prod.splits)

text \<open>
  The incremental decoder never corrupts a code point split over several reads: decoding any
  number of chunks and then the last one succeeds exactly when decoding the whole input at once
  does, and gives the same text and the same decoder.
\<close>

theorem decoder_chunks:
  "(case feed_all decoder_reader (@) d c cs of
      Inl _ \<Rightarrow> None
    | Inr (tx, d1) \<Rightarrow> map_option (\<lambda>(r, d'). (tx @ td_text r, d')) (decoder_decode d1 b final)) =
   map_option (\<lambda>(r, d'). (td_text r, d')) (decoder_decode d (c @ concat cs @ b) final)"
  using decoder_last_chunk [of d "c @ concat cs" b final] by (simp add: utf8.feed_all_concat)

text \<open>
  Decoding loses nothing: the text of a successful strict decode, followed by the bytes kept
  back, is what was pending followed by the input, and a well-formed decoder keeps back at most
  three bytes.
\<close>

theorem decoder_lossless:
  assumes "decoder_decode d bytes final = Some (r, d')" and "pending_wf (dec_pending d)"
  shows "td_text r @ dec_pending d' = dec_pending d @ bytes \<and> length (dec_pending d') \<le> 3 \<and>
         (final \<longrightarrow> dec_pending d' = [])"
  using assms
  by (auto simp: decoder_decode_def utf8_feed_bytes
      dest: utf8_feed_pending_wf intro!: pending_wf_length split: option.splits prod.splits if_splits)

theorem decoder_lossless_witness:
  "\<exists>r d'. decoder_decode (new_decoder ''worker_stdout'') [CHR ''a'', CHR 0xE5] False = Some (r, d') \<and>
     td_text r @ dec_pending d' = [CHR ''a'', CHR 0xE5] \<and> length (dec_pending d') \<le> 3"
proof -
  have h: "decoder_decode (new_decoder ''worker_stdout'') [CHR ''a'', CHR 0xE5] False =
     Some (\<lparr>td_text = ''a'', td_encoding = ''utf-8'', td_used_replacement = False,
             td_had_bom = False, td_decode_warning = [], td_source = ''worker_stdout''\<rparr>,
           \<lparr>dec_source = ''worker_stdout'', dec_pending = [CHR 0xE5]\<rparr>)"
    by code_simp
  have w: "pending_wf (dec_pending (new_decoder ''worker_stdout''))"
    by (simp add: pending_wf_def new_decoder_def)
  show ?thesis
    using h decoder_lossless [OF h w] by (simp add: new_decoder_def)
qed

lemma replace_single_absent: "c \<noteq> d \<Longrightarrow> c \<notin> set (replace_all [c] [d] s)"
  by (induction s) (auto simp: startswith_def)

lemma no_carriage_return_after_clean: "CHR 0x0D \<notin> set (clean_device_text s)"
  unfolding clean_device_text_def by (rule replace_single_absent) simp

end
