(* ===== verification/Export_Safety.thy ===== *)
theory Export_Safety
  imports NC_Prelude NC_Texts
begin

text \<open>
  \<^verbatim>\<open>services/job_center/web_export_event_safety.py\<close>: events and results of web export tasks lose
  every entry whose key names a path or a secret, at any depth, before they are published. The
  regular-expression redaction of free text (\<open>redact_web_task_text\<close>) is the parameter
  \<open>redact\<close>; the structural part of the sanitiser is modelled in full.
\<close>

definition PATH_KEYS :: "string list" where
  "PATH_KEYS = [''db_path'', ''generated_files'', ''output_path'', ''package_path'', ''path'',
     ''relative_path'', ''report_path'', ''result_path'', ''tmp_path'', ''traceback'']"

definition SECRET_KEYS :: "string list" where
  "SECRET_KEYS = [''authorization'', ''community'', ''credential'', ''password'', ''secret'',
     ''token'', ''x-agent-token'']"

definition sensitive_key :: "string \<Rightarrow> bool" where
  "sensitive_key name \<longleftrightarrow> casefold name \<in> set PATH_KEYS \<or> casefold name \<in> set SECRET_KEYS"

definition is_web_export_task :: "string \<Rightarrow> bool" where
  "is_web_export_task ttype \<longleftrightarrow> startswith ttype ''web_export_''"

text \<open>
  One entry of the dictionary loop: the list under a key \<open>keys\<close> also loses its sensitive names.
  The second component is the flag \<open>sensitive_key_names_removed\<close> after the entry.
\<close>

definition sanitize_entry :: "string \<Rightarrow> pyval \<Rightarrow> bool \<Rightarrow> pyval \<times> bool" where
  "sanitize_entry name cleaned flag =
     (case cleaned of
        PList xs \<Rightarrow>
          (if casefold name = ''keys''
           then (let filtered = filter (\<lambda>v. \<not> sensitive_key (py_str v)) xs
                 in (PList filtered, length filtered \<noteq> length xs))
           else (cleaned, flag))
      | _ \<Rightarrow> (cleaned, flag))"

fun sanitize_entries :: "pydict \<Rightarrow> pydict \<Rightarrow> bool \<Rightarrow> pydict" where
  "sanitize_entries acc [] flag =
     (if flag then dput ''keys_truncated'' (PBool True) acc else acc)"
| "sanitize_entries acc ((name, cleaned) # rest) flag =
     (if sensitive_key name then sanitize_entries acc rest flag
      else (let (v, flag') = sanitize_entry name cleaned flag
            in sanitize_entries (dput name v acc) rest flag'))"

fun sanitize_web_export_value :: "(string \<Rightarrow> string) \<Rightarrow> pyval \<Rightarrow> pyval" where
  "sanitize_web_export_value redact (PDict d) =
     PDict (sanitize_entries []
       (map (\<lambda>kv. (fst kv, sanitize_web_export_value redact (snd kv))) d) False)"
| "sanitize_web_export_value redact (PList xs) = PList (map (sanitize_web_export_value redact) xs)"
| "sanitize_web_export_value redact (PStr s) = PStr (redact s)"
| "sanitize_web_export_value redact v = v"

definition sanitize_web_export_event :: "(string \<Rightarrow> string) \<Rightarrow> pydict \<Rightarrow> pydict" where
  "sanitize_web_export_event redact event =
     dict_of (sanitize_web_export_value redact (PDict event))"

section \<open>No sensitive key survives\<close>

fun clean_keys :: "pyval \<Rightarrow> bool" where
  "clean_keys (PDict d) = list_all (\<lambda>kv. \<not> sensitive_key (fst kv) \<and> clean_keys (snd kv)) d"
| "clean_keys (PList xs) = list_all clean_keys xs"
| "clean_keys _ = True"

lemma keys_truncated_not_sensitive: "\<not> sensitive_key ''keys_truncated''"
  by code_simp

lemma sanitize_entry_clean: "clean_keys v \<Longrightarrow> clean_keys (fst (sanitize_entry name v flag))"
  by (cases v) (auto simp: sanitize_entry_def Let_def list_all_iff)

lemma clean_keys_dput:
  "clean_keys (PDict d) \<Longrightarrow> \<not> sensitive_key k \<Longrightarrow> clean_keys v \<Longrightarrow> clean_keys (PDict (dput k v d))"
  by (induction d) (auto simp: dput_def)

lemma sanitize_entries_clean:
  assumes "clean_keys (PDict acc)" and "\<forall>kv \<in> set d. clean_keys (snd kv)"
  shows "clean_keys (PDict (sanitize_entries acc d flag))"
  using assms
proof (induction acc d flag rule: sanitize_entries.induct)
  case (1 acc flag)
  then show ?case
    by (auto intro: clean_keys_dput simp: keys_truncated_not_sensitive simp del: clean_keys.simps(1))
next
  case (2 acc name cleaned rest flag)
  show ?case
  proof (cases "sensitive_key name")
    case True
    with 2 show ?thesis by simp
  next
    case False
    obtain v flag' where e: "sanitize_entry name cleaned flag = (v, flag')" by fastforce
    have "clean_keys v" using sanitize_entry_clean [of cleaned name flag] 2(4) e by simp
    with 2(3) False have "clean_keys (PDict (dput name v acc))" by (intro clean_keys_dput)
    with 2 False e show ?thesis by simp
  qed
qed

text \<open>
  C25. Whatever redactor is used for free text, no dictionary inside a sanitised value, at any
  depth, has a key that names a path or a secret (compared case-insensitively).
\<close>

theorem sanitize_removes_sensitive_keys: "clean_keys (sanitize_web_export_value redact v)"
proof (induction redact v rule: sanitize_web_export_value.induct)
  case (1 redact d)
  have "\<forall>kv \<in> set (map (\<lambda>kv. (fst kv, sanitize_web_export_value redact (snd kv))) d).
          clean_keys (snd kv)"
    using 1 by fastforce
  then have "clean_keys (PDict (sanitize_entries []
      (map (\<lambda>kv. (fst kv, sanitize_web_export_value redact (snd kv))) d) False))"
    by (intro sanitize_entries_clean) simp_all
  then show ?case by simp
next
  case (2 redact xs)
  then show ?case by (simp add: list_all_iff)
qed simp_all

lemma sanitize_entries_other_keys:
  assumes "\<not> sensitive_key k" and "k \<noteq> ''keys_truncated''" and "casefold k \<noteq> ''keys''"
    and "distinct (map fst d)"
  shows "map_of (sanitize_entries acc d flag) k =
           (case map_of d k of None \<Rightarrow> map_of acc k | Some v \<Rightarrow> Some v)"
  using assms
proof (induction acc d flag rule: sanitize_entries.induct)
  case (1 acc flag)
  then show ?case by (simp add: map_of_dput)
next
  case (2 acc name cleaned rest flag)
  have absent: "name = k \<Longrightarrow> map_of rest k = None"
    using 2(6) by (simp add: map_of_eq_None_iff)
  have "name = k \<Longrightarrow> fst (sanitize_entry name cleaned flag) = cleaned"
    using 2(5) by (cases cleaned) (auto simp: sanitize_entry_def)
  then show ?case
    using 2 absent by (auto simp: map_of_dput split: prod.splits option.splits)
qed

text \<open>
  Sanitising an event keeps every entry under an ordinary key (neither sensitive, nor \<open>keys\<close>,
  nor the reserved \<open>keys_truncated\<close>), with its value sanitised: only the sensitive entries go.
\<close>

theorem sanitize_event_keeps_entries:
  assumes "distinct (map fst event)" and "\<not> sensitive_key k" and "k \<noteq> ''keys_truncated''"
    and "casefold k \<noteq> ''keys''"
  shows "map_of (sanitize_web_export_event redact event) k =
           map_option (sanitize_web_export_value redact) (map_of event k)"
proof -
  let ?d = "map (\<lambda>kv. (fst kv, sanitize_web_export_value redact (snd kv))) event"
  have "map fst ?d = map fst event" by simp
  then have "distinct (map fst ?d)" using assms(1) by metis
  then have "map_of (sanitize_entries [] ?d False) k =
      (case map_of ?d k of None \<Rightarrow> map_of [] k | Some v \<Rightarrow> Some v)"
    using assms(2,3,4) by (intro sanitize_entries_other_keys)
  moreover have "map_of ?d k = map_option (sanitize_web_export_value redact) (map_of event k)"
    by (induction event) auto
  ultimately show ?thesis
    by (simp add: sanitize_web_export_event_def split: option.splits)
qed

theorem sanitize_event_keeps_entries_witness:
  "map_of (sanitize_web_export_event (\<lambda>s. s)
      [(''job_id'', PStr ''j1''), (''result_path'', PStr ''C:/x'')]) ''job_id'' = Some (PStr ''j1'')"
proof -
  have "\<not> sensitive_key ''job_id''" and "casefold ''job_id'' \<noteq> ''keys''" by code_simp+
  then show ?thesis
    using sanitize_event_keeps_entries [of
        "[(''job_id'', PStr ''j1''), (''result_path'', PStr ''C:/x'')]" "''job_id''" "\<lambda>s. s"]
    by simp
qed

end
