(* ===== verification/Task_Runtime.thy ===== *)
theory Task_Runtime
  imports Worker_Protocol Text_Decoder Export_Safety
begin

text \<open>
  \<^verbatim>\<open>services/job_center/runtime/task_runtime.py\<close>: the registry of running background jobs, the
  worker protocol state of each, and the transitions of their task state. The runtime is a record
  passed through every operation; publishing an event appends to \<open>published\<close> (the hub is modelled
  in \<open>Event_Hub\<close>), the job and cancel files that exist are the list \<open>files\<close>. What lies outside the
  program is the record \<open>Host\<close>: directories, interpreter, environment, which paths the operating
  system refuses to change, the JSON decoder and the text redactor. Log lines are not modelled.
  An operation that may raise returns \<open>Inl\<close> with the state reached when the exception left it.
\<close>

section \<open>Data\<close>

record Host =
  host_cache_dir :: string
  host_app_root :: string
  host_code_root :: string
  host_executable :: string
  host_frozen :: bool
  host_sep :: string
  host_pathsep :: string
  host_environ :: "(string \<times> string) list"
  host_denied :: "string \<Rightarrow> bool"
  host_loads :: "string \<Rightarrow> pyval option"
  host_redact :: "string \<Rightarrow> string"

record TaskLaunch =
  launch_job :: JobSpec
  launch_job_path :: string
  launch_cancel_path :: string
  launch_program :: string
  launch_arguments :: "string list"
  launch_cwd :: string
  launch_env :: "(string \<times> string) list"

record RuntimeTask =
  launch :: TaskLaunch
  task_state :: TaskState
  stdout_buffer :: string
  stderr_buffer :: string
  terminal_event :: "pydict option"
  cancel_requested :: bool
  stdout_decoder :: Utf8Decoder
  stderr_decoder :: Utf8Decoder
  encoding_logged :: bool
  protocol_error_reason :: string
  protocol_error_payload :: "pydict option"
  protocol_error_frame_bytes :: "int option"

type_synonym events = "(pydict \<times> string) list"

record TaskRuntime =
  tasks :: "(string \<times> RuntimeTask) list"
  closing :: bool
  published :: events
  files :: "string list"

definition new_task :: "TaskLaunch \<Rightarrow> RuntimeTask" where
  "new_task l =
     \<lparr>launch = l, task_state = PENDING, stdout_buffer = [], stderr_buffer = [],
      terminal_event = None, cancel_requested = False,
      stdout_decoder = new_decoder ''worker_stdout'', stderr_decoder = new_decoder ''worker_stderr'',
      encoding_logged = False, protocol_error_reason = [], protocol_error_payload = None,
      protocol_error_frame_bytes = None\<rparr>"

definition new_runtime :: TaskRuntime where
  "new_runtime = \<lparr>tasks = [], closing = False, published = [], files = []\<rparr>"

abbreviation get_task :: "TaskRuntime \<Rightarrow> string \<Rightarrow> RuntimeTask option" where
  "get_task rt jid \<equiv> map_of (tasks rt) jid"

abbreviation task_job :: "RuntimeTask \<Rightarrow> JobSpec" where
  "task_job t \<equiv> launch_job (launch t)"

definition put_task :: "string \<Rightarrow> RuntimeTask \<Rightarrow> TaskRuntime \<Rightarrow> TaskRuntime" where
  "put_task jid t rt = rt\<lparr>tasks := AList.update jid t (tasks rt)\<rparr>"

definition emit :: "events \<Rightarrow> TaskRuntime \<Rightarrow> TaskRuntime" where
  "emit evs rt = rt\<lparr>published := published rt @ evs\<rparr>"

section \<open>State changes\<close>

definition AC_WEB_ACTION_TASK_TYPE :: string where
  "AC_WEB_ACTION_TASK_TYPE = ''ac_command_action_execute''"

definition attach_ac_web_plan_id :: "RuntimeTask \<Rightarrow> pydict \<Rightarrow> pydict" where
  "attach_ac_web_plan_id t payload =
     (if task_type (task_job t) \<noteq> AC_WEB_ACTION_TASK_TYPE then payload
      else (let plan_id = text_of (dget (params (task_job t)) ''plan_id'') in
            if plan_id \<noteq> [] \<and> text_of (dget payload ''plan_id'') = []
            then dput ''plan_id'' (PStr plan_id) payload else payload))"

definition state_event :: "RuntimeTask option \<Rightarrow> string \<Rightarrow> TaskState \<Rightarrow> pydict" where
  "state_event task jid st =
     (let event = [(''type'', PStr ''state''), (''job_id'', PStr jid),
            (''task_type'', PStr (case task of None \<Rightarrow> [] | Some t \<Rightarrow> task_type (task_job t))),
            (''state'', PStr (state_value st))]
      in case task of
           None \<Rightarrow> event
         | Some t \<Rightarrow> (if st \<in> TERMINAL_TASK_STATES then attach_ac_web_plan_id t event else event))"

definition set_state :: "string \<Rightarrow> TaskState \<Rightarrow> TaskRuntime \<Rightarrow> TaskRuntime" where
  "set_state jid st rt =
     (let task = get_task rt jid;
          rt1 = (case task of
                   None \<Rightarrow> rt | Some t \<Rightarrow> put_task jid (t\<lparr>task_state := st\<rparr>) rt)
      in emit [(state_event task jid st, ''service'')] rt1)"

definition remove_files :: "Host \<Rightarrow> string list \<Rightarrow> TaskRuntime \<Rightarrow> TaskRuntime" where
  "remove_files host paths rt =
     rt\<lparr>files := filter (\<lambda>p. p \<notin> set paths \<or> host_denied host p) (files rt)\<rparr>"

definition finish :: "Host \<Rightarrow> string \<Rightarrow> TaskRuntime \<Rightarrow> TaskRuntime" where
  "finish host jid rt =
     (case get_task rt jid of
        None \<Rightarrow> rt
      | Some t \<Rightarrow>
          remove_files host [launch_job_path (launch t), launch_cancel_path (launch t)]
            (rt\<lparr>tasks := AList.delete jid (tasks rt)\<rparr>))"

definition write_file :: "Host \<Rightarrow> string \<Rightarrow> TaskRuntime \<Rightarrow> TaskRuntime" where
  "write_file host p rt = (if host_denied host p then rt else rt\<lparr>files := List.insert p (files rt)\<rparr>)"

definition write_cancel_file :: "Host \<Rightarrow> RuntimeTask \<Rightarrow> TaskRuntime \<Rightarrow> TaskRuntime" where
  "write_cancel_file host t rt = write_file host (launch_cancel_path (launch t)) rt"

section \<open>Starting a task\<close>

definition msg_closing :: string where
  "msg_closing = ''backend is shutting down; new tasks are rejected''"

definition msg_duplicate :: string where
  "msg_duplicate = ''duplicate background task''"

text \<open>The locked test at the head of \<open>prepare\<close>, repeated before the task is registered.\<close>

definition prepare_check :: "string \<Rightarrow> TaskRuntime \<Rightarrow> unit result" where
  "prepare_check jid rt =
     (if closing rt then Inl (RuntimeError msg_closing)
      else if get_task rt jid \<noteq> None then Inl (RuntimeError msg_duplicate)
      else Inr ())"

definition worker_command :: "Host \<Rightarrow> string \<Rightarrow> string \<times> string list" where
  "worker_command host job_path =
     (host_executable host,
      if host_frozen host then [''--background-worker'', ''--job'', job_path]
      else [''-m'', ''netconsole.background_worker'', ''--job'', job_path])"

definition worker_code_root :: "Host \<Rightarrow> string" where
  "worker_code_root host = (if host_frozen host then host_app_root host else host_code_root host)"

definition worker_environment :: "Host \<Rightarrow> (string \<times> string) list" where
  "worker_environment host =
     (let env = AList.update ''PYTHONIOENCODING'' ''utf-8''
                  (AList.update ''PYTHONUTF8'' ''1'' (host_environ host));
          existing = (case map_of env ''PYTHONPATH'' of None \<Rightarrow> [] | Some p \<Rightarrow> p);
          root = worker_code_root host
      in AList.update ''PYTHONPATH''
           (if existing = [] then root else root @ host_pathsep host @ existing) env)"

definition job_dir :: "Host \<Rightarrow> string" where
  "job_dir host = host_cache_dir host @ host_sep host @ ''background_jobs''"

definition job_path_of :: "Host \<Rightarrow> string \<Rightarrow> string" where
  "job_path_of host jid = job_dir host @ host_sep host @ jid @ ''.json''"

definition cancel_path_of :: "Host \<Rightarrow> string \<Rightarrow> string" where
  "cancel_path_of host jid = job_dir host @ host_sep host @ jid @ ''.cancel''"

text \<open>The unlocked middle of \<open>prepare\<close>: the runtime copy of the job, its file and its launch.\<close>

definition prepare_launch ::
  "Host \<Rightarrow> string \<Rightarrow> JobSpec \<Rightarrow> TaskRuntime \<Rightarrow> TaskLaunch result \<times> TaskRuntime" where
  "prepare_launch host jid job rt =
     (if host_denied host (job_dir host) then (Inl OSError, rt)
      else (case job_from_dict (dput ''job_id'' (PStr jid) (job_to_dict job)) of
              Inl err \<Rightarrow> (Inl err, rt)
            | Inr copy \<Rightarrow>
                (let runtime_job = with_runtime_paths jid (cancel_path_of host jid) copy;
                     job_path = job_path_of host jid
                 in case job_validate runtime_job of
                      Inl err \<Rightarrow> (Inl err, rt)
                    | Inr _ \<Rightarrow>
                        (if host_denied host job_path then (Inl OSError, rt)
                         else (Inr \<lparr>launch_job = runtime_job, launch_job_path = job_path,
                                    launch_cancel_path = cancel_path_of host jid,
                                    launch_program = fst (worker_command host job_path),
                                    launch_arguments = snd (worker_command host job_path),
                                    launch_cwd = worker_code_root host,
                                    launch_env = worker_environment host\<rparr>,
                               write_file host job_path rt)))))"

text \<open>The second locked section: recheck, register, publish the first two states.\<close>

definition prepare_commit ::
  "Host \<Rightarrow> string \<Rightarrow> TaskLaunch \<Rightarrow> TaskRuntime \<Rightarrow> TaskLaunch result \<times> TaskRuntime" where
  "prepare_commit host jid l rt =
     (case prepare_check jid rt of
        Inl err \<Rightarrow> (Inl err, remove_files host [launch_job_path l, launch_cancel_path l] rt)
      | Inr _ \<Rightarrow>
          (Inr l, set_state jid STARTING (set_state jid PENDING (put_task jid (new_task l) rt))))"

text \<open>\<open>prepare\<close> itself; \<open>fresh\<close> is the \<open>uuid4\<close> hex text used when the job has no id.\<close>

definition prepare ::
  "Host \<Rightarrow> string \<Rightarrow> JobSpec \<Rightarrow> TaskRuntime \<Rightarrow> TaskLaunch result \<times> TaskRuntime" where
  "prepare host fresh job rt =
     (let jid = (if job_id job = [] then fresh else job_id job) in
      case prepare_check jid rt of
        Inl err \<Rightarrow> (Inl err, rt)
      | Inr _ \<Rightarrow>
          (case prepare_launch host jid job rt of
             (Inl err, rt1) \<Rightarrow> (Inl err, rt1)
           | (Inr l, rt1) \<Rightarrow> prepare_commit host jid l rt1))"

definition mark_running :: "string \<Rightarrow> TaskRuntime \<Rightarrow> TaskRuntime" where
  "mark_running jid rt =
     (case get_task rt jid of
        None \<Rightarrow> rt
      | Some t \<Rightarrow> (if task_state t \<in> {PENDING, STARTING} then set_state jid RUNNING rt else rt))"

section \<open>Protocol errors\<close>

definition WORKER_PROTOCOL_ERROR_CODE :: string where
  "WORKER_PROTOCOL_ERROR_CODE = ''WORKER_PROTOCOL_CORRUPTED''"

definition opt_int :: "int option \<Rightarrow> pyval" where
  "opt_int o_n = (case o_n of None \<Rightarrow> PNone | Some n \<Rightarrow> PInt n)"

definition protocol_payload :: "string \<Rightarrow> string \<Rightarrow> string \<Rightarrow> int option \<Rightarrow> pydict" where
  "protocol_payload jid reason stream frame_bytes =
     [(''type'', PStr ''error''), (''job_id'', PStr jid), (''stage'', PStr ''worker_protocol''),
      (''current'', PInt 0), (''total'', PInt 0), (''message'', PStr msg_protocol_broken),
      (''result'', PDict
         [(''error_code'', PStr WORKER_PROTOCOL_ERROR_CODE),
          (''text_integrity'', PStr ''current_corrupted''),
          (''text_integrity_reason'', PStr reason), (''reason'', PStr reason),
          (''stream'', PStr stream), (''frame_bytes'', opt_int frame_bytes),
          (''max_frame_bytes'', PInt (int WORKER_PROTOCOL_MAX_FRAME_BYTES)),
          (''worker_exit_code'', PNone), (''data_persisted'', PNone)]),
      (''error'', PStr msg_protocol_broken), (''error_code'', PStr WORKER_PROTOCOL_ERROR_CODE),
      (''reason'', PStr reason), (''stream'', PStr stream), (''frame_bytes'', opt_int frame_bytes),
      (''max_frame_bytes'', PInt (int WORKER_PROTOCOL_MAX_FRAME_BYTES)),
      (''traceback'', PStr []), (''cancelled'', PBool False)]"

text \<open>The first protocol error of a task is kept; later ones change nothing.\<close>

definition fail_protocol :: "string \<Rightarrow> string \<Rightarrow> int option \<Rightarrow> RuntimeTask \<Rightarrow> RuntimeTask" where
  "fail_protocol reason stream frame_bytes t =
     (if protocol_error_reason t \<noteq> [] then t
      else t\<lparr>protocol_error_reason := reason, protocol_error_frame_bytes := frame_bytes,
             protocol_error_payload :=
               Some (protocol_payload (job_id (task_job t)) reason stream frame_bytes)\<rparr>)"

fun contains_replacement_character :: "pyval \<Rightarrow> bool" where
  "contains_replacement_character (PStr s) = occurs replacement_char s"
| "contains_replacement_character (PDict d) =
     list_ex (\<lambda>kv. contains_replacement_character (snd kv)) d"
| "contains_replacement_character (PList xs) = list_ex contains_replacement_character xs"
| "contains_replacement_character _ = False"

definition REPLACEMENT_DETECTED :: string where
  "REPLACEMENT_DETECTED = ''replacement_character_detected_in_current_event''"

section \<open>Worker output\<close>

definition accept_worker_event :: "Host \<Rightarrow> RuntimeTask \<Rightarrow> pydict \<Rightarrow> RuntimeTask \<times> events" where
  "accept_worker_event host t event0 =
     (if str_or_empty (dget event0 ''job_id'') \<noteq> job_id (task_job t)
      then (fail_protocol SCHEMA_INVALID ''event'' None t, [])
      else if contains_replacement_character (PDict event0)
      then (fail_protocol REPLACEMENT_DETECTED ''event'' None t, [])
      else (let event = (if is_web_export_task (task_type (task_job t))
                         then sanitize_web_export_event (host_redact host) event0 else event0);
                event_type = str_or_empty (dget event ''type'')
            in if event_type \<in> {''finished'', ''error'', ''cancelled''}
               then (t\<lparr>terminal_event := Some event\<rparr>, [])
               else if event_type \<noteq> [] then (t, [(event, ''worker'')]) else (t, [])))"

text \<open>The loop over the complete lines of a chunk; the flag says whether the worker must be killed.\<close>

fun feed_frames :: "Host \<Rightarrow> RuntimeTask \<Rightarrow> string list \<Rightarrow> bool result \<times> RuntimeTask \<times> events" where
  "feed_frames host t [] = (Inr False, t, [])"
| "feed_frames host t (raw # rest) =
     (let line = clean_line raw in
      if line = [] then feed_frames host t rest
      else if length line > WORKER_PROTOCOL_MAX_FRAME_BYTES
      then (Inr True,
            fail_protocol ''worker_protocol_frame_too_large'' ''stdout'' (Some (int (length line))) t, [])
      else (case parse_worker_event_line (host_loads host) line of
              Inl err \<Rightarrow> (Inl err, t, [])
            | Inr (ev, reason) \<Rightarrow>
                (if reason \<noteq> [] then (Inr True, fail_protocol reason ''stdout'' None t, [])
                 else (case ev of
                         None \<Rightarrow> (Inl (RuntimeError ''AssertionError''), t, [])
                       | Some event \<Rightarrow>
                           (let (t1, evs) = accept_worker_event host t event in
                            if protocol_error_reason t1 \<noteq> [] then (Inr True, t1, evs)
                            else (let (r, t2, evs') = feed_frames host t1 rest
                                  in (r, t2, evs @ evs')))))))"

definition feed_stdout_text ::
  "Host \<Rightarrow> RuntimeTask \<Rightarrow> string \<Rightarrow> bool result \<times> RuntimeTask \<times> events" where
  "feed_stdout_text host t text =
     (let lines = split_on newline (stdout_buffer t @ text);
          t1 = t\<lparr>stdout_buffer := last lines\<rparr>
      in if length (last lines) > WORKER_PROTOCOL_MAX_FRAME_BYTES
         then (Inr True,
               fail_protocol ''worker_protocol_frame_too_large'' ''stdout''
                 (Some (int (length (last lines)))) t1, [])
         else feed_frames host t1 (butlast lines))"

definition DECODE_FAILED :: string where
  "DECODE_FAILED = ''worker_protocol_decode_failed''"

definition feed_stdout ::
  "Host \<Rightarrow> string \<Rightarrow> string \<Rightarrow> TaskRuntime \<Rightarrow> bool result \<times> TaskRuntime" where
  "feed_stdout host jid chunk rt =
     (case get_task rt jid of
        None \<Rightarrow> (Inr False, rt)
      | Some t \<Rightarrow>
          (if protocol_error_reason t \<noteq> [] then (Inr False, rt)
           else (case decoder_decode (stdout_decoder t) chunk False of
                   None \<Rightarrow> (Inr True, put_task jid (fail_protocol DECODE_FAILED ''stdout'' None t) rt)
                 | Some (decoded, dec) \<Rightarrow>
                     (let (r, t1, evs) = feed_stdout_text host
                            (t\<lparr>stdout_decoder := dec, encoding_logged := True\<rparr>) (td_text decoded)
                      in (r, emit evs (put_task jid t1 rt))))))"

definition feed_stderr :: "string \<Rightarrow> string \<Rightarrow> TaskRuntime \<Rightarrow> bool \<times> TaskRuntime" where
  "feed_stderr jid chunk rt =
     (case get_task rt jid of
        None \<Rightarrow> (False, rt)
      | Some t \<Rightarrow>
          (if protocol_error_reason t \<noteq> [] then (False, rt)
           else (case decoder_decode (stderr_decoder t) chunk False of
                   None \<Rightarrow> (True, put_task jid (fail_protocol DECODE_FAILED ''stderr'' None t) rt)
                 | Some (decoded, dec) \<Rightarrow>
                     (let t1 = t\<lparr>stderr_decoder := dec, encoding_logged := True\<rparr> in
                      if occurs replacement_char (td_text decoded)
                      then (True, put_task jid (fail_protocol REPLACEMENT_DETECTED ''stderr'' None t1) rt)
                      else (False, put_task jid
                              (t1\<lparr>stderr_buffer := stderr_buffer t1 @ td_text decoded\<rparr>) rt)))))"

section \<open>Cancelling\<close>

definition cancel_grace :: "pydict \<Rightarrow> int result" where
  "cancel_grace ps =
     (case py_int (py_or (dget ps ''_cancel_grace_ms'') (PInt 0)) of
        Inr n \<Rightarrow> Inr (max 0 (min n 60000))
      | Inl TypeError \<Rightarrow> Inr 0
      | Inl (ValueError _) \<Rightarrow> Inr 0
      | Inl err \<Rightarrow> Inl err)"

definition request_cancel :: "Host \<Rightarrow> string \<Rightarrow> TaskRuntime \<Rightarrow> int result \<times> TaskRuntime" where
  "request_cancel host jid rt =
     (case get_task rt jid of
        None \<Rightarrow> (Inr 0, rt)
      | Some t \<Rightarrow>
          (let rt1 = set_state jid STOPPING (put_task jid (t\<lparr>cancel_requested := True\<rparr>) rt)
           in (cancel_grace (params (task_job t)), write_cancel_file host t rt1)))"

section \<open>Completion\<close>

definition flush_decoders :: "Host \<Rightarrow> RuntimeTask \<Rightarrow> unit result \<times> RuntimeTask \<times> events" where
  "flush_decoders host t =
     (if protocol_error_reason t \<noteq> [] then (Inr (), t, [])
      else (case decoder_decode (stdout_decoder t) [] True of
              None \<Rightarrow> (Inr (), fail_protocol DECODE_FAILED ''stdout'' None t, [])
            | Some (out, dec) \<Rightarrow>
                (let t1 = t\<lparr>stdout_decoder := dec, encoding_logged := True\<rparr>;
                     (r, t2, evs) = (if td_text out = [] then (Inr False, t1, [])
                                     else feed_stdout_text host t1 (td_text out))
                 in case r of
                      Inl err \<Rightarrow> (Inl err, t2, evs)
                    | Inr True \<Rightarrow> (Inr (), t2, evs)
                    | Inr False \<Rightarrow>
                        (case decoder_decode (stderr_decoder t2) [] True of
                           None \<Rightarrow> (Inr (), fail_protocol DECODE_FAILED ''stderr'' None t2, evs)
                         | Some (err_text, dec2) \<Rightarrow>
                             (if occurs replacement_char (td_text err_text)
                              then (Inr (), fail_protocol REPLACEMENT_DETECTED ''stderr'' None t2, evs)
                              else (Inr (), t2\<lparr>stderr_decoder := dec2,
                                      stderr_buffer := stderr_buffer t2 @ td_text err_text\<rparr>, evs))))))"

text \<open>The unterminated last line of the worker is parsed when the process has ended.\<close>

definition drain_last_line :: "Host \<Rightarrow> RuntimeTask \<Rightarrow> unit result \<times> RuntimeTask \<times> events" where
  "drain_last_line host t =
     (if protocol_error_reason t \<noteq> [] \<or> strip (stdout_buffer t) = [] then (Inr (), t, [])
      else if length (stdout_buffer t) > WORKER_PROTOCOL_MAX_FRAME_BYTES
      then (Inr (), fail_protocol ''worker_protocol_frame_too_large'' ''stdout''
                      (Some (int (length (stdout_buffer t)))) t, [])
      else (case parse_worker_event_line (host_loads host) (strip (stdout_buffer t)) of
              Inl err \<Rightarrow> (Inl err, t, [])
            | Inr (ev, reason) \<Rightarrow>
                (if reason \<noteq> [] then (Inr (), fail_protocol reason ''stdout'' None t, [])
                 else (case ev of
                         None \<Rightarrow> (Inr (), t, [])
                       | Some event \<Rightarrow>
                           (let (t1, evs) = accept_worker_event host t event in (Inr (), t1, evs))))))"

definition attach_worker_exit_code :: "int \<Rightarrow> pydict \<Rightarrow> pydict" where
  "attach_worker_exit_code exit_code payload =
     (let p1 = dput ''worker_exit_code'' (PInt exit_code) payload;
          res = dsetdefault ''data_persisted'' PNone
                  (dput ''worker_exit_code'' (PInt exit_code) (dict_of (dget p1 ''result'')))
      in dput ''result'' (PDict res) p1)"

definition finished_terminal_state :: "pydict \<Rightarrow> TaskState" where
  "finished_terminal_state event =
     (let state_text = upper (text_of (dget event ''terminal_state'')) in
      if state_text = [] then COMPLETED
      else (case TaskState_of state_text of
              None \<Rightarrow> COMPLETED
            | Some st \<Rightarrow> (if st \<in> TERMINAL_TASK_STATES then st else COMPLETED)))"

definition fallback_payload :: "string \<Rightarrow> bool \<Rightarrow> string \<Rightarrow> pyval \<Rightarrow> string \<Rightarrow> pydict" where
  "fallback_payload jid cancelled message res traceback =
     [(''type'', PStr (if cancelled then ''cancelled'' else ''error'')), (''job_id'', PStr jid),
      (''stage'', PStr []), (''current'', PInt 0), (''total'', PInt 0),
      (''message'', PStr message), (''result'', res), (''error'', PStr message),
      (''traceback'', PStr traceback), (''cancelled'', PBool cancelled)]"

definition terminal_outcome :: "string \<Rightarrow> int \<Rightarrow> RuntimeTask \<Rightarrow> pydict \<times> TaskState" where
  "terminal_outcome jid exit_code t =
     (case protocol_error_payload t of
        Some payload \<Rightarrow> (attach_worker_exit_code exit_code payload, FAILED)
      | None \<Rightarrow>
          (let event = (case terminal_event t of None \<Rightarrow> [] | Some e \<Rightarrow> e);
               cancelled = (truthy (dget event ''cancelled'') \<or> cancel_requested t);
               event_type = str_or_empty (dget event ''type'')
           in if event_type = ''cancelled'' then (event, CANCELLED)
              else if event_type = ''error''
              then (attach_worker_exit_code exit_code event, FAILED)
              else if exit_code = 0 \<and> event_type = ''finished''
              then (event, finished_terminal_state event)
              else (let message =
                          (if cancelled then msg_job_cancelled
                           else py_str (py_or (py_or (py_or (dget event ''message'')
                                  (dget event ''error'')) (PStr (strip (stderr_buffer t))))
                                  (PStr (msg_abnormal_exit @ show_int exit_code))));
                        res = (if is_pdict (dget event ''result'') then dget event ''result'' else PNone);
                        traceback = py_str (py_or (dget event ''traceback'') (PStr (stderr_buffer t)))
                    in (attach_worker_exit_code exit_code
                          (fallback_payload jid cancelled message res traceback),
                        if cancelled then CANCELLED else FAILED))))"

text \<open>The common end of \<open>complete\<close> and \<open>fail_start\<close>: publish the payload, set the state, unregister.\<close>

definition close_task ::
  "Host \<Rightarrow> string \<Rightarrow> RuntimeTask \<Rightarrow> pydict \<Rightarrow> TaskState \<Rightarrow> TaskRuntime \<Rightarrow> pydict \<times> TaskRuntime" where
  "close_task host jid t payload0 st rt =
     (let p1 = (if is_web_export_task (task_type (task_job t))
                then sanitize_web_export_event (host_redact host) payload0 else payload0);
          payload = attach_ac_web_plan_id t p1
      in (payload, finish host jid (set_state jid st (emit [(payload, ''service'')] rt))))"

definition complete ::
  "Host \<Rightarrow> string \<Rightarrow> int \<Rightarrow> TaskRuntime \<Rightarrow> pydict option result \<times> TaskRuntime" where
  "complete host jid exit_code rt =
     (case get_task rt jid of
        None \<Rightarrow> (Inr None, rt)
      | Some t \<Rightarrow>
          (let (r1, t1, evs1) = flush_decoders host t;
               rt1 = emit evs1 (put_task jid t1 rt)
           in case r1 of
                Inl err \<Rightarrow> (Inl err, rt1)
              | Inr _ \<Rightarrow>
                  (let (r2, t2, evs2) = drain_last_line host t1;
                       rt2 = emit evs2 (put_task jid t2 rt1)
                   in case r2 of
                        Inl err \<Rightarrow> (Inl err, rt2)
                      | Inr _ \<Rightarrow>
                          (let (payload0, st) = terminal_outcome jid exit_code t2;
                               (payload, rt3) = close_task host jid t2 payload0 st rt2
                           in (Inr (Some payload), rt3)))))"

definition fail_start :: "Host \<Rightarrow> string \<Rightarrow> string \<Rightarrow> TaskRuntime \<Rightarrow> pydict option \<times> TaskRuntime" where
  "fail_start host jid message rt =
     (case get_task rt jid of
        None \<Rightarrow> (None, rt)
      | Some t \<Rightarrow>
          (let cancelled = cancel_requested t;
               text = (if cancelled then msg_job_cancelled else or_text message msg_start_failed);
               (payload, rt1) = close_task host jid t (fallback_payload jid cancelled text PNone [])
                                  (if cancelled then CANCELLED else FAILED) rt
           in (Some payload, rt1)))"

definition abandon :: "Host \<Rightarrow> string \<Rightarrow> TaskRuntime \<Rightarrow> TaskRuntime" where
  "abandon host jid rt =
     (case get_task rt jid of
        None \<Rightarrow> rt
      | Some t \<Rightarrow>
          finish host jid (set_state jid CANCELLED
            (write_cancel_file host t (put_task jid (t\<lparr>cancel_requested := True\<rparr>) rt))))"

section \<open>Queries and shutdown\<close>

definition is_running :: "string \<Rightarrow> TaskRuntime \<Rightarrow> bool" where
  "is_running jid rt \<longleftrightarrow> get_task rt jid \<noteq> None"

record ActiveSnapshot =
  active_tasks :: nat
  active_workers :: nat
  stopping_tasks :: nat

definition active_snapshot :: "TaskRuntime \<Rightarrow> ActiveSnapshot" where
  "active_snapshot rt =
     \<lparr>active_tasks = length (tasks rt), active_workers = length (tasks rt),
      stopping_tasks = length (filter (\<lambda>(_, t). task_state t = STOPPING) (tasks rt))\<rparr>"

definition accept_new_tasks :: "TaskRuntime \<Rightarrow> bool" where
  "accept_new_tasks rt \<longleftrightarrow> \<not> closing rt"

fun cancel_each :: "Host \<Rightarrow> string list \<Rightarrow> TaskRuntime \<Rightarrow> unit result \<times> TaskRuntime" where
  "cancel_each host [] rt = (Inr (), rt)"
| "cancel_each host (jid # rest) rt =
     (case request_cancel host jid rt of
        (Inl err, rt1) \<Rightarrow> (Inl err, rt1)
      | (Inr _, rt1) \<Rightarrow> cancel_each host rest rt1)"

definition begin_shutdown :: "Host \<Rightarrow> TaskRuntime \<Rightarrow> ActiveSnapshot result \<times> TaskRuntime" where
  "begin_shutdown host rt =
     (case cancel_each host (map fst (tasks rt)) (rt\<lparr>closing := True\<rparr>) of
        (Inl err, rt1) \<Rightarrow> (Inl err, rt1)
      | (Inr _, rt1) \<Rightarrow> (Inr (active_snapshot rt1), rt1))"

end
