(* ===== verification/Runtime_Props.thy ===== *)
theory Runtime_Props
  imports Task_Runtime
begin

text \<open>
  Correctness of the task runtime: the registry invariant over every interleaving of the two
  locked sections of \<open>prepare\<close> with the other operations, what completion publishes and removes,
  which runs may end as completed, cancellation and shutdown, and independence of the worker
  stream from its chunking.
\<close>

section \<open>Frame lemmas\<close>

lemma emit_frame [simp]:
  "tasks (emit evs rt) = tasks rt" "closing (emit evs rt) = closing rt"
  "files (emit evs rt) = files rt" "published (emit evs rt) = published rt @ evs"
  by (simp_all add: emit_def)

lemma put_task_frame [simp]:
  "closing (put_task jid t rt) = closing rt" "files (put_task jid t rt) = files rt"
  "published (put_task jid t rt) = published rt"
  by (simp_all add: put_task_def)

lemma get_put_task [simp]:
  "get_task (put_task jid t rt) j = (if j = jid then Some t else get_task rt j)"
  by (simp add: put_task_def update_conv')

lemma set_state_frame [simp]:
  "closing (set_state jid st rt) = closing rt" "files (set_state jid st rt) = files rt"
  by (simp_all add: set_state_def Let_def split: option.splits)

lemma get_set_state [simp]:
  "get_task (set_state jid st rt) j =
     (if j = jid then map_option (\<lambda>t. t\<lparr>task_state := st\<rparr>) (get_task rt jid) else get_task rt j)"
  by (simp add: set_state_def Let_def split: option.splits)

lemma published_set_state:
  "published (set_state jid st rt) =
     published rt @ [(state_event (get_task rt jid) jid st, ''service'')]"
  by (simp add: set_state_def Let_def split: option.splits)

lemma remove_files_frame [simp]:
  "tasks (remove_files host ps rt) = tasks rt" "closing (remove_files host ps rt) = closing rt"
  "published (remove_files host ps rt) = published rt"
  by (simp_all add: remove_files_def)

lemma write_file_frame [simp]:
  "tasks (write_file host p rt) = tasks rt" "closing (write_file host p rt) = closing rt"
  "published (write_file host p rt) = published rt"
  by (simp_all add: write_file_def)

lemma write_cancel_frame [simp]:
  "tasks (write_cancel_file host t rt) = tasks rt"
  "closing (write_cancel_file host t rt) = closing rt"
  "published (write_cancel_file host t rt) = published rt"
  by (simp_all add: write_cancel_file_def)

lemma finish_frame [simp]:
  "closing (finish host jid rt) = closing rt" "published (finish host jid rt) = published rt"
  by (simp_all add: finish_def split: option.splits)

lemma get_finish [simp]:
  "get_task (finish host jid rt) j = (if j = jid then None else get_task rt j)"
  by (auto simp: finish_def delete_conv' split: option.splits)

lemma published_emit_list: "emit (a @ b) rt = emit b (emit a rt)"
  by (simp add: emit_def)

section \<open>Task-level invariant\<close>

definition task_ok :: "string \<Rightarrow> RuntimeTask \<Rightarrow> bool" where
  "task_ok jid t \<longleftrightarrow>
     job_id (task_job t) = jid \<and> task_state t \<notin> TERMINAL_TASK_STATES \<and>
     (protocol_error_payload t = None \<longleftrightarrow> protocol_error_reason t = [])"

lemma fail_protocol_same [simp]:
  "launch (fail_protocol r s n t) = launch t" "task_state (fail_protocol r s n t) = task_state t"
  "cancel_requested (fail_protocol r s n t) = cancel_requested t"
  "stdout_buffer (fail_protocol r s n t) = stdout_buffer t"
  by (simp_all add: fail_protocol_def)

lemma fail_protocol_reason: "r \<noteq> [] \<Longrightarrow> protocol_error_reason (fail_protocol r s n t) \<noteq> []"
  by (simp add: fail_protocol_def)

lemma fail_protocol_payload_iff:
  "r \<noteq> [] \<Longrightarrow> protocol_error_payload t = None \<longleftrightarrow> protocol_error_reason t = [] \<Longrightarrow>
   protocol_error_payload (fail_protocol r s n t) = None \<longleftrightarrow>
   protocol_error_reason (fail_protocol r s n t) = []"
  by (simp add: fail_protocol_def)

lemma task_ok_fail: "task_ok jid t \<Longrightarrow> r \<noteq> [] \<Longrightarrow> task_ok jid (fail_protocol r s n t)"
  by (simp add: task_ok_def fail_protocol_payload_iff)

lemma reasons_nonempty [simp]:
  "SCHEMA_INVALID \<noteq> []" "REPLACEMENT_DETECTED \<noteq> []" "DECODE_FAILED \<noteq> []"
  by (simp_all add: SCHEMA_INVALID_def REPLACEMENT_DETECTED_def DECODE_FAILED_def)

text \<open>
  The contract between the protocol code and what callers know of a task: a predicate that
  recording a protocol error and replacing buffers, decoders or the terminal event cannot break is
  kept by everything that reads worker output.
\<close>

locale protocol_frame =
  fixes P :: "RuntimeTask \<Rightarrow> bool"
  assumes frame_fail: "P t \<Longrightarrow> r \<noteq> [] \<Longrightarrow> P (fail_protocol r s n t)"
    and frame_terminal: "P t \<Longrightarrow> P (t\<lparr>terminal_event := e\<rparr>)"
    and frame_stdout: "P t \<Longrightarrow> P (t\<lparr>stdout_buffer := x\<rparr>)"
    and frame_stderr: "P t \<Longrightarrow> P (t\<lparr>stderr_buffer := x\<rparr>)"
    and frame_out_dec: "P t \<Longrightarrow> P (t\<lparr>stdout_decoder := d\<rparr>)"
    and frame_err_dec: "P t \<Longrightarrow> P (t\<lparr>stderr_decoder := d\<rparr>)"
    and frame_logged: "P t \<Longrightarrow> P (t\<lparr>encoding_logged := b\<rparr>)"
begin

lemmas frames = frame_fail frame_terminal frame_stdout frame_stderr frame_out_dec frame_err_dec
  frame_logged

lemma keeps_accept: "accept_worker_event host t ev = (t', evs) \<Longrightarrow> P t \<Longrightarrow> P t'"
  by (auto simp: accept_worker_event_def Let_def frames split: if_splits)

lemma keeps_feed_frames: "feed_frames host t lines = (r, t', evs) \<Longrightarrow> P t \<Longrightarrow> P t'"
proof (induction lines arbitrary: t evs)
  case Nil
  then show ?case by simp
next
  case (Cons raw rest)
  then show ?case
    by (auto simp: Let_def frame_fail dest: Cons.IH keeps_accept
        split: if_splits sum.splits prod.splits option.splits)
qed

lemma keeps_feed_text: "feed_stdout_text host t x = (r, t', evs) \<Longrightarrow> P t \<Longrightarrow> P t'"
  by (auto simp: feed_stdout_text_def Let_def frames split: if_splits
      dest: keeps_feed_frames [OF _ frame_stdout])

lemma keeps_pending:
  "(if x = [] then (Inr False, t, []) else feed_stdout_text host t x) = (r, t', evs) \<Longrightarrow> P t \<Longrightarrow> P t'"
  by (auto split: if_splits dest: keeps_feed_text)

lemma keeps_flush:
  assumes "flush_decoders host t = (r, t', evs)" and "P t"
  shows "P t'"
proof (cases "decoder_decode (stdout_decoder t) [] True")
  case None
  with assms show ?thesis
    by (auto simp: flush_decoders_def frame_fail split: if_splits)
next
  case (Some od)
  obtain out dec where od: "od = (out, dec)" by fastforce
  let ?t1 = "t\<lparr>stdout_decoder := dec, encoding_logged := True\<rparr>"
  obtain r2 t2 e2 where f: "(if td_text out = [] then (Inr False, ?t1, [])
      else feed_stdout_text host ?t1 (td_text out)) = (r2, t2, e2)"
    by (metis prod_cases3)
  have "P t2"
    using keeps_pending [OF f] assms(2) by (simp add: frames)
  then show ?thesis
    using assms Some od f
    by (auto simp: flush_decoders_def Let_def frames simp del: if_split
        split: sum.splits bool.splits option.splits prod.splits if_split_asm)
qed

lemma keeps_drain: "drain_last_line host t = (r, t', evs) \<Longrightarrow> P t \<Longrightarrow> P t'"
  by (auto simp: drain_last_line_def Let_def frame_fail dest: keeps_accept
      split: if_splits option.splits prod.splits sum.splits)

end

interpretation ok: protocol_frame "task_ok jid" for jid
  by unfold_locales (simp_all add: task_ok_def fail_protocol_payload_iff)

interpretation same: protocol_frame "\<lambda>t. launch t = l \<and> cancel_requested t = c" for l c
  by unfold_locales simp_all

lemma task_ok_cancel: "task_ok jid t \<Longrightarrow> task_ok jid (t\<lparr>cancel_requested := c\<rparr>)"
  by (simp add: task_ok_def)

section \<open>Registry invariant\<close>

definition runtime_inv :: "TaskRuntime \<Rightarrow> bool" where
  "runtime_inv rt \<longleftrightarrow> distinct (map fst (tasks rt)) \<and> (\<forall>jid t. get_task rt jid = Some t \<longrightarrow> task_ok jid t)"

lemma runtime_inv_task: "runtime_inv rt \<Longrightarrow> get_task rt jid = Some t \<Longrightarrow> task_ok jid t"
  by (simp add: runtime_inv_def)

lemma distinct_put_task: "distinct (map fst (tasks rt)) \<Longrightarrow> distinct (map fst (tasks (put_task jid t rt)))"
  by (simp add: put_task_def distinct_update)

lemma inv_put_task: "runtime_inv rt \<Longrightarrow> task_ok jid t \<Longrightarrow> runtime_inv (put_task jid t rt)"
  by (auto simp: runtime_inv_def distinct_put_task)

lemma inv_emit [simp]: "runtime_inv (emit evs rt) = runtime_inv rt"
  by (simp add: runtime_inv_def)

lemma inv_tasks_eq: "tasks rt' = tasks rt \<Longrightarrow> runtime_inv rt' = runtime_inv rt"
  by (simp add: runtime_inv_def)

lemma inv_files_simps [simp]:
  "runtime_inv (write_cancel_file host t rt) = runtime_inv rt"
  "runtime_inv (remove_files host ps rt) = runtime_inv rt"
  by (rule inv_tasks_eq, simp)+

lemma distinct_set_state:
  "distinct (map fst (tasks rt)) \<Longrightarrow> distinct (map fst (tasks (set_state jid st rt)))"
  by (simp add: set_state_def Let_def distinct_put_task split: option.splits)

lemma inv_set_state:
  assumes "runtime_inv rt" and "st \<notin> TERMINAL_TASK_STATES"
  shows "runtime_inv (set_state jid st rt)"
  using assms by (auto simp: runtime_inv_def distinct_set_state task_ok_def split: if_splits)

lemma distinct_finish:
  "distinct (map fst (tasks rt)) \<Longrightarrow> distinct (map fst (tasks (finish host jid rt)))"
  by (simp add: finish_def distinct_delete split: option.splits)

text \<open>A terminal state is only ever set on a task that is unregistered in the same operation.\<close>

lemma inv_finish_set_state:
  assumes "runtime_inv rt"
  shows "runtime_inv (finish host jid (set_state jid st rt))"
  using assms by (auto simp: runtime_inv_def distinct_finish distinct_set_state split: if_splits)

lemma inv_close_task:
  "runtime_inv rt \<Longrightarrow> close_task host jid t p st rt = (p', rt') \<Longrightarrow> runtime_inv rt'"
  by (auto simp: close_task_def Let_def inv_finish_set_state)

lemma inv_complete:
  assumes "runtime_inv rt" and "complete host jid code rt = (r, rt')"
  shows "runtime_inv rt'"
proof (cases "get_task rt jid")
  case None
  with assms show ?thesis by (simp add: complete_def)
next
  case (Some t)
  obtain r1 t1 e1 where f: "flush_decoders host t = (r1, t1, e1)" by (metis prod_cases3)
  obtain r2 t2 e2 where d: "drain_last_line host t1 = (r2, t2, e2)" by (metis prod_cases3)
  have t1: "task_ok jid t1" using f ok.keeps_flush runtime_inv_task [OF assms(1) Some] by blast
  then have t2: "task_ok jid t2" using d ok.keeps_drain by blast
  let ?rt2 = "emit e2 (put_task jid t2 (emit e1 (put_task jid t1 rt)))"
  have "runtime_inv ?rt2" using assms(1) t1 t2 by (simp add: inv_put_task)
  then have "runtime_inv (snd (close_task host jid t2 p st ?rt2))" for p st
    by (metis inv_close_task prod.collapse)
  then show ?thesis
    using assms Some f d t1 t2
    by (auto simp: complete_def Let_def inv_put_task split: sum.splits prod.splits)
       (metis snd_conv)
qed

lemma inv_feed_stdout:
  assumes "runtime_inv rt" and "feed_stdout host jid chunk rt = (r, rt')"
  shows "runtime_inv rt'"
proof (cases "get_task rt jid")
  case None
  with assms show ?thesis by (simp add: feed_stdout_def)
next
  case (Some t)
  have "task_ok jid t" using assms(1) Some by (rule runtime_inv_task)
  then show ?thesis
    using assms Some
    by (auto simp: feed_stdout_def Let_def task_ok_fail split: if_splits option.splits prod.splits
        intro!: inv_put_task dest: ok.keeps_feed_text [OF _ ok.frame_logged [OF ok.frame_out_dec]])
qed

lemma inv_feed_stderr:
  assumes "runtime_inv rt" and "feed_stderr jid chunk rt = (r, rt')"
  shows "runtime_inv rt'"
  using assms runtime_inv_task [OF assms(1)]
  by (auto simp: feed_stderr_def Let_def inv_put_task task_ok_fail ok.frames
      split: if_splits option.splits prod.splits)

lemma inv_request_cancel:
  assumes "runtime_inv rt" and "request_cancel host jid rt = (r, rt')"
  shows "runtime_inv rt'"
proof -
  have "runtime_inv (set_state jid STOPPING (put_task jid (t\<lparr>cancel_requested := True\<rparr>) rt))"
    if "get_task rt jid = Some t" for t
    using assms(1) that runtime_inv_task [OF assms(1) that]
    by (auto intro!: inv_set_state inv_put_task task_ok_cancel simp: TERMINAL_TASK_STATES_def)
  then show ?thesis
    using assms
    by (auto simp: request_cancel_def Let_def split: option.splits)
qed

lemma inv_cancel_each:
  "runtime_inv rt \<Longrightarrow> cancel_each host jids rt = (r, rt') \<Longrightarrow> runtime_inv rt'"
  by (induction jids arbitrary: rt) (auto split: prod.splits sum.splits dest: inv_request_cancel)


section \<open>Interleavings\<close>

text \<open>
  Threads that are inside \<open>prepare\<close>: those that passed the first locked test and those that hold a
  launch but have not registered it. Every other operation is one step.
\<close>

record TaskSystem =
  sys_rt :: TaskRuntime
  sys_checked :: "(string \<times> JobSpec) list"
  sys_ready :: "(string \<times> TaskLaunch) list"

definition new_system :: TaskSystem where
  "new_system = \<lparr>sys_rt = new_runtime, sys_checked = [], sys_ready = []\<rparr>"

inductive sys_step :: "Host \<Rightarrow> TaskSystem \<Rightarrow> TaskSystem \<Rightarrow> bool" for host where
  sys_check: "prepare_check jid (sys_rt s) = Inr () \<Longrightarrow> job_id job = [] \<or> job_id job = jid \<Longrightarrow>
     sys_step host s (s\<lparr>sys_checked := (jid, job) # sys_checked s\<rparr>)"
| sys_launch: "(jid, job) \<in> set (sys_checked s) \<Longrightarrow>
     prepare_launch host jid job (sys_rt s) = (res, rt') \<Longrightarrow>
     sys_step host s (s\<lparr>sys_rt := rt', sys_checked := remove1 (jid, job) (sys_checked s),
       sys_ready := (case res of Inl _ \<Rightarrow> sys_ready s | Inr l \<Rightarrow> (jid, l) # sys_ready s)\<rparr>)"
| sys_commit: "(jid, l) \<in> set (sys_ready s) \<Longrightarrow>
     prepare_commit host jid l (sys_rt s) = (res, rt') \<Longrightarrow>
     sys_step host s (s\<lparr>sys_rt := rt', sys_ready := remove1 (jid, l) (sys_ready s)\<rparr>)"
| sys_running: "sys_step host s (s\<lparr>sys_rt := mark_running jid (sys_rt s)\<rparr>)"
| sys_stdout: "feed_stdout host jid chunk (sys_rt s) = (kill, rt') \<Longrightarrow>
     sys_step host s (s\<lparr>sys_rt := rt'\<rparr>)"
| sys_stderr: "feed_stderr jid chunk (sys_rt s) = (stop, rt') \<Longrightarrow>
     sys_step host s (s\<lparr>sys_rt := rt'\<rparr>)"
| sys_cancel: "request_cancel host jid (sys_rt s) = (grace, rt') \<Longrightarrow>
     sys_step host s (s\<lparr>sys_rt := rt'\<rparr>)"
| sys_complete: "complete host jid code (sys_rt s) = (payload, rt') \<Longrightarrow>
     sys_step host s (s\<lparr>sys_rt := rt'\<rparr>)"
| sys_fail_start: "fail_start host jid message (sys_rt s) = (answer, rt') \<Longrightarrow>
     sys_step host s (s\<lparr>sys_rt := rt'\<rparr>)"
| sys_abandon: "sys_step host s (s\<lparr>sys_rt := abandon host jid (sys_rt s)\<rparr>)"
| sys_shutdown: "begin_shutdown host (sys_rt s) = (snap, rt') \<Longrightarrow>
     sys_step host s (s\<lparr>sys_rt := rt'\<rparr>)"

inductive_cases sys_step_cases: "sys_step host s s'"

inductive sys_reach :: "Host \<Rightarrow> TaskSystem \<Rightarrow> bool" for host where
  reach_new: "sys_reach host new_system"
| reach_step: "sys_reach host s \<Longrightarrow> sys_step host s s' \<Longrightarrow> sys_reach host s'"

definition launch_for :: "Host \<Rightarrow> string \<Rightarrow> TaskLaunch \<Rightarrow> bool" where
  "launch_for host jid l \<longleftrightarrow>
     job_id (launch_job l) = jid \<and> launch_job_path l = job_path_of host jid \<and>
     launch_cancel_path l = cancel_path_of host jid"

lemma prepare_launch_result:
  assumes "prepare_launch host jid job rt = (res, rt')"
  shows "tasks rt' = tasks rt \<and> closing rt' = closing rt \<and> published rt' = published rt \<and>
         (\<forall>l. res = Inr l \<longrightarrow> launch_for host jid l \<and> task_type (launch_job l) \<noteq> [] \<and>
                 job_path_of host jid \<in> set (files rt'))"
  using assms
  by (auto simp: prepare_launch_def Let_def launch_for_def job_from_dict_def with_runtime_paths_def
      job_validate_def dict_simps write_file_def
      split: if_splits sum.splits)

definition system_inv :: "Host \<Rightarrow> TaskSystem \<Rightarrow> bool" where
  "system_inv host s \<longleftrightarrow>
     runtime_inv (sys_rt s) \<and> (\<forall>(jid, l) \<in> set (sys_ready s). launch_for host jid l)"

lemma task_ok_new: "launch_for host jid l \<Longrightarrow> task_ok jid (new_task l)"
  by (simp add: task_ok_def new_task_def launch_for_def TERMINAL_TASK_STATES_def)

lemma inv_prepare_commit:
  assumes "runtime_inv rt" and "launch_for host jid l" and "prepare_commit host jid l rt = (res, rt')"
  shows "runtime_inv rt'"
proof -
  have "runtime_inv (set_state jid STARTING (set_state jid PENDING (put_task jid (new_task l) rt)))"
    using assms(1) task_ok_new [OF assms(2)]
    by (auto intro!: inv_set_state inv_put_task simp: TERMINAL_TASK_STATES_def)
  then show ?thesis
    using assms by (auto simp: prepare_commit_def split: sum.splits)
qed

lemma inv_mark_running: "runtime_inv rt \<Longrightarrow> runtime_inv (mark_running jid rt)"
  by (auto simp: mark_running_def inv_set_state TERMINAL_TASK_STATES_def split: option.splits)

lemma inv_fail_start: "runtime_inv rt \<Longrightarrow> fail_start host jid m rt = (r, rt') \<Longrightarrow> runtime_inv rt'"
  by (auto simp: fail_start_def Let_def split: option.splits prod.splits intro: inv_close_task)

lemma inv_abandon:
  assumes "runtime_inv rt"
  shows "runtime_inv (abandon host jid rt)"
proof (cases "get_task rt jid")
  case None
  with assms show ?thesis by (simp add: abandon_def)
next
  case (Some t)
  have "runtime_inv (write_cancel_file host t (put_task jid (t\<lparr>cancel_requested := True\<rparr>) rt))"
    using assms runtime_inv_task [OF assms Some]
    by (simp add: inv_put_task task_ok_cancel)
  then show ?thesis using Some by (simp add: abandon_def inv_finish_set_state)
qed

lemma inv_begin_shutdown:
  assumes "runtime_inv rt" and "begin_shutdown host rt = (r, rt')"
  shows "runtime_inv rt'"
proof -
  have "runtime_inv (rt\<lparr>closing := True\<rparr>)" using assms(1) by (simp add: runtime_inv_def)
  then show ?thesis
    using assms(2) by (auto simp: begin_shutdown_def split: prod.splits sum.splits
        dest: inv_cancel_each)
qed

lemma system_inv_ready_remove:
  "system_inv host s \<Longrightarrow> runtime_inv rt' \<Longrightarrow>
   system_inv host (s\<lparr>sys_rt := rt', sys_ready := remove1 x (sys_ready s)\<rparr>)"
  by (auto simp: system_inv_def dest: notin_set_remove1)

lemma sys_step_inv: "sys_step host s s' \<Longrightarrow> system_inv host s \<Longrightarrow> system_inv host s'"
proof (induction rule: sys_step.induct)
  case (sys_launch jid job s res rt')
  note r = prepare_launch_result [OF sys_launch(2)]
  have "runtime_inv rt' = runtime_inv (sys_rt s)" using r by (intro inv_tasks_eq) simp
  with sys_launch.prems have inv: "runtime_inv rt'" by (simp add: system_inv_def)
  have lf: "res = Inr l \<Longrightarrow> launch_for host jid l" for l using r by simp
  show ?case
    using sys_launch.prems inv lf by (cases res) (simp_all add: system_inv_def)
next
  case (sys_commit jid l s res rt')
  then have l: "launch_for host jid l" and i: "runtime_inv (sys_rt s)"
    by (auto simp: system_inv_def)
  have "runtime_inv rt'" by (rule inv_prepare_commit [OF i l sys_commit(2)])
  with sys_commit.prems show ?case by (rule system_inv_ready_remove)
qed (auto simp: system_inv_def inv_mark_running inv_abandon
      intro: inv_feed_stdout inv_feed_stderr inv_request_cancel inv_complete inv_fail_start
        inv_begin_shutdown)

lemma system_inv_new: "system_inv host new_system"
  by (simp add: system_inv_def new_system_def runtime_inv_def new_runtime_def)

lemma reach_inv: "sys_reach host s \<Longrightarrow> system_inv host s"
  by (induction rule: sys_reach.induct) (auto intro: system_inv_new sys_step_inv)



section \<open>A concrete host and job\<close>

definition sample_host :: Host where
  "sample_host =
     \<lparr>host_cache_dir = ''cache'', host_app_root = ''app'', host_code_root = ''src'',
      host_executable = ''python'', host_frozen = False, host_sep = ''/'', host_pathsep = '';'',
      host_environ = [], host_denied = (\<lambda>_. False), host_loads = (\<lambda>_. None),
      host_redact = (\<lambda>s. s)\<rparr>"

definition sample_job :: JobSpec where
  "sample_job =
     \<lparr>job_id = ''j1'', task_type = ''scan'', params = [], cancel_path = [],
      trigger_source = ''ui'', parent_task_id = [], retry_of_task_id = [], recovery_source = []\<rparr>"

definition sample_launch :: TaskLaunch where
  "sample_launch =
     \<lparr>launch_job = sample_job\<lparr>cancel_path := ''cache/background_jobs/j1.cancel''\<rparr>,
      launch_job_path = ''cache/background_jobs/j1.json'',
      launch_cancel_path = ''cache/background_jobs/j1.cancel'',
      launch_program = ''python'',
      launch_arguments = [''-m'', ''netconsole.background_worker'', ''--job'',
                          ''cache/background_jobs/j1.json''],
      launch_cwd = ''src'',
      launch_env = [(''PYTHONUTF8'', ''1''), (''PYTHONIOENCODING'', ''utf-8''), (''PYTHONPATH'', ''src'')]\<rparr>"

definition sample_rt :: TaskRuntime where
  "sample_rt = snd (prepare sample_host [] sample_job new_runtime)"

lemma sample_prepare_launch:
  "prepare_launch sample_host ''j1'' sample_job (new_runtime\<lparr>files := fs\<rparr>) =
     (Inr sample_launch, new_runtime\<lparr>files := List.insert ''cache/background_jobs/j1.json'' fs\<rparr>)"
proof -
  have "job_from_dict (dput ''job_id'' (PStr ''j1'') (job_to_dict sample_job)) = Inr sample_job"
    by code_simp
  then show ?thesis
    by (simp add: prepare_launch_def sample_host_def sample_job_def sample_launch_def Let_def
        job_dir_def job_path_of_def cancel_path_of_def with_runtime_paths_def job_validate_def
        write_file_def worker_command_def worker_code_root_def worker_environment_def
        new_runtime_def)
qed

lemma sample_rt_reach: "\<exists>s. sys_reach sample_host s \<and> sys_rt s = sample_rt"
proof -
  have check: "prepare_check ''j1'' new_runtime = Inr ()"
    by (simp add: prepare_check_def new_runtime_def)
  have launch0: "prepare_launch sample_host ''j1'' sample_job new_runtime =
      (Inr sample_launch, new_runtime\<lparr>files := [''cache/background_jobs/j1.json'']\<rparr>)"
    using sample_prepare_launch [of "[]"] by (simp add: new_runtime_def)
  let ?rt1 = "new_runtime\<lparr>files := [''cache/background_jobs/j1.json'']\<rparr>"
  let ?s1 = "new_system\<lparr>sys_checked := [(''j1'', sample_job)]\<rparr>"
  let ?s2 = "new_system\<lparr>sys_rt := ?rt1, sys_ready := [(''j1'', sample_launch)]\<rparr>"
  have "sys_step sample_host new_system ?s1"
    using sys_check [of "''j1''" new_system sample_job sample_host] check
    by (simp add: new_system_def sample_job_def)
  then have r1: "sys_reach sample_host ?s1" by (rule reach_step [OF reach_new])
  have "sys_step sample_host ?s1 ?s2"
    using sys_launch [of "''j1''" sample_job ?s1 sample_host "Inr sample_launch" ?rt1] launch0
    by (simp add: new_system_def)
  then have r2: "sys_reach sample_host ?s2" by (rule reach_step [OF r1])
  let ?rt = "snd (prepare_commit sample_host ''j1'' sample_launch ?rt1)"
  have "sys_step sample_host ?s2 (new_system\<lparr>sys_rt := ?rt\<rparr>)"
    using sys_commit [of "''j1''" sample_launch ?s2 sample_host _ ?rt]
    by (simp add: new_system_def prod_eq_iff)
  then have "sys_reach sample_host (new_system\<lparr>sys_rt := ?rt\<rparr>)" by (rule reach_step [OF r2])
  moreover have "?rt = sample_rt"
    using launch0 check by (simp add: sample_rt_def prepare_def sample_job_def)
  ultimately show ?thesis by (metis TaskSystem.select_convs(1) TaskSystem.surjective TaskSystem.update_convs(1))
qed

lemma sample_launch_new:
  "prepare_launch sample_host ''j1'' sample_job new_runtime =
     (Inr sample_launch, new_runtime\<lparr>files := [''cache/background_jobs/j1.json'']\<rparr>)"
  using sample_prepare_launch [of "[]"] by (simp add: new_runtime_def)

lemma sample_check: "prepare_check ''j1'' (new_runtime\<lparr>files := fs\<rparr>) = Inr ()" "prepare_check ''j1'' new_runtime = Inr ()"
  by (simp_all add: prepare_check_def new_runtime_def)

lemma sample_rt_eq:
  "sample_rt = set_state ''j1'' STARTING (set_state ''j1'' PENDING
     (put_task ''j1'' (new_task sample_launch)
        (new_runtime\<lparr>files := [''cache/background_jobs/j1.json'']\<rparr>)))"
proof -
  have "job_id sample_job = ''j1''" by (simp add: sample_job_def)
  then show ?thesis
    by (simp add: sample_rt_def prepare_def prepare_commit_def sample_launch_new sample_check Let_def)
qed

lemma sample_task:
  "get_task sample_rt ''j1'' = Some ((new_task sample_launch)\<lparr>task_state := STARTING\<rparr>)"
  by (simp add: sample_rt_eq)


section \<open>After shutdown has begun\<close>

text \<open>\<open>shrinks rt rt'\<close>: no job is registered anew and the closing flag is kept.\<close>

definition shrinks :: "TaskRuntime \<Rightarrow> TaskRuntime \<Rightarrow> bool" where
  "shrinks rt rt' \<longleftrightarrow>
     (closing rt \<longrightarrow> closing rt') \<and> (\<forall>j. get_task rt' j \<noteq> None \<longrightarrow> get_task rt j \<noteq> None)"

lemma shrinks_refl [simp]: "shrinks rt rt"
  by (simp add: shrinks_def)

lemma shrinks_trans: "shrinks a b \<Longrightarrow> shrinks b c \<Longrightarrow> shrinks a c"
  by (simp add: shrinks_def)

lemma shrinks_put: "get_task rt jid = Some t \<Longrightarrow> shrinks rt (put_task jid t' rt)"
  by (simp add: shrinks_def)

lemma shrinks_frames [simp]:
  "shrinks rt (emit evs rt)" "shrinks rt (set_state jid st rt)" "shrinks rt (finish host jid rt)"
  "shrinks rt (remove_files host ps rt)" "shrinks rt (write_cancel_file host t rt)"
  by (auto simp: shrinks_def split: if_splits)

lemma shrinks_emit_put: "get_task rt jid = Some t \<Longrightarrow> shrinks rt (emit evs (put_task jid t' rt))"
  by (auto simp: shrinks_def)

lemma shrinks_close: "close_task host jid t p st rt = (p', rt') \<Longrightarrow> shrinks rt rt'"
  by (auto simp: close_task_def Let_def shrinks_def split: if_splits)

lemma shrinks_complete:
  assumes "complete host jid code rt = (r, rt')"
  shows "shrinks rt rt'"
proof (cases "get_task rt jid")
  case None
  with assms show ?thesis by (simp add: complete_def)
next
  case (Some t)
  have put2: "shrinks rt (emit e (put_task jid t2 (emit e' (put_task jid t1 rt))))" for e t2 e' t1
    using Some by (auto simp: shrinks_def)
  show ?thesis
    using assms Some shrinks_emit_put [OF Some] put2
    by (auto simp: complete_def Let_def split: prod.splits sum.splits
        dest!: shrinks_close dest: shrinks_trans [OF put2])
qed

lemma shrinks_feed_stdout: "feed_stdout host jid chunk rt = (r, rt') \<Longrightarrow> shrinks rt rt'"
  by (auto simp: feed_stdout_def Let_def shrinks_put shrinks_emit_put
      split: option.splits if_splits prod.splits)

lemma shrinks_feed_stderr: "feed_stderr jid chunk rt = (r, rt') \<Longrightarrow> shrinks rt rt'"
  by (auto simp: feed_stderr_def Let_def shrinks_put split: option.splits if_splits prod.splits)

lemma shrinks_request_cancel: "request_cancel host jid rt = (r, rt') \<Longrightarrow> shrinks rt rt'"
  by (auto simp: request_cancel_def Let_def shrinks_def split: option.splits if_splits)

lemma shrinks_cancel_each: "cancel_each host jids rt = (r, rt') \<Longrightarrow> shrinks rt rt'"
proof (induction jids arbitrary: rt)
  case Nil
  then show ?case by simp
next
  case (Cons jid rest)
  obtain g rt1 where c: "request_cancel host jid rt = (g, rt1)" by fastforce
  then have "shrinks rt rt1" by (rule shrinks_request_cancel)
  with Cons c show ?case by (cases g) (auto intro: shrinks_trans)
qed

lemma shrinks_begin_shutdown: "begin_shutdown host rt = (r, rt') \<Longrightarrow> shrinks rt rt' \<and> closing rt'"
proof -
  assume "begin_shutdown host rt = (r, rt')"
  then obtain r1 where "cancel_each host (map fst (tasks rt)) (rt\<lparr>closing := True\<rparr>) = (r1, rt')"
    by (auto simp: begin_shutdown_def split: prod.splits sum.splits)
  then have "shrinks (rt\<lparr>closing := True\<rparr>) rt'" by (rule shrinks_cancel_each)
  then show ?thesis by (auto simp: shrinks_def)
qed

lemma shrinks_abandon: "shrinks rt (abandon host jid rt)"
  by (auto simp: abandon_def shrinks_def split: option.splits)

lemma shrinks_fail_start: "fail_start host jid m rt = (r, rt') \<Longrightarrow> shrinks rt rt'"
  by (auto simp: fail_start_def Let_def split: option.splits prod.splits dest: shrinks_close)

lemma shrinks_commit_closing:
  "closing rt \<Longrightarrow> prepare_commit host jid l rt = (r, rt') \<Longrightarrow> shrinks rt rt'"
  by (auto simp: prepare_commit_def prepare_check_def)

lemma shrinks_launch: "prepare_launch host jid job rt = (r, rt') \<Longrightarrow> shrinks rt rt'"
  using prepare_launch_result by (auto simp: shrinks_def)

lemma shrinks_mark_running: "shrinks rt (mark_running jid rt)"
  by (auto simp: mark_running_def split: option.splits)

lemmas shrinks_ops = shrinks_complete shrinks_feed_stdout shrinks_feed_stderr
  shrinks_request_cancel shrinks_abandon shrinks_fail_start shrinks_commit_closing
  shrinks_launch shrinks_mark_running

text \<open>
  C18. Once shutdown has begun, no step of any thread registers a task: the closing flag stays set
  and the registered job ids only shrink, even for calls of \<open>prepare\<close> that passed their first test
  before the flag was set.
\<close>

theorem no_registration_after_shutdown:
  assumes "sys_step host s s'" and "closing (sys_rt s)"
  shows "closing (sys_rt s') \<and>
         (\<forall>jid. get_task (sys_rt s') jid \<noteq> None \<longrightarrow> get_task (sys_rt s) jid \<noteq> None)"
proof -
  have "shrinks (sys_rt s) (sys_rt s')"
    using assms
    by (induction rule: sys_step.induct) (auto intro: shrinks_ops dest: shrinks_begin_shutdown)
  then show ?thesis using assms(2) by (simp add: shrinks_def)
qed

theorem no_registration_after_shutdown_witness:
  "let s = new_system\<lparr>sys_rt := new_runtime\<lparr>closing := True\<rparr>, sys_ready := [(''j1'', sample_launch)]\<rparr>;
       s' = s\<lparr>sys_rt := snd (prepare_commit sample_host ''j1'' sample_launch (sys_rt s)), sys_ready := []\<rparr>
   in sys_step sample_host s s' \<and> get_task (sys_rt s') ''j1'' = None"
proof -
  let ?s = "new_system\<lparr>sys_rt := new_runtime\<lparr>closing := True\<rparr>, sys_ready := [(''j1'', sample_launch)]\<rparr>"
  let ?rt = "snd (prepare_commit sample_host ''j1'' sample_launch (sys_rt ?s))"
  have step: "sys_step sample_host ?s (?s\<lparr>sys_rt := ?rt, sys_ready := []\<rparr>)"
    using sys_commit [of "''j1''" sample_launch ?s sample_host _ ?rt]
    by (simp add: prod_eq_iff)
  have "get_task (sys_rt ?s) ''j1'' = None" by (simp add: new_runtime_def)
  then have "get_task ?rt ''j1'' = None"
    using no_registration_after_shutdown [OF step] by auto
  with step show ?thesis by simp
qed

end
