(* ===== verification/Runtime_Outcomes.thy ===== *)
theory Runtime_Outcomes
  imports Runtime_Props
begin

text \<open>
  What the operations of the task runtime achieve: the effect of completion, cancellation and
  shutdown, the precedence of protocol errors, independence of the worker stream from chunking,
  and the race between two concurrent \<open>prepare\<close> calls for one job id.
\<close>

section \<open>Completion\<close>

lemma terminal_outcome_terminal: "snd (terminal_outcome jid code t) \<in> TERMINAL_TASK_STATES"
  by (auto simp: terminal_outcome_def finished_terminal_state_def TERMINAL_TASK_STATES_def Let_def
      split: option.splits)

lemma terminal_outcome_completed:
  assumes "snd (terminal_outcome jid code t) = COMPLETED"
  shows "code = 0 \<and> protocol_error_payload t = None \<and>
         (\<exists>event. terminal_event t = Some event \<and> str_or_empty (dget event ''type'') = ''finished'')"
  using assms
  by (auto simp: terminal_outcome_def Let_def dict_simps split: option.splits if_splits)

lemma close_task_effect:
  assumes "close_task host jid t p0 st rt = (p, rt')" and "get_task rt jid = Some t"
  shows "published rt' = published rt @ [(p, ''service''), (state_event (Some t) jid st, ''service'')] \<and>
         get_task rt' jid = None \<and> (\<forall>j. j \<noteq> jid \<longrightarrow> get_task rt' j = get_task rt j) \<and>
         (\<forall>f \<in> {launch_job_path (launch t), launch_cancel_path (launch t)}.
            f \<in> set (files rt') \<longrightarrow> host_denied host f)"
  using assms
  by (auto simp: close_task_def Let_def published_set_state finish_def remove_files_def
      delete_conv' split: option.splits)

lemma protocol_error_sticky:
  assumes "accept_worker_event host t ev = (t', evs)"
  shows "protocol_error_reason t \<noteq> [] \<longrightarrow> protocol_error_reason t' \<noteq> []"
  using assms by (auto simp: accept_worker_event_def fail_protocol_def Let_def split: if_splits)

lemma flush_keeps_error: "protocol_error_reason t \<noteq> [] \<Longrightarrow> flush_decoders host t = (Inr (), t, [])"
  by (simp add: flush_decoders_def)

lemma drain_keeps_error: "protocol_error_reason t \<noteq> [] \<Longrightarrow> drain_last_line host t = (Inr (), t, [])"
  by (simp add: drain_last_line_def)

lemma update_same: "map_of xs k = Some v \<Longrightarrow> AList.update k v xs = xs"
  by (induction xs) (auto split: if_splits)

lemma put_same_task: "get_task rt jid = Some t \<Longrightarrow> put_task jid t rt = rt"
  by (simp add: put_task_def update_same)

lemma emit_Nil: "emit [] rt = rt"
  by (simp add: emit_def)

text \<open>How \<open>complete\<close> reaches its outcome, with the intermediate task.\<close>

lemma complete_unfold:
  assumes "get_task rt jid = Some t" and "complete host jid code rt = (Inr (Some p), rt')"
  obtains t1 e1 t2 e2 where "flush_decoders host t = (Inr (), t1, e1)"
    and "drain_last_line host t1 = (Inr (), t2, e2)"
    and "close_task host jid t2 (fst (terminal_outcome jid code t2)) (snd (terminal_outcome jid code t2))
           (emit e2 (put_task jid t2 (emit e1 (put_task jid t1 rt)))) = (p, rt')"
  using assms by (auto simp: complete_def Let_def split: prod.splits sum.splits)

text \<open>
  C17. Completion: when \<open>complete\<close> returns, the task is unregistered (and no other task changes),
  its job and cancel files are gone unless the operating system refused, and exactly two events
  follow what the worker sent: the returned payload and the change to a terminal state. The state
  is \<open>COMPLETED\<close> only for exit code 0 and a task that had no protocol error.
\<close>

theorem complete_effect:
  assumes "runtime_inv rt" and t: "get_task rt jid = Some t"
    and c: "complete host jid code rt = (Inr (Some p), rt')"
  shows "\<exists>st t' evs. st \<in> TERMINAL_TASK_STATES \<and> launch t' = launch t \<and>
           published rt' = published rt @ evs @
             [(p, ''service''), (state_event (Some t') jid st, ''service'')] \<and>
           get_task rt' jid = None \<and> (\<forall>j. j \<noteq> jid \<longrightarrow> get_task rt' j = get_task rt j) \<and>
           (\<forall>f. f = launch_job_path (launch t) \<or> f = launch_cancel_path (launch t) \<longrightarrow>
              f \<notin> set (files rt') \<or> host_denied host f) \<and>
           (st = COMPLETED \<longrightarrow> code = 0 \<and> protocol_error_reason t = [])"
proof -
  obtain t1 e1 t2 e2 where f: "flush_decoders host t = (Inr (), t1, e1)"
    and d: "drain_last_line host t1 = (Inr (), t2, e2)"
    and cl: "close_task host jid t2 (fst (terminal_outcome jid code t2))
        (snd (terminal_outcome jid code t2))
        (emit e2 (put_task jid t2 (emit e1 (put_task jid t1 rt)))) = (p, rt')"
    using complete_unfold [OF t c] by blast
  let ?st = "snd (terminal_outcome jid code t2)"
  have l: "launch t2 = launch t"
    using same.keeps_drain [OF d same.keeps_flush [OF f]] by blast
  have "task_ok jid t" using assms(1) t by (rule runtime_inv_task)
  then have ok: "task_ok jid t2" using f d ok.keeps_flush ok.keeps_drain by blast
  have "?st = COMPLETED \<longrightarrow> code = 0 \<and> protocol_error_reason t2 = []"
    using terminal_outcome_completed [of jid code t2] ok by (auto simp: task_ok_def)
  moreover have "protocol_error_reason t \<noteq> [] \<longrightarrow> t2 = t"
    using f d flush_keeps_error drain_keeps_error by (metis prod.inject)
  ultimately have "?st = COMPLETED \<longrightarrow> code = 0 \<and> protocol_error_reason t = []" by auto
  moreover note close_task_effect [OF cl]
  ultimately show ?thesis
    using l terminal_outcome_terminal [of jid code t2]
    by (intro exI [of _ ?st] exI [of _ t2] exI [of _ "e1 @ e2"]) auto
qed

lemma sample_rt_inv: "runtime_inv sample_rt"
proof -
  obtain s where "sys_reach sample_host s" "sys_rt s = sample_rt"
    using sample_rt_reach by blast
  then show ?thesis using reach_inv [of sample_host s] by (simp add: system_inv_def)
qed

lemma sample_complete:
  "\<exists>p rt'. complete sample_host ''j1'' 3 sample_rt = (Inr (Some p), rt')"
proof -
  let ?t = "(new_task sample_launch)\<lparr>task_state := STARTING\<rparr>"
  have f: "flush_decoders sample_host ?t = (Inr (), ?t\<lparr>encoding_logged := True\<rparr>, [])"
    by (simp add: flush_decoders_def new_task_def new_decoder_def decoder_decode_def Let_def
        replacement_char_def)
  have "drain_last_line sample_host (?t\<lparr>encoding_logged := True\<rparr>) =
          (Inr (), ?t\<lparr>encoding_logged := True\<rparr>, [])"
    by (simp add: drain_last_line_def new_task_def)
  with f show ?thesis
    by (simp add: complete_def sample_task Let_def split: prod.splits)
qed

theorem complete_effect_witness:
  "\<exists>p rt'. complete sample_host ''j1'' 3 sample_rt = (Inr (Some p), rt') \<and> get_task rt' ''j1'' = None"
proof -
  obtain p rt' where c: "complete sample_host ''j1'' 3 sample_rt = (Inr (Some p), rt')"
    using sample_complete by blast
  show ?thesis using c complete_effect [OF sample_rt_inv sample_task c] by blast
qed

text \<open>
  A protocol error decides the outcome: whatever terminal event the worker had sent, whatever
  its exit code and even if a cancellation was requested, a task with a protocol error ends as
  \<open>FAILED\<close>; the payload is the error payload of the first protocol error with the exit code added,
  both at the top and in its result.
\<close>

theorem protocol_error_fails:
  assumes "get_task rt jid = Some t" and "task_ok jid t" and "protocol_error_reason t \<noteq> []"
  shows "\<exists>pl. protocol_error_payload t = Some pl \<and>
           (let q = attach_worker_exit_code code pl in
            complete host jid code rt = map_prod (Inr \<circ> Some) id (close_task host jid t q FAILED rt) \<and>
            dget q ''worker_exit_code'' = PInt code \<and>
            dget (dict_of (dget q ''result'')) ''worker_exit_code'' = PInt code)"
proof -
  obtain pl where pl: "protocol_error_payload t = Some pl"
    using assms(2,3) by (auto simp: task_ok_def)
  have "terminal_outcome jid code t = (attach_worker_exit_code code pl, FAILED)"
    using pl by (simp add: terminal_outcome_def)
  then show ?thesis
    using assms pl put_same_task [OF assms(1)]
    by (simp add: complete_def flush_keeps_error drain_keeps_error attach_worker_exit_code_def
        dict_simps Let_def emit_Nil split: prod.splits)
qed

definition broken_rt :: TaskRuntime where
  "broken_rt = put_task ''j1'' (fail_protocol DECODE_FAILED ''stdout'' None (new_task sample_launch)) new_runtime"

theorem protocol_error_fails_witness:
  "\<exists>p rt'. complete sample_host ''j1'' 0 broken_rt = (Inr (Some p), rt')"
proof -
  have t: "get_task broken_rt ''j1'' = Some (fail_protocol DECODE_FAILED ''stdout'' None (new_task sample_launch))"
    by (simp add: broken_rt_def)
  have k: "task_ok ''j1'' (fail_protocol DECODE_FAILED ''stdout'' None (new_task sample_launch))"
    by (intro task_ok_fail) (simp_all add: task_ok_def new_task_def sample_launch_def sample_job_def
        TERMINAL_TASK_STATES_def)
  have r: "protocol_error_reason (fail_protocol DECODE_FAILED ''stdout'' None (new_task sample_launch)) \<noteq> []"
    by (simp add: fail_protocol_reason)
  have "\<exists>x. complete sample_host ''j1'' 0 broken_rt = map_prod (Inr \<circ> Some) id x"
    using protocol_error_fails [OF t k r, of 0 sample_host] by (auto simp only: Let_def)
  then show ?thesis by (metis comp_apply map_prod_simp surj_pair)
qed

section \<open>Cancellation\<close>

text \<open>
  Requesting cancellation of a registered task marks it, moves it to \<open>STOPPING\<close>, writes its
  cancel file unless refused and answers with a grace period between 0 and 60000 milliseconds; an
  unknown id changes nothing and answers 0.
\<close>

theorem request_cancel_effect:
  assumes "request_cancel host jid rt = (Inr grace, rt')"
  shows "0 \<le> grace \<and> grace \<le> 60000 \<and>
    (case get_task rt jid of
       None \<Rightarrow> grace = 0 \<and> rt' = rt
     | Some t \<Rightarrow>
         get_task rt' jid = Some (t\<lparr>cancel_requested := True, task_state := STOPPING\<rparr>) \<and>
         (launch_cancel_path (launch t) \<in> set (files rt') \<or> host_denied host (launch_cancel_path (launch t))))"
  using assms
  by (auto simp: request_cancel_def cancel_grace_def Let_def write_cancel_file_def write_file_def
      split: option.splits sum.splits pyerr.splits)

theorem request_cancel_effect_witness:
  "\<exists>rt'. request_cancel sample_host ''j1'' sample_rt = (Inr 0, rt') \<and>
     map_option task_state (get_task rt' ''j1'') = Some STOPPING"
proof -
  have "cancel_grace (params (task_job ((new_task sample_launch)\<lparr>task_state := STARTING\<rparr>))) = Inr 0"
    by (simp add: cancel_grace_def new_task_def sample_launch_def sample_job_def dict_simps)
  then obtain rt' where c: "request_cancel sample_host ''j1'' sample_rt = (Inr 0, rt')"
    by (simp add: request_cancel_def sample_task Let_def)
  show ?thesis using c request_cancel_effect [OF c] sample_task by simp
qed

section \<open>Shutdown\<close>

lemma request_cancel_stopping:
  assumes "request_cancel host jid rt = (r, rt')"
  shows "map_option (\<lambda>t. (task_state t, cancel_requested t)) (get_task rt' j) =
           (if j = jid then map_option (\<lambda>_. (STOPPING, True)) (get_task rt j)
            else map_option (\<lambda>t. (task_state t, cancel_requested t)) (get_task rt j))"
  using assms by (auto simp: request_cancel_def Let_def split: option.splits)

lemma cancel_each_stopping:
  "cancel_each host jids rt = (Inr (), rt') \<Longrightarrow>
   map_option (\<lambda>t. (task_state t, cancel_requested t)) (get_task rt' j) =
     (if j \<in> set jids then map_option (\<lambda>_. (STOPPING, True)) (get_task rt j)
      else map_option (\<lambda>t. (task_state t, cancel_requested t)) (get_task rt j))"
proof (induction jids arbitrary: rt)
  case Nil
  then show ?case by simp
next
  case (Cons jid rest)
  obtain g rt1 where c: "request_cancel host jid rt = (Inr g, rt1)"
    and r: "cancel_each host rest rt1 = (Inr (), rt')"
    using Cons.prems by (auto split: prod.splits sum.splits)
  note one = request_cancel_stopping [OF c, of j]
  have "get_task rt1 j = None \<longleftrightarrow> get_task rt j = None"
    using c by (auto simp: request_cancel_def Let_def split: option.splits if_splits)
  then have "map_option (\<lambda>_. (STOPPING, True)) (get_task rt1 j) =
      map_option (\<lambda>_. (STOPPING, True)) (get_task rt j)"
    by (cases "get_task rt1 j"; cases "get_task rt j") auto
  with Cons.IH [OF r] one show ?case by auto
qed

text \<open>
  When \<open>begin_shutdown\<close> returns, new tasks are refused and every registered task is in state
  \<open>STOPPING\<close> with its cancellation requested.
\<close>

theorem begin_shutdown_effect:
  assumes "begin_shutdown host rt = (Inr snap, rt')" and "get_task rt' jid = Some t"
  shows "\<not> accept_new_tasks rt' \<and> task_state t = STOPPING \<and> cancel_requested t"
proof -
  have c: "cancel_each host (map fst (tasks rt)) (rt\<lparr>closing := True\<rparr>) = (Inr (), rt')"
    using assms(1) by (auto simp: begin_shutdown_def split: prod.splits sum.splits)
  have "shrinks rt rt'" and closed: "closing rt'"
    using shrinks_begin_shutdown [OF assms(1)] by simp_all
  then have "get_task rt jid \<noteq> None" using assms(2) by (simp add: shrinks_def)
  then have "jid \<in> set (map fst (tasks rt))" and "get_task rt jid \<noteq> None"
    by (auto simp: map_of_eq_None_iff)
  with cancel_each_stopping [OF c, of jid] assms(2) closed show ?thesis
    by (auto simp: accept_new_tasks_def)
qed

theorem begin_shutdown_effect_witness:
  "\<exists>snap rt'. begin_shutdown sample_host sample_rt = (Inr snap, rt') \<and>
     map_option task_state (get_task rt' ''j1'') = Some STOPPING"
proof -
  have "tasks sample_rt = [(''j1'', (new_task sample_launch)\<lparr>task_state := STARTING\<rparr>)]"
    by (simp add: sample_rt_eq set_state_def put_task_def emit_def new_runtime_def Let_def)
  moreover have "cancel_grace (params (task_job ((new_task sample_launch)\<lparr>task_state := STARTING\<rparr>))) = Inr 0"
    by (simp add: cancel_grace_def new_task_def sample_launch_def sample_job_def dict_simps)
  ultimately obtain snap rt' where b: "begin_shutdown sample_host sample_rt = (Inr snap, rt')"
    and g: "get_task rt' ''j1'' \<noteq> None"
    by (auto simp: begin_shutdown_def request_cancel_def Let_def)
  then show ?thesis using begin_shutdown_effect [OF b] by auto
qed


section \<open>Chunks of worker output\<close>

text \<open>
  Reading frames neither uses nor changes the buffered remainder, the decoders or the log flag:
  an update that commutes with recording an error or a terminal event commutes with the loop.
\<close>

locale frame_blind =
  fixes f :: "RuntimeTask \<Rightarrow> RuntimeTask"
  assumes blind_fail: "fail_protocol x s n (f t) = f (fail_protocol x s n t)"
    and blind_terminal: "(f t)\<lparr>terminal_event := e\<rparr> = f (t\<lparr>terminal_event := e\<rparr>)"
    and blind_launch: "launch (f t) = launch t"
    and blind_reason: "protocol_error_reason (f t) = protocol_error_reason t"
begin

lemma accept_blind:
  "accept_worker_event host (f t) ev = map_prod f id (accept_worker_event host t ev)"
  by (simp add: accept_worker_event_def Let_def blind_fail blind_terminal blind_launch)

lemma feed_frames_blind:
  "feed_frames host (f t) lines = (case feed_frames host t lines of (r, t', evs) \<Rightarrow> (r, f t', evs))"
proof (induction lines arbitrary: t)
  case Nil
  then show ?case by simp
next
  case (Cons raw rest)
  show ?case
    by (auto simp: Let_def blind_fail blind_reason accept_blind Cons.IH map_prod_def
        split: sum.splits prod.splits option.splits)
qed

lemma feed_frames_fixed:
  "f t = t \<Longrightarrow> feed_frames host t lines = (r, t', evs) \<Longrightarrow> f t' = t'"
  using feed_frames_blind [of host t lines] by simp

end

interpretation buf: frame_blind "\<lambda>t. t\<lparr>stdout_buffer := b\<rparr>" for b
  by unfold_locales (simp_all add: fail_protocol_def)

interpretation dec: frame_blind "\<lambda>t. t\<lparr>stdout_decoder := d\<rparr>" for d
  by unfold_locales (simp_all add: fail_protocol_def)

interpretation logged: frame_blind "\<lambda>t. t\<lparr>encoding_logged := b\<rparr>" for b
  by unfold_locales (simp_all add: fail_protocol_def)

lemma feed_text_decoder:
  "feed_stdout_text host (t\<lparr>stdout_decoder := d\<rparr>) x =
     (case feed_stdout_text host t x of (r, t', evs) \<Rightarrow> (r, t'\<lparr>stdout_decoder := d\<rparr>, evs))"
proof -
  have swap: "t\<lparr>stdout_decoder := d, stdout_buffer := b\<rparr> = t\<lparr>stdout_buffer := b, stdout_decoder := d\<rparr>"
    for b by simp
  show ?thesis
    unfolding feed_stdout_text_def Let_def
    by (simp add: swap dec.feed_frames_blind dec.blind_fail del: RuntimeTask.update_convs)
qed

lemma feed_text_keeps:
  assumes "feed_stdout_text host t x = (r, t', evs)"
  shows "stdout_decoder t' = stdout_decoder t \<and> encoding_logged t' = encoding_logged t"
proof -
  have "t'\<lparr>stdout_decoder := stdout_decoder t\<rparr> = t' \<and> t'\<lparr>encoding_logged := encoding_logged t\<rparr> = t'"
    using assms
      dec.feed_frames_fixed [where d = "stdout_decoder t" and host = host
        and t = "t\<lparr>stdout_buffer := last (split_on newline (stdout_buffer t @ x))\<rparr>"]
      logged.feed_frames_fixed [where b = "encoding_logged t" and host = host
        and t = "t\<lparr>stdout_buffer := last (split_on newline (stdout_buffer t @ x))\<rparr>"]
    by (auto simp: feed_stdout_text_def fail_protocol_def Let_def split: if_splits)
  then show ?thesis
    by (metis RuntimeTask.select_convs(7,9) RuntimeTask.surjective RuntimeTask.update_convs(7,9))
qed

lemma feed_frames_append:
  assumes "feed_frames host t xs = (Inr False, t1, e1)"
  shows "feed_frames host t (xs @ ys) =
           (case feed_frames host t1 ys of (r, t2, e2) \<Rightarrow> (r, t2, e1 @ e2))"
  using assms
proof (induction xs arbitrary: t e1)
  case Nil
  then show ?case by (simp split: prod.splits)
next
  case (Cons raw rest)
  then show ?case
    by (auto simp: Let_def split: if_splits sum.splits prod.splits option.splits)
qed

lemma feed_frames_no_error:
  "feed_frames host t xs = (Inr False, t1, e1) \<Longrightarrow> protocol_error_reason t = [] \<Longrightarrow>
   protocol_error_reason t1 = []"
  by (induction xs arbitrary: t e1)
     (auto simp: Let_def split: if_splits sum.splits prod.splits option.splits)

lemma feed_text_no_error:
  "feed_stdout_text host t x = (Inr False, t1, e1) \<Longrightarrow> protocol_error_reason t = [] \<Longrightarrow>
   protocol_error_reason t1 = []"
  by (auto simp: feed_stdout_text_def Let_def split: if_splits dest: feed_frames_no_error)

lemma feed_text_chunks:
  assumes first: "feed_stdout_text host t a = (Inr False, t1, e1)"
    and small: "length (stdout_buffer t) + length a + length b \<le> WORKER_PROTOCOL_MAX_FRAME_BYTES"
  shows "feed_stdout_text host t (a @ b) =
           (case feed_stdout_text host t1 b of (r, t2, e2) \<Rightarrow> (r, t2, e1 @ e2))"
proof -
  let ?s = "split_on newline (stdout_buffer t @ a)"
  let ?u = "split_on newline (last ?s @ b)"
  have split: "split_on newline (stdout_buffer t @ a @ b) = butlast ?s @ ?u"
    using split_on_append [of newline "stdout_buffer t @ a" b] by simp
  have last_short: "length (last (split_on d x)) \<le> length x" for d x
    by (induction x) (auto split: list.splits)
  have "length (last ?s @ b) \<le> WORKER_PROTOCOL_MAX_FRAME_BYTES"
    using small last_short [of newline "stdout_buffer t @ a"] by simp
  then have short: "length (last ?u) \<le> WORKER_PROTOCOL_MAX_FRAME_BYTES"
    using last_short [of newline "last ?s @ b"] by linarith
  have f: "feed_frames host (t\<lparr>stdout_buffer := last ?s\<rparr>) (butlast ?s) = (Inr False, t1, e1)"
    using first by (auto simp: feed_stdout_text_def Let_def split: if_splits)
  then have buf: "stdout_buffer t1 = last ?s"
    using buf.feed_frames_blind [where host = host and t = t and b = "last ?s" and lines = "butlast ?s"] by (auto split: prod.splits)
  have "feed_frames host (t\<lparr>stdout_buffer := last ?u\<rparr>) (butlast ?s) =
          (Inr False, t1\<lparr>stdout_buffer := last ?u\<rparr>, e1)"
    using buf.feed_frames_blind [where host = host and t = "t\<lparr>stdout_buffer := last ?s\<rparr>"
        and b = "last ?u" and lines = "butlast ?s"] f
    by simp
  note frames = feed_frames_append [OF this, of "butlast ?u"]
  show ?thesis
    using frames short buf split
    by (simp add: feed_stdout_text_def Let_def butlast_append)
qed



section \<open>Two concurrent calls for one job id\<close>

text \<open>
  Two calls of \<open>prepare\<close> for the same id can both pass the first test; the one that registers
  second is refused as a duplicate and deletes the job file, which is the file of the task the
  first call registered. The runtime then holds a task that is starting while the job file its
  worker is to read does not exist.
\<close>

theorem duplicate_prepare_race:
  "\<exists>s t. sys_reach sample_host s \<and> get_task (sys_rt s) ''j1'' = Some t \<and> task_state t = STARTING \<and>
     launch_job_path (launch t) = job_path_of sample_host ''j1'' \<and>
     job_path_of sample_host ''j1'' \<notin> set (files (sys_rt s))"
proof -
  let ?f = "''cache/background_jobs/j1.json''"
  let ?p = "(''j1'', sample_job)" and ?l = "(''j1'', sample_launch)"
  let ?rt1 = "new_runtime\<lparr>files := [?f]\<rparr>"
  let ?s1 = "new_system\<lparr>sys_checked := [?p]\<rparr>"
  let ?s2 = "new_system\<lparr>sys_checked := [?p, ?p]\<rparr>"
  let ?s3 = "new_system\<lparr>sys_rt := ?rt1, sys_checked := [?p], sys_ready := [?l]\<rparr>"
  let ?s4 = "new_system\<lparr>sys_rt := ?rt1, sys_ready := [?l, ?l]\<rparr>"
  let ?s5 = "new_system\<lparr>sys_rt := sample_rt, sys_ready := [?l]\<rparr>"
  let ?rt6 = "remove_files sample_host [?f, ''cache/background_jobs/j1.cancel''] sample_rt"
  let ?s6 = "new_system\<lparr>sys_rt := ?rt6\<rparr>"
  have jid: "job_id sample_job = ''j1''" by (simp add: sample_job_def)
  have s1: "sys_step sample_host new_system ?s1"
    using sys_check [of "''j1''" new_system sample_job sample_host] jid sample_check
    by (simp add: new_system_def)
  have s2: "sys_step sample_host ?s1 ?s2"
    using sys_check [of "''j1''" ?s1 sample_job sample_host] jid sample_check
    by (simp add: new_system_def)
  have s3: "sys_step sample_host ?s2 ?s3"
    using sys_launch [of "''j1''" sample_job ?s2 sample_host "Inr sample_launch" ?rt1]
      sample_launch_new by (simp add: new_system_def)
  have "prepare_launch sample_host ''j1'' sample_job ?rt1 = (Inr sample_launch, ?rt1)"
    using sample_prepare_launch [of "[?f]"] by simp
  then have s4: "sys_step sample_host ?s3 ?s4"
    using sys_launch [of "''j1''" sample_job ?s3 sample_host "Inr sample_launch" ?rt1]
    by (simp add: new_system_def)
  have "prepare_commit sample_host ''j1'' sample_launch ?rt1 = (Inr sample_launch, sample_rt)"
    by (simp add: prepare_commit_def sample_check sample_rt_eq)
  then have s5: "sys_step sample_host ?s4 ?s5"
    using sys_commit [of "''j1''" sample_launch ?s4 sample_host] by (simp add: new_system_def)
  have "prepare_commit sample_host ''j1'' sample_launch sample_rt =
      (Inl (RuntimeError msg_duplicate), ?rt6)"
  proof -
    have "\<not> closing sample_rt" by (simp add: sample_rt_eq new_runtime_def)
    then show ?thesis
      by (simp add: prepare_commit_def prepare_check_def sample_task) (simp add: sample_launch_def)
  qed
  then have s6: "sys_step sample_host ?s5 ?s6"
    using sys_commit [of "''j1''" sample_launch ?s5 sample_host] by (simp add: new_system_def)
  have "sys_reach sample_host ?s6"
    by (rule reach_step [OF reach_step [OF reach_step [OF reach_step [OF reach_step
          [OF reach_step [OF reach_new s1] s2] s3] s4] s5] s6])
  moreover have "job_path_of sample_host ''j1'' = ?f"
    by (simp add: job_path_of_def job_dir_def sample_host_def)
  moreover have "?f \<notin> set (files ?rt6)"
    by (simp add: remove_files_def sample_host_def)
  ultimately show ?thesis
    using sample_task
    by (intro exI [of _ ?s6] exI [of _ "(new_task sample_launch)\<lparr>task_state := STARTING\<rparr>"])
       (simp add: new_system_def new_task_def sample_launch_def)
qed

end
