(* ===== verification/Latest_Buffer.thy ===== *)
theory Latest_Buffer
  imports NC_Prelude
begin

text \<open>
  The contract of a bounded buffer that keeps the most recent entries. The subscriber streams of the
  task event hub promise it (a full queue drops its oldest event); the lemmas about whole runs of
  such a buffer are proved here once.
\<close>

definition last_n :: "nat \<Rightarrow> 'e list \<Rightarrow> 'e list" where
  "last_n n xs = drop (length xs - n) xs"

lemma length_last_n [simp]: "length (last_n n xs) = min n (length xs)"
  by (simp add: last_n_def)

lemma last_n_all [simp]: "length xs \<le> n \<Longrightarrow> last_n n xs = xs"
  by (simp add: last_n_def)

lemma last_n_append: "last_n n (last_n n xs @ ys) = last_n n (xs @ ys)"
  by (cases "n \<le> length xs") (auto simp: last_n_def add.commute)

lemma last_n_snoc: "0 < n \<Longrightarrow> last_n n (xs @ [x]) = last_n (n - 1) xs @ [x]"
  by (auto simp: last_n_def Suc_diff_le not_less)

lemma set_last_n: "set (last_n n xs) \<subseteq> set xs"
  by (simp add: last_n_def set_drop_subset)

locale latest_buffer =
  fixes contents :: "'q \<Rightarrow> 'e list"
    and cap :: "'q \<Rightarrow> nat"
    and put :: "'q \<Rightarrow> 'e \<Rightarrow> 'q"
  assumes put_contents:
      "length (contents q) \<le> cap q \<Longrightarrow> contents (put q e) = last_n (cap q) (contents q @ [e])"
    and put_cap: "cap (put q e) = cap q"
begin

lemma put_bounded: "length (contents q) \<le> cap q \<Longrightarrow> length (contents (put q e)) \<le> cap (put q e)"
  by (simp add: put_contents put_cap)

lemma run_cap: "cap (foldl put q es) = cap q"
  by (induction es arbitrary: q) (auto simp: put_cap)

lemma run_contents:
  "length (contents q) \<le> cap q \<Longrightarrow> contents (foldl put q es) = last_n (cap q) (contents q @ es)"
proof (induction es arbitrary: q)
  case Nil
  then show ?case by simp
next
  case (Cons e es)
  then have "contents (foldl put (put q e) es) = last_n (cap q) (contents (put q e) @ es)"
    using put_bounded [OF Cons.prems] by (simp add: put_cap)
  then show ?case using Cons.prems by (simp add: put_contents last_n_append)
qed

lemma run_bounded: "length (contents q) \<le> cap q \<Longrightarrow> length (contents (foldl put q es)) \<le> cap q"
  by (simp add: run_contents)

lemma newest_kept:
  "length (contents q) \<le> cap q \<Longrightarrow> 0 < cap q \<Longrightarrow> last (contents (put q e)) = e"
  by (simp add: put_contents last_n_snoc)

end

end
