(* ===== verification/Event_Hub.thy ===== *)
theory Event_Hub
  imports Latest_Buffer
begin

text \<open>
  \<^verbatim>\<open>services/job_center/runtime/task_event_hub.py\<close>. Guards and handlers are callbacks, named by
  numbers (the hub only compares them for identity); what a guard does with an envelope is the
  parameter \<open>guard_fn\<close>. Calling a handler is recorded in \<open>delivered\<close>, since the hub ignores both
  its result and its exceptions. A stream is a bounded queue; the queue object's identity is a
  number handed out by \<open>open_stream\<close>. The event id and time of a new envelope (\<open>uuid4\<close>, the
  clock) are the arguments \<open>fresh\<close> and \<open>now\<close>.
\<close>

section \<open>State\<close>

datatype guard_verdict = GPass | GFalse | GRaises

record stream_queue =
  sq_max :: nat
  sq_items :: "pydict list"

record TaskEventHub =
  hub_guards :: "nat list"
  hub_handlers :: "nat list"
  hub_streams :: "(nat \<times> stream_queue) list"
  hub_next :: nat
  hub_delivered :: "(nat \<times> pydict) list"

definition empty_hub :: TaskEventHub where
  "empty_hub = \<lparr>hub_guards = [], hub_handlers = [], hub_streams = [], hub_next = 0,
                hub_delivered = []\<rparr>"

section \<open>Operations\<close>

definition add_guard :: "nat \<Rightarrow> TaskEventHub \<Rightarrow> TaskEventHub" where
  "add_guard g h =
     (if g \<in> set (hub_guards h) then h else h\<lparr>hub_guards := hub_guards h @ [g]\<rparr>)"

definition subscribe :: "nat \<Rightarrow> TaskEventHub \<Rightarrow> TaskEventHub" where
  "subscribe handler h =
     (if handler \<in> set (hub_handlers h) then h
      else h\<lparr>hub_handlers := hub_handlers h @ [handler]\<rparr>)"

definition unsubscribe :: "nat \<Rightarrow> TaskEventHub \<Rightarrow> TaskEventHub" where
  "unsubscribe handler h = h\<lparr>hub_handlers := remove1 handler (hub_handlers h)\<rparr>"

definition open_stream :: "int \<Rightarrow> TaskEventHub \<Rightarrow> nat \<times> TaskEventHub" where
  "open_stream max_events h =
     (hub_next h,
      h\<lparr>hub_streams := hub_streams h @ [(hub_next h, \<lparr>sq_max = nat (max 1 max_events), sq_items = []\<rparr>)],
        hub_next := Suc (hub_next h)\<rparr>)"

definition close_stream :: "nat \<Rightarrow> TaskEventHub \<Rightarrow> TaskEventHub" where
  "close_stream sid h = h\<lparr>hub_streams := filter (\<lambda>(i, _). i \<noteq> sid) (hub_streams h)\<rparr>"

text \<open>\<open>put_nowait\<close> and \<open>get_nowait\<close> of \<open>queue.Queue\<close>; \<open>None\<close> is \<open>queue.Full\<close> or \<open>queue.Empty\<close>.\<close>

definition put_nowait :: "stream_queue \<Rightarrow> pydict \<Rightarrow> stream_queue option" where
  "put_nowait q e =
     (if sq_max q \<le> length (sq_items q) then None else Some (q\<lparr>sq_items := sq_items q @ [e]\<rparr>))"

definition get_nowait :: "stream_queue \<Rightarrow> (pydict \<times> stream_queue) option" where
  "get_nowait q =
     (case sq_items q of [] \<Rightarrow> None | e # rest \<Rightarrow> Some (e, q\<lparr>sq_items := rest\<rparr>))"

definition put_latest :: "stream_queue \<Rightarrow> pydict \<Rightarrow> stream_queue" where
  "put_latest q e =
     (case put_nowait q e of
        Some q' \<Rightarrow> q'
      | None \<Rightarrow>
          (let q1 = (case get_nowait q of Some (_, q') \<Rightarrow> q' | None \<Rightarrow> q)
           in case put_nowait q1 e of Some q' \<Rightarrow> q' | None \<Rightarrow> q1))"

definition ENVELOPE_KEYS :: "string list" where
  "ENVELOPE_KEYS = [''id'', ''task_id'', ''type'', ''time'', ''payload'']"

definition task_event_to_dict :: "string \<Rightarrow> string \<Rightarrow> string \<Rightarrow> string \<Rightarrow> string \<Rightarrow> pydict \<Rightarrow> pydict" where
  "task_event_to_dict event_id task_id event_type time source payload =
     [(''id'', PStr event_id), (''task_id'', PStr task_id), (''type'', PStr event_type),
      (''time'', PStr time), (''source'', PStr source), (''payload'', PDict payload)]"

definition hub_normalize :: "string \<Rightarrow> string \<Rightarrow> string \<Rightarrow> pydict \<Rightarrow> pydict" where
  "hub_normalize fresh now source event =
     (if list_all (dhas event) ENVELOPE_KEYS then event
      else task_event_to_dict fresh
             (str_or_empty (py_or (dget event ''job_id'') (dget event ''task_id'')))
             (py_str (py_or (dget event ''type'') (PStr ''log''))) now source event)"

definition publish_persisted ::
  "string \<Rightarrow> string \<Rightarrow> string \<Rightarrow> pydict \<Rightarrow> TaskEventHub \<Rightarrow> pydict \<times> TaskEventHub" where
  "publish_persisted fresh now source event h =
     (let envelope = hub_normalize fresh now source event in
      (envelope,
       h\<lparr>hub_delivered := hub_delivered h @ map (\<lambda>i. (i, envelope)) (hub_handlers h),
         hub_streams := map (\<lambda>(i, q). (i, put_latest q envelope)) (hub_streams h)\<rparr>))"

text \<open>A guard that returns exactly \<open>False\<close> or raises stops the event; other results let it pass.\<close>

fun guards_pass :: "(nat \<Rightarrow> pydict \<Rightarrow> guard_verdict) \<Rightarrow> nat list \<Rightarrow> pydict \<Rightarrow> bool" where
  "guards_pass guard_fn [] envelope = True"
| "guards_pass guard_fn (g # gs) envelope =
     (case guard_fn g envelope of
        GFalse \<Rightarrow> False | GRaises \<Rightarrow> False | GPass \<Rightarrow> guards_pass guard_fn gs envelope)"

definition hub_publish ::
  "(nat \<Rightarrow> pydict \<Rightarrow> guard_verdict) \<Rightarrow> string \<Rightarrow> string \<Rightarrow> string \<Rightarrow> pydict \<Rightarrow> TaskEventHub \<Rightarrow>
   pydict \<times> TaskEventHub" where
  "hub_publish guard_fn fresh now source event h =
     (let envelope = hub_normalize fresh now source event in
      if \<not> guards_pass guard_fn (hub_guards h) envelope then (envelope, h)
      else publish_persisted fresh now ''service'' envelope h)"

section \<open>Streams keep the latest events\<close>

definition stream_ok :: "stream_queue \<Rightarrow> bool" where
  "stream_ok q \<longleftrightarrow> 0 < sq_max q \<and> length (sq_items q) \<le> sq_max q"

lemma put_latest_max [simp]: "sq_max (put_latest q e) = sq_max q"
  by (auto simp: put_latest_def put_nowait_def get_nowait_def Let_def split: list.splits)

lemma put_latest_items:
  assumes "length (sq_items q) \<le> sq_max q"
  shows "sq_items (put_latest q e) = last_n (sq_max q) (sq_items q @ [e])"
proof (cases "sq_max q \<le> length (sq_items q)")
  case True
  with assms have len: "length (sq_items q) = sq_max q" by simp
  show ?thesis
  proof (cases "sq_items q")
    case Nil
    with len show ?thesis
      by (simp add: put_latest_def put_nowait_def get_nowait_def last_n_def)
  next
    case (Cons x xs)
    with len show ?thesis
      by (auto simp: put_latest_def put_nowait_def get_nowait_def last_n_def Let_def)
  qed
next
  case False
  then show ?thesis by (simp add: put_latest_def put_nowait_def)
qed

interpretation stream: latest_buffer sq_items sq_max put_latest
  by unfold_locales (auto simp: put_latest_items)

lemma put_latest_ok: "stream_ok q \<Longrightarrow> stream_ok (put_latest q e)"
  using stream.put_bounded [of q e] by (simp add: stream_ok_def)

text \<open>
  C26. A subscriber stream opened with bound \<open>max_events\<close> holds, after any sequence of events, exactly
  the last \<open>max 1 max_events\<close> of them in order: a slow reader loses the oldest events only.
\<close>

theorem stream_holds_latest:
  "sq_items (foldl put_latest (snd (last (hub_streams (snd (open_stream max_events h))))) es)
     = last_n (nat (max 1 max_events)) es"
  by (simp add: open_stream_def stream.run_contents)

section \<open>Publishing\<close>

lemma hub_normalize_keys: "list_all (dhas (hub_normalize fresh now source event)) ENVELOPE_KEYS"
  by (auto simp: hub_normalize_def task_event_to_dict_def ENVELOPE_KEYS_def dict_simps)

lemma hub_normalize_idem:
  "hub_normalize f2 n2 s2 (hub_normalize fresh now source event) = hub_normalize fresh now source event"
  using hub_normalize_keys by (simp add: hub_normalize_def [of f2])

lemma publish_persisted_envelope:
  "list_all (dhas envelope) ENVELOPE_KEYS \<Longrightarrow> hub_normalize fresh now source envelope = envelope"
  by (simp add: hub_normalize_def)

text \<open>
  Publishing: the returned envelope always has the envelope keys; if some guard returns
  \<open>False\<close> or raises, neither a handler nor a stream sees the event; otherwise every subscribed
  handler is called once with the envelope, in subscription order, and every open stream takes it.
\<close>

theorem hub_publish_delivery:
  "let (envelope, h') = hub_publish guard_fn fresh now source event h in
     list_all (dhas envelope) ENVELOPE_KEYS \<and>
     hub_guards h' = hub_guards h \<and> hub_handlers h' = hub_handlers h \<and>
     (if guards_pass guard_fn (hub_guards h) envelope
      then hub_delivered h' = hub_delivered h @ map (\<lambda>i. (i, envelope)) (hub_handlers h) \<and>
           hub_streams h' = map (\<lambda>(i, q). (i, put_latest q envelope)) (hub_streams h)
      else h' = h)"
  by (auto simp: hub_publish_def publish_persisted_def Let_def hub_normalize_keys hub_normalize_idem)

section \<open>Invariant of the hub\<close>

text \<open>No callback is registered twice, stream identities are distinct and bounded queues hold.\<close>

definition hub_inv :: "TaskEventHub \<Rightarrow> bool" where
  "hub_inv h \<longleftrightarrow>
     distinct (hub_guards h) \<and> distinct (hub_handlers h) \<and> distinct (map fst (hub_streams h)) \<and>
     (\<forall>(i, q) \<in> set (hub_streams h). i < hub_next h \<and> stream_ok q)"

inductive hub_step ::
  "(nat \<Rightarrow> pydict \<Rightarrow> guard_verdict) \<Rightarrow> TaskEventHub \<Rightarrow> TaskEventHub \<Rightarrow> bool"
  for guard_fn where
  step_guard: "hub_step guard_fn h (add_guard g h)"
| step_subscribe: "hub_step guard_fn h (subscribe handler h)"
| step_unsubscribe: "hub_step guard_fn h (unsubscribe handler h)"
| step_open: "hub_step guard_fn h (snd (open_stream max_events h))"
| step_close: "hub_step guard_fn h (close_stream sid h)"
| step_publish: "hub_step guard_fn h (snd (hub_publish guard_fn fresh now source event h))"

inductive_cases hub_step_cases: "hub_step guard_fn h h'"

lemma hub_inv_publish_persisted:
  assumes "hub_inv h"
  shows "hub_inv (snd (publish_persisted fresh now source event h))"
proof -
  have "fst \<circ> (\<lambda>(i :: nat, q). (i, put_latest q e)) = fst" for e
    by auto
  then show ?thesis
    using assms by (auto simp: hub_inv_def publish_persisted_def Let_def put_latest_ok)
qed

lemma hub_inv_publish:
  "hub_inv h \<Longrightarrow> hub_inv (snd (hub_publish guard_fn fresh now source event h))"
  by (simp add: hub_publish_def Let_def hub_inv_publish_persisted)

lemma hub_inv_open: "hub_inv h \<Longrightarrow> hub_inv (snd (open_stream max_events h))"
  by (auto simp: hub_inv_def open_stream_def stream_ok_def less_Suc_eq)

lemma hub_inv_close: "hub_inv h \<Longrightarrow> hub_inv (close_stream sid h)"
  by (auto simp: hub_inv_def close_stream_def distinct_map_filter)

text \<open>
  Every operation of the hub keeps its invariant: guards and handlers stay free of
  duplicates, stream identities stay distinct, and no stream ever exceeds its bound.
\<close>

theorem hub_step_inv: "hub_step guard_fn h h' \<Longrightarrow> hub_inv h \<Longrightarrow> hub_inv h'"
proof (induction rule: hub_step.induct)
  case (step_publish h fresh now source event)
  then show ?case by (simp add: hub_inv_publish)
next
  case (step_open h max_events)
  then show ?case by (simp add: hub_inv_open)
next
  case (step_close h sid)
  then show ?case by (simp add: hub_inv_close)
qed (auto simp: hub_inv_def add_guard_def subscribe_def unsubscribe_def)

theorem hub_step_inv_witness: "hub_inv (snd (open_stream 2 empty_hub))"
  using hub_step_inv [OF hub_step.step_open, of empty_hub 2]
  by (simp add: hub_inv_def empty_hub_def)

end
