(* ===== verification/Py_Float.thy ===== *)
theory Py_Float
  imports NC_Prelude Complex_Main "HOL-Library.Log_Nat"
begin

text \<open>
  Python's \<open>float\<close> where the program computes with it. A finite IEEE-754 double is its exact
  rational value; every operation rounds its exact result to the nearest double, ties to even
  (\<open>double\<close>), overflow gives an infinity and the undefined cases NaN. The two zeros are not told
  apart: no modelled comparison or branch depends on the sign of a zero.

  The theory also holds the number search shared by the optical modules, the regular expression
  \<^verbatim>\<open>[-+]?\d+(?:\.\d+)?\<close> applied with \<open>re.search\<close> to the text of a value.
\<close>

named_theorems float_simps \<open>comparisons of floats\<close>

section \<open>Doubles\<close>

datatype pyfloat = Fin rat | PInf | NInf | FNaN

text \<open>The quotient \<open>n / d\<close> of integers rounded to the nearest integer, ties to even; \<open>0 < d\<close>.\<close>

definition round_div :: "int \<Rightarrow> int \<Rightarrow> int" where
  "round_div n d =
     (let q = n div d; r = n mod d in
      if 2 * r < d then q else if d < 2 * r then q + 1 else if even q then q else q + 1)"

text \<open>
  The nearest double of a positive fraction \<open>n / d\<close>: the mantissa has 53 bits unless the number is
  subnormal, so its unit is \<open>2 ^ e\<close> with \<open>e\<close> the exponent of the leading bit less 52, at least -1074.
\<close>

definition leading_exponent :: "int \<Rightarrow> int \<Rightarrow> int" where
  "leading_exponent n d =
     (let l = bitlen n - bitlen d in if n * 2 ^ nat (- l) < d * 2 ^ nat l then l - 1 else l)"

definition nearest_double :: "int \<Rightarrow> int \<Rightarrow> int \<times> int" where
  "nearest_double n d =
     (let e = max (leading_exponent n d - 52) (- 1074)
      in (round_div (n * 2 ^ nat (- e)) (d * 2 ^ nat e), e))"

definition double_frac :: "int \<Rightarrow> int \<Rightarrow> pyfloat" where
  "double_frac n d =
     (if n = 0 then Fin 0
      else (let (m, e) = nearest_double \<bar>n\<bar> d in
            if 2 ^ 1024 \<le> m * 2 ^ nat e then (if n < 0 then NInf else PInf)
            else Fin (Fract ((if n < 0 then - m else m) * 2 ^ nat e) (2 ^ nat (- e)))))"

definition double :: "rat \<Rightarrow> pyfloat" where
  "double x = (let (n, d) = quotient_of x in double_frac n d)"

fun flt :: "pyfloat \<Rightarrow> pyfloat \<Rightarrow> bool" where
  "flt (Fin a) (Fin b) = (a < b)"
| "flt (Fin a) PInf = True"
| "flt NInf (Fin b) = True"
| "flt NInf PInf = True"
| "flt _ _ = False"

definition fle :: "pyfloat \<Rightarrow> pyfloat \<Rightarrow> bool" where
  "fle x y \<longleftrightarrow> flt x y \<or> (x = y \<and> x \<noteq> FNaN)"

fun fadd :: "pyfloat \<Rightarrow> pyfloat \<Rightarrow> pyfloat" where
  "fadd (Fin a) (Fin b) = double (a + b)"
| "fadd FNaN _ = FNaN"
| "fadd _ FNaN = FNaN"
| "fadd PInf NInf = FNaN"
| "fadd NInf PInf = FNaN"
| "fadd PInf _ = PInf"
| "fadd _ PInf = PInf"
| "fadd NInf _ = NInf"
| "fadd _ NInf = NInf"

fun fneg :: "pyfloat \<Rightarrow> pyfloat" where
  "fneg (Fin a) = Fin (- a)"
| "fneg PInf = NInf"
| "fneg NInf = PInf"
| "fneg FNaN = FNaN"

definition fsub :: "pyfloat \<Rightarrow> pyfloat \<Rightarrow> pyfloat" where
  "fsub x y = fadd x (fneg y)"

fun fabs :: "pyfloat \<Rightarrow> pyfloat" where
  "fabs (Fin a) = Fin \<bar>a\<bar>"
| "fabs PInf = PInf"
| "fabs NInf = PInf"
| "fabs FNaN = FNaN"

text \<open>\<open>round(x, 2)\<close>: correctly rounded to two decimals from the exact value, then the nearest double.\<close>

fun fround2 :: "pyfloat \<Rightarrow> pyfloat" where
  "fround2 (Fin a) = (let (n, d) = quotient_of a in double_frac (round_div (n * 100) d) 100)"
| "fround2 x = x"

text \<open>The format \<^verbatim>\<open>{x:.1f}\<close>.\<close>

fun format_1f :: "pyfloat \<Rightarrow> string" where
  "format_1f (Fin a) =
     (let (p, q) = quotient_of \<bar>a\<bar>; n = nat (round_div (p * 10) q) in
      (if a < 0 then ''-'' else []) @ show_nat (n div 10) @ ''.'' @ show_nat (n mod 10))"
| "format_1f PInf = ''inf''"
| "format_1f NInf = ''-inf''"
| "format_1f FNaN = ''nan''"

section \<open>The number search\<close>

text \<open>A match is the sign, the digits before and the digits after the point.\<close>

definition match_number :: "string \<Rightarrow> (bool \<times> string \<times> string) option" where
  "match_number s =
     (let signed = (case s of [] \<Rightarrow> False | c # _ \<Rightarrow> c = CHR ''-'' \<or> c = CHR ''+'');
          rest = (if signed then tl s else s);
          whole = takeWhile is_digit rest;
          fdigits = (case drop (length whole) rest of
                    c # cs \<Rightarrow> (if c = CHR ''.'' then takeWhile is_digit cs else [])
                  | [] \<Rightarrow> [])
      in if whole = [] then None else Some (signed \<and> hd s = CHR ''-'', whole, fdigits))"

fun search_number :: "string \<Rightarrow> (bool \<times> string \<times> string) option" where
  "search_number [] = None"
| "search_number (c # cs) =
     (case match_number (c # cs) of Some r \<Rightarrow> Some r | None \<Rightarrow> search_number cs)"

definition float_of_match :: "bool \<times> string \<times> string \<Rightarrow> pyfloat" where
  "float_of_match m =
     (case m of (neg, whole, fdigits) \<Rightarrow>
       (let n = int (nat_of_digits (whole @ fdigits))
        in double_frac (if neg then - n else n) (10 ^ length fdigits)))"

definition search_float :: "string \<Rightarrow> pyfloat option" where
  "search_float s = map_option float_of_match (search_number s)"

section \<open>Order\<close>

lemma flt_irrefl [float_simps]: "\<not> flt x x"
  by (cases x) auto

lemma flt_trans: "flt x y \<Longrightarrow> flt y z \<Longrightarrow> flt x z"
  by (cases x; cases y; cases z) auto

lemma fle_trans: "fle x y \<Longrightarrow> fle y z \<Longrightarrow> fle x z"
  using flt_trans by (auto simp: fle_def)

lemma fle_flt_trans: "fle x y \<Longrightarrow> flt y z \<Longrightarrow> flt x z"
  using flt_trans by (auto simp: fle_def)

lemma flt_fle_trans: "flt x y \<Longrightarrow> fle y z \<Longrightarrow> flt x z"
  using flt_trans by (auto simp: fle_def)

lemma fle_refl_iff [float_simps]: "fle x x \<longleftrightarrow> x \<noteq> FNaN"
  by (auto simp: fle_def flt_irrefl)

lemma flt_fle_disjoint: "flt x y \<Longrightarrow> \<not> fle y x"
  using flt_trans flt_irrefl by (auto simp: fle_def)

lemma not_flt_iff: "x \<noteq> FNaN \<Longrightarrow> y \<noteq> FNaN \<Longrightarrow> \<not> flt x y \<longleftrightarrow> fle y x"
  by (cases x; cases y) (auto simp: fle_def)

lemma double_frac_not_nan [simp]: "double_frac n d \<noteq> FNaN"
  by (simp add: double_frac_def split: prod.splits)

lemma double_not_nan [simp]: "double x \<noteq> FNaN"
  by (simp add: double_def split: prod.splits)

lemma double_0 [simp]: "double 0 = Fin 0"
  by (simp add: double_def double_frac_def)

lemma fround2_not_nan: "x \<noteq> FNaN \<Longrightarrow> fround2 x \<noteq> FNaN"
  by (cases x) (auto split: prod.splits)

lemma float_of_match_not_nan [simp]: "float_of_match m \<noteq> FNaN"
  by (simp add: float_of_match_def Let_def split: prod.splits)

lemma search_float_not_nan: "search_float s = Some x \<Longrightarrow> x \<noteq> FNaN"
  by (auto simp: search_float_def)

lemma fsub_self: "fabs (fsub x x) = Fin 0 \<or> fsub x x = FNaN"
  by (cases x) (auto simp: fsub_def)

lemma not_fle_pos_zero: "0 < a \<Longrightarrow> \<not> fle (Fin a) (Fin 0)"
  by (auto simp: fle_def)

lemma not_fle_nan [simp]: "\<not> fle x FNaN" "\<not> fle FNaN x"
  by (cases x; auto simp: fle_def)+

end
