(* ===== verification/Optical_Severity.thy ===== *)
theory Optical_Severity
  imports Py_Float NC_Texts
begin

text \<open>
  \<^verbatim>\<open>core/optical_severity_engine.py\<close> and \<^verbatim>\<open>core/ap_optical_capability.py\<close>: the classification
  of a received optical power. Records are dictionaries with values of any type; powers and
  thresholds are read with the number search of \<open>Py_Float\<close>. A frozen set is a list, a dictionary
  constant an association list. \<open>datetime.fromisoformat\<close> is the argument \<open>fromiso\<close>: the wall-clock
  microseconds of a text and its UTC offset, if it has one.
\<close>

section \<open>Constants\<close>

definition DERIVED_WARNING_DELTA_DB :: pyfloat where
  "DERIVED_WARNING_DELTA_DB = double (201 / 100)"

definition MAINTENANCE_MARGIN_DB :: pyfloat where
  "MAINTENANCE_MARGIN_DB = double 3"

definition OPTICAL_HISTORY_POWER_DELTA_DB :: pyfloat where
  "OPTICAL_HISTORY_POWER_DELTA_DB = double (20 / 100)"

definition AP_DEFAULT_ALARM_LOW :: pyfloat where
  "AP_DEFAULT_ALARM_LOW = double (- 1900 / 100)"

definition AP_DEFAULT_WARNING_LOW :: pyfloat where
  "AP_DEFAULT_WARNING_LOW = double (- 1699 / 100)"

definition ZTE_NO_MODULE_FIELDS :: "string list" where
  "ZTE_NO_MODULE_FIELDS =
     [''rx_power'', ''rx_power_dbm'', ''tx_power'', ''tx_power_dbm'', ''temperature'',
      ''temperature_c'', ''temperature_celsius'', ''voltage'', ''voltage_v'',
      ''supply_voltage_1_v'', ''supply_voltage_2_v'', ''bias_current'', ''tx_bias_ma'',
      ''tx_bias_current_ma'', ''module_type'', ''module_model'', ''module_serial_number'',
      ''module_vendor'', ''vendor_name'', ''wavelength'', ''wavelength_nm'',
      ''tx_wavelength_nm'', ''rx_wavelength_nm'', ''transmission_distance'',
      ''transfer_distance_smf_m'', ''connector'', ''connector_type'', ''transceiver_type'',
      ''transceiver_mode'', ''directionality'', ''ethernet_compliance'',
      ''vendor_part_number'', ''vendor_revision'', ''vendor_serial_number'',
      ''authentication'', ''authentication_code'', ''product_serial_number'', ''product_sn'',
      ''product_date'', ''speed'', ''receiver_sensitivity_dbm'', ''receiver_overload_dbm'',
      ''rx_low_alarm'', ''rx_low_alarm_dbm'', ''rx_low_threshold_dbm'', ''rx_high_alarm'',
      ''rx_high_alarm_dbm'', ''rx_high_threshold_dbm'', ''tx_low_alarm'', ''tx_low_alarm_dbm'',
      ''tx_low_threshold_dbm'', ''tx_high_alarm'', ''tx_high_alarm_dbm'',
      ''tx_high_threshold_dbm'', ''rx_low_warning'', ''rx_high_warning'', ''tx_low_warning'',
      ''tx_high_warning'']"

definition SEVERITY_RANK :: "(string \<times> nat) list" where
  "SEVERITY_RANK =
     [(''unknown'', 0), (''not_collected'', 0), (''not_applicable'', 0), (''skipped'', 0),
      (''offline'', 0), (''no_module'', 0), ([], 0), (''normal'', 1), (''notice'', 2),
      (''warning'', 3), (''alarm'', 4), (''abnormal'', 4), (''link_abnormal'', 5),
      (''link_down'', 5), (''no_light'', 6), (''unverified'', 0), (''dom_unavailable'', 0),
      (''collection_failed'', 0)]"

definition OPTICAL_HEALTH_WARNING_STATUSES :: "string list" where
  "OPTICAL_HEALTH_WARNING_STATUSES =
     [''notice'', ''warning'', ''alarm'', ''abnormal'']"

definition OPTICAL_HEALTH_CRITICAL_STATUSES :: "string list" where
  "OPTICAL_HEALTH_CRITICAL_STATUSES =
     [''critical'', ''link_abnormal'', ''link_down'', ''no_light'']"

definition OPTICAL_HEALTH_NO_DATA_STATUSES :: "string list" where
  "OPTICAL_HEALTH_NO_DATA_STATUSES =
     [[], ''unknown'', ''not_collected'', ''not_applicable'', ''skipped'', ''offline'',
      ''no_module'', ''unverified'', ''dom_unavailable'', ''collection_failed'']"

definition STATUS_COLORS :: "(string \<times> string) list" where
  "STATUS_COLORS =
     [(''normal'', ''DCFCE7''), (''notice'', ''FEF9C3''), (''warning'', ''FEF9C3''),
      (''alarm'', ''FEE2E2''), (''abnormal'', ''FEE2E2''), (''link_abnormal'', ''FFE4E6''),
      (''link_down'', ''FFE4E6''), (''no_light'', ''E5E7EB''), (''no_module'', ''F3F4F6''),
      (''skipped'', ''F3F4F6''), (''offline'', ''E5E7EB''), (''not_collected'', ''F3F4F6''),
      (''not_applicable'', ''F3F4F6''), (''unknown'', ''F3F4F6''),
      (''unverified'', ''FEF9C3''), (''dom_unavailable'', ''F3F4F6''),
      (''collection_failed'', ''FEF9C3'')]"

definition OPTICAL_STATUS_LABELS_en :: "(string \<times> string) list" where
  "OPTICAL_STATUS_LABELS_en =
     [(''normal'', ''Normal''), (''notice'', ''Notice''), (''warning'', ''Warning''),
      (''alarm'', ''Alarm''), (''abnormal'', ''High Attenuation''),
      (''link_abnormal'', ''Link Abnormal''), (''link_down'', ''Link Down''),
      (''no_light'', ''No Light''), (''no_module'', ''No Module''), (''skipped'', ''Skipped''),
      (''not_collected'', ''Not Collected''), (''not_applicable'', ''Not Applicable''),
      (''unknown'', ''Unknown''), (''unverified'', ''Unverified / Third-party Module''),
      (''dom_unavailable'', ''DOM Unavailable''),
      (''collection_failed'', ''Collection Failed / Device Unreachable'')]"

definition OPTICAL_STATUS_LABELS_zh :: "(string \<times> string) list" where
  "OPTICAL_STATUS_LABELS_zh =
     [(''normal'', zh_normal), (''notice'', zh_notice), (''warning'', zh_warning),
      (''alarm'', zh_alarm), (''abnormal'', zh_abnormal),
      (''link_abnormal'', zh_link_abnormal), (''link_down'', zh_link_down),
      (''no_light'', zh_no_light), (''no_module'', zh_no_module), (''skipped'', zh_skipped),
      (''not_collected'', zh_not_collected), (''not_applicable'', zh_not_applicable),
      (''unknown'', zh_unknown), (''unverified'', zh_unverified),
      (''dom_unavailable'', zh_dom_unavailable), (''collection_failed'', zh_collection_failed)]"

text \<open>\<open>OPTICAL_DATA_STALE_AFTER\<close> is 24 hours, in microseconds.\<close>

definition OPTICAL_DATA_STALE_AFTER :: int where
  "OPTICAL_DATA_STALE_AFTER = 24 * 3600 * 1000000"

record OpticalSeverityResult =
  severity :: string
  reason :: "string option"
  rx_power :: "pyfloat option"
  alarm_low :: "pyfloat option"
  warning_low :: "pyfloat option"
  maintenance_normal_line :: "pyfloat option"
  warning_source :: string
  source_label :: string

text \<open>The result with the class's defaults.\<close>

definition severity_result :: "string \<Rightarrow> string \<Rightarrow> OpticalSeverityResult" where
  "severity_result sev why =
     \<lparr>severity = sev, reason = Some why, rx_power = None, alarm_low = None, warning_low = None,
      maintenance_normal_line = None, warning_source = ''missing'',
      source_label = ''threshold missing''\<rparr>"

section \<open>Reading values\<close>

definition to_float :: "pyval \<Rightarrow> pyfloat option" where
  "to_float v = (case v of PNone \<Rightarrow> None | _ \<Rightarrow> search_float (py_str v))"

fun first_value :: "pydict \<Rightarrow> string list \<Rightarrow> pyval" where
  "first_value r [] = PNone"
| "first_value r (k # ks) =
     (let v = dget r k in if v = PNone \<or> v = PStr [] then first_value r ks else v)"

definition first_float :: "pydict \<Rightarrow> string list \<Rightarrow> pyfloat option" where
  "first_float r ks = to_float (first_value r ks)"

definition is_false :: "pyval \<Rightarrow> bool" where
  "is_false v =
     (if v = PNone \<or> v = PStr [] then False
      else casefold (strip (py_str v)) \<in> set [''0'', ''false'', ''no'', ''n'', ''none'', ''null'',
        ''absent'', ''not_present''])"

definition is_true :: "pyval \<Rightarrow> bool" where
  "is_true v =
     (if v = PNone \<or> v = PStr [] then False
      else casefold (strip (py_str v)) \<in> set [''1'', ''true'', ''yes'', ''y'', ''present'',
        ''no_module''])"

definition MODULE_ABSENT_WORDS :: "string list" where
  "MODULE_ABSENT_WORDS =
     [''no_module'', ''no module'', ''no-module'', ''no transceiver'', ''no-transceiver'',
      zh_no_module, zh_module_not_inserted, zh_module_missing]"

definition is_optical_module_absent :: "pydict \<Rightarrow> bool" where
  "is_optical_module_absent r =
     (if is_false (first_value r [''module_present'', ''has_module'']) \<or>
         is_true (first_value r [''no_module'']) then True
      else list_ex (\<lambda>k. casefold (text_of (dget r k)) \<in> set MODULE_ABSENT_WORDS)
             [''module_status'', ''transceiver_status'', ''optical_alarm_status'', ''status''])"

definition severity_source_label :: "string \<Rightarrow> string \<Rightarrow> string" where
  "severity_source_label device_type source =
     (if source = ''native'' then (if device_type = ''ap'' then ''AP native'' else ''switch native'')
      else if source = ''derived'' then (if device_type = ''ap'' then ''AP derived'' else ''switch derived'')
      else if source = ''default_profile''
           then (if device_type = ''ap'' then ''AP default profile'' else ''default profile'')
      else ''threshold missing'')"

definition apply_ap_default_threshold_profile ::
  "pyfloat option \<Rightarrow> pyfloat option \<Rightarrow> pyfloat option \<times> pyfloat option" where
  "apply_ap_default_threshold_profile alarm warning =
     ((case alarm of Some a \<Rightarrow> Some a | None \<Rightarrow> Some AP_DEFAULT_ALARM_LOW),
      (case warning of Some w \<Rightarrow> Some w | None \<Rightarrow> Some AP_DEFAULT_WARNING_LOW))"

section \<open>Severity from thresholds\<close>

text \<open>The thresholds in force: alarm, warning, and where the warning comes from.\<close>

definition effective_thresholds ::
  "pydict \<Rightarrow> string \<Rightarrow> pyfloat option \<times> pyfloat option \<times> string" where
  "effective_thresholds r device_type =
     (let alarm = first_float r [''alarm_low'', ''rx_low_alarm''];
          warning = first_float r [''warning_low'', ''rx_low_warning''];
          source = (if warning \<noteq> None then ''native'' else ''missing'');
          (warning, source) =
            (case (warning, alarm) of
               (None, Some a) \<Rightarrow> (Some (fround2 (fadd a DERIVED_WARNING_DELTA_DB)), ''derived'')
             | _ \<Rightarrow> (warning, source))
      in if device_type = ''ap'' \<and> (alarm = None \<or> warning = None)
         then (let (alarm, warning) = apply_ap_default_threshold_profile alarm warning
               in (alarm, warning, ''default_profile''))
         else (alarm, warning, source))"

text \<open>The band of a power, given the warning threshold and possibly an alarm threshold.\<close>

definition severity_band :: "pyfloat \<Rightarrow> pyfloat option \<Rightarrow> pyfloat \<Rightarrow> string \<times> string" where
  "severity_band rx alarm warning =
     (let normal_line = fround2 (fadd warning MAINTENANCE_MARGIN_DB) in
      if fle normal_line rx then (''normal'', ''RX power is above maintenance normal line'')
      else if fle warning rx \<and> flt rx normal_line
           then (''notice'', ''RX power is below maintenance normal line'')
      else if (case alarm of None \<Rightarrow> True | Some a \<Rightarrow> fle a rx \<and> flt rx warning)
           then (''warning'', ''RX power is between alarm low and warning low threshold'')
      else (''alarm'', ''RX power below alarm low threshold''))"

definition compute_optical_severity :: "pydict \<Rightarrow> OpticalSeverityResult" where
  "compute_optical_severity r =
     (if is_optical_module_absent r
      then severity_result ''no_module'' ''Optical module is not present''
      else (let rx = first_float r [''rx_power'', ''switch_rx_power'', ''ap_rx_power''] in
        case rx of
          None \<Rightarrow> (severity_result ''no_light'' ''RX power is missing or <= -35 dBm'')
        | Some p \<Rightarrow>
            (if fle p (double (- 35))
             then (severity_result ''no_light'' ''RX power is missing or <= -35 dBm'')\<lparr>rx_power := rx\<rparr>
             else if upper (text_of (first_value r [''port_status'', ''switch_port_status'',
                       ''ap_port_status''])) = ''DOWN''
             then (severity_result ''link_abnormal'' ''Port is DOWN'')\<lparr>rx_power := rx\<rparr>
             else (let device_type = casefold (text_of (first_value r [''device_type'', ''source_type'']));
                       (alarm, warning, source) = effective_thresholds r device_type;
                       label = severity_source_label device_type source
                   in case warning of
                        None \<Rightarrow>
                          (severity_result ''unknown'' ''RX threshold is missing'')
                            \<lparr>rx_power := rx, alarm_low := alarm, warning_source := source,
                             source_label := label\<rparr>
                      | Some w \<Rightarrow>
                          (let (sev, why) = severity_band p alarm w in
                           \<lparr>severity = sev, reason = Some why, rx_power = rx, alarm_low = alarm,
                            warning_low = warning,
                            maintenance_normal_line = Some (fround2 (fadd w MAINTENANCE_MARGIN_DB)),
                            warning_source = source, source_label = label\<rparr>)))))"

section \<open>ZTE modules\<close>

definition zte_reported_status :: "pydict \<Rightarrow> string" where
  "zte_reported_status r =
     casefold (text_of (first_value r [''device_reported_status'', ''vendor_status'',
       ''module_status'', ''status'']))"

definition exceeds :: "(pyfloat \<Rightarrow> pyfloat \<Rightarrow> bool) \<Rightarrow> pyfloat option \<Rightarrow> pyfloat option \<Rightarrow> bool" where
  "exceeds cmp v t = (case (v, t) of (Some x, Some y) \<Rightarrow> cmp x y | _ \<Rightarrow> False)"

text \<open>The four comparisons in order: reason prefix, power, threshold, matched.\<close>

definition zte_comparisons ::
  "pydict \<Rightarrow> (string \<times> pyfloat option \<times> pyfloat option \<times> bool) list" where
  "zte_comparisons r =
     (let rx = first_float r [''rx_power'', ''rx_power_dbm''];
          rx_low = first_float r [''rx_low_alarm'', ''rx_low_alarm_dbm''];
          rx_high = first_float r [''rx_high_alarm'', ''rx_high_alarm_dbm''];
          tx = first_float r [''tx_power'', ''tx_power_dbm''];
          tx_low = first_float r [''tx_low_alarm'', ''tx_low_alarm_dbm''];
          tx_high = first_float r [''tx_high_alarm'', ''tx_high_alarm_dbm'']
      in [(''rx_low'', rx, rx_low, exceeds flt rx rx_low),
          (''rx_high'', rx, rx_high, exceeds (\<lambda>x y. flt y x) rx rx_high),
          (''tx_low'', tx, tx_low, exceeds flt tx tx_low),
          (''tx_high'', tx, tx_high, exceeds (\<lambda>x y. flt y x) tx tx_high)])"

definition zte_reason :: "string \<Rightarrow> pyfloat \<Rightarrow> pyfloat \<Rightarrow> string" where
  "zte_reason kind v t =
     (if kind = ''rx_low'' \<or> kind = ''rx_high'' then ''RX'' else ''TX'') @ '' power '' @ format_1f v @
     '' dBm is '' @
     (if kind = ''rx_low'' \<or> kind = ''tx_low'' then ''below module low'' else ''above module high'') @
     '' alarm threshold '' @ format_1f t @ '' dBm''"

definition compute_zte_optical_severity :: "pydict \<Rightarrow> OpticalSeverityResult" where
  "compute_zte_optical_severity r =
     (let reported = zte_reported_status r in
      if is_optical_module_absent r \<or> is_false (first_value r [''module_online'']) \<or> reported = ''offline''
      then (severity_result ''no_module'' msg_zte_offline)
             \<lparr>warning_source := ''zte_device'', source_label := ''ZTE device reported''\<rparr>
      else (let rx = first_float r [''rx_power'', ''rx_power_dbm''];
                rx_low = first_float r [''rx_low_alarm'', ''rx_low_alarm_dbm''];
                rx_high = first_float r [''rx_high_alarm'', ''rx_high_alarm_dbm''];
                tx = first_float r [''tx_power'', ''tx_power_dbm''];
                tx_low = first_float r [''tx_low_alarm'', ''tx_low_alarm_dbm''];
                tx_high = first_float r [''tx_high_alarm'', ''tx_high_alarm_dbm''] in
        if reported = ''unknown'' \<or> rx = None
        then (severity_result ''no_light'' ZTE_NO_LIGHT_REASON)
               \<lparr>warning_source := ''zte_device'', source_label := ''ZTE device reported''\<rparr>
        else (case find (\<lambda>(k, v, t, matched). matched \<and> v \<noteq> None \<and> t \<noteq> None) (zte_comparisons r) of
          Some (k, v, t, matched) \<Rightarrow>
            (severity_result ''abnormal'' (zte_reason k (the v) (the t)))
              \<lparr>rx_power := rx, alarm_low := rx_low, warning_source := ''zte_native'',
               source_label := ''ZTE native threshold''\<rparr>
        | None \<Rightarrow>
            (let complete = (rx_low \<noteq> None \<and> rx_high \<noteq> None \<and>
                               (tx \<noteq> None \<longrightarrow> tx_low \<noteq> None \<and> tx_high \<noteq> None)) in
             if complete \<or> reported = ''normal''
             then (severity_result ''normal'' ''ZTE optical power is within module alarm thresholds'')
                    \<lparr>rx_power := rx, alarm_low := rx_low,
                     warning_source := (if complete then ''zte_native'' else ''zte_device''),
                     source_label := (if complete then ''ZTE native threshold''
                                      else ''ZTE device reported'')\<rparr>
             else (severity_result ''unknown''
                     ''Device did not report optical power thresholds; threshold evaluation is unavailable'')
                    \<lparr>rx_power := rx, source_label := ''ZTE threshold missing''\<rparr>))))"

definition is_zte_optical_record :: "pydict \<Rightarrow> bool" where
  "is_zte_optical_record r \<longleftrightarrow>
     casefold (text_of (dget r ''device_vendor'')) = ''zte'' \<or>
     startswith (casefold (text_of (dget r ''threshold_source''))) ''zte_''"

definition opt_text :: "string option \<Rightarrow> pyval" where
  "opt_text x = (case x of None \<Rightarrow> PNone | Some s \<Rightarrow> PStr s)"

definition normalize_zte_optical_record :: "pydict \<Rightarrow> pydict" where
  "normalize_zte_optical_record r =
     (let result = compute_zte_optical_severity r; status = severity result;
          n = dput ''severity_reason'' (opt_text (reason result))
               (dput ''module_online'' (PBool (status \<noteq> ''no_module''))
               (dput ''module_present'' (PBool (status \<noteq> ''no_module''))
               (dput ''normalized_status'' (PStr (upper status))
               (dput ''status'' (PStr status) (dput ''device_vendor'' (PStr ''ZTE'') r)))))
      in if status = ''no_module''
         then dput ''dom_supported'' (PBool False)
                (fold (\<lambda>field d. dput field PNone d) ZTE_NO_MODULE_FIELDS n)
         else if status = ''no_light'' then dput ''dom_supported'' (PBool False) n
         else n)"

section \<open>History comparison\<close>

definition history_text :: "pyval \<Rightarrow> string" where
  "history_text v =
     (case v of
        PNone \<Rightarrow> []
      | PBool b \<Rightarrow> (if b then ''true'' else ''false'')
      | _ \<Rightarrow> casefold (strip (py_str v)))"

definition optical_history_power_changed :: "pyval \<Rightarrow> pyval \<Rightarrow> bool" where
  "optical_history_power_changed previous current =
     (case (to_float previous, to_float current) of
        (Some p, Some c) \<Rightarrow> fle OPTICAL_HISTORY_POWER_DELTA_DB (fabs (fsub c p))
      | _ \<Rightarrow> history_text previous \<noteq> history_text current)"

definition OPTICAL_HISTORY_FIELDS :: "string list" where
  "OPTICAL_HISTORY_FIELDS =
     [''module_present'', ''module_model'', ''module_serial_number'', ''module_vendor'',
      ''wavelength'', ''transmission_distance'', ''connector_type'', ''device_vendor'',
      ''device_reported_status'', ''threshold_source'', ''transceiver_mode'',
      ''vendor_part_number'', ''vendor_revision'', ''vendor_serial_number'', ''status'',
      ''rx_low_alarm'', ''rx_high_alarm'', ''tx_low_alarm'', ''tx_high_alarm'',
      ''rx_low_warning'', ''rx_high_warning'', ''tx_low_warning'', ''tx_high_warning'']"

definition optical_history_state_changed :: "pydict \<Rightarrow> pydict \<Rightarrow> bool" where
  "optical_history_state_changed previous current \<longleftrightarrow>
     list_ex (\<lambda>f. history_text (dget previous f) \<noteq> history_text (dget current f))
       OPTICAL_HISTORY_FIELDS \<or>
     list_ex (\<lambda>f. optical_history_power_changed (dget previous f) (dget current f))
       [''rx_power'', ''tx_power'']"

section \<open>Ranking, health and freshness\<close>

definition severity_rank :: "string \<Rightarrow> nat" where
  "severity_rank s = (case map_of SEVERITY_RANK s of Some n \<Rightarrow> n | None \<Rightarrow> 0)"

definition worse_optical_severity :: "string \<Rightarrow> string \<Rightarrow> string" where
  "worse_optical_severity l r = (if severity_rank r \<le> severity_rank l then l else r)"

definition classify_optical_health :: "pyval \<Rightarrow> string" where
  "classify_optical_health status =
     (let n = casefold (text_of status) in
      if n \<in> set OPTICAL_HEALTH_CRITICAL_STATUSES then ''critical''
      else if n \<in> set OPTICAL_HEALTH_WARNING_STATUSES then ''warning''
      else if n \<in> set OPTICAL_HEALTH_NO_DATA_STATUSES then ''no_data''
      else ''normal'')"

definition is_optical_health_abnormal :: "pyval \<Rightarrow> bool" where
  "is_optical_health_abnormal status \<longleftrightarrow> classify_optical_health status \<in> set [''warning'', ''critical'']"

type_synonym isoparser = "string \<Rightarrow> (int \<times> int option) option"

definition parse_timestamp :: "isoparser \<Rightarrow> pyval \<Rightarrow> int option" where
  "parse_timestamp fromiso v =
     (let t = text_of v in
      if t = [] then None
      else (case fromiso (concat (map (\<lambda>c. if c = CHR ''Z'' then ''+00:00'' else [c]) t)) of
              None \<Rightarrow> None
            | Some (wall, off) \<Rightarrow> Some (wall - (case off of None \<Rightarrow> 0 | Some z \<Rightarrow> z))))"

definition classify_optical_freshness :: "isoparser \<Rightarrow> pyval list \<Rightarrow> int \<Rightarrow> int \<Rightarrow> string" where
  "classify_optical_freshness fromiso timestamps now stale_after =
     (let valid = List.map_filter (parse_timestamp fromiso) timestamps in
      if valid = [] then ''unknown''
      else if stale_after < now - Max (set valid) then ''stale'' else ''fresh'')"

definition display_optical_status :: "pyval \<Rightarrow> string \<Rightarrow> string" where
  "display_optical_status status language =
     (let raw = strip (py_str (py_or status (PStr ''unknown'')));
          labels = (if startswith (casefold language) ''en'' then OPTICAL_STATUS_LABELS_en
                    else OPTICAL_STATUS_LABELS_zh)
      in case map_of labels raw of
           Some l \<Rightarrow> l
         | None \<Rightarrow> (if raw \<noteq> [] then raw else the (map_of labels ''unknown'')))"

section \<open>AP models without an optical module\<close>

definition OPTICAL_NOT_APPLICABLE_STATUS :: string where
  "OPTICAL_NOT_APPLICABLE_STATUS = ''not_applicable''"

definition normalize_ap_model :: "pyval \<Rightarrow> string" where
  "normalize_ap_model v = casefold (text_of v)"

definition is_ap_optical_applicable :: "pyval \<Rightarrow> bool" where
  "is_ap_optical_applicable v \<longleftrightarrow> normalize_ap_model v \<notin> set [''wa6522'']"

section \<open>Severity is monotone in the received power\<close>

declare first_value.simps(2) [simp del]

lemma to_float_some: "to_float x = Some a \<Longrightarrow> x \<noteq> PNone \<and> x \<noteq> PStr []"
  by (auto simp: to_float_def search_float_def)

lemma to_float_not_nan: "to_float x = Some a \<Longrightarrow> a \<noteq> FNaN"
  by (auto simp: to_float_def search_float_not_nan split: pyval.splits)

lemma first_value_dput_other:
  "k \<notin> set ks \<Longrightarrow> first_value (dput k v r) ks = first_value r ks"
  by (induction ks) (auto simp: first_value.simps(2) dict_simps Let_def)

lemma first_value_dput_head:
  "v \<noteq> PNone \<Longrightarrow> v \<noteq> PStr [] \<Longrightarrow> first_value (dput k v r) (k # ks) = v"
  by (simp add: first_value.simps(2) dict_simps)

lemma first_float_dput_other:
  "k \<notin> set ks \<Longrightarrow> first_float (dput k v r) ks = first_float r ks"
  by (simp add: first_float_def first_value_dput_other)

lemma severity_rank_values [simp]:
  "severity_rank ''no_module'' = 0" "severity_rank ''no_light'' = 6"
  "severity_rank ''link_abnormal'' = 5" "severity_rank ''unknown'' = 0"
  "severity_rank ''normal'' = 1" "severity_rank ''notice'' = 2"
  "severity_rank ''warning'' = 3" "severity_rank ''alarm'' = 4"
  by (simp_all add: severity_rank_def SEVERITY_RANK_def)

lemma fadd_Fin_not_nan: "x \<noteq> FNaN \<Longrightarrow> fadd x (Fin a) \<noteq> FNaN"
  by (cases x) auto

lemma MAINTENANCE_MARGIN_Fin: "MAINTENANCE_MARGIN_DB = Fin 3"
  unfolding MAINTENANCE_MARGIN_DB_def by code_simp

lemma DERIVED_WARNING_Fin: "\<exists>d. DERIVED_WARNING_DELTA_DB = Fin d"
proof -
  have "DERIVED_WARNING_DELTA_DB = Fin (1131529406376837 / 562949953421312)"
    unfolding DERIVED_WARNING_DELTA_DB_def by code_simp
  then show ?thesis by blast
qed

lemma normal_line_not_nan: "w \<noteq> FNaN \<Longrightarrow> fround2 (fadd w MAINTENANCE_MARGIN_DB) \<noteq> FNaN"
  by (simp add: MAINTENANCE_MARGIN_Fin fadd_Fin_not_nan fround2_not_nan)

lemma severity_band_mono:
  assumes "fle a b" and "w \<noteq> FNaN"
  shows "severity_rank (fst (severity_band b alarm w)) \<le> severity_rank (fst (severity_band a alarm w))"
proof -
  define l where "l = fround2 (fadd w MAINTENANCE_MARGIN_DB)"
  have "a \<noteq> FNaN" "b \<noteq> FNaN" using assms(1) by auto
  moreover have "l \<noteq> FNaN" using assms(2) by (simp add: l_def normal_line_not_nan)
  ultimately have n: "flt a l \<longleftrightarrow> \<not> fle l a" "flt b l \<longleftrightarrow> \<not> fle l b"
      "flt a w \<longleftrightarrow> \<not> fle w a" "flt b w \<longleftrightarrow> \<not> fle w b"
    using assms(2) not_flt_iff by blast+
  show ?thesis
    using fle_trans [OF _ assms(1)]
    by (auto simp: severity_band_def Let_def n simp flip: l_def split: option.splits)
qed

lemma module_absent_dput_rx [simp]:
  "is_optical_module_absent (dput ''rx_power'' v r) = is_optical_module_absent r"
  by (simp add: is_optical_module_absent_def first_value_dput_other dict_simps)

lemma effective_thresholds_dput_rx [simp]:
  "effective_thresholds (dput ''rx_power'' v r) t = effective_thresholds r t"
  by (simp add: effective_thresholds_def first_float_dput_other)

lemma band_le4: "severity_rank (fst (severity_band b alarm w)) \<le> 4"
  by (auto simp: severity_band_def Let_def)

lemma severity_with_rx:
  assumes "to_float x = Some a"
  shows "severity (compute_optical_severity (dput ''rx_power'' x r)) =
    (if is_optical_module_absent r then ''no_module''
     else if fle a (double (- 35)) then ''no_light''
     else if upper (text_of (first_value r [''port_status'', ''switch_port_status'', ''ap_port_status''])) = ''DOWN''
     then ''link_abnormal''
     else (let (alarm, warning, source) = effective_thresholds r
                 (casefold (text_of (first_value r [''device_type'', ''source_type''])))
           in case warning of None \<Rightarrow> ''unknown'' | Some w \<Rightarrow> fst (severity_band a alarm w)))"
proof -
  have x: "first_float (dput ''rx_power'' x r) [''rx_power'', ''switch_rx_power'', ''ap_rx_power''] = Some a"
    using assms to_float_some [OF assms] unfolding first_float_def
    by (simp add: first_value_dput_head)
  show ?thesis
    unfolding compute_optical_severity_def Let_def x
    by (auto simp: severity_result_def first_value_dput_other split: prod.splits option.splits)
qed

lemma warning_threshold_not_nan:
  assumes "effective_thresholds r t = (alarm, Some w, source)"
  shows "w \<noteq> FNaN"
proof -
  obtain d where d: "DERIVED_WARNING_DELTA_DB = Fin d" using DERIVED_WARNING_Fin by blast
  have "AP_DEFAULT_WARNING_LOW \<noteq> FNaN" by (simp add: AP_DEFAULT_WARNING_LOW_def)
  moreover have "fround2 (fadd x (Fin d)) \<noteq> FNaN" if "Some x = to_float v" for x v
    using that to_float_not_nan [of v x] by (simp add: fround2_not_nan fadd_Fin_not_nan)
  ultimately show ?thesis
    using assms
    by (auto simp: effective_thresholds_def Let_def d first_float_def
        apply_ap_default_threshold_profile_def dest: to_float_not_nan
        split: option.splits if_splits)
qed

text \<open>
  More light is never rated worse: for any record, raising the received power from \<open>a\<close> to
  \<open>b\<close> never raises the severity rank, whatever thresholds, port state or module state the record
  carries (native, derived and default thresholds included).
\<close>

theorem severity_monotone:
  assumes "to_float x = Some a" and "to_float y = Some b" and "fle a b"
  shows "severity_rank (severity (compute_optical_severity (dput ''rx_power'' y r)))
           \<le> severity_rank (severity (compute_optical_severity (dput ''rx_power'' x r)))"
proof -
  obtain alarm warning source where t: "effective_thresholds r
      (casefold (text_of (first_value r [''device_type'', ''source_type'']))) = (alarm, warning, source)"
    by (metis prod_cases3)
  have "fle a (double (- 35))" if "fle b (double (- 35))"
    using fle_trans [OF assms(3) that] .
  moreover have "severity_rank (fst (severity_band b alarm w)) \<le> 6" for w
    using band_le4 [of b alarm w] by simp
  moreover have "severity_rank (fst (severity_band b alarm w)) \<le> severity_rank (fst (severity_band a alarm w))"
    if "warning = Some w" for w
    using severity_band_mono [OF assms(3)] warning_threshold_not_nan t that by blast
  ultimately show ?thesis
    by (auto simp: severity_with_rx [OF assms(1)] severity_with_rx [OF assms(2)] t
      split: option.splits)
qed

theorem severity_monotone_witness:
  "severity_rank (severity (compute_optical_severity (dput ''rx_power'' (PStr ''-5.5'') [(''device_type'', PStr ''ap'')])))
     \<le> severity_rank (severity (compute_optical_severity (dput ''rx_power'' (PStr ''-18'') [(''device_type'', PStr ''ap'')])))"
proof (rule severity_monotone)
  show "to_float (PStr ''-18'') = Some (Fin (- 18))" by code_simp
  show "to_float (PStr ''-5.5'') = Some (Fin (- 11 / 2))" by code_simp
  show "fle (Fin (- 18)) (Fin (- 11 / 2))" by code_simp
qed

section \<open>The documented bands\<close>

text \<open>
  The status model of the module's documentation. For a record whose module is present, whose
  port is not DOWN and whose native thresholds satisfy alarm \<open>\<le>\<close> warning \<open>\<le>\<close> normal line, a power
  above -35 dBm is rated alarm, warning, notice or normal exactly by the band it lies in.
\<close>

theorem severity_bands:
  assumes "\<not> is_optical_module_absent r"
    and "first_float r [''rx_power'', ''switch_rx_power'', ''ap_rx_power''] = Some p"
    and "\<not> fle p (double (- 35))"
    and "upper (text_of (first_value r [''port_status'', ''switch_port_status'', ''ap_port_status''])) \<noteq> ''DOWN''"
    and "first_float r [''alarm_low'', ''rx_low_alarm''] = Some a"
    and "first_float r [''warning_low'', ''rx_low_warning''] = Some w"
    and "fle a w" and "fle w (fround2 (fadd w MAINTENANCE_MARGIN_DB))"
  shows "severity (compute_optical_severity r) =
    (if flt p a then ''alarm'' else if flt p w then ''warning''
     else if flt p (fround2 (fadd w MAINTENANCE_MARGIN_DB)) then ''notice'' else ''normal'')"
proof -
  define l where "l = fround2 (fadd w MAINTENANCE_MARGIN_DB)"
  have nan: "p \<noteq> FNaN" "a \<noteq> FNaN" "w \<noteq> FNaN" "l \<noteq> FNaN"
    using assms(2,5,7,8) to_float_not_nan by (auto simp: first_float_def l_def)
  then have n: "flt p l \<longleftrightarrow> \<not> fle l p" "flt p w \<longleftrightarrow> \<not> fle w p" "flt p a \<longleftrightarrow> \<not> fle a p"
    using not_flt_iff by blast+
  have t: "effective_thresholds r t = (Some a, Some w, ''native'')" for t
    using assms(5,6) by (simp add: effective_thresholds_def)
  have "severity (compute_optical_severity r) = fst (severity_band p (Some a) w)"
    using assms(1-4) unfolding compute_optical_severity_def Let_def t
    by (auto split: prod.splits)
  moreover have "fle w p" if "fle l p"
    using assms(8) that fle_trans unfolding l_def by blast
  moreover have "fle a p" if "fle w p"
    using assms(7) that by (rule fle_trans)
  ultimately show ?thesis
    by (auto simp: severity_band_def Let_def n simp flip: l_def)
qed

definition sample_optical :: pydict where
  "sample_optical =
     [(''rx_power'', PStr ''-15.20 dBm''), (''rx_low_alarm'', PStr ''-19.00''),
      (''rx_low_warning'', PStr ''-16.99''), (''port_status'', PStr ''UP'')]"

theorem severity_bands_witness: "severity (compute_optical_severity sample_optical) = ''notice''"
proof -
  let ?p = "Fin (- 4278419646001971 / 281474976710656)" and ?a = "Fin (- 19)"
    and ?w = "Fin (- 4782259854314045 / 281474976710656)"
  let ?m = "Fin (- 3937834924182077 / 281474976710656)" and ?l = "Fin (- 7875669848364155 / 562949953421312)"
  have m: "fadd ?w (Fin 3) = ?m" by code_simp
  have "fround2 ?m = ?l" by code_simp
  with m have l: "fround2 (fadd ?w MAINTENANCE_MARGIN_DB) = ?l" by (simp add: MAINTENANCE_MARGIN_Fin)
  have "severity (compute_optical_severity sample_optical) =
    (if flt ?p ?a then ''alarm'' else if flt ?p ?w then ''warning''
     else if flt ?p (fround2 (fadd ?w MAINTENANCE_MARGIN_DB)) then ''notice'' else ''normal'')"
  proof (rule severity_bands)
    show "\<not> is_optical_module_absent sample_optical" by code_simp
    show "first_float sample_optical [''rx_power'', ''switch_rx_power'', ''ap_rx_power''] = Some ?p"
      by code_simp
    show "\<not> fle ?p (double (- 35))" by code_simp
    show "upper (text_of (first_value sample_optical [''port_status'', ''switch_port_status'',
        ''ap_port_status''])) \<noteq> ''DOWN''" by code_simp
    show "first_float sample_optical [''alarm_low'', ''rx_low_alarm''] = Some ?a" by code_simp
    show "first_float sample_optical [''warning_low'', ''rx_low_warning''] = Some ?w" by code_simp
    show "fle ?a ?w" by code_simp
    show "fle ?w (fround2 (fadd ?w MAINTENANCE_MARGIN_DB))" unfolding l by code_simp
  qed
  also have "\<dots> = ''notice''" unfolding l by code_simp
  finally show ?thesis .
qed

section \<open>Statuses and their ranking\<close>

lemma severity_of_zte:
  "severity (compute_zte_optical_severity r) \<in>
     {''no_module'', ''no_light'', ''abnormal'', ''normal'', ''unknown''}"
  by (auto simp: compute_zte_optical_severity_def severity_result_def Let_def
      split: option.splits prod.splits)

lemma severity_of_generic:
  "severity (compute_optical_severity r) \<in>
     {''no_module'', ''no_light'', ''link_abnormal'', ''unknown'', ''normal'', ''notice'', ''warning'', ''alarm''}"
  by (auto simp: compute_optical_severity_def severity_result_def severity_band_def Let_def
      split: option.splits prod.splits if_splits)

text \<open>
  Both classifications answer only statuses that the ranking, the colour table and both label
  tables know, so no rating falls back to a default rank, colour or raw label.
\<close>

theorem severity_is_known:
  "severity (compute_optical_severity r) \<in> dom (map_of SEVERITY_RANK) \<inter> dom (map_of STATUS_COLORS) \<inter>
     dom (map_of OPTICAL_STATUS_LABELS_zh) \<inter> dom (map_of OPTICAL_STATUS_LABELS_en) \<and>
   severity (compute_zte_optical_severity r) \<in> dom (map_of SEVERITY_RANK) \<inter> dom (map_of STATUS_COLORS) \<inter>
     dom (map_of OPTICAL_STATUS_LABELS_zh) \<inter> dom (map_of OPTICAL_STATUS_LABELS_en)"
  using severity_of_generic [of r] severity_of_zte [of r]
  by (auto simp: dom_map_of_conv_image_fst SEVERITY_RANK_def STATUS_COLORS_def
      OPTICAL_STATUS_LABELS_zh_def OPTICAL_STATUS_LABELS_en_def)

lemma worse_rank: "severity_rank (worse_optical_severity l r) = max (severity_rank l) (severity_rank r)"
  by (simp add: worse_optical_severity_def max_def)

text \<open>
  Combining severities: the result is one of the two arguments, has the larger rank, and
  folding several severities does not depend on how they are grouped.
\<close>

theorem worse_optical_severity_lattice:
  "worse_optical_severity l r \<in> {l, r} \<and>
   severity_rank (worse_optical_severity l r) = max (severity_rank l) (severity_rank r) \<and>
   worse_optical_severity (worse_optical_severity l r) s = worse_optical_severity l (worse_optical_severity r s)"
  by (auto simp: worse_optical_severity_def max_def)

section \<open>ZTE records\<close>

lemma map_of_fold_dput_None:
  "map_of (fold (\<lambda>field d. dput field PNone d) fs d) k = (if k \<in> set fs then Some PNone else map_of d k)"
  by (induction fs arbitrary: d) (auto simp: dict_simps)

lemma fold_dput_None_same:
  "\<forall>f \<in> set fs. map_of d f = Some PNone \<Longrightarrow> fold (\<lambda>field d. dput field PNone d) fs d = d"
  by (induction fs) (auto simp: dput_same)

lemma fold_dput_None:
  "dget (fold (\<lambda>field d. dput field PNone d) fs d) k = (if k \<in> set fs then PNone else dget d k)"
  by (induction fs arbitrary: d) (auto simp: dict_simps)

text \<open>The fields that normalising sets before the absent-module fields are cleared.\<close>

definition zte_marked :: "pydict \<Rightarrow> pydict" where
  "zte_marked r =
     (let result = compute_zte_optical_severity r; status = severity result in
      dput ''severity_reason'' (opt_text (reason result))
        (dput ''module_online'' (PBool (status \<noteq> ''no_module''))
        (dput ''module_present'' (PBool (status \<noteq> ''no_module''))
        (dput ''normalized_status'' (PStr (upper status))
        (dput ''status'' (PStr status) (dput ''device_vendor'' (PStr ''ZTE'') r))))))"

lemma normalize_zte_alt:
  "normalize_zte_optical_record r =
     (let status = severity (compute_zte_optical_severity r) in
      if status = ''no_module''
      then dput ''dom_supported'' (PBool False)
             (fold (\<lambda>field d. dput field PNone d) ZTE_NO_MODULE_FIELDS (zte_marked r))
      else if status = ''no_light'' then dput ''dom_supported'' (PBool False) (zte_marked r)
      else zte_marked r)"
  by (simp add: normalize_zte_optical_record_def zte_marked_def Let_def)

lemma is_false_PBool: "is_false (PBool b) \<longleftrightarrow> \<not> b"
proof -
  have "\<not> is_false (PBool True)" "is_false (PBool False)" by code_simp+
  then show ?thesis by (cases b) auto
qed

lemma absent_no_module:
  assumes "dget n ''module_present'' = PBool False"
  shows "is_optical_module_absent n"
  using assms by (simp add: is_optical_module_absent_def first_value.simps(2) is_false_PBool)

lemma compute_zte_absent:
  "is_optical_module_absent n \<Longrightarrow> compute_zte_optical_severity n =
     (severity_result ''no_module'' msg_zte_offline)
       \<lparr>warning_source := ''zte_device'', source_label := ''ZTE device reported''\<rparr>"
  by (simp add: compute_zte_optical_severity_def)

lemma compute_zte_no_module:
  "severity (compute_zte_optical_severity r) = ''no_module'' \<Longrightarrow> compute_zte_optical_severity r =
     (severity_result ''no_module'' msg_zte_offline)
       \<lparr>warning_source := ''zte_device'', source_label := ''ZTE device reported''\<rparr>"
  by (auto simp: compute_zte_optical_severity_def severity_result_def Let_def
      split: if_splits option.splits)


lemma compute_zte_present:
  assumes "severity (compute_zte_optical_severity r) \<noteq> ''no_module''"
  shows "\<not> is_optical_module_absent r \<and> \<not> is_false (first_value r [''module_online'']) \<and>
    zte_reported_status r \<noteq> ''offline''"
  using assms by (auto simp: compute_zte_optical_severity_def severity_result_def Let_def split: if_splits)

lemma compute_zte_cong:
  assumes "severity (compute_zte_optical_severity r) \<noteq> ''no_module''"
    and "\<not> is_optical_module_absent n" and "\<not> is_false (first_value n [''module_online''])"
    and "zte_reported_status n = zte_reported_status r"
    and "\<And>ks. ks \<in> {[''rx_power'', ''rx_power_dbm''], [''tx_power'', ''tx_power_dbm''],
           [''rx_low_alarm'', ''rx_low_alarm_dbm''], [''rx_high_alarm'', ''rx_high_alarm_dbm''],
           [''tx_low_alarm'', ''tx_low_alarm_dbm''], [''tx_high_alarm'', ''tx_high_alarm_dbm'']}
         \<Longrightarrow> first_float n ks = first_float r ks"
  shows "compute_zte_optical_severity n = compute_zte_optical_severity r"
proof -
  have f: "first_float n [''rx_power'', ''rx_power_dbm''] = first_float r [''rx_power'', ''rx_power_dbm'']"
    "first_float n [''tx_power'', ''tx_power_dbm''] = first_float r [''tx_power'', ''tx_power_dbm'']"
    "first_float n [''rx_low_alarm'', ''rx_low_alarm_dbm''] = first_float r [''rx_low_alarm'', ''rx_low_alarm_dbm'']"
    "first_float n [''rx_high_alarm'', ''rx_high_alarm_dbm''] = first_float r [''rx_high_alarm'', ''rx_high_alarm_dbm'']"
    "first_float n [''tx_low_alarm'', ''tx_low_alarm_dbm''] = first_float r [''tx_low_alarm'', ''tx_low_alarm_dbm'']"
    "first_float n [''tx_high_alarm'', ''tx_high_alarm_dbm''] = first_float r [''tx_high_alarm'', ''tx_high_alarm_dbm'']"
    by (rule assms(5), simp)+
  have "zte_comparisons n = zte_comparisons r"
    unfolding zte_comparisons_def f ..
  then show ?thesis
    using assms(2-4) compute_zte_present [OF assms(1)]
    by (simp only: compute_zte_optical_severity_def Let_def f)
qed

lemma first_value_marked_other:
  "set ks \<inter> {''severity_reason'', ''module_online'', ''module_present'', ''normalized_status'',
     ''status'', ''device_vendor''} = {} \<Longrightarrow> first_value (zte_marked r) ks = first_value r ks"
  by (simp add: zte_marked_def Let_def first_value_dput_other)

lemma first_value_append_found:
  "first_value r ks \<noteq> PNone \<Longrightarrow> first_value r (ks @ rest) = first_value r ks"
  by (induction ks) (auto simp: first_value.simps(2) Let_def)

lemma zte_reported_prefix:
  assumes "first_value r [''device_reported_status'', ''vendor_status'', ''module_status''] \<noteq> PNone"
  shows "zte_reported_status r =
    casefold (text_of (first_value r [''device_reported_status'', ''vendor_status'', ''module_status'']))"
  using first_value_append_found [OF assms, of "[''status'']"] by (simp add: zte_reported_status_def)

lemma marked_not_absent:
  assumes "severity (compute_zte_optical_severity r) \<noteq> ''no_module''"
  shows "\<not> is_optical_module_absent (zte_marked r)"
proof -
  have r: "\<not> is_optical_module_absent r" using compute_zte_present [OF assms] by simp
  have "\<not> is_false (first_value (zte_marked r) [''module_present'', ''has_module''])"
    using assms by (simp add: zte_marked_def Let_def first_value.simps(2) dict_simps is_false_PBool)
  moreover have "first_value (zte_marked r) [''no_module''] = first_value r [''no_module'']"
    by (simp add: first_value_marked_other)
  moreover have "casefold (text_of (dget (zte_marked r) ''status'')) \<notin> set MODULE_ABSENT_WORDS"
  proof -
    have "casefold (strip s) \<notin> set MODULE_ABSENT_WORDS"
      if "s \<in> {''no_light'', ''abnormal'', ''normal'', ''unknown''}" for s
    proof -
      have "casefold (strip ''no_light'') \<notin> set MODULE_ABSENT_WORDS"
        "casefold (strip ''abnormal'') \<notin> set MODULE_ABSENT_WORDS"
        "casefold (strip ''normal'') \<notin> set MODULE_ABSENT_WORDS"
        "casefold (strip ''unknown'') \<notin> set MODULE_ABSENT_WORDS" by code_simp+
      then show ?thesis using that by blast
    qed
    then show ?thesis
      using assms severity_of_zte [of r] by (simp add: zte_marked_def Let_def dict_simps)
  qed
  moreover have "dget (zte_marked r) k = dget r k"
    if "k \<in> {''module_status'', ''transceiver_status'', ''optical_alarm_status''}" for k
    using that by (auto simp: zte_marked_def Let_def dict_simps)
  ultimately show ?thesis
    using r by (auto simp: is_optical_module_absent_def split: if_splits)
qed


text \<open>
  Normalising a ZTE record that carries a device-reported status is idempotent: parsers,
  the snapshot merge and the repository, which each normalise again, agree on the record.
\<close>

theorem normalize_zte_idem:
  assumes "first_value r [''device_reported_status'', ''vendor_status'', ''module_status''] \<noteq> PNone"
  shows "normalize_zte_optical_record (normalize_zte_optical_record r) = normalize_zte_optical_record r"
proof -
  let ?n = "normalize_zte_optical_record r"
  have same: "compute_zte_optical_severity ?n = compute_zte_optical_severity r"
  proof (cases "severity (compute_zte_optical_severity r) = ''no_module''")
    case True
    then have "dget ?n ''module_present'' = PBool False"
      by (simp add: normalize_zte_alt fold_dput_None zte_marked_def Let_def dict_simps
          ZTE_NO_MODULE_FIELDS_def)
    then show ?thesis
      using compute_zte_absent [OF absent_no_module] compute_zte_no_module [OF True] by simp
  next
    case False
    then have m: "?n = zte_marked r \<or> ?n = dput ''dom_supported'' (PBool False) (zte_marked r)"
      by (auto simp: normalize_zte_alt Let_def)
    have d: "first_value ?n ks = first_value (zte_marked r) ks" if "''dom_supported'' \<notin> set ks" for ks
      using m that first_value_dput_other by metis
    have "zte_reported_status ?n = zte_reported_status r"
      using assms by (simp add: zte_reported_prefix d first_value_marked_other)
    moreover have "\<not> is_optical_module_absent ?n"
      using m marked_not_absent [OF False]
      by (auto simp: is_optical_module_absent_def first_value_dput_other dict_simps)
    moreover have "first_value ?n [''module_online''] = PBool True"
      using False by (simp add: d) (simp add: zte_marked_def Let_def first_value.simps(2) dict_simps)
    ultimately show ?thesis
      using False by (intro compute_zte_cong)
        (auto simp: first_float_def d first_value_marked_other is_false_PBool)
  qed
  let ?status = "severity (compute_zte_optical_severity r)"
  have marked: "map_of ?n ''device_vendor'' = Some (PStr ''ZTE'')" "map_of ?n ''status'' = Some (PStr ?status)"
    "map_of ?n ''normalized_status'' = Some (PStr (upper ?status))"
    "map_of ?n ''module_present'' = Some (PBool (?status \<noteq> ''no_module''))"
    "map_of ?n ''module_online'' = Some (PBool (?status \<noteq> ''no_module''))"
    "map_of ?n ''severity_reason'' = Some (opt_text (reason (compute_zte_optical_severity r)))"
    by (simp_all add: normalize_zte_alt zte_marked_def Let_def map_of_fold_dput_None dict_simps
        ZTE_NO_MODULE_FIELDS_def)
  have "zte_marked ?n = ?n"
    by (simp add: zte_marked_def same Let_def dput_same marked)
  moreover have "dput ''dom_supported'' (PBool False) ?n = ?n" if "?status \<in> {''no_module'', ''no_light''}"
    using that by (intro dput_same) (auto simp: normalize_zte_alt Let_def dict_simps)
  moreover have "fold (\<lambda>field d. dput field PNone d) ZTE_NO_MODULE_FIELDS ?n = ?n"
    if "?status = ''no_module''"
  proof (intro fold_dput_None_same ballI)
    fix f assume f: "f \<in> set ZTE_NO_MODULE_FIELDS"
    have "''dom_supported'' \<notin> set ZTE_NO_MODULE_FIELDS" by code_simp
    with f show "map_of ?n f = Some PNone"
      using that by (auto simp: normalize_zte_alt Let_def map_of_dput map_of_fold_dput_None)
  qed
  ultimately show ?thesis
    by (simp add: normalize_zte_alt [of ?n] same Let_def)
qed

definition sample_zte :: pydict where
  "sample_zte =
     [(''interface_name'', PStr ''xgei-0/1/1/1''), (''device_reported_status'', PStr ''normal''),
      (''rx_power'', PStr ''-7.5''), (''rx_low_alarm'', PStr ''-18''), (''rx_high_alarm'', PStr ''0'')]"

theorem normalize_zte_idem_witness:
  "first_value sample_zte [''device_reported_status'', ''vendor_status'', ''module_status''] = PStr ''normal'' \<and>
   normalize_zte_optical_record (normalize_zte_optical_record sample_zte) = normalize_zte_optical_record sample_zte"
proof
  show reported: "first_value sample_zte [''device_reported_status'', ''vendor_status'', ''module_status'']
      = PStr ''normal''" by code_simp
  show "normalize_zte_optical_record (normalize_zte_optical_record sample_zte) = normalize_zte_optical_record sample_zte"
    by (rule normalize_zte_idem) (simp add: reported)
qed

text \<open>
  Without a device-reported status normalising is not idempotent: a module that reports a
  power but no thresholds is first rated \<open>unknown\<close>; normalising the stored record again reads that
  rating as if the device had reported it and turns it into \<open>no_light\<close>, with the reason that the
  device returned no received power.
\<close>

theorem normalize_zte_unstable:
  "let r = [(''rx_power'', PStr ''-7.5'')];
       once = normalize_zte_optical_record r;
       twice = normalize_zte_optical_record once
   in dget once ''status'' = PStr ''unknown'' \<and> dget twice ''status'' = PStr ''no_light'' \<and>
      dget twice ''severity_reason'' = PStr ZTE_NO_LIGHT_REASON \<and>
      dget twice ''rx_power'' = PStr ''-7.5''"
  by code_simp

section \<open>History comparison and freshness\<close>

lemma OPTICAL_HISTORY_POWER_DELTA_Fin: "\<exists>d. OPTICAL_HISTORY_POWER_DELTA_DB = Fin d \<and> 0 < d"
proof -
  have "OPTICAL_HISTORY_POWER_DELTA_DB = Fin (3602879701896397 / 18014398509481984)"
    unfolding OPTICAL_HISTORY_POWER_DELTA_DB_def by code_simp
  then show ?thesis by (intro exI conjI) auto
qed

lemma power_changed_refl: "\<not> optical_history_power_changed v v"
proof -
  obtain d where d: "OPTICAL_HISTORY_POWER_DELTA_DB = Fin d" "0 < d"
    using OPTICAL_HISTORY_POWER_DELTA_Fin by blast
  have "\<not> fle (Fin d) (fabs (fsub x x))" for x
    using fsub_self [of x] not_fle_pos_zero [OF d(2)] by auto
  then show ?thesis
    by (simp add: optical_history_power_changed_def d(1) split: option.splits)
qed

lemma history_fields_no_power: "''rx_power'' \<notin> set OPTICAL_HISTORY_FIELDS"
  by (simp add: OPTICAL_HISTORY_FIELDS_def)

text \<open>
  The history comparison ignores jitter. A record never differs from itself, and two records
  that differ in the received power only are different exactly when the powers, read as numbers,
  differ by at least the 0.20 dB tolerance.
\<close>

theorem history_ignores_jitter:
  assumes "to_float x = Some a" and "to_float y = Some b"
  shows "\<not> optical_history_state_changed r r \<and>
    (optical_history_state_changed (dput ''rx_power'' x r) (dput ''rx_power'' y r)
       \<longleftrightarrow> fle OPTICAL_HISTORY_POWER_DELTA_DB (fabs (fsub b a)))"
proof -
  have "list_ex (\<lambda>f. history_text (dget (dput ''rx_power'' x r) f) \<noteq>
      history_text (dget (dput ''rx_power'' y r) f)) OPTICAL_HISTORY_FIELDS = False"
    using history_fields_no_power by (auto simp: list_ex_iff dict_simps)
  moreover have "optical_history_power_changed x y \<longleftrightarrow>
      fle OPTICAL_HISTORY_POWER_DELTA_DB (fabs (fsub b a))"
    by (simp add: optical_history_power_changed_def assms)
  ultimately show ?thesis
    by (simp add: optical_history_state_changed_def power_changed_refl dict_simps list_ex_iff)
qed

text \<open>
  The witness also shows the binary tolerance at work: from -10.0 to -10.2 dBm the difference of
  the doubles is just below the double 0.20, so the step is not recorded; to -10.25 it is.
\<close>

theorem history_ignores_jitter_witness:
  "\<not> optical_history_state_changed (dput ''rx_power'' (PStr ''-10.0'') []) (dput ''rx_power'' (PStr ''-10.2'') []) \<and>
   optical_history_state_changed (dput ''rx_power'' (PStr ''-10.0'') []) (dput ''rx_power'' (PStr ''-10.25'') [])"
proof -
  have a: "to_float (PStr ''-10.0'') = Some (Fin (- 10))"
    and b: "to_float (PStr ''-10.2'') = Some (Fin (- 5742089524897382 / 562949953421312))"
    and c: "to_float (PStr ''-10.25'') = Some (Fin (- 41 / 4))" by code_simp+
  have "\<not> fle OPTICAL_HISTORY_POWER_DELTA_DB (fabs (fsub (Fin (- 5742089524897382 / 562949953421312)) (Fin (- 10))))"
    "fle OPTICAL_HISTORY_POWER_DELTA_DB (fabs (fsub (Fin (- 41 / 4)) (Fin (- 10))))" by code_simp+
  then show ?thesis
    using history_ignores_jitter [OF a b, of "[]"] history_ignores_jitter [OF a c, of "[]"] by simp
qed

lemma freshness_fresh_iff:
  assumes "List.map_filter (parse_timestamp fromiso) ts \<noteq> []"
  shows "classify_optical_freshness fromiso ts now stale = ''fresh'' \<longleftrightarrow>
    (\<exists>t \<in> set (List.map_filter (parse_timestamp fromiso) ts). now - stale \<le> t)"
proof -
  let ?v = "set (List.map_filter (parse_timestamp fromiso) ts)"
  have "?v \<noteq> {}" "finite ?v" using assms by auto
  then have "(now - stale \<le> Max ?v) \<longleftrightarrow> (\<exists>t \<in> ?v. now - stale \<le> t)"
    by (simp add: Max_ge_iff)
  then show ?thesis using assms by (auto simp: classify_optical_freshness_def Let_def)
qed

end
