(* ===== verification/Interface_Name.thy ===== *)
theory Interface_Name
  imports NC_Prelude
begin

text \<open>
  \<^verbatim>\<open>utils/interface_normalize.py\<close>: expanding abbreviated interface names and shortening them for
  display. The regular expressions are written out as the matchers they denote; matching ignores
  the case of ASCII letters.
\<close>

section \<open>Matchers\<close>

definition is_alpha :: "char \<Rightarrow> bool" where
  "is_alpha c \<longleftrightarrow> is_upper c \<or> is_lower c"

text \<open>\<^verbatim>\<open>\d+(?:[/.:]\d+)*\<close>, matched against the whole text.\<close>

function port_path :: "string \<Rightarrow> bool" where
  "port_path s =
     (let ds = takeWhile is_digit s; rest = dropWhile is_digit s in
      ds \<noteq> [] \<and>
      (case rest of [] \<Rightarrow> True
       | c # cs \<Rightarrow> c \<in> {CHR ''/'', CHR ''.'', CHR '':''} \<and> port_path cs))"
  by pat_completeness auto
termination
proof (relation "measure length", goal_cases)
  case 1
  then show ?case by simp
next
  case (2 s x xa c cs)
  have "length (dropWhile is_digit s) \<le> length s" by (rule length_dropWhile_le)
  with 2 show ?case by (auto dest: sym)
qed

declare port_path.simps [simp del]

text \<open>
  \<open>_SPACED_INTERFACE_PATTERN\<close>: a name of letters and hyphens, blanks, and a port path; the result
  is the name and the path.
\<close>

definition match_spaced :: "string \<Rightarrow> (string \<times> string) option" where
  "match_spaced s =
     (let prefix = takeWhile (\<lambda>c. is_alpha c \<or> c = CHR ''-'') s;
          rest = drop (length prefix) s;
          suffix = dropWhile is_space rest
      in if prefix \<noteq> [] \<and> is_alpha (hd prefix) \<and> rest \<noteq> [] \<and> is_space (hd rest) \<and> port_path suffix
         then Some (prefix, suffix) else None)"

definition SPACED_PREFIX_REPLACEMENTS :: "(string \<times> string) list" where
  "SPACED_PREFIX_REPLACEMENTS =
     [(''ten-gigabitethernet'', ''Ten-GigabitEthernet''),
      (''tengigabitethernet'', ''Ten-GigabitEthernet''),
      (''xgigabitethernet'', ''Ten-GigabitEthernet''),
      (''ten-ge'', ''Ten-GigabitEthernet''), (''ten'', ''Ten-GigabitEthernet''),
      (''xge'', ''Ten-GigabitEthernet''), (''gigabitethernet'', ''GigabitEthernet''),
      (''ge'', ''GigabitEthernet''), (''bridge-aggregation'', ''Bridge-Aggregation''),
      (''bagg'', ''Bridge-Aggregation''), (''vlan-interface'', ''Vlan-interface''),
      (''vlan'', ''Vlan-interface'')]"

definition interface_replacements :: "(string \<times> string) list" where
  "interface_replacements =
     [(''xgigabitethernet'', ''Ten-GigabitEthernet''),
      (''tengigabitethernet'', ''Ten-GigabitEthernet''), (''ten-ge'', ''Ten-GigabitEthernet''),
      (''ten'', ''Ten-GigabitEthernet''), (''xge'', ''Ten-GigabitEthernet''),
      (''gigabitethernet'', ''GigabitEthernet''), (''ge'', ''GigabitEthernet''),
      (''bagg'', ''Bridge-Aggregation''), (''vlan'', ''Vlan-interface'')]"

section \<open>Normalising and displaying\<close>

text \<open>The loop over the replacements, answering the text unchanged when none applies.\<close>

fun replace_prefix :: "(string \<times> string) list \<Rightarrow> string \<Rightarrow> string" where
  "replace_prefix [] s = s"
| "replace_prefix ((prefix, full) # rs) s =
     (let suffix = drop (length prefix) s in
      if startswith (casefold s) prefix \<and> suffix \<noteq> [] \<and> is_digit (hd suffix) then full @ suffix
      else replace_prefix rs s)"

definition expand_interface :: "string \<Rightarrow> string" where
  "expand_interface s =
     (if casefold s = ''null0'' then ''NULL0''
      else if startswith (casefold s) ''ten-gigabitethernet''
           then ''Ten-GigabitEthernet'' @ drop (length ''Ten-GigabitEthernet'') s
      else replace_prefix interface_replacements s)"

definition normalize_interface_name :: "pyval \<Rightarrow> string" where
  "normalize_interface_name v =
     (let s = rstrip_by (\<lambda>c. c = CHR '':'') (text_of v) in
      if s = [] then []
      else (case match_spaced s of
              None \<Rightarrow> expand_interface s
            | Some (prefix, suffix) \<Rightarrow>
                (case map_of SPACED_PREFIX_REPLACEMENTS (casefold prefix) of
                   Some full \<Rightarrow> full @ suffix
                 | None \<Rightarrow> expand_interface s)))"

definition DISPLAY_PREFIXES :: "(string list \<times> string) list" where
  "DISPLAY_PREFIXES =
     [([''HundredGigE'', ''Hundred-GigabitEthernet'', ''HundredGigabitEthernet'',
        ''100GigabitEthernet''], ''100GE''),
      ([''FortyGigE'', ''Forty-GigabitEthernet'', ''FortyGigabitEthernet'', ''40GigabitEthernet''],
       ''40GE''),
      ([''Twenty-FiveGigE'', ''TwentyFiveGigE'', ''Twenty-Five-GigabitEthernet'',
        ''Twenty-FiveGigabitEthernet'', ''TwentyFive-GigabitEthernet'',
        ''TwentyFiveGigabitEthernet'', ''25GigabitEthernet''], ''25GE''),
      ([''Ten-GigabitEthernet'', ''TenGigabitEthernet'', ''XGigabitEthernet''], ''XGE''),
      ([''GigabitEthernet''], ''GE'')]"

fun display_with :: "(string list \<times> string) list \<Rightarrow> string \<Rightarrow> string" where
  "display_with [] s = s"
| "display_with ((names, short) # ps) s =
     (case find (\<lambda>n. startswith (casefold s) (casefold n)) names of
        Some n \<Rightarrow> short @ dropWhile is_space (drop (length n) s)
      | None \<Rightarrow> display_with ps s)"

definition display_interface_name :: "pyval \<Rightarrow> string" where
  "display_interface_name v = display_with DISPLAY_PREFIXES (text_of v)"

section \<open>Abbreviations have one canonical form\<close>

lemma port_path_hd: "port_path p \<Longrightarrow> p \<noteq> [] \<and> is_digit (hd p)"
  by (subst (asm) port_path.simps) (cases p; auto simp: Let_def split: if_splits)

lemma port_path_last: "port_path p \<Longrightarrow> is_digit (last p)"
proof (induction p rule: port_path.induct)
  case (1 s)
  let ?ds = "takeWhile is_digit s"
  have s: "s = ?ds @ dropWhile is_digit s" by simp
  have ds: "?ds \<noteq> []" using "1.prems" by (subst (asm) port_path.simps) (simp add: Let_def)
  show ?case
  proof (cases "dropWhile is_digit s")
    case Nil
    then have "s = ?ds" using s by (metis append_Nil2)
    then show ?thesis using ds by (metis last_in_set set_takeWhileD)
  next
    case (Cons c cs)
    then have "port_path cs" using "1.prems" by (subst (asm) port_path.simps) (simp add: Let_def)
    then have "is_digit (last cs)" "cs \<noteq> []" using "1.IH" Cons port_path_hd by auto
    moreover have "last s = last cs" using s Cons \<open>cs \<noteq> []\<close> by (metis last.simps last_append list.distinct(1))
    ultimately show ?thesis by simp
  qed
qed

lemma digit_not_space: "is_digit c \<Longrightarrow> \<not> is_space c"
  by (auto simp: is_digit_def is_space_def Let_def)

lemma digit_not_alpha: "is_digit c \<Longrightarrow> \<not> is_alpha c \<and> c \<noteq> CHR ''-'' \<and> c \<noteq> CHR '':''"
  by (auto simp: is_digit_def is_alpha_def is_upper_def is_lower_def Let_def)

lemma lower_char_digit [simp]: "is_digit c \<Longrightarrow> lower_char c = c"
  by (auto simp: lower_char_def is_digit_def is_upper_def Let_def)

lemma rstrip_by_last: "s \<noteq> [] \<Longrightarrow> \<not> p (last s) \<Longrightarrow> rstrip_by p s = s"
  by (metis append_butlast_last_id rstrip_by_append_last)

lemma strip_ends: "s \<noteq> [] \<Longrightarrow> \<not> is_space (hd s) \<Longrightarrow> \<not> is_space (last s) \<Longrightarrow> strip s = s"
  by (cases s) (auto simp: strip_def lstrip_def rstrip_by_last)

text \<open>An abbreviation in any case, followed directly by a port path.\<close>

lemma normalize_prefix_path:
  assumes p: "port_path p" and a: "a \<noteq> []" "\<forall>c \<in> set a. is_alpha c \<or> c = CHR ''-''"
    and sp: "\<not> is_space (hd a)"
  shows "normalize_interface_name (PStr (a @ p)) = expand_interface (a @ p)"
proof -
  have ends: "hd (a @ p) = hd a" "last (a @ p) = last p" using a p port_path_hd by auto
  have l: "is_digit (last p)" "is_digit (hd p)" "p \<noteq> []" using p port_path_last port_path_hd by auto
  have "text_of (PStr (a @ p)) = a @ p"
    using strip_ends [of "a @ p"] a sp ends digit_not_space [OF l(1)] by simp
  moreover have "rstrip_by (\<lambda>c. c = CHR '':'') (a @ p) = a @ p"
    using a ends digit_not_alpha [OF l(1)] by (simp add: rstrip_by_last)
  moreover have "match_spaced (a @ p) = None"
  proof -
    have "takeWhile (\<lambda>c. is_alpha c \<or> c = CHR ''-'') (a @ p) = a"
      using a(2) l(2,3) digit_not_alpha [OF l(2)] by (cases p) (auto simp: takeWhile_append)
    then show ?thesis using l digit_not_space [OF l(2)] by (simp add: match_spaced_def Let_def)
  qed
  ultimately show ?thesis using a by (simp add: normalize_interface_name_def Let_def)
qed

lemma digit_not_letter:
  "is_digit d \<Longrightarrow> d \<notin> set ''abcdefghijklmnopqrstuvwxyz-''"
  by (auto simp: is_digit_def)

lemma casefold_alias_path:
  "casefold a = alias \<Longrightarrow> is_digit d \<Longrightarrow> casefold (a @ d # ps) = alias @ d # casefold ps"
  by (simp add: casefold_def)

lemma expand_alias_path:
  assumes "(alias, full) \<in> set interface_replacements" and c: "casefold a = alias" and d: "is_digit d"
  shows "expand_interface (a @ d # ps) = full @ d # ps"
proof -
  have nd: "d \<noteq> CHR ''a''" "d \<noteq> CHR ''b''" "d \<noteq> CHR ''e''" "d \<noteq> CHR ''g''" "d \<noteq> CHR ''i''"
      "d \<noteq> CHR ''n''" "d \<noteq> CHR ''t''" "d \<noteq> CHR ''v''" "d \<noteq> CHR ''x''" "d \<noteq> CHR ''-''"
    using digit_not_letter [OF d] by auto
  have len: "drop (length alias) (a @ d # ps) = d # ps" using c by (auto simp: casefold_def)
  note cf = casefold_alias_path [OF c d, of ps]
  from assms(1) show ?thesis
    unfolding interface_replacements_def list.set insert_iff empty_iff prod.inject
    using len
    by (elim disjE conjE; simp add: expand_interface_def interface_replacements_def cf startswith_def nd d Let_def)
qed


lemma lower_char_alpha: "is_alpha (lower_char c) \<or> lower_char c = CHR ''-'' \<Longrightarrow> is_alpha c \<or> c = CHR ''-''"
  by (auto simp: is_alpha_def lower_char_def)

lemma alias_letters:
  assumes "(alias, full) \<in> set interface_replacements" and "casefold a = alias"
  shows "a \<noteq> [] \<and> (\<forall>c \<in> set a. is_alpha c \<or> c = CHR ''-'') \<and> \<not> is_space (hd a)"
proof -
  have al: "list_all (\<lambda>c. is_alpha c \<or> c = CHR ''-'') x" "x \<noteq> []"
    if "(x, y) \<in> set interface_replacements" for x y
  proof -
    have "list_all (\<lambda>(x, y). list_all (\<lambda>c. is_alpha c \<or> c = CHR ''-'') x \<and> x \<noteq> []) interface_replacements"
      by code_simp
    with that show "list_all (\<lambda>c. is_alpha c \<or> c = CHR ''-'') x" "x \<noteq> []" by (auto simp: list_all_iff)
  qed
  have "is_alpha c \<or> c = CHR ''-''" if "c \<in> set a" for c
    using al(1) [OF assms(1)] that assms(2) lower_char_alpha [of c] by (auto simp: casefold_def list_all_iff)
  moreover have "a \<noteq> []" using al(2) [OF assms(1)] assms(2) by (auto simp: casefold_def)
  moreover have "\<not> is_space c" if "is_alpha c \<or> c = CHR ''-''" for c
    using that by (auto simp: is_alpha_def is_upper_def is_lower_def is_space_def Let_def)
  ultimately show ?thesis by (metis hd_in_set)
qed

lemma canonical_names:
  assumes "(alias, full) \<in> set interface_replacements"
  shows "full \<in> {''Ten-GigabitEthernet'', ''GigabitEthernet'', ''Bridge-Aggregation'', ''Vlan-interface''}"
  using assms by (auto simp: interface_replacements_def)

lemma expand_canonical_path:
  assumes "full \<in> {''Ten-GigabitEthernet'', ''GigabitEthernet'', ''Bridge-Aggregation'', ''Vlan-interface''}"
    and d: "is_digit d"
  shows "expand_interface (full @ d # ps) = full @ d # ps"
proof -
  have nd: "d \<noteq> CHR ''a''" "d \<noteq> CHR ''b''" "d \<noteq> CHR ''e''" "d \<noteq> CHR ''g''" "d \<noteq> CHR ''i''"
      "d \<noteq> CHR ''n''" "d \<noteq> CHR ''t''" "d \<noteq> CHR ''v''" "d \<noteq> CHR ''x''" "d \<noteq> CHR ''-''"
    using digit_not_letter [OF d] by auto
  have c: "casefold (full @ d # ps) = casefold full @ d # casefold ps"
    using d by (simp add: casefold_def)
  have l: "casefold ''Ten-GigabitEthernet'' = ''ten-gigabitethernet''" "casefold ''GigabitEthernet'' = ''gigabitethernet''"
    "casefold ''Bridge-Aggregation'' = ''bridge-aggregation''" "casefold ''Vlan-interface'' = ''vlan-interface''"
    by code_simp+
  have hy: "\<not> is_digit (CHR ''-'')" by code_simp
  from assms(1) show ?thesis
    unfolding insert_iff empty_iff
    using c
    by (elim disjE; simp add: expand_interface_def interface_replacements_def l startswith_def nd d hy Let_def)
qed

lemma canonical_letters:
  assumes "full \<in> {''Ten-GigabitEthernet'', ''GigabitEthernet'', ''Bridge-Aggregation'', ''Vlan-interface''}"
  shows "full \<noteq> [] \<and> (\<forall>c \<in> set full. is_alpha c \<or> c = CHR ''-'') \<and> \<not> is_space (hd full)"
proof -
  have "list_all (\<lambda>s. s \<noteq> [] \<and> list_all (\<lambda>c. is_alpha c \<or> c = CHR ''-'') s \<and> \<not> is_space (hd s))
      [''Ten-GigabitEthernet'', ''GigabitEthernet'', ''Bridge-Aggregation'', ''Vlan-interface'']"
    by code_simp
  with assms show ?thesis by (auto simp: list_all_iff)
qed

text \<open>
  Abbreviated interface names have one canonical form: an abbreviation of the replacement
  table, in any mixture of upper and lower case, followed by a port path such as \<open>1/0/24\<close> is
  expanded to its full name with the path unchanged, and normalising the result changes nothing.
\<close>

theorem normalize_interface_canonical:
  assumes "(alias, full) \<in> set interface_replacements" and "casefold a = alias" and "port_path p"
  shows "normalize_interface_name (PStr (a @ p)) = full @ p \<and>
    normalize_interface_name (PStr (full @ p)) = full @ p"
proof -
  obtain d ps where p: "p = d # ps" "is_digit d"
    using port_path_hd [OF assms(3)] by (cases p) auto
  have full: "full \<in> {''Ten-GigabitEthernet'', ''GigabitEthernet'', ''Bridge-Aggregation'', ''Vlan-interface''}"
    using assms(1) by (rule canonical_names)
  show ?thesis
    using normalize_prefix_path [OF assms(3)] alias_letters [OF assms(1,2)] canonical_letters [OF full]
      expand_alias_path [OF assms(1,2) p(2)] expand_canonical_path [OF full p(2)] p(1)
    by simp
qed

theorem normalize_interface_canonical_witness:
  "normalize_interface_name (PStr ''xGe1/0/24'') = ''Ten-GigabitEthernet1/0/24'' \<and>
   normalize_interface_name (PStr ''Ten-GigabitEthernet1/0/24'') = ''Ten-GigabitEthernet1/0/24''"
proof -
  have "casefold ''xGe'' = ''xge''" "port_path ''1/0/24''" by code_simp+
  moreover have "(''xge'', ''Ten-GigabitEthernet'') \<in> set interface_replacements"
    by (simp add: interface_replacements_def)
  ultimately show ?thesis
    using normalize_interface_canonical [of "''xge''" "''Ten-GigabitEthernet''" "''xGe''" "''1/0/24''"] by simp
qed

end
