(* ===== verification/Optical_State.thy ===== *)
theory Optical_State
  imports Optical_Severity Interface_Name
begin

text \<open>
  The optical status of an AP link, from \<^verbatim>\<open>core/optical_rx_threshold.py\<close>,
  \<^verbatim>\<open>core/sources/ap_source.py\<close>, \<^verbatim>\<open>core/sources/switch_source.py\<close> and \<^verbatim>\<open>core/state_engine.py\<close>:
  the business threshold of -13.90 dBm on one side, the combination of both sides, the projection of
  a stored AP row onto the current fact, the lookup of switch modules by device and interface name,
  and the state of the link. The lookup is a dictionary with pairs of names as keys; the clock and
  the ISO parser are arguments.
\<close>

section \<open>The business threshold\<close>

definition OPTICAL_BUSINESS_RX_MIN_DBM :: pyfloat where
  "OPTICAL_BUSINESS_RX_MIN_DBM = double (- 1390 / 100)"

definition STATUS_ALIASES :: "(string \<times> string) list" where
  "STATUS_ALIASES =
     [(zh_normal, ''normal''), (zh_notice, ''notice''), (zh_warning, ''warning''),
      (zh_alarm, ''alarm''), (zh_critical, ''critical''), (zh_abnormal, ''abnormal''),
      (zh_power_abnormal, ''abnormal''), (zh_link_abnormal, ''link_abnormal''),
      (zh_link_down, ''link_down''), (zh_no_light, ''no_light''), (zh_no_module, ''no_module''),
      (zh_not_applicable, ''not_applicable''), (zh_not_collected, ''not_collected'')]"

definition FAULT_STATUSES :: "string list" where
  "FAULT_STATUSES = [''critical'', ''link_abnormal'', ''link_down'', ''no_light'']"

definition PRESERVED_NO_DATA_STATUSES :: "string list" where
  "PRESERVED_NO_DATA_STATUSES =
     [''not_applicable'', ''no_module'', ''unverified'', ''dom_unavailable'', ''skipped'', ''offline'']"

definition BUSINESS_STATUS_RANK :: "(string \<times> nat) list" where
  "BUSINESS_STATUS_RANK =
     [(''unknown'', 0), (''not_collected'', 0), (''not_applicable'', 0), (''no_module'', 0),
      (''dom_unavailable'', 0), (''skipped'', 0), (''offline'', 0), (''normal'', 1), (''notice'', 2),
      (''warning'', 3), (''alarm'', 4), (''abnormal'', 4), (''critical'', 5), (''link_abnormal'', 5),
      (''link_down'', 5), (''no_light'', 6)]"

record OpticalRxEvaluation =
  rx_status :: string
  rx_dbm :: "pyfloat option"
  rx_threshold_dbm :: pyfloat

record DualOpticalRxEvaluation =
  dual_ap :: OpticalRxEvaluation
  dual_switch :: OpticalRxEvaluation
  dual_status :: string
  dual_threshold_dbm :: pyfloat

definition normalize_optical_rx_status :: "pyval \<Rightarrow> string" where
  "normalize_optical_rx_status v =
     (let t = casefold (text_of v) in case map_of STATUS_ALIASES t of Some s \<Rightarrow> s | None \<Rightarrow> t)"

definition parse_optical_rx_dbm :: "pyval \<Rightarrow> pyfloat option" where
  "parse_optical_rx_dbm v =
     (if v = PNone \<or> is_pbool v then None
      else (case search_float (py_str v) of Some (Fin x) \<Rightarrow> Some (Fin x) | _ \<Rightarrow> None))"

definition evaluate_optical_rx ::
  "pyval \<Rightarrow> pyval \<Rightarrow> pyval \<Rightarrow> pyfloat \<Rightarrow> OpticalRxEvaluation" where
  "evaluate_optical_rx rx reported freshness threshold =
     (let v = parse_optical_rx_dbm rx;
          result = (\<lambda>s. \<lparr>rx_status = s, rx_dbm = v, rx_threshold_dbm = threshold\<rparr>) in
      if casefold (text_of freshness) = ''stale'' then result ''unknown''
      else (let status = normalize_optical_rx_status reported in
        if status \<in> set FAULT_STATUSES \<or> status \<in> set PRESERVED_NO_DATA_STATUSES then result status
        else if (case v of Some p \<Rightarrow> flt p threshold | None \<Rightarrow> False) then result ''abnormal''
        else if classify_optical_health (PStr status) \<in> set [''warning'', ''critical''] then result status
        else if v \<noteq> None then result ''normal''
        else result ''unknown''))"

definition business_rank :: "string \<Rightarrow> nat" where
  "business_rank s = (case map_of BUSINESS_STATUS_RANK s of Some n \<Rightarrow> n | None \<Rightarrow> 0)"

text \<open>\<open>max(xs, key=f)\<close>: the first element with the largest key.\<close>

fun max_key :: "('a \<Rightarrow> nat) \<Rightarrow> 'a \<Rightarrow> 'a list \<Rightarrow> 'a" where
  "max_key f x [] = x"
| "max_key f x (y # ys) = (if f x < f y then max_key f y ys else max_key f x ys)"

definition combine_optical_rx_status :: "pyval \<Rightarrow> pyval \<Rightarrow> string" where
  "combine_optical_rx_status ap sw =
     (let statuses = [normalize_optical_rx_status ap, normalize_optical_rx_status sw];
          bad = filter (\<lambda>s. classify_optical_health (PStr s) \<in> set [''warning'', ''critical'']) statuses
      in case bad of
           x # xs \<Rightarrow> max_key business_rank x xs
         | [] \<Rightarrow> (if statuses = [''normal'', ''normal''] then ''normal''
                  else if statuses = [''not_applicable'', ''not_applicable''] then ''not_applicable''
                  else ''unknown''))"

definition evaluate_dual_optical_rx ::
  "pyval \<Rightarrow> pyval \<Rightarrow> pyval \<Rightarrow> pyval \<Rightarrow> pyval \<Rightarrow> pyval \<Rightarrow> DualOpticalRxEvaluation" where
  "evaluate_dual_optical_rx ap_rx sw_rx ap_reported sw_reported ap_freshness sw_freshness =
     (let ap = evaluate_optical_rx ap_rx ap_reported ap_freshness OPTICAL_BUSINESS_RX_MIN_DBM;
          sw = evaluate_optical_rx sw_rx sw_reported sw_freshness OPTICAL_BUSINESS_RX_MIN_DBM
      in \<lparr>dual_ap = ap, dual_switch = sw,
          dual_status = combine_optical_rx_status (PStr (rx_status ap)) (PStr (rx_status sw)),
          dual_threshold_dbm = OPTICAL_BUSINESS_RX_MIN_DBM\<rparr>)"

section \<open>AP side\<close>

definition AP_OPTICAL_FAILURE_STATUSES :: "string list" where
  "AP_OPTICAL_FAILURE_STATUSES =
     [''failed'', ''failure'', ''error'', ''cancelled'', ''timeout'', ''auth_failed'',
      ''authentication_failed'', ''tcp_failed'', ''tcp_connection_failed'', ''ssh_failed'',
      ''connection_failed'', ''unreachable'', ''device_unreachable'', ''collection_failed'',
      ''parse_failed'']"

definition AP_OPTICAL_CURRENT_VALUE_FIELDS :: "string list" where
  "AP_OPTICAL_CURRENT_VALUE_FIELDS =
     [''rx_power'', ''tx_power'', ''temperature'', ''voltage'', ''bias_current'', ''rx_low_alarm'',
      ''rx_low_warning'', ''rx_high_alarm'', ''rx_high_warning'', ''tx_low_alarm'',
      ''tx_low_warning'', ''tx_high_alarm'', ''tx_high_warning'', ''module_model'',
      ''module_serial_number'', ''module_vendor'', ''wavelength'', ''transmission_distance'',
      ''connector_type'', ''module_present'', ''has_module'', ''no_module'', ''module_status'',
      ''transceiver_status'', ''optical_alarm_status'']"

definition project_current_ap_optical_row :: "isoparser \<Rightarrow> int \<Rightarrow> pydict \<Rightarrow> pydict" where
  "project_current_ap_optical_row fromiso now row =
     (let status = casefold (text_of (dget row ''status''));
          cleared = fold (\<lambda>field d. dput field PNone d) AP_OPTICAL_CURRENT_VALUE_FIELDS row in
      if status \<in> set AP_OPTICAL_FAILURE_STATUSES
      then dput ''data_freshness'' (PStr ''unknown'') cleared
      else if status \<in> set [''no_module'', ''no module'', ''no-transceiver'', ''no transceiver'']
      then dput ''data_freshness'' (PStr ''fresh'') cleared
      else if status = ''success''
      then (let freshness = casefold (text_of (dget row ''data_freshness''));
                freshness = (if freshness \<in> set [''fresh'', ''stale'', ''current''] then freshness
                             else classify_optical_freshness fromiso
                               [dget row ''updated_at'', dget row ''collected_at''] now
                               OPTICAL_DATA_STALE_AFTER)
            in if freshness \<noteq> [] then dput ''data_freshness'' (PStr freshness) row else row)
      else row)"

definition EXPLICIT_AP_STATUS :: "(string \<times> string) list" where
  "EXPLICIT_AP_STATUS =
     [(''no_light'', ''no_light''), (''no light'', ''no_light''), (''no-light'', ''no_light''),
      (zh_no_light, ''no_light''), (''link_abnormal'', ''link_abnormal''),
      (''link abnormal'', ''link_abnormal''), (''link-abnormal'', ''link_abnormal''),
      (zh_link_abnormal, ''link_abnormal''), (''link_down'', ''link_down''),
      (''link down'', ''link_down''), (''link-down'', ''link_down''), (zh_link_down, ''link_down''),
      (''critical'', ''abnormal''), (zh_critical, ''abnormal''), (''alarm'', ''alarm''),
      (''warning'', ''warning''), (''abnormal'', ''abnormal''), (zh_power_abnormal, ''abnormal'')]"

definition ap_severity_input :: "pydict \<Rightarrow> pydict" where
  "ap_severity_input row =
     [(''ap_rx_power'', dget row ''rx_power''), (''ap_port_status'', dget row ''ap_port_status''),
      (''module_present'', if dhas row ''module_present'' then dget row ''module_present''
                           else dget row ''has_module''),
      (''no_module'', dget row ''no_module''), (''module_status'', dget row ''module_status''),
      (''transceiver_status'', dget row ''transceiver_status''),
      (''optical_alarm_status'', dget row ''optical_alarm_status''),
      (''status'', dget row ''status''), (''alarm_low'', dget row ''rx_low_alarm''),
      (''alarm_high'', dget row ''rx_high_alarm''), (''warning_low'', dget row ''rx_low_warning''),
      (''device_type'', PStr ''ap'')]"

definition compute_ap_status :: "isoparser \<Rightarrow> int \<Rightarrow> pydict option \<Rightarrow> string" where
  "compute_ap_status fromiso now fit_ap_row =
     (case map_option (project_current_ap_optical_row fromiso now) fit_ap_row of
        None \<Rightarrow> ''unknown''
      | Some row \<Rightarrow>
          (if \<not> is_ap_optical_applicable (dget row ''model'') then OPTICAL_NOT_APPLICABLE_STATUS
           else (let res = compute_optical_severity (ap_severity_input row);
                     rx = parse_optical_rx_dbm (dget row ''rx_power'') in
             if severity res \<in> set [''no_module'', ''link_abnormal'', ''link_down''] then severity res
             else if (case rx of Some p \<Rightarrow> flt p OPTICAL_BUSINESS_RX_MIN_DBM | None \<Rightarrow> False)
             then ''abnormal''
             else (case map_of EXPLICIT_AP_STATUS (casefold (text_of (py_or (dget row ''optical_alarm_status'')
                         (py_or (dget row ''module_status'') (dget row ''transceiver_status''))))) of
                     Some s \<Rightarrow> s
                   | None \<Rightarrow>
                       (if rx \<noteq> None then ''normal''
                        else if severity res = ''no_light'' \<and> rx_power res \<noteq> None then ''no_light''
                        else ''unknown'')))))"

section \<open>Switch side\<close>

record switch_device =
  sd_name :: pyval
  sd_system_name :: pyval
  sd_device_uuid :: pyval

type_synonym switch_lookup = "((string \<times> string) \<times> pydict) list"

definition device_names :: "switch_device \<Rightarrow> string list" where
  "device_names d =
     remdups (filter (\<lambda>n. n \<noteq> []) (map (\<lambda>v. casefold (text_of v)) [sd_name d, sd_system_name d]))"

definition device_names_by_uuid :: "switch_device list \<Rightarrow> (string \<times> string list) list" where
  "device_names_by_uuid devices =
     fold (\<lambda>d m. AList.update (str_or_empty (sd_device_uuid d)) (device_names d) m) devices []"

definition add_module :: "string list \<Rightarrow> pydict \<Rightarrow> switch_lookup \<Rightarrow> switch_lookup" where
  "add_module names md l =
     (let interface = casefold (normalize_interface_name (dget md ''interface_name'')) in
      if interface \<noteq> [] then fold (\<lambda>name l. AList.update (name, interface) md l) names l else l)"

definition build_switch_data_lookup ::
  "switch_device list \<Rightarrow> (string \<times> pydict list) list \<Rightarrow> switch_lookup" where
  "build_switch_data_lookup devices optical_by_device =
     (let by_uuid = device_names_by_uuid devices in
      fold (\<lambda>(uuid, mods) l.
        let names = (case map_of by_uuid uuid of Some ns \<Rightarrow> ns | None \<Rightarrow> []) in
        fold (add_module names) mods l) optical_by_device [])"

definition switch_severity_input ::
  "pyval \<Rightarrow> pyval \<Rightarrow> pyval \<Rightarrow> pyval \<Rightarrow> pyval \<Rightarrow> pyval \<Rightarrow> pyval \<Rightarrow> pyval \<Rightarrow> pydict" where
  "switch_severity_input rx port alarm_lo alarm_hi warning_lo present no_mod md_status =
     [(''switch_rx_power'', rx), (''switch_port_status'', port), (''alarm_low'', alarm_lo),
      (''alarm_high'', alarm_hi), (''warning_low'', warning_lo), (''module_present'', present),
      (''no_module'', no_mod), (''module_status'', md_status), (''device_type'', PStr ''switch'')]"

definition module_severity_input :: "pydict \<Rightarrow> pydict" where
  "module_severity_input md =
     switch_severity_input (dget md ''rx_power'') (dget md ''port_status'') (dget md ''rx_low_alarm'')
       (dget md ''rx_high_alarm'') (dget md ''rx_low_warning'')
       (if dhas md ''module_present'' then dget md ''module_present'' else dget md ''has_module'')
       (dget md ''no_module'') (py_or (dget md ''module_status'') (dget md ''status''))"

text \<open>The keyword arguments \<open>module_present\<close>, \<open>no_module\<close> and \<open>module_status\<close> come last.\<close>

definition compute_switch_status ::
  "pyval \<Rightarrow> pyval \<Rightarrow> pyval \<Rightarrow> pyval \<Rightarrow> pyval \<Rightarrow> pyval \<Rightarrow> pyval \<Rightarrow> switch_lookup option \<Rightarrow>
   pyval \<Rightarrow> pyval \<Rightarrow> pyval \<Rightarrow> string" where
  "compute_switch_status device_name interface_name rx port alarm_lo alarm_hi warning_lo lookup
     present no_mod md_status =
     (if rx \<noteq> PNone \<or> port \<noteq> PNone \<or> lookup = None \<or> lookup = Some []
      then severity (compute_optical_severity
             (switch_severity_input rx port alarm_lo alarm_hi warning_lo present no_mod md_status))
      else (let name = casefold (text_of device_name);
                interface = casefold (normalize_interface_name interface_name) in
        if name \<noteq> [] \<and> interface \<noteq> []
        then (case map_of (the lookup) (name, interface) of
                Some md \<Rightarrow>
                  (if md \<noteq> [] then severity (compute_optical_severity (module_severity_input md))
                   else ''unknown'')
              | None \<Rightarrow> ''unknown'')
        else ''unknown''))"

section \<open>State of a link\<close>

record StateResult =
  st_switch_status :: string
  st_ap_status :: string
  st_optical_status :: string
  st_severity :: nat
  st_color :: string

text \<open>\<open>a or b or c\<close> over several values.\<close>

definition py_ors :: "pyval list \<Rightarrow> pyval" where
  "py_ors vs = foldr py_or (butlast vs) (last vs)"

definition has_switch_input :: "pydict \<Rightarrow> pydict \<Rightarrow> switch_lookup option \<Rightarrow> bool" where
  "has_switch_input context row lookup \<longleftrightarrow>
     dhas context ''switch_rx_power'' \<or> dhas context ''switch_port_status'' \<or>
     dhas row ''neighbor_rx_power'' \<or> dhas row ''switch_port_status'' \<or>
     (lookup \<noteq> None \<and> lookup \<noteq> Some []) \<or>
     (truthy (dget context ''switch_device_name'') \<and> truthy (dget context ''switch_interface_name''))"

definition switch_rx_input :: "pydict \<Rightarrow> pydict \<Rightarrow> pyval" where
  "switch_rx_input context row =
     (if dhas context ''switch_rx_power'' then dget context ''switch_rx_power''
      else dget row ''neighbor_rx_power'')"

definition compute_state ::
  "isoparser \<Rightarrow> int \<Rightarrow> pydict \<Rightarrow> pydict option \<Rightarrow> switch_lookup option \<Rightarrow> StateResult" where
  "compute_state fromiso now context fit_ap_row lookup =
     (let row = (case fit_ap_row of Some r \<Rightarrow> r | None \<Rightarrow> []);
          sw = (if has_switch_input context row lookup
                then compute_switch_status (dget context ''switch_device_name'')
                  (dget context ''switch_interface_name'') (switch_rx_input context row)
                  (py_or (dget context ''switch_port_status'') (dget row ''switch_port_status''))
                  (py_ors [dget context ''switch_alarm_low'', dget row ''switch_rx_low_alarm'',
                    dget row ''neighbor_rx_low_alarm'', dget row ''alarm_low_threshold'',
                    dget row ''rx_low_alarm''])
                  (py_ors [dget context ''switch_alarm_high'', dget row ''switch_rx_high_alarm'',
                    dget row ''neighbor_rx_high_alarm'', dget row ''alarm_high_threshold'',
                    dget row ''rx_high_alarm''])
                  (py_ors [dget context ''switch_warning_low'', dget row ''switch_rx_low_warning'',
                    dget row ''neighbor_rx_low_warning'', dget row ''warning_low_threshold'',
                    dget row ''warning_low'', dget row ''rx_low_warning''])
                  lookup PNone PNone PNone
                else ''unknown'');
          ap = compute_ap_status fromiso now (Some row);
          (ap, sw, optical) =
            (if ap = ''not_applicable'' then (ap, ''not_applicable'', ''not_applicable'')
             else (let ev = evaluate_dual_optical_rx (dget row ''rx_power'') (switch_rx_input context row)
                              (PStr ap) (PStr sw) (PStr []) (PStr [])
                   in (rx_status (dual_ap ev), rx_status (dual_switch ev), dual_status ev)))
      in \<lparr>st_switch_status = sw, st_ap_status = ap, st_optical_status = optical,
          st_severity = severity_rank optical,
          st_color = (case map_of STATUS_COLORS optical of
                        Some c \<Rightarrow> c | None \<Rightarrow> the (map_of STATUS_COLORS ''unknown''))\<rparr>)"

section \<open>Verdicts on one side and on a link\<close>

definition abnormal_status :: "string \<Rightarrow> bool" where
  "abnormal_status s \<longleftrightarrow> classify_optical_health (PStr s) \<in> {''warning'', ''critical''}"

lemma normal_not_abnormal:
  "\<not> abnormal_status ''normal''" "\<not> abnormal_status ''unknown''" "\<not> abnormal_status ''not_applicable''"
  "''normal'' \<notin> set FAULT_STATUSES" "''normal'' \<notin> set PRESERVED_NO_DATA_STATUSES"
  by code_simp+

lemma rx_status_normal_reading:
  "rx_status (evaluate_optical_rx rx reported freshness threshold) = ''normal'' \<Longrightarrow>
     \<exists>p. parse_optical_rx_dbm rx = Some p \<and> \<not> flt p threshold"
  using normal_not_abnormal
  by (cases "parse_optical_rx_dbm rx")
    (auto simp: evaluate_optical_rx_def Let_def abnormal_status_def split: if_splits)

text \<open>
  One side of a link is rated normal exactly when its data is not stale, its power is a number
  not below the threshold, and the reported status is neither a fault, nor a status that says there
  is no data to judge, nor an abnormal one. In particular no power below the threshold is normal.
\<close>

theorem evaluate_optical_rx_normal:
  "rx_status (evaluate_optical_rx rx reported freshness threshold) = ''normal'' \<longleftrightarrow>
     casefold (text_of freshness) \<noteq> ''stale'' \<and>
     (\<exists>p. parse_optical_rx_dbm rx = Some p \<and> \<not> flt p threshold) \<and>
     normalize_optical_rx_status reported \<notin> set FAULT_STATUSES \<union> set PRESERVED_NO_DATA_STATUSES \<and>
     \<not> abnormal_status (normalize_optical_rx_status reported)"
  using normal_not_abnormal
  by (cases "parse_optical_rx_dbm rx")
    (auto simp: evaluate_optical_rx_def Let_def abnormal_status_def)

lemma max_key_mem: "max_key f x xs \<in> set (x # xs)"
  by (induction xs arbitrary: x) auto

lemma max_key_ge: "y \<in> set (x # xs) \<Longrightarrow> f y \<le> f (max_key f x xs)"
proof (induction xs arbitrary: x y)
  case Nil
  then show ?case by simp
next
  case (Cons z zs)
  then show ?case
    by (cases "f x < f z") (auto intro: order.trans [OF less_imp_le] order.trans simp: not_less)
qed

lemma combine_cases:
  "combine_optical_rx_status ap sw =
     (let a = normalize_optical_rx_status ap; b = normalize_optical_rx_status sw in
      if abnormal_status a \<and> abnormal_status b then (if business_rank a < business_rank b then b else a)
      else if abnormal_status a then a else if abnormal_status b then b
      else if a = ''normal'' \<and> b = ''normal'' then ''normal''
      else if a = ''not_applicable'' \<and> b = ''not_applicable'' then ''not_applicable''
      else ''unknown'')"
  by (auto simp: combine_optical_rx_status_def abnormal_status_def Let_def)

text \<open>
  The combination of both sides: it is abnormal exactly when one side is, and then it is the
  status of a side with the largest business rank among the abnormal sides; it is normal exactly
  when both sides are. So the two sides may be swapped without changing the verdict or its rank.
\<close>

theorem combine_optical_rx_status_worst:
  "let a = normalize_optical_rx_status ap; b = normalize_optical_rx_status sw;
       c = combine_optical_rx_status ap sw
   in (abnormal_status c \<longleftrightarrow> abnormal_status a \<or> abnormal_status b) \<and>
      (abnormal_status c \<longrightarrow> c \<in> {a, b} \<and>
         (\<forall>s \<in> {a, b}. abnormal_status s \<longrightarrow> business_rank s \<le> business_rank c)) \<and>
      (c = ''normal'' \<longleftrightarrow> a = ''normal'' \<and> b = ''normal'') \<and>
      abnormal_status (combine_optical_rx_status sw ap) = abnormal_status c \<and>
      business_rank (combine_optical_rx_status sw ap) = business_rank c"
  using normal_not_abnormal by (auto simp: combine_cases Let_def)

theorem combine_optical_rx_status_worst_witness:
  "combine_optical_rx_status (PStr ''Warning'') (PStr ''no_light'') = ''no_light''"
proof -
  have "normalize_optical_rx_status (PStr ''Warning'') = ''warning''"
    "normalize_optical_rx_status (PStr ''no_light'') = ''no_light''"
    "abnormal_status ''warning''" "abnormal_status ''no_light''"
    "business_rank ''warning'' = 3" "business_rank ''no_light'' = 6" by code_simp+
  then show ?thesis
    using combine_optical_rx_status_worst [of "PStr ''Warning''" "PStr ''no_light''"] by (auto simp: Let_def)
qed

lemma dget_project_model [simp]:
  "dget (project_current_ap_optical_row fromiso now row) ''model'' = dget row ''model''"
proof -
  have "''model'' \<notin> set AP_OPTICAL_CURRENT_VALUE_FIELDS" by code_simp
  then show ?thesis
    by (auto simp: project_current_ap_optical_row_def Let_def dict_simps fold_dput_None)
qed

lemma compute_ap_status_applicable:
  "compute_ap_status fromiso now (Some row) \<noteq> ''not_applicable'' \<Longrightarrow> is_ap_optical_applicable (dget row ''model'')"
  by (auto simp: compute_ap_status_def OPTICAL_NOT_APPLICABLE_STATUS_def split: if_splits)

lemma normalize_abnormal_not_normal:
  assumes "abnormal_status s"
  shows "normalize_optical_rx_status (PStr s) \<noteq> ''normal''"
proof -
  let ?bad = "OPTICAL_HEALTH_CRITICAL_STATUSES @ OPTICAL_HEALTH_WARNING_STATUSES"
  have "list_all (\<lambda>t. map_of STATUS_ALIASES t = None \<and> t \<noteq> ''normal'') ?bad" by code_simp
  moreover have "casefold (strip s) \<in> set ?bad"
    using assms by (auto simp: abnormal_status_def classify_optical_health_def Let_def split: if_splits)
  ultimately show ?thesis
    by (auto simp: normalize_optical_rx_status_def Let_def list_all_iff)
qed

lemma normalize_kept_not_normal:
  assumes "s \<in> set FAULT_STATUSES \<or> s \<in> set PRESERVED_NO_DATA_STATUSES \<or> s \<in> {''unknown'', ''abnormal''}"
  shows "normalize_optical_rx_status (PStr s) \<noteq> ''normal''"
proof -
  have "list_all (\<lambda>t. normalize_optical_rx_status (PStr t) \<noteq> ''normal'')
      (FAULT_STATUSES @ PRESERVED_NO_DATA_STATUSES @ [''unknown'', ''abnormal''])" by code_simp
  with assms show ?thesis by (auto simp: list_all_iff)
qed

lemma normalized_rx_status_normal:
  assumes "normalize_optical_rx_status (PStr (rx_status (evaluate_optical_rx rx reported freshness threshold))) = ''normal''"
  shows "rx_status (evaluate_optical_rx rx reported freshness threshold) = ''normal''"
proof (rule ccontr)
  let ?s = "rx_status (evaluate_optical_rx rx reported freshness threshold)"
  assume "?s \<noteq> ''normal''"
  then have "abnormal_status ?s \<or> ?s \<in> set FAULT_STATUSES \<or> ?s \<in> set PRESERVED_NO_DATA_STATUSES \<or>
      ?s \<in> {''unknown'', ''abnormal''}"
    by (auto simp: evaluate_optical_rx_def Let_def abnormal_status_def)
  then show False using assms normalize_abnormal_not_normal normalize_kept_not_normal by blast
qed

text \<open>
  C40. A link is shown as normal only on evidence: the AP model has an optical port, and the
  received powers of both sides are numbers not below the business threshold of -13.90 dBm.
\<close>

theorem compute_state_normal_evidence:
  assumes "st_optical_status (compute_state fromiso now context fit_ap_row lookup) = ''normal''"
  shows "\<exists>row p q. row = (case fit_ap_row of Some r \<Rightarrow> r | None \<Rightarrow> []) \<and>
    is_ap_optical_applicable (dget row ''model'') \<and>
    parse_optical_rx_dbm (dget row ''rx_power'') = Some p \<and> \<not> flt p OPTICAL_BUSINESS_RX_MIN_DBM \<and>
    parse_optical_rx_dbm (switch_rx_input context row) = Some q \<and> \<not> flt q OPTICAL_BUSINESS_RX_MIN_DBM"
proof -
  define row where "row = (case fit_ap_row of Some r \<Rightarrow> r | None \<Rightarrow> [])"
  have ap: "compute_ap_status fromiso now (Some row) \<noteq> ''not_applicable''"
    using assms by (auto simp: compute_state_def Let_def row_def split: if_splits)
  obtain reported_ap reported_sw where
    "st_optical_status (compute_state fromiso now context fit_ap_row lookup) =
       dual_status (evaluate_dual_optical_rx (dget row ''rx_power'') (switch_rx_input context row)
         reported_ap reported_sw (PStr []) (PStr []))"
    using ap by (auto simp: compute_state_def Let_def simp flip: row_def)
  with assms have "normalize_optical_rx_status (PStr (rx_status (evaluate_optical_rx (dget row ''rx_power'')
        reported_ap (PStr []) OPTICAL_BUSINESS_RX_MIN_DBM))) = ''normal''"
    "normalize_optical_rx_status (PStr (rx_status (evaluate_optical_rx (switch_rx_input context row)
        reported_sw (PStr []) OPTICAL_BUSINESS_RX_MIN_DBM))) = ''normal''"
    using normal_not_abnormal by (auto simp: evaluate_dual_optical_rx_def combine_cases Let_def split: if_splits)
  then show ?thesis
    using rx_status_normal_reading [OF normalized_rx_status_normal] compute_ap_status_applicable [OF ap] row_def
    by metis
qed

definition sample_link :: pydict where
  "sample_link = [(''status'', PStr ''success''), (''rx_power'', PStr ''-8''),
     (''neighbor_rx_power'', PStr ''-9''), (''switch_rx_low_warning'', PStr ''-17'')]"

theorem compute_state_normal_evidence_witness:
  "\<exists>p q. parse_optical_rx_dbm (dget sample_link ''rx_power'') = Some p \<and>
     \<not> flt p OPTICAL_BUSINESS_RX_MIN_DBM \<and>
     parse_optical_rx_dbm (switch_rx_input [] sample_link) = Some q \<and> \<not> flt q OPTICAL_BUSINESS_RX_MIN_DBM"
proof -
  have "st_optical_status (compute_state (\<lambda>_. None) 0 [] (Some sample_link) None) = ''normal''"
    by code_simp
  from compute_state_normal_evidence [OF this] show ?thesis by auto
qed

text \<open>
  A failed collection keeps the last valid received power in the row. The AP-side status
  clears it and answers \<open>unknown\<close>, but the state of the link reads the retained power from the
  unprojected row again and shows the AP side, and with a good switch side the link, as normal.
\<close>

theorem compute_state_uses_retained_power:
  "let row = [(''status'', PStr ''failed''), (''rx_power'', PStr ''-8''), (''neighbor_rx_power'', PStr ''-8''),
              (''switch_rx_low_warning'', PStr ''-17'')];
       state = compute_state fromiso now [] (Some row) None
   in compute_ap_status fromiso now (Some row) = ''unknown'' \<and>
      st_ap_status state = ''normal'' \<and> st_optical_status state = ''normal''"
  by code_simp


section \<open>The switch lookup\<close>

definition module_interface :: "pydict \<Rightarrow> string" where
  "module_interface md = casefold (normalize_interface_name (dget md ''interface_name''))"

definition names_of_uuid :: "switch_device list \<Rightarrow> string \<Rightarrow> string list" where
  "names_of_uuid devices uuid =
     (case map_of (device_names_by_uuid devices) uuid of Some ns \<Rightarrow> ns | None \<Rightarrow> [])"

lemma map_of_fold_update:
  "map_of (fold (\<lambda>k. AList.update (f k) v) ks l) x = (if x \<in> f ` set ks then Some v else map_of l x)"
  by (induction ks arbitrary: l) (auto simp: update_conv')

lemma map_of_add_module:
  "map_of (add_module names md l) (n, i) =
     (if i \<noteq> [] \<and> i = module_interface md \<and> n \<in> set names then Some md else map_of l (n, i))"
proof -
  let ?i = "casefold (normalize_interface_name (dget md ''interface_name''))"
  have "map_of (fold (\<lambda>name. AList.update (name, ?i) md) names l) (n, i) =
      (if (n, i) \<in> (\<lambda>name. (name, ?i)) ` set names then Some md else map_of l (n, i))"
    by (rule map_of_fold_update)
  then show ?thesis by (auto simp: add_module_def Let_def module_interface_def)
qed

text \<open>The modules in the order the nested loops meet them, with the names they are stored under.\<close>

definition named_modules :: "switch_device list \<Rightarrow> (string \<times> pydict list) list \<Rightarrow> (string list \<times> pydict) list" where
  "named_modules devices obd = concat (map (\<lambda>(uuid, mods). map (Pair (names_of_uuid devices uuid)) mods) obd)"

lemma build_as_fold:
  "build_switch_data_lookup devices obd = fold (\<lambda>(names, md). add_module names md) (named_modules devices obd) []"
proof -
  have "fold (\<lambda>(uuid, mods) l. fold (add_module (names_of_uuid devices uuid)) mods l) xs l =
      fold (\<lambda>(names, md). add_module names md)
        (concat (map (\<lambda>(uuid, mods). map (Pair (names_of_uuid devices uuid)) mods) xs)) l" for xs l
    by (induction xs arbitrary: l) (auto simp: fold_map comp_def)
  then show ?thesis
    by (simp add: build_switch_data_lookup_def named_modules_def names_of_uuid_def Let_def)
qed

lemma map_of_build_fold:
  "map_of (fold (\<lambda>(names, md). add_module names md) ms l) (n, i) =
     (case find (\<lambda>(names, md). i \<noteq> [] \<and> i = module_interface md \<and> n \<in> set names) (rev ms) of
        Some (names, md) \<Rightarrow> Some md | None \<Rightarrow> map_of l (n, i))"
proof (induction ms rule: rev_induct)
  case Nil
  then show ?case by simp
next
  case (snoc m ms)
  then show ?case by (cases m) (auto simp: map_of_add_module)
qed

text \<open>
  The switch lookup answers, for a lower-cased device name and normalised interface name, the
  last module of a device of that name with that interface, in the order of the collected data;
  names and system names are both indexed, and modules without an interface name are not.
\<close>

theorem build_switch_data_lookup_last:
  "map_of (build_switch_data_lookup devices obd) (n, i) =
     map_option snd (find (\<lambda>(names, md). i \<noteq> [] \<and> i = module_interface md \<and> n \<in> set names)
       (rev (named_modules devices obd)))"
  by (auto simp: build_as_fold map_of_build_fold split: option.splits)

end
