(* ===== verification/Mr_Concurrency.thy ===== *)
theory Mr_Concurrency
  imports NC_Texts Complex_Main
begin

text \<open>
  \<^verbatim>\<open>services/online_mr/concurrency_policy.py\<close> with the phases of
  \<^verbatim>\<open>models/online_mr_application.py\<close>: which Online MR collections may start next to the active
  ones. An operation keeps the fields of the snapshot that the policy and the scheduler read; a
  device id is kept as its text, the only form in which it is compared. The owner of a controller
  task is the answer of the task repository, the argument \<open>task_owner\<close>. \<open>op_linked\<close> says that the
  mapping of the operation is in one of the states \<open>PENDING_SESSION\<close> and \<open>LINKED\<close>.
\<close>

section \<open>Phases and operations\<close>

datatype OnlineMrPhase =
    VALIDATING | PREPARING_TASK | PREPARING_SESSION | CONNECTING | STARTING_COLLECTION
  | COLLECTING | STOPPING_TRAFFIC | STOPPING_COLLECTION | FINALIZING | PARSING | PACKAGING
  | TERMINAL

definition STARTING_PHASES :: "OnlineMrPhase list" where
  "STARTING_PHASES =
     [VALIDATING, PREPARING_TASK, PREPARING_SESSION, CONNECTING, STARTING_COLLECTION]"

definition FINALIZING_PHASES :: "OnlineMrPhase list" where
  "FINALIZING_PHASES = [STOPPING_TRAFFIC, STOPPING_COLLECTION, FINALIZING, PARSING, PACKAGING]"

record MrOperation =
  op_id :: string
  op_device :: string
  op_phase :: OnlineMrPhase
  op_linked :: bool
  op_session :: string
  op_duration :: rat
  op_started :: string
  op_ended :: string
  op_stop_reason :: string
  op_error :: string

record OnlineMrConcurrencyBudget =
  max_active_mrs :: int
  max_starting_mrs :: int
  max_finalizing_mrs :: int

record OnlineMrAllocation =
  al_operation :: MrOperation
  al_owner :: string

record OnlineMrConcurrencyDecision =
  allowed :: bool
  decision_code :: string
  decision_message :: string

definition automated :: "OnlineMrAllocation \<Rightarrow> bool" where
  "automated a \<longleftrightarrow> al_owner a = ''ground_unattended''"

section \<open>The policy\<close>

definition allocations :: "(string \<Rightarrow> string option) \<Rightarrow> MrOperation list \<Rightarrow> OnlineMrAllocation list" where
  "allocations task_owner ops =
     map (\<lambda>p. \<lparr>al_operation = p,
               al_owner = (case task_owner (op_id p) of Some w \<Rightarrow> w | None \<Rightarrow> [])\<rparr>)
       (filter (\<lambda>p. op_phase p \<noteq> TERMINAL) ops)"

definition count_phases :: "OnlineMrPhase list \<Rightarrow> OnlineMrAllocation list \<Rightarrow> nat" where
  "count_phases phases as = length (filter (\<lambda>a. op_phase (al_operation a) \<in> set phases) as)"

definition refuse :: "string \<Rightarrow> string \<Rightarrow> OnlineMrConcurrencyDecision" where
  "refuse code message = \<lparr>allowed = False, decision_code = code, decision_message = message\<rparr>"

definition can_start ::
  "(string \<Rightarrow> string option) \<Rightarrow> string \<Rightarrow> MrOperation list \<Rightarrow> OnlineMrConcurrencyBudget \<Rightarrow> bool \<Rightarrow>
   OnlineMrConcurrencyDecision" where
  "can_start task_owner device ops budget auto =
     (let as = allocations task_owner ops in
      if list_ex (\<lambda>a. op_device (al_operation a) = device) as
      then refuse ''MR_ALREADY_ACTIVE'' msg_mr_already_active
      else if max 1 (max_active_mrs budget) \<le> int (length as)
      then refuse ''MR_CAPACITY_EXHAUSTED'' msg_mr_capacity
      else if max 1 (max_starting_mrs budget) \<le> int (count_phases STARTING_PHASES as)
      then refuse ''MR_STARTING_CAPACITY_EXHAUSTED'' msg_mr_starting_capacity
      else if auto \<and> max 1 (max_finalizing_mrs budget) \<le> int (count_phases FINALIZING_PHASES as)
      then refuse ''MR_FINALIZING_CAPACITY_EXHAUSTED'' msg_mr_finalizing_capacity
      else \<lparr>allowed = True, decision_code = [], decision_message = []\<rparr>)"

section \<open>What an allowed start guarantees\<close>

definition active_ops :: "MrOperation list \<Rightarrow> MrOperation list" where
  "active_ops ops = filter (\<lambda>p. op_phase p \<noteq> TERMINAL) ops"

definition starting_ops :: "MrOperation list \<Rightarrow> MrOperation list" where
  "starting_ops ops = filter (\<lambda>p. op_phase p \<in> set STARTING_PHASES) ops"

definition finalizing_ops :: "MrOperation list \<Rightarrow> MrOperation list" where
  "finalizing_ops ops = filter (\<lambda>p. op_phase p \<in> set FINALIZING_PHASES) ops"

text \<open>The resource invariant: one active operation per device, and the budgets are respected.\<close>

definition within_budget :: "OnlineMrConcurrencyBudget \<Rightarrow> MrOperation list \<Rightarrow> bool" where
  "within_budget budget ops \<longleftrightarrow>
     distinct (map op_device (active_ops ops)) \<and>
     int (length (active_ops ops)) \<le> max 1 (max_active_mrs budget) \<and>
     int (length (starting_ops ops)) \<le> max 1 (max_starting_mrs budget)"

lemma length_allocations [simp]: "length (allocations task_owner ops) = length (active_ops ops)"
  by (simp add: allocations_def active_ops_def)

lemma count_starting [simp]:
  "count_phases STARTING_PHASES (allocations task_owner ops) = length (starting_ops ops)"
  by (induction ops) (auto simp: count_phases_def allocations_def starting_ops_def STARTING_PHASES_def)

lemma count_finalizing [simp]:
  "count_phases FINALIZING_PHASES (allocations task_owner ops) = length (finalizing_ops ops)"
  by (induction ops) (auto simp: count_phases_def allocations_def finalizing_ops_def FINALIZING_PHASES_def)

lemma device_allocated_iff:
  "list_ex (\<lambda>a. op_device (al_operation a) = d) (allocations task_owner ops) \<longleftrightarrow>
     d \<in> op_device ` set (active_ops ops)"
  by (auto simp: allocations_def active_ops_def list_ex_iff)

lemma can_start_iff:
  "allowed (can_start task_owner d ops budget auto) \<longleftrightarrow>
     d \<notin> op_device ` set (active_ops ops) \<and>
     int (length (active_ops ops)) < max 1 (max_active_mrs budget) \<and>
     int (length (starting_ops ops)) < max 1 (max_starting_mrs budget) \<and>
     (auto \<longrightarrow> int (length (finalizing_ops ops)) < max 1 (max_finalizing_mrs budget))"
  by (auto simp: can_start_def Let_def refuse_def device_allocated_iff not_le)

lemma within_budget_start:
  assumes "allowed (can_start task_owner d ops budget auto)" and "within_budget budget ops"
    and "op_device p = d"
  shows "within_budget budget (p # ops)"
proof -
  have "d \<notin> set (map op_device (active_ops ops))"
    "int (length (active_ops ops)) < max 1 (max_active_mrs budget)"
    "int (length (starting_ops ops)) < max 1 (max_starting_mrs budget)"
    using assms(1) by (auto simp: can_start_iff)
  then show ?thesis
    using assms(2,3) by (auto simp: within_budget_def active_ops_def starting_ops_def)
qed

text \<open>
  C27. The shared budget of manual and unattended collection: a start is allowed exactly when the
  device has no active operation and the active, starting and (for unattended starts) finalizing
  budgets have room, where every budget admits at least one; and starting an allowed operation
  keeps at most one active operation per device and every budget respected.
\<close>

theorem can_start_keeps_budget:
  "(allowed (can_start task_owner d ops budget auto) \<longleftrightarrow>
     d \<notin> op_device ` set (active_ops ops) \<and>
     int (length (active_ops ops)) < max 1 (max_active_mrs budget) \<and>
     int (length (starting_ops ops)) < max 1 (max_starting_mrs budget) \<and>
     (auto \<longrightarrow> int (length (finalizing_ops ops)) < max 1 (max_finalizing_mrs budget))) \<and>
   (allowed (can_start task_owner d ops budget auto) \<and> within_budget budget ops \<and> op_device p = d \<longrightarrow>
     within_budget budget (p # ops))"
proof (rule conjI)
  show "allowed (can_start task_owner d ops budget auto) \<longleftrightarrow>
     d \<notin> op_device ` set (active_ops ops) \<and>
     int (length (active_ops ops)) < max 1 (max_active_mrs budget) \<and>
     int (length (starting_ops ops)) < max 1 (max_starting_mrs budget) \<and>
     (auto \<longrightarrow> int (length (finalizing_ops ops)) < max 1 (max_finalizing_mrs budget))"
    by (rule can_start_iff)
qed (auto intro: within_budget_start)

definition sample_operation :: MrOperation where
  "sample_operation =
     \<lparr>op_id = ''op-1'', op_device = ''17'', op_phase = COLLECTING, op_linked = True, op_session = ''s-1'',
      op_duration = 3, op_started = [], op_ended = [], op_stop_reason = [], op_error = []\<rparr>"

definition sample_budget :: OnlineMrConcurrencyBudget where
  "sample_budget = \<lparr>max_active_mrs = 4, max_starting_mrs = 2, max_finalizing_mrs = 2\<rparr>"

theorem can_start_keeps_budget_witness:
  "allowed (can_start (\<lambda>_. None) ''18'' [sample_operation] sample_budget True) \<and>
   \<not> allowed (can_start (\<lambda>_. None) ''17'' [sample_operation] sample_budget True)"
  using can_start_keeps_budget [of "\<lambda>_. None" "''18''" "[sample_operation]" sample_budget True]
    can_start_keeps_budget [of "\<lambda>_. None" "''17''" "[sample_operation]" sample_budget True]
  by (simp add: sample_operation_def sample_budget_def active_ops_def starting_ops_def
      finalizing_ops_def STARTING_PHASES_def FINALIZING_PHASES_def)

end
