(* ===== verification/Deep_Scheduler.thy ===== *)
theory Deep_Scheduler
  imports Mr_Concurrency Py_Float "HOL-Library.List_Lexorder" "HOL-Library.Char_ord"
begin

text \<open>
  \<^verbatim>\<open>services/ground_unattended/deep_scheduler.py\<close>: the scheduler that starts, stops and books the
  deep MR collections of unattended trains. Its state is the operations of the application service
  (newest first), the rows and trains of the repository, the futures of submitted stops, and the
  time of the last batch. Rows are records with the columns the scheduler reads; a missing text is
  the empty one. Event titles are fixed texts and left out.

  What the scheduler calls is the argument \<open>SchedulerEnv\<close>: the owner of a task, building a start
  request and starting it (an error text or the new operation, which becomes the newest one), the
  shuffle of the daily queue, and the queries on finished sessions. Text is ordered by code points,
  which is the order of UTF-8 bytes.
\<close>

section \<open>State\<close>

datatype future = FPending | FDone | FRaised string

definition future_done :: "future \<Rightarrow> bool" where
  "future_done f \<longleftrightarrow> f \<noteq> FPending"

record Profile =
  pf_max_active_trains :: int
  pf_max_active_mrs :: int
  pf_max_starting_mrs :: int
  pf_max_finalizing_mrs :: int
  pf_start_batch_size :: int
  pf_start_jitter_seconds :: int
  pf_preferred_minutes :: int
  pf_minimum_minutes :: int

record Endpoint =
  ep_device :: "string option"
  ep_management_ip :: string
  ep_code :: string
  ep_mr_id :: string

record Train =
  tr_id :: string
  tr_priority :: bool
  tr_scheduling_priority :: int
  tr_attempts :: int
  tr_coverage :: string
  tr_covered_rounds :: int
  tr_eligible :: bool
  tr_eligibility :: string
  tr_operations :: "(string \<times> string) list"
  tr_endpoints :: "Endpoint list"
  tr_selection_reason :: string
  tr_started_at :: string
  tr_failure :: string
  tr_valid_duration :: rat
  tr_sessions :: "(string \<times> string) list"

record DeepRow =
  dr_operation :: string
  dr_train :: string
  dr_mr :: string
  dr_position :: string
  dr_session :: string
  dr_state :: string
  dr_started_at :: string
  dr_ended_at :: string
  dr_stop_reason :: string
  dr_error :: string
  dr_finalized :: bool
  dr_package :: bool
  dr_updated_at :: string

record SchedEvent =
  ev_type :: string
  ev_severity :: string
  ev_train :: string
  ev_mr :: string
  ev_message :: string
  ev_details :: "(string \<times> string) list"

record DailyQueue =
  dq_seed :: nat
  dq_candidates :: "string list"
  dq_order :: "string list"

record DeepScheduler =
  ds_ops :: "MrOperation list"
  ds_rows :: "DeepRow list"
  ds_trains :: "Train list"
  ds_queue :: "DailyQueue option"
  ds_losses :: "(string \<times> rat) list"
  ds_stop_futures :: "(string \<times> future) list"
  ds_force_futures :: "(string \<times> future) list"
  ds_superseded :: "string list"
  ds_last_batch :: pyfloat
  ds_events :: "SchedEvent list"

record SessionView =
  sv_duration :: rat
  sv_mesh_size :: "nat option"
  sv_fping_size :: "nat option"
  sv_finalized :: bool
  sv_has_package :: bool
  sv_package_reference :: string
  sv_integrity :: string

record SchedulerEnv =
  en_owner :: "string \<Rightarrow> string option"
  en_build :: "Endpoint \<Rightarrow> string + string"
  en_start :: "Endpoint \<Rightarrow> MrOperation list \<Rightarrow> string + MrOperation"
  en_run_seed :: nat
  en_shuffle :: "nat \<Rightarrow> string list \<Rightarrow> string list"
  en_shuffle_missing :: "nat \<Rightarrow> string list \<Rightarrow> string list"
  en_session :: "string \<Rightarrow> string + SessionView"
  en_fping :: "string \<Rightarrow> (string option \<times> string) option"

section \<open>Repository access\<close>

definition TERMINAL_ROW_STATES :: "string list" where
  "TERMINAL_ROW_STATES = [''COMPLETED'', ''PARTIAL'', ''FAILED'']"

definition add_event :: "SchedEvent \<Rightarrow> DeepScheduler \<Rightarrow> DeepScheduler" where
  "add_event e s = s\<lparr>ds_events := ds_events s @ [e]\<rparr>"

definition list_deep_operations :: "bool \<Rightarrow> DeepScheduler \<Rightarrow> DeepRow list" where
  "list_deep_operations active_only s =
     sort_key dr_started_at
       (filter (\<lambda>r. active_only \<longrightarrow> dr_state r \<notin> set TERMINAL_ROW_STATES) (ds_rows s))"

text \<open>An insert that on conflict updates every column but the start time.\<close>

definition save_deep_operation :: "DeepRow \<Rightarrow> DeepScheduler \<Rightarrow> DeepScheduler" where
  "save_deep_operation r s =
     s\<lparr>ds_rows :=
       (if dr_operation r \<in> dr_operation ` set (ds_rows s)
        then map (\<lambda>x. if dr_operation x = dr_operation r
                      then r\<lparr>dr_started_at := dr_started_at x\<rparr> else x) (ds_rows s)
        else ds_rows s @ [r])\<rparr>"

definition update_train_run :: "string \<Rightarrow> (Train \<Rightarrow> Train) \<Rightarrow> DeepScheduler \<Rightarrow> DeepScheduler" where
  "update_train_run t f s =
     s\<lparr>ds_trains := map (\<lambda>x. if tr_id x = t then f x else x) (ds_trains s)\<rparr>"

definition active_operations :: "DeepScheduler \<Rightarrow> MrOperation list" where
  "active_operations s = filter op_linked (ds_ops s)"

section \<open>Candidates\<close>

record SchedulerCandidate =
  ca_train :: string
  ca_rank :: "rat list"
  ca_reason :: string

text \<open>\<open>queue_index.get(train, 10**9)\<close>; the index is that of the last occurrence.\<close>

definition queue_index :: "string list \<Rightarrow> string \<Rightarrow> nat" where
  "queue_index order t =
     (case map_of (rev (zip order [0..<length order])) t of Some i \<Rightarrow> i | None \<Rightarrow> 10 ^ 9)"

definition candidate_of ::
  "bool \<Rightarrow> string list \<Rightarrow> (string \<times> rat) list \<Rightarrow> Train \<Rightarrow> SchedulerCandidate" where
  "candidate_of first_round order losses row =
     (let pinned = (if tr_priority row then 0 else 1);
          prio = - of_int (tr_scheduling_priority row);
          attempts = of_int (tr_attempts row);
          index = of_nat (queue_index order (tr_id row)) in
      if first_round
      then \<lparr>ca_train = tr_id row,
            ca_rank = [pinned, prio, if tr_attempts row = 0 then 0 else 1,
                       if tr_coverage row = ''PARTIAL'' then 0 else 1, attempts, index],
            ca_reason =
              (if tr_priority row then reason_pinned_first_round
               else if tr_attempts row = 0 then reason_never_collected
               else if tr_coverage row = ''PARTIAL'' then reason_partial_retry
               else reason_first_round)\<rparr>
      else \<lparr>ca_train = tr_id row,
            ca_rank = [pinned, prio, attempts,
                       - (case map_of losses (tr_id row) of Some x \<Rightarrow> x | None \<Rightarrow> 0), index],
            ca_reason = reason_later_round\<rparr>)"

definition candidate_pool :: "Train list \<Rightarrow> Train list" where
  "candidate_pool trains =
     (let eligible = filter tr_eligible trains;
          first = filter (\<lambda>t. tr_covered_rounds t = 0) eligible
      in if first \<noteq> [] then first else eligible)"

definition ordered_candidates ::
  "Train list \<Rightarrow> string list \<Rightarrow> (string \<times> rat) list \<Rightarrow> SchedulerCandidate list" where
  "ordered_candidates trains order losses =
     (let first_round = filter (\<lambda>t. tr_covered_rounds t = 0) (filter tr_eligible trains) \<noteq> []
      in sort_key ca_rank (map (candidate_of first_round order losses) (candidate_pool trains)))"

definition ping_losses :: "(string \<times> rat) list \<Rightarrow> (string \<times> rat) list" where
  "ping_losses rows =
     fold (\<lambda>(t, x) m. AList.update t (max (case map_of m t of Some y \<Rightarrow> y | None \<Rightarrow> 0) x) m) rows []"

definition ensure_queue ::
  "SchedulerEnv \<Rightarrow> Train list \<Rightarrow> DeepScheduler \<Rightarrow> string list \<times> DeepScheduler" where
  "ensure_queue env trains s =
     (let candidates = sort (map tr_id (filter tr_eligible trains)) in
      case ds_queue s of
        Some q \<Rightarrow>
          (let missing = filter (\<lambda>t. t \<notin> set (dq_order q)) candidates in
           if missing = [] then (dq_order q, s)
           else (let order = dq_order q @ en_shuffle_missing env (dq_seed q) missing in
                 (order, s\<lparr>ds_queue := Some (q\<lparr>dq_candidates := sort (remdups (dq_candidates q @ candidates)),
                                             dq_order := order\<rparr>)\<rparr>)))
      | None \<Rightarrow>
          (let order = en_shuffle env (en_run_seed env) candidates in
           (order, s\<lparr>ds_queue := Some \<lparr>dq_seed = en_run_seed env, dq_candidates = candidates,
                                       dq_order = order\<rparr>\<rparr>)))"

section \<open>Filling the slots\<close>

definition current_cycle :: "Train \<Rightarrow> (string \<times> string) list" where
  "current_cycle t = (if tr_coverage t = ''COLLECTING'' then tr_operations t else [])"

definition startable_endpoints :: "Train \<Rightarrow> string list \<Rightarrow> Endpoint list" where
  "startable_endpoints t devices =
     filter (\<lambda>e. (case ep_device e of None \<Rightarrow> False | Some d \<Rightarrow> d \<notin> set devices) \<and>
                 ep_management_ip e \<noteq> [] \<and> ep_code e \<notin> fst ` set (current_cycle t))
       (tr_endpoints t)"

definition endpoint_device :: "Endpoint \<Rightarrow> string" where
  "endpoint_device e = (case ep_device e of Some d \<Rightarrow> d | None \<Rightarrow> ''None'')"

definition profile_budget :: "Profile \<Rightarrow> OnlineMrConcurrencyBudget" where
  "profile_budget p =
     \<lparr>max_active_mrs = pf_max_active_mrs p, max_starting_mrs = pf_max_starting_mrs p,
      max_finalizing_mrs = pf_max_finalizing_mrs p\<rparr>"

text \<open>\<open>xs[:n]\<close>; a negative \<open>n\<close> counts from the end.\<close>

definition py_prefix :: "int \<Rightarrow> 'a list \<Rightarrow> 'a list" where
  "py_prefix n xs = (if 0 \<le> n then take (nat n) xs else take (length xs - nat (- n)) xs)"

record Fill =
  fl_s :: DeepScheduler
  fl_mr_slots :: int
  fl_starting_slots :: int
  fl_train_slots :: int
  fl_started :: int
  fl_devices :: "string list"
  fl_trains :: "string list"

text \<open>The row and the events of one started endpoint.\<close>

definition started_row :: "string \<Rightarrow> string \<Rightarrow> Endpoint \<Rightarrow> MrOperation \<Rightarrow> DeepRow" where
  "started_row now train e p =
     \<lparr>dr_operation = op_id p, dr_train = train, dr_mr = ep_mr_id e, dr_position = ep_code e,
      dr_session = op_session p, dr_state = ''STARTING'',
      dr_started_at = (if op_started p \<noteq> [] then op_started p else now), dr_ended_at = [],
      dr_stop_reason = [], dr_error = [], dr_finalized = False, dr_package = False,
      dr_updated_at = now\<rparr>"

definition fping_starting_event :: "string \<Rightarrow> Endpoint \<Rightarrow> string \<Rightarrow> SchedEvent" where
  "fping_starting_event train e target =
     \<lparr>ev_type = ''unattended_deep_fping_starting'', ev_severity = ''info'', ev_train = train,
      ev_mr = ep_mr_id e, ev_message = [],
      ev_details = [(''mr_side'', ep_code e), (''device_id'', endpoint_device e), (''target_ip'', target)]\<rparr>"

text \<open>One endpoint of the batch: what was started so far by position, and the failure texts.\<close>

definition start_endpoint ::
  "SchedulerEnv \<Rightarrow> Profile \<Rightarrow> string \<Rightarrow> string \<Rightarrow> Fill \<times> (string \<times> string) list \<times> string list \<Rightarrow>
   Endpoint \<Rightarrow> Fill \<times> (string \<times> string) list \<times> string list" where
  "start_endpoint env profile now train acc e =
     (case acc of (f, started, failures) \<Rightarrow>
      (let decision = can_start (en_owner env) (endpoint_device e) (active_operations (fl_s f))
             (profile_budget profile) True in
       if \<not> allowed decision then (f, started, failures @ [decision_message decision])
       else (case en_build env e of
         Inl err \<Rightarrow> (f, started, failures @ [err])
       | Inr target \<Rightarrow>
           (let s1 = add_event (fping_starting_event train e target) (fl_s f) in
            case en_start env e (ds_ops s1) of
              Inl err \<Rightarrow> (f\<lparr>fl_s := s1\<rparr>, started, failures @ [err])
            | Inr p \<Rightarrow>
                (f\<lparr>fl_s := save_deep_operation (started_row now train e p) (s1\<lparr>ds_ops := p # ds_ops s1\<rparr>),
                   fl_devices := endpoint_device e # fl_devices f,
                   fl_started := fl_started f + 1,
                   fl_mr_slots := fl_mr_slots f - 1,
                   fl_starting_slots := fl_starting_slots f - 1\<rparr>,
                 AList.update (ep_code e) (op_id p) started, failures)))))"

text \<open>
  Booking a started train. In the source \<open>previous_operations\<close> is the dictionary \<open>current_cycle\<close>
  itself, so the tests on \<open>current_cycle\<close> that follow the update see the updated dictionary.
\<close>

definition book_started ::
  "string \<Rightarrow> SchedulerCandidate \<Rightarrow> Train \<Rightarrow> bool \<Rightarrow> (string \<times> string) list \<Rightarrow> string list \<Rightarrow>
   DeepScheduler \<Rightarrow> DeepScheduler" where
  "book_started now c t active started failures s =
     (let cycle = fold (\<lambda>(k, v) m. AList.update k v m) started (current_cycle t);
          again = (active \<or> cycle \<noteq> []) in
      add_event
        \<lparr>ev_type = ''deep_collection_started'', ev_severity = ''info'', ev_train = ca_train c,
         ev_mr = [], ev_message = ca_reason c, ev_details = started\<rparr>
        (update_train_run (ca_train c)
          (\<lambda>x. x\<lparr>tr_coverage := ''COLLECTING'',
                 tr_attempts := tr_attempts t + (if again then 0 else 1),
                 tr_selection_reason := (if again then tr_selection_reason t else ca_reason c),
                 tr_failure := join zh_semicolon failures,
                 tr_started_at := (if again then tr_started_at t else now),
                 tr_operations := cycle\<rparr>) s))"

definition train_by_id :: "Train list \<Rightarrow> string \<Rightarrow> Train option" where
  "train_by_id trains t = map_of (rev (map (\<lambda>x. (tr_id x, x)) trains)) t"

definition fill_candidate ::
  "SchedulerEnv \<Rightarrow> Profile \<Rightarrow> string \<Rightarrow> SchedulerCandidate \<Rightarrow> Train \<Rightarrow> Endpoint list \<Rightarrow> Fill \<Rightarrow> Fill" where
  "fill_candidate env profile now c t selected f =
     (let active = ca_train c \<in> set (fl_trains f);
          (f1, started, failures) = foldl (start_endpoint env profile now (ca_train c)) (f, [], []) selected
      in if started \<noteq> []
         then f1\<lparr>fl_s := book_started now c t active started failures (fl_s f1),
                 fl_train_slots := (if active then fl_train_slots f1 else fl_train_slots f1 - 1),
                 fl_trains := ca_train c # fl_trains f1\<rparr>
         else if failures \<noteq> []
         then f1\<lparr>fl_s := update_train_run (ca_train c)
                           (\<lambda>x. x\<lparr>tr_failure := join zh_semicolon failures\<rparr>) (fl_s f1)\<rparr>
         else f1)"

text \<open>Candidates are trains of the list, so the missing train of the first case does not occur.\<close>

fun fill_candidates ::
  "SchedulerEnv \<Rightarrow> Profile \<Rightarrow> string \<Rightarrow> Train list \<Rightarrow> SchedulerCandidate list \<Rightarrow> Fill \<Rightarrow> Fill" where
  "fill_candidates env profile now trains [] f = f"
| "fill_candidates env profile now trains (c # cs) f =
     (if fl_mr_slots f \<le> 0 \<or> fl_starting_slots f \<le> 0 then f
      else if ca_train c \<notin> set (fl_trains f) \<and> fl_train_slots f \<le> 0
      then fill_candidates env profile now trains cs f
      else (case train_by_id trains (ca_train c) of
        None \<Rightarrow> fill_candidates env profile now trains cs f
      | Some t \<Rightarrow>
          (let endpoints = startable_endpoints t (fl_devices f);
               selected = py_prefix (min (fl_mr_slots f) (min (fl_starting_slots f)
                            (pf_start_batch_size profile - fl_started f))) endpoints in
           if endpoints = [] then fill_candidates env profile now trains cs f
           else if selected = [] then f
           else (let f' = fill_candidate env profile now c t selected f in
                 if pf_start_batch_size profile \<le> fl_started f' then f'
                 else fill_candidates env profile now trains cs f'))))"

text \<open>The slots a round begins with, from the profile and the active allocations.\<close>

definition initial_fill ::
  "SchedulerEnv \<Rightarrow> Profile \<Rightarrow> MrOperation list \<Rightarrow> string list \<Rightarrow> DeepScheduler \<Rightarrow> Fill" where
  "initial_fill env profile operations active_trains s =
     (let as = allocations (en_owner env) operations in
      \<lparr>fl_s = s,
       fl_mr_slots = max 0 (pf_max_active_mrs profile - int (length as)),
       fl_starting_slots = max 0 (pf_max_starting_mrs profile - int (count_phases STARTING_PHASES as)),
       fl_train_slots = max 0 (pf_max_active_trains profile - int (length active_trains)),
       fl_started = 0,
       fl_devices = map (\<lambda>a. op_device (al_operation a)) as,
       fl_trains = active_trains\<rparr>)"

text \<open>The candidates of a round: trains with a running operation come first.\<close>

definition batch_candidates ::
  "string list \<Rightarrow> Train list \<Rightarrow> string list \<Rightarrow> (string \<times> rat) list \<Rightarrow> SchedulerCandidate list" where
  "batch_candidates active_trains trains order losses =
     sort_key (\<lambda>c. (if ca_train c \<in> set active_trains then 0 else 1) # ca_rank c)
       (ordered_candidates trains order losses)"

definition fill_slots ::
  "SchedulerEnv \<Rightarrow> pyfloat \<Rightarrow> string \<Rightarrow> Profile \<Rightarrow> Train list \<Rightarrow> MrOperation list \<Rightarrow> DeepScheduler \<Rightarrow>
   DeepScheduler" where
  "fill_slots env now_monotonic now profile trains operations s =
     (if flt (fsub now_monotonic (ds_last_batch s)) (double (of_int (pf_start_jitter_seconds profile)))
      then s
      else (let active_trains = remdups (map dr_train (list_deep_operations True s));
                f0 = initial_fill env profile operations active_trains s in
        if fl_mr_slots f0 = 0 \<or> fl_starting_slots f0 = 0 then s
        else (let (order, s1) = ensure_queue env trains s;
                  f = fill_candidates env profile now trains
                        (batch_candidates active_trains trains order (ping_losses (ds_losses s1)))
                        (f0\<lparr>fl_s := s1\<rparr>)
              in if fl_started f \<noteq> 0 then (fl_s f)\<lparr>ds_last_batch := now_monotonic\<rparr> else fl_s f)))"

section \<open>Stopping\<close>

definition submit_stop :: "string \<Rightarrow> string \<Rightarrow> DeepScheduler \<Rightarrow> DeepScheduler" where
  "submit_stop oid why s =
     (if oid \<in> fst ` set (ds_stop_futures s) \<or> oid \<in> fst ` set (ds_force_futures s) then s
      else add_event
        \<lparr>ev_type = ''deep_collection_stop_requested'', ev_severity = ''info'', ev_train = [], ev_mr = [],
         ev_message = [], ev_details = [(''operation_id'', oid), (''reason'', why)]\<rparr>
        (s\<lparr>ds_stop_futures := ds_stop_futures s @ [(oid, FPending)]\<rparr>))"

definition pending_stops :: "DeepScheduler \<Rightarrow> nat" where
  "pending_stops s = length (filter (\<lambda>(k, f). \<not> future_done f) (ds_stop_futures s))"

text \<open>The reason to stop the operation of an automated allocation, if there is one.\<close>

definition required_stop ::
  "Profile \<Rightarrow> Train list \<Rightarrow> DeepRow list \<Rightarrow> MrOperation \<Rightarrow> string option" where
  "required_stop profile trains rows p =
     (case map_of (rev (map (\<lambda>r. (dr_operation r, r)) rows)) (op_id p) of
        None \<Rightarrow> None
      | Some r \<Rightarrow>
          (case train_by_id trains (dr_train r) of
             None \<Rightarrow> None
           | Some t \<Rightarrow>
               (if tr_eligibility t \<in> set [''AC_STALE'', ''AC_UNKNOWN'', ''AP_UNMATCHED''] then None
                else if \<not> tr_eligible t
                then Some (if casefold (tr_eligibility t) \<noteq> [] then casefold (tr_eligibility t)
                           else ''left_mainline'')
                else if of_int (pf_preferred_minutes profile) \<le> op_duration p
                then Some ''preferred_duration_reached''
                else None)))"

fun stop_required ::
  "Profile \<Rightarrow> Train list \<Rightarrow> DeepRow list \<Rightarrow> OnlineMrAllocation list \<Rightarrow> int \<Rightarrow> DeepScheduler \<Rightarrow>
   DeepScheduler" where
  "stop_required profile trains rows [] finalizing s = s"
| "stop_required profile trains rows (a # as) finalizing s =
     (if \<not> automated a then stop_required profile trains rows as finalizing s
      else if pf_max_finalizing_mrs profile \<le> finalizing then s
      else (case required_stop profile trains rows (al_operation a) of
              None \<Rightarrow> stop_required profile trains rows as finalizing s
            | Some why \<Rightarrow>
                stop_required profile trains rows as (finalizing + 1)
                  (submit_stop (op_id (al_operation a)) why s)))"

definition request_required_stops ::
  "SchedulerEnv \<Rightarrow> Profile \<Rightarrow> Train list \<Rightarrow> MrOperation list \<Rightarrow> DeepScheduler \<Rightarrow> DeepScheduler" where
  "request_required_stops env profile trains operations s =
     (let as = allocations (en_owner env) operations in
      stop_required profile trains (list_deep_operations True s) as
        (int (count_phases FINALIZING_PHASES as) + int (pending_stops s)) s)"

fun stop_each :: "string \<Rightarrow> int \<Rightarrow> OnlineMrAllocation list \<Rightarrow> int \<Rightarrow> DeepScheduler \<Rightarrow> DeepScheduler" where
  "stop_each why budget [] finalizing s = s"
| "stop_each why budget (a # as) finalizing s =
     (if \<not> automated a then stop_each why budget as finalizing s
      else if max 1 budget \<le> finalizing then s
      else stop_each why budget as (finalizing + 1) (submit_stop (op_id (al_operation a)) why s))"

definition stop_all :: "SchedulerEnv \<Rightarrow> string \<Rightarrow> int \<Rightarrow> DeepScheduler \<Rightarrow> DeepScheduler" where
  "stop_all env why budget s =
     (let as = allocations (en_owner env) (active_operations s) in
      stop_each why budget as
        (int (count_phases FINALIZING_PHASES as) + int (pending_stops s)) s)"

definition automated_ids :: "SchedulerEnv \<Rightarrow> DeepScheduler \<Rightarrow> string list" where
  "automated_ids env s =
     map (\<lambda>a. op_id (al_operation a)) (filter automated (allocations (en_owner env) (active_operations s)))"

definition has_active_automated :: "SchedulerEnv \<Rightarrow> DeepScheduler \<Rightarrow> bool" where
  "has_active_automated env s \<longleftrightarrow>
     automated_ids env s \<noteq> [] \<or>
     list_ex (\<lambda>(k, f). k \<notin> set (ds_superseded s) \<and> \<not> future_done f) (ds_stop_futures s) \<or>
     list_ex (\<lambda>(k, f). \<not> future_done f) (ds_force_futures s)"

definition active_automated_operation_ids :: "SchedulerEnv \<Rightarrow> DeepScheduler \<Rightarrow> string list" where
  "active_automated_operation_ids env s =
     sort (remdups (automated_ids env s @
       map fst (filter (\<lambda>(k, f). \<not> future_done f \<and> k \<notin> set (ds_superseded s)) (ds_stop_futures s)) @
       map fst (filter (\<lambda>(k, f). \<not> future_done f) (ds_force_futures s))))"

definition stop_failed_event :: "string \<Rightarrow> string \<Rightarrow> string \<Rightarrow> SchedEvent" where
  "stop_failed_event kind oid err =
     \<lparr>ev_type = kind, ev_severity = ''error'', ev_train = [], ev_mr = [], ev_message = err,
      ev_details = [(''operation_id'', oid)]\<rparr>"

definition report_result :: "string \<Rightarrow> string \<Rightarrow> future \<Rightarrow> DeepScheduler \<Rightarrow> DeepScheduler" where
  "report_result kind oid f s =
     (case f of FRaised err \<Rightarrow> add_event (stop_failed_event kind oid err) s | _ \<Rightarrow> s)"

definition force_stop_one :: "string \<Rightarrow> string \<Rightarrow> DeepScheduler \<Rightarrow> string list \<times> DeepScheduler" where
  "force_stop_one why oid s =
     (if oid \<in> fst ` set (ds_force_futures s) then ([], s)
      else (let normal = map_of (ds_stop_futures s) oid;
                pending = (normal = Some FPending);
                s1 = (case normal of
                        None \<Rightarrow> s
                      | Some f \<Rightarrow>
                          (if pending then s
                           else report_result ''deep_collection_stop_failed'' oid f
                             (s\<lparr>ds_stop_futures := filter (\<lambda>(k, _). k \<noteq> oid) (ds_stop_futures s),
                                ds_superseded := filter (\<lambda>k. k \<noteq> oid) (ds_superseded s)\<rparr>)));
                s2 = s1\<lparr>ds_force_futures := ds_force_futures s1 @ [(oid, FPending)]\<rparr>;
                s3 = (if pending then s2\<lparr>ds_superseded := List.insert oid (ds_superseded s2)\<rparr> else s2)
            in ([oid], add_event
                 \<lparr>ev_type = ''deep_collection_force_stop_requested'', ev_severity = ''warning'',
                  ev_train = [], ev_mr = [], ev_message = [],
                  ev_details = [(''operation_id'', oid), (''reason'', why)]\<rparr> s3)))"

fun force_each :: "string \<Rightarrow> string list \<Rightarrow> DeepScheduler \<Rightarrow> string list \<times> DeepScheduler" where
  "force_each why [] s = ([], s)"
| "force_each why (k # ks) s =
     (let (a, s1) = force_stop_one why k s; (b, s2) = force_each why ks s1 in (a @ b, s2))"

definition force_stop_all :: "SchedulerEnv \<Rightarrow> string \<Rightarrow> DeepScheduler \<Rightarrow> string list \<times> DeepScheduler" where
  "force_stop_all env why s = force_each why (sort (remdups (automated_ids env s))) s"

definition collect_stop :: "DeepScheduler \<Rightarrow> string \<times> future \<Rightarrow> DeepScheduler" where
  "collect_stop s kf =
     (case kf of (k, f) \<Rightarrow>
       (if \<not> future_done f then s
        else report_result ''deep_collection_stop_failed'' k f
          (s\<lparr>ds_stop_futures := filter (\<lambda>(i, _). i \<noteq> k) (ds_stop_futures s),
             ds_superseded := filter (\<lambda>i. i \<noteq> k) (ds_superseded s)\<rparr>)))"

definition collect_force :: "DeepScheduler \<Rightarrow> string \<times> future \<Rightarrow> DeepScheduler" where
  "collect_force s kf =
     (case kf of (k, f) \<Rightarrow>
       (if \<not> future_done f then s
        else report_result ''deep_collection_force_stop_failed'' k f
          (s\<lparr>ds_force_futures := filter (\<lambda>(i, _). i \<noteq> k) (ds_force_futures s)\<rparr>)))"

definition collect_finished_stop_futures :: "DeepScheduler \<Rightarrow> DeepScheduler" where
  "collect_finished_stop_futures s =
     (let s1 = foldl collect_stop s (ds_stop_futures s) in foldl collect_force s1 (ds_force_futures s1))"

section \<open>Booking results\<close>

text \<open>The verdict on a terminal operation: success, reason, session.\<close>

definition completion_checks :: "Profile \<Rightarrow> MrOperation \<Rightarrow> SessionView \<Rightarrow> (string \<times> bool) list" where
  "completion_checks profile p v =
     [(''duration'', of_int (pf_minimum_minutes profile)
                       \<le> (if sv_duration v \<noteq> 0 then sv_duration v else op_duration p)),
      (''mesh_raw'', case sv_mesh_size v of Some n \<Rightarrow> 0 < n | None \<Rightarrow> False),
      (''fping_samples'', case sv_fping_size v of Some n \<Rightarrow> 0 < n | None \<Rightarrow> False),
      (''finalized'', sv_finalized v),
      (''package'', sv_has_package v \<and> sv_package_reference v \<noteq> []),
      (''integrity'', sv_integrity v = ''complete'')]"

definition verify_terminal_operation ::
  "SchedulerEnv \<Rightarrow> Profile \<Rightarrow> MrOperation \<Rightarrow> bool \<times> string \<times> string" where
  "verify_terminal_operation env profile p =
     (if op_session p = [] then (False, if op_error p \<noteq> [] then op_error p else msg_no_session, [])
      else (case en_session env (op_session p) of
              Inl message \<Rightarrow> (False, message, op_session p)
            | Inr v \<Rightarrow>
                (let checks = completion_checks profile p v in
                 if list_all snd checks then (True, [], op_session p)
                 else (False,
                       msg_conditions_missing @
                         join zh_list_comma (map fst (filter (\<lambda>c. \<not> snd c) checks)),
                       op_session p))))"

definition mark_operation_partial :: "string \<Rightarrow> DeepRow \<Rightarrow> string \<Rightarrow> DeepScheduler \<Rightarrow> DeepScheduler" where
  "mark_operation_partial now r why s =
     save_deep_operation (r\<lparr>dr_state := ''PARTIAL'', dr_ended_at := now, dr_error := why,
       dr_finalized := False, dr_package := False, dr_updated_at := now\<rparr>) s"

definition row_state_of_phase :: "OnlineMrPhase \<Rightarrow> string" where
  "row_state_of_phase ph =
     (if ph \<in> set STARTING_PHASES then ''STARTING''
      else if ph \<in> set FINALIZING_PHASES then ''FINALIZING'' else ''RUNNING'')"

definition record_fping_started :: "SchedulerEnv \<Rightarrow> DeepRow \<Rightarrow> MrOperation \<Rightarrow> DeepScheduler \<Rightarrow> DeepScheduler" where
  "record_fping_started env r p s =
     (if op_session p = [] then s
      else (case en_fping env (op_session p) of
              None \<Rightarrow> s
            | Some (status, target) \<Rightarrow>
                (case status of
                   None \<Rightarrow> s
                 | Some st \<Rightarrow>
                     (if casefold st \<noteq> ''running'' then s
                      else add_event
                        \<lparr>ev_type = ''unattended_deep_fping_started'', ev_severity = ''info'',
                         ev_train = dr_train r, ev_mr = dr_mr r, ev_message = [],
                         ev_details = [(''session_id'', op_session p), (''mr_side'', dr_position r),
                                       (''device_id'', op_device p), (''target_ip'', target)]\<rparr> s))))"

definition synchronize_row ::
  "SchedulerEnv \<Rightarrow> string \<Rightarrow> Profile \<Rightarrow> (string \<rightharpoonup> MrOperation) \<Rightarrow> DeepScheduler \<Rightarrow> DeepRow \<Rightarrow> DeepScheduler" where
  "synchronize_row env now profile operations s r =
     (case operations (dr_operation r) of
        None \<Rightarrow>
          (if dr_state r \<notin> set TERMINAL_ROW_STATES then mark_operation_partial now r msg_mapping_lost s
           else s)
      | Some p \<Rightarrow>
          (if op_phase p \<noteq> TERMINAL
           then (let state = row_state_of_phase (op_phase p);
                     s1 = save_deep_operation
                            (r\<lparr>dr_session := (if op_session p \<noteq> [] then op_session p else dr_session r),
                               dr_state := state, dr_updated_at := now\<rparr>) s
                 in if state = ''RUNNING'' \<and> dr_state r = ''STARTING''
                    then record_fping_started env r p s1 else s1)
           else (let (success, why, session) = verify_terminal_operation env profile p in
                 save_deep_operation
                   (r\<lparr>dr_session := session, dr_state := (if success then ''COMPLETED'' else ''PARTIAL''),
                      dr_ended_at := (if op_ended p \<noteq> [] then op_ended p else now),
                      dr_stop_reason := op_stop_reason p, dr_error := why,
                      dr_finalized := success, dr_package := success, dr_updated_at := now\<rparr>) s)))"

text \<open>Values in the order of their first occurrence, the key order of a dictionary.\<close>

fun first_occurrences :: "'a list \<Rightarrow> 'a list" where
  "first_occurrences [] = []"
| "first_occurrences (x # xs) = x # filter (\<lambda>y. y \<noteq> x) (first_occurrences xs)"

definition operation_duration :: "DeepScheduler \<Rightarrow> string \<Rightarrow> rat" where
  "operation_duration s oid =
     (case find (\<lambda>p. op_id p = oid) (ds_ops s) of Some p \<Rightarrow> op_duration p | None \<Rightarrow> 0)"

definition expected_positions :: "Train \<Rightarrow> string set" where
  "expected_positions t =
     set (map ep_code (filter (\<lambda>e. ep_device e \<noteq> None \<and> ep_management_ip e \<noteq> [] \<and> ep_code e \<noteq> [])
       (tr_endpoints t)))"

text \<open>The rows of the train's current cycle, when the cycle is over and covers every position.\<close>

definition finished_cycle :: "Train \<Rightarrow> DeepRow list \<Rightarrow> DeepRow list option" where
  "finished_cycle t rows =
     (let current = filter (\<lambda>r. dr_operation r \<in> snd ` set (tr_operations t)) rows in
      if \<not> expected_positions t \<subseteq> dr_position ` set current then None
      else if current = [] \<or> list_ex (\<lambda>r. dr_state r \<notin> set TERMINAL_ROW_STATES) current then None
      else Some current)"

definition coverage_status :: "Profile \<Rightarrow> DeepRow list \<Rightarrow> rat \<Rightarrow> string" where
  "coverage_status profile current duration =
     (if list_all (\<lambda>r. dr_state r = ''COMPLETED'') current \<and>
         of_int (pf_minimum_minutes profile) \<le> duration then ''COVERED'' else ''PARTIAL'')"

definition update_one_coverage ::
  "Profile \<Rightarrow> DeepRow list \<Rightarrow> DeepScheduler \<Rightarrow> string \<Rightarrow> DeepScheduler" where
  "update_one_coverage profile rows s tid =
     (case find (\<lambda>t. tr_id t = tid) (ds_trains s) of
        None \<Rightarrow> s
      | Some t \<Rightarrow>
          (case finished_cycle t (filter (\<lambda>r. dr_train r = tid) rows) of
             None \<Rightarrow> s
           | Some current \<Rightarrow>
               (let duration = Max (set (map (\<lambda>r. operation_duration s (dr_operation r)) current));
                    sessions = fold (\<lambda>r m. AList.update (dr_position r) (dr_session r) m) current [];
                    status = coverage_status profile current duration;
                    failure = join zh_semicolon (filter (\<lambda>e. e \<noteq> []) (map dr_error current))
                in add_event
                     \<lparr>ev_type = (if status = ''COVERED'' then ''deep_collection_completed''
                                 else ''deep_collection_partial''),
                      ev_severity = (if status = ''COVERED'' then ''info'' else ''warning''),
                      ev_train = tid, ev_mr = [], ev_message = failure, ev_details = sessions\<rparr>
                     (update_train_run tid
                       (\<lambda>x. x\<lparr>tr_coverage := status,
                              tr_covered_rounds := tr_covered_rounds t + (if status = ''COVERED'' then 1 else 0),
                              tr_valid_duration := duration, tr_sessions := sessions,
                              tr_operations := [], tr_failure := failure\<rparr>) s))))"

definition update_train_coverage :: "Profile \<Rightarrow> DeepScheduler \<Rightarrow> DeepScheduler" where
  "update_train_coverage profile s =
     (let rows = list_deep_operations False s in
      foldl (update_one_coverage profile rows) s (first_occurrences (map dr_train rows)))"

definition synchronize_operations :: "SchedulerEnv \<Rightarrow> string \<Rightarrow> Profile \<Rightarrow> DeepScheduler \<Rightarrow> DeepScheduler" where
  "synchronize_operations env now profile s =
     update_train_coverage profile
       (foldl (synchronize_row env now profile (map_of (rev (map (\<lambda>p. (op_id p, p)) (ds_ops s)))))
          s (list_deep_operations False s))"

definition tick ::
  "SchedulerEnv \<Rightarrow> pyfloat \<Rightarrow> string \<Rightarrow> Profile \<Rightarrow> Train list \<Rightarrow> bool \<Rightarrow> DeepScheduler \<Rightarrow> DeepScheduler" where
  "tick env now_monotonic now profile trains paused s =
     (let s1 = synchronize_operations env now profile s;
          operations = active_operations s1;
          s2 = request_required_stops env profile trains operations s1;
          s3 = collect_finished_stop_futures s2
      in if paused then s3 else fill_slots env now_monotonic now profile trains operations s3)"

end
