(* ===== verification/Deep_Scheduler_Props.thy ===== *)
theory Deep_Scheduler_Props
  imports Deep_Scheduler
begin

text \<open>
  Properties of the unattended deep collection scheduler: starting within the budgets, booking of
  attempts, stopping within the finalisation budget, forced stops, the order of candidates and the
  coverage verdict.
\<close>

section \<open>Starting within the budget\<close>

lemma ops_add_event [simp]: "ds_ops (add_event e s) = ds_ops s"
  by (simp add: add_event_def)

lemma ops_save_deep_operation [simp]: "ds_ops (save_deep_operation r s) = ds_ops s"
  by (simp add: save_deep_operation_def)

lemma ops_update_train_run [simp]: "ds_ops (update_train_run t f s) = ds_ops s"
  by (simp add: update_train_run_def)

lemma ops_book_started [simp]: "ds_ops (book_started now c t active started failures s) = ds_ops s"
  by (simp add: book_started_def Let_def)

lemma ops_ensure_queue [simp]: "ds_ops (snd (ensure_queue env trains s)) = ds_ops s"
  by (simp add: ensure_queue_def Let_def split: option.splits)

text \<open>
  What the application service promises: an operation it starts for an endpoint runs on the
  endpoint's device.
\<close>

definition starts_on_device :: "SchedulerEnv \<Rightarrow> bool" where
  "starts_on_device env \<longleftrightarrow> (\<forall>e ops p. en_start env e ops = Inr p \<longrightarrow> op_device p = endpoint_device e)"

text \<open>The state of a fill relative to the operations it began with.\<close>

definition fill_inv :: "Profile \<Rightarrow> MrOperation list \<Rightarrow> Fill \<Rightarrow> bool" where
  "fill_inv profile ops0 f \<longleftrightarrow>
     within_budget (profile_budget profile) (active_operations (fl_s f)) \<and>
     (\<exists>new. ds_ops (fl_s f) = new @ ops0 \<and> int (length new) = fl_started f)"

lemma start_endpoint_inv:
  assumes env: "starts_on_device env" and inv: "fill_inv profile ops0 (fst acc)"
  shows "fill_inv profile ops0 (fst (start_endpoint env profile now train acc e)) \<and>
    fl_started (fst acc) \<le> fl_started (fst (start_endpoint env profile now train acc e)) \<and>
    fl_started (fst (start_endpoint env profile now train acc e)) \<le> fl_started (fst acc) + 1"
proof -
  obtain f started failures where acc: "acc = (f, started, failures)" by (cases acc)
  let ?b = "profile_budget profile"
  show ?thesis
  proof (cases "allowed (can_start (en_owner env) (endpoint_device e) (active_operations (fl_s f)) ?b True)")
    case False
    then show ?thesis using inv by (simp add: acc start_endpoint_def Let_def)
  next
    case True
    have step: "within_budget ?b (active_operations (fl_s f)) \<Longrightarrow> op_device p = endpoint_device e \<Longrightarrow>
        within_budget ?b (filter op_linked (p # ds_ops (fl_s f)))" for p
      using within_budget_start [OF True, of p] by (simp add: active_operations_def)
    show ?thesis
    proof (cases "en_build env e")
      case (Inl err)
      then show ?thesis using inv True by (simp add: acc start_endpoint_def Let_def)
    next
      case (Inr target)
      show ?thesis
      proof (cases "en_start env e (ds_ops (fl_s f))")
        case (Inl err)
        then show ?thesis
          using inv True Inr by (simp add: acc start_endpoint_def Let_def fill_inv_def active_operations_def)
      next
        case p: (Inr p)
        then have "op_device p = endpoint_device e" using env by (simp add: starts_on_device_def)
        then have "within_budget ?b (filter op_linked (p # ds_ops (fl_s f)))"
          using step inv by (simp add: acc fill_inv_def)
        moreover obtain new where "ds_ops (fl_s f) = new @ ops0" "int (length new) = fl_started f"
          using inv by (auto simp: acc fill_inv_def)
        ultimately show ?thesis
          using True Inr p
          by (auto simp: acc start_endpoint_def Let_def fill_inv_def active_operations_def
              intro!: exI [of _ "p # new"])
      qed
    qed
  qed
qed

lemma start_endpoints_inv:
  assumes env: "starts_on_device env" and inv: "fill_inv profile ops0 (fst acc)"
  shows "fill_inv profile ops0 (fst (foldl (start_endpoint env profile now train) acc es)) \<and>
    fl_started (fst acc) \<le> fl_started (fst (foldl (start_endpoint env profile now train) acc es)) \<and>
    fl_started (fst (foldl (start_endpoint env profile now train) acc es)) \<le> fl_started (fst acc) + int (length es)"
  using inv
proof (induction es arbitrary: acc)
  case Nil
  then show ?case by simp
next
  case (Cons e es)
  let ?a = "start_endpoint env profile now train acc e"
  have "fill_inv profile ops0 (fst ?a)" "fl_started (fst acc) \<le> fl_started (fst ?a)"
    "fl_started (fst ?a) \<le> fl_started (fst acc) + 1"
    using start_endpoint_inv [OF env Cons.prems] by auto
  then show ?case using Cons.IH [of ?a] by fastforce
qed

lemma fill_inv_cong:
  "ds_ops (fl_s g) = ds_ops (fl_s f) \<Longrightarrow> fl_started g = fl_started f \<Longrightarrow> fill_inv profile ops0 f \<Longrightarrow>
   fill_inv profile ops0 g"
  by (simp add: fill_inv_def active_operations_def)

lemma fill_candidate_inv:
  assumes env: "starts_on_device env" and inv: "fill_inv profile ops0 f"
  shows "fill_inv profile ops0 (fill_candidate env profile now c t selected f) \<and>
    fl_started f \<le> fl_started (fill_candidate env profile now c t selected f) \<and>
    fl_started (fill_candidate env profile now c t selected f) \<le> fl_started f + int (length selected)"
proof -
  obtain f1 started failures where
    fold: "foldl (start_endpoint env profile now (ca_train c)) (f, [], []) selected = (f1, started, failures)"
    by (metis prod_cases3)
  have f1: "fill_inv profile ops0 f1" "fl_started f \<le> fl_started f1"
    "fl_started f1 \<le> fl_started f + int (length selected)"
    using start_endpoints_inv [OF env, of profile ops0 "(f, [], [])" now "ca_train c" selected] inv
    by (simp_all add: fold)
  then have "fill_inv profile ops0 (fill_candidate env profile now c t selected f)"
    by (intro fill_inv_cong [OF _ _ f1(1)]) (simp_all add: fill_candidate_def fold Let_def)
  moreover have "fl_started (fill_candidate env profile now c t selected f) = fl_started f1"
    by (simp add: fill_candidate_def fold Let_def)
  ultimately show ?thesis using f1 by simp
qed

lemma length_py_prefix: "0 \<le> n \<Longrightarrow> int (length (py_prefix n xs)) \<le> n"
  by (simp add: py_prefix_def)

lemma fill_candidates_inv:
  assumes env: "starts_on_device env"
  shows "fill_inv profile ops0 f \<Longrightarrow> fl_started f < pf_start_batch_size profile \<Longrightarrow>
    fill_inv profile ops0 (fill_candidates env profile now trains cs f) \<and>
    fl_started (fill_candidates env profile now trains cs f) \<le> pf_start_batch_size profile"
proof (induction cs arbitrary: f)
  case Nil
  then show ?case by simp
next
  case (Cons c cs)
  show ?case
  proof (cases "fl_mr_slots f \<le> 0 \<or> fl_starting_slots f \<le> 0 \<or>
      (ca_train c \<notin> set (fl_trains f) \<and> fl_train_slots f \<le> 0) \<or> train_by_id trains (ca_train c) = None")
    case True
    then show ?thesis using Cons by auto
  next
    case False
    then obtain t where t: "train_by_id trains (ca_train c) = Some t" by blast
    define n where "n = min (fl_mr_slots f) (min (fl_starting_slots f) (pf_start_batch_size profile - fl_started f))"
    define sel where "sel = py_prefix n (startable_endpoints t (fl_devices f))"
    define g where "g = fill_candidate env profile now c t sel f"
    have n: "0 \<le> n" "n \<le> pf_start_batch_size profile - fl_started f"
      using False Cons.prems(2) by (auto simp: n_def)
    have "int (length sel) \<le> n" unfolding sel_def by (rule length_py_prefix [OF n(1)])
    then have "fill_inv profile ops0 g" "fl_started g \<le> pf_start_batch_size profile"
      using fill_candidate_inv [OF env Cons.prems(1), of now c t sel] n(2) by (auto simp: g_def)
    then show ?thesis
      using False t Cons.IH [OF Cons.prems] Cons.IH [of g] Cons.prems
      by (auto simp: Let_def not_le simp flip: n_def sel_def g_def)
  qed
qed



definition sample_endpoint :: Endpoint where
  "sample_endpoint = \<lparr>ep_device = Some ''17'', ep_management_ip = ''10.0.0.17'', ep_code = ''A'', ep_mr_id = ''mr-17''\<rparr>"

definition sample_train :: Train where
  "sample_train =
     \<lparr>tr_id = ''T1'', tr_priority = False, tr_scheduling_priority = 0, tr_attempts = 0,
      tr_coverage = ''NOT_SEEN'', tr_covered_rounds = 0, tr_eligible = True, tr_eligibility = ''ELIGIBLE'',
      tr_operations = [], tr_endpoints = [sample_endpoint], tr_selection_reason = [], tr_started_at = [],
      tr_failure = [], tr_valid_duration = 0, tr_sessions = []\<rparr>"

definition sample_profile :: Profile where
  "sample_profile =
     \<lparr>pf_max_active_trains = 2, pf_max_active_mrs = 4, pf_max_starting_mrs = 2, pf_max_finalizing_mrs = 2,
      pf_start_batch_size = 1, pf_start_jitter_seconds = 3, pf_preferred_minutes = 20, pf_minimum_minutes = 10\<rparr>"

definition sample_env :: SchedulerEnv where
  "sample_env =
     \<lparr>en_owner = (\<lambda>_. Some ''ground_unattended''), en_build = (\<lambda>e. Inr (ep_management_ip e)),
      en_start = (\<lambda>e ops. Inr (sample_operation\<lparr>op_device := endpoint_device e, op_phase := VALIDATING\<rparr>)),
      en_run_seed = 7, en_shuffle = (\<lambda>_ xs. xs), en_shuffle_missing = (\<lambda>_ xs. xs),
      en_session = (\<lambda>_. Inl []), en_fping = (\<lambda>_. None)\<rparr>"

definition sample_scheduler :: DeepScheduler where
  "sample_scheduler =
     \<lparr>ds_ops = [], ds_rows = [], ds_trains = [sample_train], ds_queue = None, ds_losses = [],
      ds_stop_futures = [], ds_force_futures = [], ds_superseded = [], ds_last_batch = Fin 0, ds_events = []\<rparr>"


section \<open>Booking of attempts\<close>

lemma AList_update_nonempty [simp]: "AList.update k v m \<noteq> []"
  by (cases m) auto

lemma fold_update_keeps_nonempty:
  "m \<noteq> [] \<Longrightarrow> fold (\<lambda>(k, v). AList.update k v) started m \<noteq> []"
proof (induction started arbitrary: m)
  case Nil
  then show ?case by simp
next
  case (Cons kv started)
  then show ?case by (cases kv) simp
qed

lemma fold_update_nonempty:
  assumes "started \<noteq> []"
  shows "fold (\<lambda>(k, v). AList.update k v) started m \<noteq> []"
proof -
  obtain k v rest where "started = (k, v) # rest" using assms by (cases started) auto
  then show ?thesis using fold_update_keeps_nonempty [of "AList.update k v m" rest] by simp
qed

text \<open>
  Booking the start of a collection never counts the attempt: although the code adds one for a
  train that was not yet collecting, it decides so after merging the new operations into the
  dictionary it tests, which is then never empty. The attempt count, the selection reason and the
  start time of the train are written back unchanged for every start.
\<close>

theorem attempts_never_counted:
  assumes "started \<noteq> []" and "x \<in> set (ds_trains (book_started now c t active started failures s))"
    and "tr_id x = ca_train c" and "tr_id t = ca_train c"
  shows "tr_attempts x = tr_attempts t \<and> tr_selection_reason x = tr_selection_reason t \<and>
    tr_started_at x = tr_started_at t \<and> tr_coverage x = ''COLLECTING''"
  using assms fold_update_nonempty [OF assms(1), of "current_cycle t"]
  by (auto simp: book_started_def Let_def add_event_def update_train_run_def)

theorem attempts_never_counted_witness:
  "map tr_attempts (ds_trains (book_started ''now'' (candidate_of True [] [] sample_train) sample_train False
     [(''A'', ''op-1'')] [] sample_scheduler)) = [0]"
proof -
  let ?c = "candidate_of True [] [] sample_train"
  let ?s = "book_started ''now'' ?c sample_train False [(''A'', ''op-1'')] [] sample_scheduler"
  have c: "ca_train ?c = tr_id sample_train" by (simp add: candidate_of_def Let_def)
  obtain x where x: "ds_trains ?s = [x]" "tr_id x = tr_id sample_train"
    by (auto simp: book_started_def Let_def add_event_def update_train_run_def sample_scheduler_def c)
  then show ?thesis
    using attempts_never_counted [of "[(''A'', ''op-1'')]" x "''now''" ?c sample_train False "[]" sample_scheduler] c
    by (simp add: sample_train_def)
qed

section \<open>Stopping within the finalisation budget\<close>

lemma pending_submit_stop: "pending_stops (submit_stop k why s) \<le> pending_stops s + 1"
  by (simp add: submit_stop_def pending_stops_def add_event_def future_done_def)

lemma stop_keys_submit:
  "fst ` set (ds_stop_futures (submit_stop k why s)) \<subseteq> insert k (fst ` set (ds_stop_futures s))"
  by (auto simp: submit_stop_def add_event_def)

lemma stop_keys_submit_mono:
  "fst ` set (ds_stop_futures s) \<subseteq> fst ` set (ds_stop_futures (submit_stop k why s))"
  by (auto simp: submit_stop_def add_event_def)

lemma stop_required_pending:
  assumes "int (pending_stops s) \<le> finalizing"
  shows "int (pending_stops (stop_required profile trains rows as finalizing s))
    \<le> max finalizing (pf_max_finalizing_mrs profile)"
  using assms
proof (induction as arbitrary: finalizing s)
  case Nil
  then show ?case by simp
next
  case (Cons a as)
  show ?case
  proof (cases "\<not> automated a \<or> pf_max_finalizing_mrs profile \<le> finalizing \<or>
      required_stop profile trains rows (al_operation a) = None")
    case True
    then show ?thesis using Cons.prems Cons.IH [OF Cons.prems] by auto
  next
    case False
    then obtain why where why: "required_stop profile trains rows (al_operation a) = Some why" by auto
    let ?s = "submit_stop (op_id (al_operation a)) why s"
    have "int (pending_stops ?s) \<le> finalizing + 1"
      using pending_submit_stop [of "op_id (al_operation a)" why s] Cons.prems by simp
    from Cons.IH [OF this] show ?thesis using False why by (simp add: not_le max_def split: if_splits)
  qed
qed

lemma stop_required_keys:
  "k \<in> fst ` set (ds_stop_futures (stop_required profile trains rows as finalizing s)) \<Longrightarrow>
     k \<in> fst ` set (ds_stop_futures s) \<or>
     (\<exists>a \<in> set as. automated a \<and> k = op_id (al_operation a) \<and>
       required_stop profile trains rows (al_operation a) \<noteq> None)"
proof (induction as arbitrary: finalizing s)
  case Nil
  then show ?case by simp
next
  case (Cons a as)
  show ?case
  proof (cases "\<not> automated a \<or> pf_max_finalizing_mrs profile \<le> finalizing \<or>
      required_stop profile trains rows (al_operation a) = None")
    case True
    then have "k \<in> fst ` set (ds_stop_futures s) \<or>
        k \<in> fst ` set (ds_stop_futures (stop_required profile trains rows as finalizing s))"
      using Cons.prems by (auto split: if_splits)
    then show ?thesis using Cons.IH [of finalizing s] by (meson list.set_intros(2))
  next
    case False
    then obtain why where why: "required_stop profile trains rows (al_operation a) = Some why" by auto
    let ?s = "submit_stop (op_id (al_operation a)) why s"
    have "k \<in> fst ` set (ds_stop_futures (stop_required profile trains rows as (finalizing + 1) ?s))"
      using Cons.prems False why by simp
    from Cons.IH [OF this] show ?thesis
    proof
      assume "k \<in> fst ` set (ds_stop_futures ?s)"
      then have "k \<in> fst ` set (ds_stop_futures s) \<or> k = op_id (al_operation a)"
        using stop_keys_submit [of "op_id (al_operation a)" why s] by blast
      then show ?thesis using False by auto
    qed (meson list.set_intros(2))
  qed
qed


section \<open>Forced stops\<close>

lemma force_keys_add_event [simp]: "ds_force_futures (add_event e s) = ds_force_futures s"
  by (simp add: add_event_def)

lemma force_keys_report [simp]: "ds_force_futures (report_result kind k f s) = ds_force_futures s"
  by (simp add: report_result_def split: future.splits)

lemma force_stop_one_keys:
  "fst ` set (ds_force_futures (snd (force_stop_one why k s))) = insert k (fst ` set (ds_force_futures s))"
  by (auto simp: force_stop_one_def Let_def split: option.splits)

lemma force_stop_one_ids:
  "fst (force_stop_one why k s) = (if k \<in> fst ` set (ds_force_futures s) then [] else [k])"
  by (simp add: force_stop_one_def Let_def)

lemma force_each_keys:
  "fst ` set (ds_force_futures (snd (force_each why ks s))) = set ks \<union> fst ` set (ds_force_futures s)"
proof (induction ks arbitrary: s)
  case Nil
  then show ?case by simp
next
  case (Cons k ks)
  obtain a s1 b s2 where e: "force_stop_one why k s = (a, s1)" "force_each why ks s1 = (b, s2)"
    by fastforce
  then show ?case
    using Cons.IH [of s1] force_stop_one_keys [of why k s] by auto
qed

lemma force_each_ids:
  "distinct ks \<Longrightarrow> fst (force_each why ks s) = filter (\<lambda>k. k \<notin> fst ` set (ds_force_futures s)) ks"
proof (induction ks arbitrary: s)
  case Nil
  then show ?case by simp
next
  case (Cons k ks)
  obtain a s1 b s2 where e: "force_stop_one why k s = (a, s1)" "force_each why ks s1 = (b, s2)"
    by fastforce
  have "filter (\<lambda>x. x \<notin> fst ` set (ds_force_futures s1)) ks = filter (\<lambda>x. x \<notin> fst ` set (ds_force_futures s)) ks"
    using Cons.prems force_stop_one_keys [of why k s] e(1) by (auto intro!: filter_cong)
  then show ?case
    using Cons e force_stop_one_ids [of why k s] Cons.IH [of s1] by auto
qed

lemma automated_ids_force:
  "automated_ids env (snd (force_each why ks s)) = automated_ids env s"
proof -
  have one: "ds_ops (snd (force_stop_one why k s)) = ds_ops s" for k s
    by (auto simp: force_stop_one_def Let_def report_result_def add_event_def split: option.splits future.splits)
  have "ds_ops (snd (force_each why ks s)) = ds_ops s"
  proof (induction ks arbitrary: s)
    case Nil
    then show ?case by simp
  next
    case (Cons k ks)
    obtain a s1 b s2 where e: "force_stop_one why k s = (a, s1)" "force_each why ks s1 = (b, s2)"
      by fastforce
    then show ?case using Cons.IH [of s1] one [of k s] by simp
  qed
  then show ?thesis by (simp add: automated_ids_def active_operations_def)
qed

text \<open>
  C31. The forced stop after the deadline reaches every collection of the unattended run exactly
  once: the call submits those that have no forced stop yet, afterwards every active automated
  operation has one, and calling again submits nothing and changes nothing.
\<close>

theorem force_stop_all_once:
  "set (fst (force_stop_all env why s)) = set (automated_ids env s) - fst ` set (ds_force_futures s) \<and>
   distinct (fst (force_stop_all env why s)) \<and>
   set (automated_ids env s) \<subseteq> fst ` set (ds_force_futures (snd (force_stop_all env why s))) \<and>
   force_stop_all env why2 (snd (force_stop_all env why s)) = ([], snd (force_stop_all env why s))"
proof -
  let ?ks = "sort (remdups (automated_ids env s))"
  let ?s = "snd (force_each why ?ks s)"
  have ids: "fst (force_each why ?ks s) = filter (\<lambda>k. k \<notin> fst ` set (ds_force_futures s)) ?ks"
    by (rule force_each_ids) simp
  have keys: "fst ` set (ds_force_futures ?s) = set ?ks \<union> fst ` set (ds_force_futures s)"
    by (rule force_each_keys)
  have again: "force_each why2 ks t = ([], t)" if "set ks \<subseteq> fst ` set (ds_force_futures t)" for ks t
    using that by (induction ks) (auto simp: force_stop_one_def)
  have "force_each why2 ?ks ?s = ([], ?s)"
    using keys by (intro again) auto
  then show ?thesis
    using ids keys by (auto simp: force_stop_all_def automated_ids_force)
qed



section \<open>Order of the candidates\<close>

lemma ca_train_candidate_of [simp]: "ca_train (candidate_of fr order losses t) = tr_id t"
  by (simp add: candidate_of_def Let_def)

lemma candidate_pool_eligible:
  "t \<in> set (candidate_pool trains) \<Longrightarrow> t \<in> set trains \<and> tr_eligible t"
  by (auto simp: candidate_pool_def Let_def split: if_splits)

text \<open>
  The candidate order: every candidate is an eligible train and the list is sorted by rank;
  while some eligible train has no covered round today, exactly the eligible trains without one are
  candidates, so no train is collected again before all others had their first round; a pinned
  train precedes every train that is not pinned.
\<close>

theorem ordered_candidates_first_round:
  "(let cs = ordered_candidates trains order losses in
    sorted (map ca_rank cs) \<and>
    set (map ca_train cs) = tr_id ` set (candidate_pool trains) \<and>
    (if \<exists>t \<in> set trains. tr_eligible t \<and> tr_covered_rounds t = 0
     then set (candidate_pool trains) = {t \<in> set trains. tr_eligible t \<and> tr_covered_rounds t = 0}
     else set (candidate_pool trains) = {t \<in> set trains. tr_eligible t}) \<and>
    (\<forall>fr. \<forall>t u. tr_priority t \<and> \<not> tr_priority u \<longrightarrow>
       ca_rank (candidate_of fr order losses t) < ca_rank (candidate_of fr order losses u)))"
proof -
  have "set (map ca_train (ordered_candidates trains order losses)) = tr_id ` set (candidate_pool trains)"
    by (force simp: ordered_candidates_def Let_def)
  moreover have "sorted (map ca_rank (ordered_candidates trains order losses))"
    by (simp add: ordered_candidates_def Let_def)
  moreover have "if \<exists>t \<in> set trains. tr_eligible t \<and> tr_covered_rounds t = 0
     then set (candidate_pool trains) = {t \<in> set trains. tr_eligible t \<and> tr_covered_rounds t = 0}
     else set (candidate_pool trains) = {t \<in> set trains. tr_eligible t}"
    by (auto simp: candidate_pool_def Let_def filter_empty_conv)
  moreover have "ca_rank (candidate_of fr order losses t) < ca_rank (candidate_of fr order losses u)"
    if "tr_priority t" "\<not> tr_priority u" for fr t u
    using that by (simp add: candidate_of_def Let_def)
  ultimately show ?thesis unfolding Let_def by blast
qed

theorem ordered_candidates_first_round_witness:
  "map ca_train (ordered_candidates [sample_train\<lparr>tr_covered_rounds := 1\<rparr>, sample_train\<lparr>tr_id := ''T2''\<rparr>] [] [])
     = [''T2'']"
proof -
  let ?ts = "[sample_train\<lparr>tr_covered_rounds := 1\<rparr>, sample_train\<lparr>tr_id := ''T2''\<rparr>]"
  have pool: "candidate_pool ?ts = [sample_train\<lparr>tr_id := ''T2''\<rparr>]"
    by (simp add: candidate_pool_def sample_train_def)
  then have "length (ordered_candidates ?ts [] []) = 1" by (simp add: ordered_candidates_def Let_def)
  then obtain c where c: "ordered_candidates ?ts [] [] = [c]" by (auto simp: length_Suc_conv)
  then show ?thesis
    using ordered_candidates_first_round [of ?ts "[]" "[]"] pool by (simp add: Let_def)
qed

section \<open>Coverage\<close>

definition booked :: "Train \<Rightarrow> string \<Rightarrow> rat \<Rightarrow> DeepRow list \<Rightarrow> Train \<Rightarrow> Train" where
  "booked t status duration current x =
     x\<lparr>tr_coverage := status,
       tr_covered_rounds := tr_covered_rounds t + (if status = ''COVERED'' then 1 else 0),
       tr_valid_duration := duration,
       tr_sessions := fold (\<lambda>r m. AList.update (dr_position r) (dr_session r) m) current [],
       tr_operations := [],
       tr_failure := join zh_semicolon (filter (\<lambda>e. e \<noteq> []) (map dr_error current))\<rparr>"

lemma booked_sel [simp]:
  "tr_coverage (booked t status duration current x) = status"
  "tr_operations (booked t status duration current x) = []"
  "tr_covered_rounds (booked t status duration current x) =
     tr_covered_rounds t + (if status = ''COVERED'' then 1 else 0)"
  by (simp_all add: booked_def)

lemma update_one_coverage_trains:
  "ds_trains (update_one_coverage profile rows s tid) =
     (case find (\<lambda>t. tr_id t = tid) (ds_trains s) of
        None \<Rightarrow> ds_trains s
      | Some t \<Rightarrow>
          (case finished_cycle t (filter (\<lambda>r. dr_train r = tid) rows) of
             None \<Rightarrow> ds_trains s
           | Some current \<Rightarrow>
               (let duration = Max (set (map (\<lambda>r. operation_duration s (dr_operation r)) current))
                in map (\<lambda>x. if tr_id x = tid
                     then booked t (coverage_status profile current duration) duration current x
                     else x) (ds_trains s))))"
  by (simp add: update_one_coverage_def booked_def Let_def add_event_def update_train_run_def
      split: option.splits)

lemma find_unique_id:
  assumes "distinct (map tr_id ts)" and "t \<in> set ts" and "tr_id t = tid"
  shows "find (\<lambda>t. tr_id t = tid) ts = Some t"
  using assms by (induction ts) auto

text \<open>
  C29. A covered round is only booked on complete evidence: when booking results changes the number
  of covered rounds of a train, it grows by exactly one, every endpoint position of the train has a
  row in the cycle, every row of the cycle is \<open>COMPLETED\<close>, and the longest operation of the cycle
  lasted at least the minimum duration; the cycle's operations are cleared.
\<close>

theorem coverage_needs_evidence:
  assumes "distinct (map tr_id (ds_trains s))" and "t \<in> set (ds_trains s)" and "tr_id t = tid"
    and "x \<in> set (ds_trains (update_one_coverage profile rows s tid))" and "tr_id x = tid"
    and "tr_covered_rounds x \<noteq> tr_covered_rounds t"
  shows "tr_covered_rounds x = tr_covered_rounds t + 1 \<and> tr_coverage x = ''COVERED'' \<and> tr_operations x = [] \<and>
    (\<exists>current. set current \<subseteq> set rows \<and> current \<noteq> [] \<and>
       (\<forall>r \<in> set current. dr_operation r \<in> snd ` set (tr_operations t) \<and> dr_state r = ''COMPLETED'') \<and>
       expected_positions t \<subseteq> dr_position ` set current \<and>
       (\<exists>r \<in> set current. of_int (pf_minimum_minutes profile) \<le> operation_duration s (dr_operation r)))"
proof -
  have same: "y = t" if "y \<in> set (ds_trains s)" "tr_id y = tid" for y
    using find_unique_id [OF assms(1) that] find_unique_id [OF assms(1-3)] by simp
  have found: "find (\<lambda>t. tr_id t = tid) (ds_trains s) = Some t"
    by (rule find_unique_id [OF assms(1-3)])
  obtain current where cur: "finished_cycle t (filter (\<lambda>r. dr_train r = tid) rows) = Some current"
    using assms(4-6) same by (auto simp: update_one_coverage_trains found split: option.splits)
  let ?d = "Max (set (map (\<lambda>r. operation_duration s (dr_operation r)) current))"
  let ?status = "coverage_status profile current ?d"
  have "ds_trains (update_one_coverage profile rows s tid) =
      map (\<lambda>x. if tr_id x = tid then booked t ?status ?d current x else x) (ds_trains s)"
    by (simp add: update_one_coverage_trains found cur Let_def)
  then obtain y where "y \<in> set (ds_trains s)" "x = (if tr_id y = tid then booked t ?status ?d current y else y)"
    using assms(4) by auto
  then have "x = booked t ?status ?d current y" using assms(5) by (metis (full_types))
  then have x: "tr_coverage x = ?status" "tr_operations x = []"
      "tr_covered_rounds x = tr_covered_rounds t + (if ?status = ''COVERED'' then 1 else 0)"
    by simp_all
  have covered: "coverage_status profile current ?d = ''COVERED''"
    using assms(6) x(3) by (auto split: if_splits)
  then have all: "list_all (\<lambda>r. dr_state r = ''COMPLETED'') current" "of_int (pf_minimum_minutes profile) \<le> ?d"
    by (auto simp: coverage_status_def split: if_splits)
  let ?cur = "filter (\<lambda>r. dr_operation r \<in> snd ` set (tr_operations t)) (filter (\<lambda>r. dr_train r = tid) rows)"
  have c3: "current = ?cur" and c1: "?cur \<noteq> []" and c2: "expected_positions t \<subseteq> dr_position ` set ?cur"
    using cur unfolding finished_cycle_def Let_def by (auto simp only: split: if_splits)
  note c = c1 [folded c3] c2 [folded c3] c3
  have sub: "set current \<subseteq> set rows" "\<forall>r \<in> set current. dr_operation r \<in> snd ` set (tr_operations t)"
    unfolding c(3) by simp_all
  have "?d \<in> set (map (\<lambda>r. operation_duration s (dr_operation r)) current)"
    using c(1) by (intro Max_in) auto
  then have "\<exists>r \<in> set current. of_int (pf_minimum_minutes profile) \<le> operation_duration s (dr_operation r)"
    using all(2) by (metis (no_types, lifting) imageE list.set_map)
  moreover have "\<forall>r \<in> set current. dr_state r = ''COMPLETED''" using all(1) by (simp add: list_all_iff)
  ultimately show ?thesis
    using x covered c(1,2) sub by (intro conjI exI [of _ current]) simp_all
qed


definition collected_train :: Train where
  "collected_train = sample_train\<lparr>tr_coverage := ''COLLECTING'', tr_operations := [(''A'', ''op-1'')]\<rparr>"

definition completed_row :: DeepRow where
  "completed_row = (started_row ''t0'' ''T1'' sample_endpoint sample_operation)\<lparr>dr_state := ''COMPLETED''\<rparr>"

definition collected_scheduler :: DeepScheduler where
  "collected_scheduler = sample_scheduler\<lparr>ds_trains := [collected_train], ds_rows := [completed_row],
     ds_ops := [sample_operation\<lparr>op_phase := TERMINAL, op_duration := 12\<rparr>]\<rparr>"

theorem coverage_needs_evidence_witness:
  "\<exists>x. ds_trains (update_one_coverage sample_profile [completed_row] collected_scheduler ''T1'') = [x] \<and>
     tr_covered_rounds x = 1 \<and> tr_coverage x = ''COVERED''"
proof -
  let ?s = "update_one_coverage sample_profile [completed_row] collected_scheduler ''T1''"
  have trains: "ds_trains collected_scheduler = [collected_train]" by (simp add: collected_scheduler_def)
  have t: "tr_id collected_train = ''T1''" "tr_covered_rounds collected_train = 0"
    by (simp_all add: collected_train_def sample_train_def)
  have "map tr_covered_rounds (ds_trains ?s) = [1]" "map tr_id (ds_trains ?s) = [''T1'']" by code_simp+
  then obtain x where x: "ds_trains ?s = [x]" "tr_covered_rounds x = 1" "tr_id x = ''T1''" by auto
  have "tr_coverage x = ''COVERED''"
    using coverage_needs_evidence [of collected_scheduler collected_train "''T1''" x sample_profile "[completed_row]"]
      trains t x by simp
  with x show ?thesis by simp
qed

end
