(* ===== verification/Schedule_Window.thy ===== *)
theory Schedule_Window
  imports NC_Texts
begin

text \<open>
  \<^verbatim>\<open>services/ground_unattended/schedule.py\<close>: the daily window of the unattended runs. All datetimes
  of the function carry the same zone object, so Python compares and adds them on the wall clock; a
  datetime is its wall-clock microsecond counted from the beginning of day 0, a date its day number.
  The zone database and the conversion of the current time to the zone are the argument \<open>to_local\<close>,
  which answers nothing for a name that is no zone.
\<close>

section \<open>Clock and window\<close>

definition MINUTE :: int where
  "MINUTE = 60 * 1000000"

definition DAY :: int where
  "DAY = 24 * 60 * MINUTE"

record ScheduleWindow =
  sw_active :: bool
  sw_run_date :: int
  sw_current :: "(int \<times> int) option"
  sw_next_start :: int
  sw_next_end :: int

text \<open>\<open>strptime(value, "%H:%M")\<close>: one or two digits each, at most 23 and 59; the result is in minutes.\<close>

definition clock_field :: "nat \<Rightarrow> string \<Rightarrow> nat option" where
  "clock_field bound s =
     (if isdigit s \<and> length s \<le> 2 \<and> nat_of_digits s \<le> bound then Some (nat_of_digits s) else None)"

definition parse_clock :: "string \<Rightarrow> int result" where
  "parse_clock s =
     (case split_on (CHR '':'') s of
        [h, mi] \<Rightarrow>
          (case (clock_field 23 h, clock_field 59 mi) of
             (Some a, Some b) \<Rightarrow> Inr (60 * int a + int b)
           | _ \<Rightarrow> Inl (ValueError msg_bad_clock))
      | _ \<Rightarrow> Inl (ValueError msg_bad_clock))"

definition resolve_timezone :: "(string \<Rightarrow> int option) \<Rightarrow> string \<Rightarrow> int result" where
  "resolve_timezone to_local value =
     (let name = strip (if value \<noteq> [] then value else ''system'');
          key = (if casefold name = ''system'' then ''system'' else name) in
      case to_local key of Some now \<Rightarrow> Inr now | None \<Rightarrow> Inl (ValueError msg_bad_timezone))"

definition window_of :: "int \<Rightarrow> int \<Rightarrow> int \<Rightarrow> ScheduleWindow" where
  "window_of local_now start_clock end_clock =
     (let today = local_now div DAY;
          start_today = today * DAY + start_clock * MINUTE;
          end_today = today * DAY + end_clock * MINUTE in
      if \<not> end_clock < start_clock
      then (if start_today \<le> local_now \<and> local_now < end_today
            then \<lparr>sw_active = True, sw_run_date = today, sw_current = Some (start_today, end_today),
                  sw_next_start = start_today + DAY, sw_next_end = end_today\<rparr>
            else if local_now < start_today
            then \<lparr>sw_active = False, sw_run_date = today, sw_current = None,
                  sw_next_start = start_today, sw_next_end = end_today\<rparr>
            else \<lparr>sw_active = False, sw_run_date = (start_today + DAY) div DAY, sw_current = None,
                  sw_next_start = start_today + DAY, sw_next_end = end_today + DAY\<rparr>)
      else (let current =
              (if start_today \<le> local_now then Some (start_today, end_today + DAY)
               else if local_now < end_today then Some (start_today - DAY, end_today)
               else None) in
            case current of
              Some (cs, ce) \<Rightarrow>
                \<lparr>sw_active = True, sw_run_date = cs div DAY, sw_current = current,
                 sw_next_start = cs + DAY, sw_next_end = ce\<rparr>
            | None \<Rightarrow>
                \<lparr>sw_active = False, sw_run_date = today, sw_current = None,
                 sw_next_start = start_today, sw_next_end = end_today + DAY\<rparr>))"

definition schedule_window ::
  "(string \<Rightarrow> int option) \<Rightarrow> string \<Rightarrow> string \<Rightarrow> string \<Rightarrow> ScheduleWindow result" where
  "schedule_window to_local start_time end_time timezone =
     (case resolve_timezone to_local timezone of
        Inl e \<Rightarrow> Inl e
      | Inr local_now \<Rightarrow>
          (case parse_clock start_time of
             Inl e \<Rightarrow> Inl e
           | Inr a \<Rightarrow>
               (case parse_clock end_time of
                  Inl e \<Rightarrow> Inl e
                | Inr b \<Rightarrow>
                    (if a = b then Inl (ValueError msg_same_clock)
                     else Inr (window_of local_now a b)))))"

section \<open>The windows of the calendar\<close>

text \<open>The window that begins on day \<open>d\<close>.\<close>

definition day_window :: "int \<Rightarrow> int \<Rightarrow> int \<Rightarrow> int \<times> int" where
  "day_window a b d =
     (d * DAY + a * MINUTE, (if a < b then d else d + 1) * DAY + b * MINUTE)"

definition clock_ok :: "int \<Rightarrow> bool" where
  "clock_ok a \<longleftrightarrow> 0 \<le> a \<and> a < 24 * 60"

lemma clock_field_bound: "clock_field n s = Some k \<Longrightarrow> k \<le> n"
  by (auto simp: clock_field_def split: if_splits)

lemma parse_clock_ok: "parse_clock s = Inr a \<Longrightarrow> clock_ok a"
  by (auto simp: parse_clock_def clock_ok_def split: list.splits option.splits dest!: clock_field_bound)

lemma clock_in_day: "clock_ok a \<Longrightarrow> 0 \<le> a * MINUTE \<and> a * MINUTE < DAY"
  by (simp add: clock_ok_def MINUTE_def DAY_def)

section \<open>Specification\<close>

lemma DAY_MINUTE: "DAY = 86400000000" "MINUTE = 60000000"
  by (simp_all add: DAY_def MINUTE_def)

text \<open>The least element above \<open>now\<close> of the sequence of the daily points \<open>f\<close>.\<close>

definition next_point :: "(int \<Rightarrow> int) \<Rightarrow> int \<Rightarrow> int \<Rightarrow> bool" where
  "next_point f now x \<longleftrightarrow> now < x \<and> (\<exists>d. x = f d) \<and> (\<forall>d. now < f d \<longrightarrow> x \<le> f d)"

lemma next_point_step:
  assumes "\<And>d. f d = d * DAY + c" and "now < k * DAY + c" and "k * DAY + c - DAY \<le> now"
  shows "next_point f now (k * DAY + c)"
proof -
  have "k * DAY + c \<le> d * DAY + c" if "now < d * DAY + c" for d
  proof -
    have "(k - 1) * DAY < d * DAY" using that assms(3) by (simp add: algebra_simps)
    then have "k - 1 < d" by (simp add: DAY_MINUTE)
    then show ?thesis by (simp add: DAY_MINUTE)
  qed
  then show ?thesis using assms(1,2) by (auto simp: next_point_def)
qed

lemma day_window_start: "fst (day_window a b d) = d * DAY + a * MINUTE"
  by (simp add: day_window_def)

lemma day_window_end:
  "snd (day_window a b d) = d * DAY + (b * MINUTE + (if a < b then 0 else DAY))"
  by (simp add: day_window_def algebra_simps)

text \<open>What the function promises about the windows of the calendar.\<close>

definition window_spec :: "int \<Rightarrow> int \<Rightarrow> int \<Rightarrow> ScheduleWindow \<Rightarrow> bool" where
  "window_spec a b now w \<longleftrightarrow>
     (sw_active w \<longleftrightarrow> (\<exists>d. fst (day_window a b d) \<le> now \<and> now < snd (day_window a b d))) \<and>
     sw_current w = (if sw_active w then Some (day_window a b (sw_run_date w)) else None) \<and>
     (sw_active w \<longrightarrow> fst (day_window a b (sw_run_date w)) \<le> now \<and> now < snd (day_window a b (sw_run_date w))) \<and>
     (\<not> sw_active w \<longrightarrow> fst (day_window a b (sw_run_date w)) = sw_next_start w) \<and>
     next_point (\<lambda>d. fst (day_window a b d)) now (sw_next_start w) \<and>
     next_point (\<lambda>d. snd (day_window a b d)) now (sw_next_end w)"

lemma day_window_shift:
  "fst (day_window a b (d + k)) = fst (day_window a b d) + k * DAY"
  "snd (day_window a b (d + k)) = snd (day_window a b d) + k * DAY"
  by (simp_all add: day_window_def algebra_simps)

lemma window_length:
  "clock_ok a \<Longrightarrow> clock_ok b \<Longrightarrow> a \<noteq> b \<Longrightarrow>
   fst (day_window a b d) < snd (day_window a b d) \<and> snd (day_window a b d) \<le> fst (day_window a b d) + DAY"
  by (auto simp: day_window_def clock_ok_def DAY_MINUTE)

lemma next_start_point:
  assumes "fst (day_window a b d) \<le> now" and "now < fst (day_window a b d) + DAY"
  shows "next_point (\<lambda>d. fst (day_window a b d)) now (fst (day_window a b d) + DAY)"
  using next_point_step [of "\<lambda>d. fst (day_window a b d)" "a * MINUTE" now "d + 1"] assms
  by (simp add: day_window_start algebra_simps)

lemma next_end_point:
  assumes "snd (day_window a b d) - DAY \<le> now" and "now < snd (day_window a b d)"
  shows "next_point (\<lambda>d. snd (day_window a b d)) now (snd (day_window a b d))"
  using next_point_step [of "\<lambda>d. snd (day_window a b d)" "b * MINUTE + (if a < b then 0 else DAY)" now d] assms
  by (simp add: day_window_end)

lemma window_active_spec:
  assumes "clock_ok a" and "clock_ok b" and "a \<noteq> b"
    and d: "fst (day_window a b d) \<le> now" "now < snd (day_window a b d)"
  shows "window_spec a b now
    \<lparr>sw_active = True, sw_run_date = d, sw_current = Some (day_window a b d),
     sw_next_start = fst (day_window a b d) + DAY, sw_next_end = snd (day_window a b d)\<rparr>"
proof -
  have len: "snd (day_window a b d) \<le> fst (day_window a b d) + DAY"
    using window_length [OF assms(1-3)] by blast
  have "next_point (\<lambda>d. fst (day_window a b d)) now (fst (day_window a b d) + DAY)"
    using d len by (intro next_start_point) auto
  moreover have "next_point (\<lambda>d. snd (day_window a b d)) now (snd (day_window a b d))"
    using d len by (intro next_end_point) auto
  ultimately show ?thesis using d by (auto simp: window_spec_def)
qed

lemma window_inactive_spec:
  assumes "clock_ok a" and "clock_ok b" and "a \<noteq> b"
    and d: "snd (day_window a b d) - DAY \<le> now" "now < fst (day_window a b d)"
  shows "window_spec a b now
    \<lparr>sw_active = False, sw_run_date = d, sw_current = None,
     sw_next_start = fst (day_window a b d), sw_next_end = snd (day_window a b d)\<rparr>"
proof -
  have len: "fst (day_window a b d) < snd (day_window a b d)"
    "snd (day_window a b d) \<le> fst (day_window a b d) + DAY"
    using window_length [OF assms(1-3)] by blast+
  have "next_point (\<lambda>d. fst (day_window a b d)) now (fst (day_window a b d))"
    using next_start_point [of a b "d - 1" now] d len day_window_shift [of a b d "- 1"] by simp
  moreover have "next_point (\<lambda>d. snd (day_window a b d)) now (snd (day_window a b d))"
    using d len by (intro next_end_point) auto
  moreover have "\<not> (fst (day_window a b e) \<le> now \<and> now < snd (day_window a b e))" for e
  proof (cases "e \<le> d - 1")
    case True
    then have "snd (day_window a b e) \<le> snd (day_window a b d) - DAY"
      by (simp add: day_window_end DAY_MINUTE)
    with d show ?thesis by linarith
  next
    case False
    then have "fst (day_window a b d) \<le> fst (day_window a b e)"
      by (simp add: day_window_start DAY_MINUTE)
    with d show ?thesis by linarith
  qed
  ultimately show ?thesis by (auto simp: window_spec_def)
qed

lemma div_DAY: "0 \<le> x \<Longrightarrow> x < DAY \<Longrightarrow> (k * DAY + x) div DAY = k"
  by (simp add: DAY_MINUTE)

lemma window_of_spec:
  assumes a: "clock_ok a" and b: "clock_ok b" and ab: "a \<noteq> b"
  shows "window_spec a b now (window_of now a b)"
proof -
  define q where "q = now div DAY"
  let ?S = "q * DAY + a * MINUTE" and ?E = "q * DAY + b * MINUTE"
  have now: "q * DAY \<le> now" "now < q * DAY + DAY" by (simp_all add: q_def DAY_MINUTE)
  have A: "0 \<le> a * MINUTE" "a * MINUTE < DAY" and B: "0 \<le> b * MINUTE" "b * MINUTE < DAY"
    using clock_in_day a b by auto
  have runs: "?S div DAY = q" "(?S + DAY) div DAY = q + 1" "(?S - DAY) div DAY = q - 1"
    using div_DAY [OF A, of q] div_DAY [OF A, of "q + 1"] div_DAY [OF A, of "q - 1"]
    by (simp_all add: algebra_simps)
  show ?thesis
  proof (cases "a < b")
    case True
    then have dw: "day_window a b q = (?S, ?E)" "day_window a b (q + 1) = (?S + DAY, ?E + DAY)"
      by (simp_all add: day_window_def algebra_simps)
    have "window_of now a b =
      (if ?S \<le> now \<and> now < ?E
       then \<lparr>sw_active = True, sw_run_date = q, sw_current = Some (?S, ?E), sw_next_start = ?S + DAY, sw_next_end = ?E\<rparr>
       else if now < ?S
       then \<lparr>sw_active = False, sw_run_date = q, sw_current = None, sw_next_start = ?S, sw_next_end = ?E\<rparr>
       else \<lparr>sw_active = False, sw_run_date = q + 1, sw_current = None, sw_next_start = ?S + DAY, sw_next_end = ?E + DAY\<rparr>)"
      using True by (simp add: window_of_def Let_def runs flip: q_def)
    then show ?thesis
      using window_active_spec [OF a b ab, of q now] window_inactive_spec [OF a b ab, of q now]
        window_inactive_spec [OF a b ab, of "q + 1" now] now A B dw by auto
  next
    case False
    then have dw: "day_window a b q = (?S, ?E + DAY)" "day_window a b (q - 1) = (?S - DAY, ?E)"
      by (simp_all add: day_window_def algebra_simps)
    have "window_of now a b =
      (if ?S \<le> now
       then \<lparr>sw_active = True, sw_run_date = q, sw_current = Some (?S, ?E + DAY), sw_next_start = ?S + DAY, sw_next_end = ?E + DAY\<rparr>
       else if now < ?E
       then \<lparr>sw_active = True, sw_run_date = q - 1, sw_current = Some (?S - DAY, ?E), sw_next_start = ?S - DAY + DAY, sw_next_end = ?E\<rparr>
       else \<lparr>sw_active = False, sw_run_date = q, sw_current = None, sw_next_start = ?S, sw_next_end = ?E + DAY\<rparr>)"
      using False ab by (simp add: window_of_def Let_def runs flip: q_def)
    then show ?thesis
      using window_active_spec [OF a b ab, of q now] window_active_spec [OF a b ab, of "q - 1" now]
        window_inactive_spec [OF a b ab, of q now] now A B dw by auto
  qed
qed


end
