(* ===== verification/Recent_History.thy ===== *)
theory Recent_History
  imports NC_Prelude "HOL-Library.List_Lexorder" "HOL-Library.Char_ord" "HOL-Library.Product_Lexorder"
begin

text \<open>
  \<^verbatim>\<open>core/storage/current_history_retention.py\<close>: bounded change-only history tables. A table is its
  rows with the next value of its autoincrement key; the identity columns of a row are one list of
  texts. Selecting with \<^verbatim>\<open>ORDER BY changed_at DESC, id DESC\<close> orders by the bytes of the text and
  then by the key. The JSON encoder (sorted keys, compact), its variant with \<open>default=str\<close>, the
  decoder and SHA-256 are the argument \<open>Codec\<close>; the current time is the argument \<open>now\<close>, where an
  empty text stands for no time given and \<open>clock\<close> is the text of the clock then.
\<close>

section \<open>State\<close>

record Codec =
  cd_dumps :: "pyval \<Rightarrow> string"
  cd_dumps_default :: "pyval \<Rightarrow> string"
  cd_loads :: "string \<Rightarrow> pyval option"
  cd_sha256 :: "string \<Rightarrow> string"

record RecentRow =
  rr_id :: nat
  rr_key :: "string list"
  rr_payload_json :: string
  rr_state_json :: string
  rr_fingerprint :: string
  rr_previous_state_json :: string
  rr_changed_at :: string
  rr_change_kind :: string
  rr_created_at :: string

record RecentTable =
  rt_rows :: "RecentRow list"
  rt_next :: nat

record StationRow =
  st_site :: string
  st_payload_json :: string
  st_state_json :: string
  st_fingerprint :: string
  st_first_seen_at :: string
  st_last_seen_at :: string
  st_changed_at :: string
  st_created_at :: string
  st_updated_at :: string

record RetentionDb =
  rd_tables :: "string \<Rightarrow> RecentTable"
  rd_meta :: "string \<Rightarrow> (string \<times> string) list"
  rd_stations :: "StationRow list"

definition MAX_RECENT_PER_RESOURCE :: nat where
  "MAX_RECENT_PER_RESOURCE = 10"

definition RETENTION_AUTHORITY :: string where
  "RETENTION_AUTHORITY = ''bounded_v1''"

definition COMMON_IGNORED_FIELDS :: "string list" where
  "COMMON_IGNORED_FIELDS =
     [''id'', ''created_at'', ''updated_at'', ''collected_at'', ''collect_run_uuid'',
      ''raw_log_path'', ''changed_at'', ''first_seen_at'', ''last_seen_at'', ''site_name'',
      ''lldp_collected_at'', ''optical_collected_at'', ''source_revision'',
      ''previous_state_json'', ''state_json'', ''state_fingerprint'', ''change_kind'',
      ''payload_json'']"

definition DEVICE_FACT_IGNORED_FIELDS :: "string list" where
  "DEVICE_FACT_IGNORED_FIELDS = COMMON_IGNORED_FIELDS @ [''uptime'']"

section \<open>Canonical states\<close>

fun json_value :: "pyval \<Rightarrow> pyval" where
  "json_value (PDict d) = PDict (sort_key fst (map (\<lambda>kv. (fst kv, json_value (snd kv))) d))"
| "json_value (PList xs) = PList (map json_value xs)"
| "json_value v = v"

definition canonical_state :: "string list \<Rightarrow> pydict \<Rightarrow> pydict" where
  "canonical_state ignored payload =
     map (\<lambda>(k, v). (k, json_value v))
       (filter (\<lambda>(k, v). k \<notin> set COMMON_IGNORED_FIELDS \<union> set ignored) (sort_key fst payload))"

definition canonical_state_json :: "Codec \<Rightarrow> string list \<Rightarrow> pydict \<Rightarrow> string" where
  "canonical_state_json cd ignored payload = cd_dumps cd (PDict (canonical_state ignored payload))"

definition state_fingerprint :: "Codec \<Rightarrow> string list \<Rightarrow> pydict \<Rightarrow> string" where
  "state_fingerprint cd ignored payload = cd_sha256 cd (canonical_state_json cd ignored payload)"

definition payload_json :: "Codec \<Rightarrow> pydict \<Rightarrow> string" where
  "payload_json cd payload = cd_dumps_default cd (json_value (PDict payload))"

definition decode_payload :: "Codec \<Rightarrow> pydict \<Rightarrow> pydict" where
  "decode_payload cd row =
     (let v = (case cd_loads cd (py_str (py_or (dget row ''payload_json'') (PStr [CHR 0x7B, CHR 0x7D]))) of
                 Some x \<Rightarrow> x | None \<Rightarrow> PDict []);
          p = dict_of v;
          p = dsetdefault ''collected_at'' (dget row ''collected_at'') p;
          p = dsetdefault ''created_at'' (dget row ''created_at'') p;
          p = dput ''state_json'' (py_or (dget row ''state_json'')
                (py_or (dget p ''state_json'') (PStr [CHR 0x7B, CHR 0x7D]))) p;
          p = dput ''state_fingerprint'' (py_or (dget row ''state_fingerprint'')
                (py_or (dget p ''state_fingerprint'') (PStr []))) p;
          p = dput ''changed_at'' (py_or (dget row ''changed_at'') (dget p ''changed_at'')) p;
          p = dput ''change_kind'' (py_or (dget row ''change_kind'')
                (py_or (dget p ''change_kind'') (PStr ''change''))) p
      in if dget row ''id'' \<noteq> PNone then dput ''id'' (dget row ''id'') p else p)"

section \<open>Recording a change\<close>

definition set_authority :: "string \<Rightarrow> string \<Rightarrow> RetentionDb \<Rightarrow> RetentionDb" where
  "set_authority table model db =
     db\<lparr>rd_meta := (rd_meta db)(table :=
        AList.update ''model'' model (AList.update ''authority'' RETENTION_AUTHORITY (rd_meta db table)))\<rparr>"

text \<open>\<open>ORDER BY changed_at DESC, id DESC\<close>.\<close>

definition recent_order :: "RecentRow list \<Rightarrow> RecentRow list" where
  "recent_order rows = rev (sort_key (\<lambda>r. (rr_changed_at r, rr_id r)) rows)"

definition rows_of :: "string list \<Rightarrow> RecentTable \<Rightarrow> RecentRow list" where
  "rows_of key t = filter (\<lambda>r. rr_key r = key) (rt_rows t)"

definition latest_recent :: "string list \<Rightarrow> RecentTable \<Rightarrow> RecentRow option" where
  "latest_recent key t =
     (case recent_order (rows_of key t) of [] \<Rightarrow> None | r # _ \<Rightarrow> Some r)"

definition trim_recent :: "string list \<Rightarrow> RecentTable \<Rightarrow> RecentTable" where
  "trim_recent key t =
     (let stale = map rr_id (drop MAX_RECENT_PER_RESOURCE (recent_order (rows_of key t))) in
      t\<lparr>rt_rows := filter (\<lambda>r. rr_id r \<notin> set stale) (rt_rows t)\<rparr>)"

definition insert_recent :: "RecentRow \<Rightarrow> RecentTable \<Rightarrow> RecentTable" where
  "insert_recent r t = t\<lparr>rt_rows := rt_rows t @ [r\<lparr>rr_id := rt_next t\<rparr>], rt_next := Suc (rt_next t)\<rparr>"

text \<open>The state a payload is compared with: fingerprint, JSON text and whether there was none.\<close>

definition previous_state ::
  "Codec \<Rightarrow> string list \<Rightarrow> string list \<Rightarrow> pydict option \<Rightarrow> RecentTable \<Rightarrow> string \<times> string \<times> bool" where
  "previous_state cd ignored key previous t =
     (case previous of
        Some p \<Rightarrow> (state_fingerprint cd ignored p, canonical_state_json cd ignored p, False)
      | None \<Rightarrow>
          (case latest_recent key t of
             None \<Rightarrow> ([], canonical_state_json cd ignored [], True)
           | Some r \<Rightarrow>
               (strip (rr_fingerprint r),
                if strip (rr_state_json r) \<noteq> [] then strip (rr_state_json r) else [CHR 0x7B, CHR 0x7D],
                False)))"

definition recent_row ::
  "Codec \<Rightarrow> string list \<Rightarrow> string list \<Rightarrow> pydict \<Rightarrow> string \<Rightarrow> bool \<Rightarrow> string \<Rightarrow> RecentRow" where
  "recent_row cd ignored key payload prev_json initial now =
     \<lparr>rr_id = 0, rr_key = key, rr_payload_json = payload_json cd payload,
      rr_state_json = canonical_state_json cd ignored payload,
      rr_fingerprint = state_fingerprint cd ignored payload,
      rr_previous_state_json = prev_json,
      rr_changed_at = (if text_of (dget payload ''collected_at'') \<noteq> []
                       then text_of (dget payload ''collected_at'') else now),
      rr_change_kind = (if initial then ''initial'' else ''change''), rr_created_at = now\<rparr>"

definition record_recent ::
  "Codec \<Rightarrow> string \<Rightarrow> string list \<Rightarrow> string list \<Rightarrow> pydict \<Rightarrow> pydict option \<Rightarrow> string \<Rightarrow> RetentionDb \<Rightarrow>
   bool \<times> RetentionDb" where
  "record_recent cd table key ignored payload previous now db =
     (let t = rd_tables db table;
          (prev_fingerprint, prev_json, initial) = previous_state cd ignored key previous t in
      if prev_fingerprint = state_fingerprint cd ignored payload then (False, db)
      else (True,
            db\<lparr>rd_tables := (rd_tables db)(table :=
              trim_recent key (insert_recent (recent_row cd ignored key payload prev_json initial now) t))\<rparr>))"

section \<open>The recorded resources\<close>

definition or_clock :: "string \<Rightarrow> string \<Rightarrow> string" where
  "or_clock now clock = (if now \<noteq> [] then now else clock)"

definition record_device_fact_change ::
  "Codec \<Rightarrow> string \<Rightarrow> pydict \<Rightarrow> pydict option \<Rightarrow> string \<Rightarrow> RetentionDb \<Rightarrow> bool \<times> RetentionDb" where
  "record_device_fact_change cd clock payload previous now db =
     (let db1 = set_authority ''device_fact_retention_meta'' ''device_fact'' db;
          uuid = text_of (dget payload ''device_uuid'') in
      if uuid = [] then (False, db1)
      else record_recent cd ''device_fact_recent'' [uuid] DEVICE_FACT_IGNORED_FIELDS
             (dmerge payload [(''device_uuid'', PStr uuid)]) previous (or_clock now clock) db1)"

definition record_fit_ap_resource_change ::
  "Codec \<Rightarrow> string \<Rightarrow> pydict \<Rightarrow> pydict option \<Rightarrow> string \<Rightarrow> RetentionDb \<Rightarrow> bool \<times> RetentionDb" where
  "record_fit_ap_resource_change cd clock payload previous now db =
     (let ac = text_of (dget payload ''ac_device_uuid''); ap = text_of (dget payload ''ap_uuid'') in
      if ac = [] \<or> ap = [] then (False, db)
      else record_recent cd ''fit_ap_resource_recent'' [ac, ap] []
             (dmerge payload [(''ac_device_uuid'', PStr ac), (''ap_uuid'', PStr ap)]) previous
             (or_clock now clock)
             (set_authority ''fit_ap_resource_retention_meta'' ''fit_ap_resource'' db))"

fun identity_key_from :: "string list \<Rightarrow> pydict \<Rightarrow> string" where
  "identity_key_from [] payload = []"
| "identity_key_from (f # fs) payload =
     (let v = text_of (dget payload f) in
      if v \<noteq> [] then f @ '':'' @ casefold v else identity_key_from fs payload)"

definition unauthenticated_identity_key :: "pydict \<Rightarrow> string" where
  "unauthenticated_identity_key payload =
     identity_key_from [''inferred_ap_mac'', ''serial_number'', ''apid'', ''ap_name''] payload"

definition record_fit_ap_unauthenticated_change ::
  "Codec \<Rightarrow> string \<Rightarrow> pydict \<Rightarrow> pydict option \<Rightarrow> string \<Rightarrow> string \<Rightarrow> RetentionDb \<Rightarrow> bool \<times> RetentionDb" where
  "record_fit_ap_unauthenticated_change cd clock payload previous identity_key now db =
     (let ac = text_of (dget payload ''ac_device_uuid'');
          ik = (if strip identity_key \<noteq> [] then strip identity_key
                else unauthenticated_identity_key payload) in
      if ac = [] \<or> ik = [] then (False, db)
      else record_recent cd ''fit_ap_unauthenticated_recent'' [ac, ik] []
             (dmerge payload [(''ac_device_uuid'', PStr ac), (''identity_key'', PStr ik)]) previous
             (or_clock now clock)
             (set_authority ''fit_ap_unauthenticated_retention_meta'' ''fit_ap_unauthenticated'' db))"

definition station_payload :: "pydict \<Rightarrow> string \<Rightarrow> pydict result" where
  "station_payload row collected_at =
     (case py_int (py_or (dget row ''total'') (py_or (dget row ''ap_total'') (PInt 0))) of
        Inl e \<Rightarrow> Inl e
      | Inr total_aps \<Rightarrow>
     (case py_int (py_or (dget row ''online'') (py_or (dget row ''online_count'') (PInt 0))) of
        Inl e \<Rightarrow> Inl e
      | Inr online \<Rightarrow>
     (case py_int (py_or (dget row ''offline'') (py_or (dget row ''offline_count'') (PInt 0))) of
        Inl e \<Rightarrow> Inl e
      | Inr offline \<Rightarrow>
          (let or_collected = (\<lambda>k. let t = text_of (dget row k) in if t \<noteq> [] then t else collected_at) in
           Inr [(''site_name'', PStr (text_of (py_or (dget row ''site'') (dget row ''site_name'')))),
                (''ap_total'', PInt total_aps), (''online_count'', PInt online),
                (''offline_count'', PInt offline), (''online_rate'', PStr (text_of (dget row ''online_rate''))),
                (''remark'', PStr (text_of (dget row ''remark''))),
                (''collected_at'', PStr (or_collected ''collected_at'')),
                (''updated_at'', PStr (or_collected ''updated_at''))]))))"

definition station_columns :: "StationRow \<Rightarrow> pydict" where
  "station_columns r =
     [(''site_name'', PStr (st_site r)), (''payload_json'', PStr (st_payload_json r)),
      (''state_json'', PStr (st_state_json r)), (''state_fingerprint'', PStr (st_fingerprint r)),
      (''first_seen_at'', PStr (st_first_seen_at r)), (''last_seen_at'', PStr (st_last_seen_at r)),
      (''changed_at'', PStr (st_changed_at r)), (''created_at'', PStr (st_created_at r)),
      (''updated_at'', PStr (st_updated_at r))]"

text \<open>The upsert keeps the site, first sighting and creation time of an existing row.\<close>

definition upsert_station :: "StationRow \<Rightarrow> StationRow list \<Rightarrow> StationRow list" where
  "upsert_station r rows =
     (if st_site r \<in> st_site ` set rows
      then map (\<lambda>x. if st_site x = st_site r
                    then r\<lparr>st_first_seen_at := st_first_seen_at x, st_created_at := st_created_at x\<rparr>
                    else x) rows
      else rows @ [r])"

definition station_changed :: "Codec \<Rightarrow> pydict option \<Rightarrow> pydict \<Rightarrow> bool" where
  "station_changed cd previous payload =
     (case previous of None \<Rightarrow> True
      | Some p \<Rightarrow> state_fingerprint cd [] p \<noteq> state_fingerprint cd [] payload)"

definition station_row :: "Codec \<Rightarrow> pydict \<Rightarrow> pydict option \<Rightarrow> string \<Rightarrow> StationRow" where
  "station_row cd payload previous timestamp =
     (let collected = text_of (dget payload ''collected_at'');
          from_previous = (\<lambda>k fallback. case previous of Some p \<Rightarrow> text_of (dget p k) | None \<Rightarrow> fallback) in
      \<lparr>st_site = text_of (dget payload ''site_name''), st_payload_json = payload_json cd payload,
       st_state_json = canonical_state_json cd [] payload,
       st_fingerprint = state_fingerprint cd [] payload,
       st_first_seen_at = from_previous ''first_seen_at'' collected,
       st_last_seen_at = collected,
       st_changed_at = (if station_changed cd previous payload then collected
                        else from_previous ''changed_at'' collected),
       st_created_at = from_previous ''created_at'' timestamp,
       st_updated_at = timestamp\<rparr>)"

definition upsert_station_online_summary ::
  "Codec \<Rightarrow> string \<Rightarrow> pydict \<Rightarrow> string \<Rightarrow> string \<Rightarrow> RetentionDb \<Rightarrow> (bool \<times> RetentionDb) result" where
  "upsert_station_online_summary cd clock row collected_at now db =
     (let timestamp = or_clock now clock in
      case station_payload row (if collected_at \<noteq> [] then collected_at else timestamp) of
        Inl e \<Rightarrow> Inl e
      | Inr payload \<Rightarrow>
          (let site = text_of (dget payload ''site_name'') in
           if site = [] then Inr (False, db)
           else (let db1 = set_authority ''station_online_summary_retention_meta'' ''station_online_summary'' db;
                     previous = map_option (\<lambda>r. decode_payload cd (station_columns r))
                                  (find (\<lambda>r. st_site r = site) (rd_stations db1));
                     db2 = db1\<lparr>rd_stations :=
                             upsert_station (station_row cd payload previous timestamp) (rd_stations db1)\<rparr>
                 in if \<not> station_changed cd previous payload then Inr (False, db2)
                    else Inr (record_recent cd ''station_online_summary_recent'' [site] []
                                payload previous timestamp db2))))"

section \<open>Listing\<close>

definition recent_columns :: "string list \<Rightarrow> RecentRow \<Rightarrow> pydict" where
  "recent_columns identity_fields r =
     [(''id'', PInt (int (rr_id r)))] @ zip identity_fields (map PStr (rr_key r)) @
     [(''payload_json'', PStr (rr_payload_json r)), (''state_json'', PStr (rr_state_json r)),
      (''state_fingerprint'', PStr (rr_fingerprint r)),
      (''previous_state_json'', PStr (rr_previous_state_json r)),
      (''changed_at'', PStr (rr_changed_at r)), (''change_kind'', PStr (rr_change_kind r)),
      (''created_at'', PStr (rr_created_at r))]"

definition clamp :: "int \<Rightarrow> int \<Rightarrow> int \<Rightarrow> int" where
  "clamp lo hi x = max lo (min x hi)"

definition list_device_fact_recent :: "Codec \<Rightarrow> string \<Rightarrow> int \<Rightarrow> RetentionDb \<Rightarrow> pydict list" where
  "list_device_fact_recent cd uuid limit db =
     map (\<lambda>r. decode_payload cd (recent_columns [''device_uuid''] r))
       (take (nat (clamp 1 (int MAX_RECENT_PER_RESOURCE) limit))
         (recent_order (rows_of [strip uuid] (rd_tables db ''device_fact_recent''))))"

text \<open>The AP listings filter by the first identity column when a controller is given.\<close>

definition list_by_first :: "Codec \<Rightarrow> string list \<Rightarrow> string \<Rightarrow> string \<Rightarrow> int \<Rightarrow> RetentionDb \<Rightarrow> pydict list" where
  "list_by_first cd identity_fields table ac limit db =
     map (\<lambda>r. decode_payload cd (recent_columns identity_fields r))
       (take (nat (clamp 1 100000 limit))
         (recent_order (filter (\<lambda>r. ac \<noteq> [] \<longrightarrow> hd (rr_key r) = strip ac) (rt_rows (rd_tables db table)))))"

definition list_fit_ap_resource_recent :: "Codec \<Rightarrow> string \<Rightarrow> int \<Rightarrow> RetentionDb \<Rightarrow> pydict list" where
  "list_fit_ap_resource_recent cd = list_by_first cd [''ac_device_uuid'', ''ap_uuid''] ''fit_ap_resource_recent''"

definition list_fit_ap_unauthenticated_recent :: "Codec \<Rightarrow> string \<Rightarrow> int \<Rightarrow> RetentionDb \<Rightarrow> pydict list" where
  "list_fit_ap_unauthenticated_recent cd =
     list_by_first cd [''ac_device_uuid'', ''identity_key''] ''fit_ap_unauthenticated_recent''"

definition station_rows :: "string \<Rightarrow> RetentionDb \<Rightarrow> RecentRow list" where
  "station_rows site db =
     filter (\<lambda>r. site \<noteq> [] \<longrightarrow> rr_key r = [strip site]) (rt_rows (rd_tables db ''station_online_summary_recent''))"

definition list_station_online_summary_recent ::
  "Codec \<Rightarrow> string \<Rightarrow> int \<Rightarrow> int \<Rightarrow> RetentionDb \<Rightarrow> pydict list" where
  "list_station_online_summary_recent cd site limit offset db =
     map (\<lambda>r. decode_payload cd (recent_columns [''site_name''] r))
       (take (nat (max 1 limit)) (drop (nat (max 0 offset)) (recent_order (station_rows site db))))"

definition count_station_online_summary_recent :: "string \<Rightarrow> RetentionDb \<Rightarrow> nat" where
  "count_station_online_summary_recent site db = length (station_rows site db)"

section \<open>Only the newest changes are kept\<close>

definition table_ok :: "RecentTable \<Rightarrow> bool" where
  "table_ok t \<longleftrightarrow>
     distinct (map rr_id (rt_rows t)) \<and> (\<forall>r \<in> set (rt_rows t). rr_id r < rt_next t) \<and>
     (\<forall>key. length (rows_of key t) \<le> MAX_RECENT_PER_RESOURCE)"

lemma recent_order_filter: "recent_order (filter P rows) = filter P (recent_order rows)"
  by (metis recent_order_def filter_sort rev_filter)

lemma set_recent_order [simp]: "set (recent_order rows) = set rows"
  by (simp add: recent_order_def)

lemma length_recent_order [simp]: "length (recent_order rows) = length rows"
  by (simp add: recent_order_def)

lemma distinct_recent_order:
  "distinct (map rr_id rows) \<Longrightarrow> distinct (map rr_id (recent_order rows))"
  by (simp add: recent_order_def distinct_map)

lemma filter_not_in_drop:
  assumes "distinct (map f xs)"
  shows "filter (\<lambda>x. f x \<notin> set (map f (drop n xs))) xs = take n xs"
proof -
  have d: "set (map f (take n xs)) \<inter> set (map f (drop n xs)) = {}"
    using assms by (metis append_take_drop_id distinct_append map_append)
  have "filter (\<lambda>x. f x \<notin> set (map f (drop n xs))) (take n xs @ drop n xs) = take n xs"
    unfolding filter_append using d
    by (auto simp: filter_id_conv filter_empty_conv simp del: append_take_drop_id)
  then show ?thesis by simp
qed

lemma rows_of_trim:
  assumes "distinct (map rr_id (rt_rows t))"
  shows "recent_order (rows_of key (trim_recent key t)) =
      take MAX_RECENT_PER_RESOURCE (recent_order (rows_of key t))"
    and "key' \<noteq> key \<Longrightarrow> rows_of key' (trim_recent key t) = rows_of key' t"
proof -
  let ?R = "recent_order (rows_of key t)"
  let ?stale = "set (map rr_id (drop MAX_RECENT_PER_RESOURCE ?R))"
  have rows: "rt_rows (trim_recent key t) = filter (\<lambda>r. rr_id r \<notin> ?stale) (rt_rows t)"
    by (simp add: trim_recent_def Let_def)
  have "distinct (map rr_id (rows_of key t))"
    using assms by (simp add: rows_of_def distinct_map_filter)
  then have "filter (\<lambda>r. rr_id r \<notin> ?stale) ?R = take MAX_RECENT_PER_RESOURCE ?R"
    by (intro filter_not_in_drop distinct_recent_order)
  moreover have "rows_of key (trim_recent key t) = filter (\<lambda>r. rr_id r \<notin> ?stale) (rows_of key t)"
    unfolding rows_of_def rows filter_filter by (rule filter_cong) auto
  ultimately show "recent_order (rows_of key (trim_recent key t)) = take MAX_RECENT_PER_RESOURCE ?R"
    by (simp only: recent_order_filter)
  assume ne: "key' \<noteq> key"
  have "rr_id r \<notin> ?stale" if r: "r \<in> set (rt_rows t)" "rr_key r = key'" for r
  proof
    assume "rr_id r \<in> ?stale"
    then obtain x where x: "x \<in> set ?R" "rr_id x = rr_id r"
      by (auto dest: in_set_dropD)
    then have "x \<in> set (rt_rows t)" "rr_key x = key" by (auto simp: rows_of_def)
    with x r have "x = r" using assms by (meson eq_key_imp_eq_value distinct_map inj_onD)
    with \<open>rr_key x = key\<close> r ne show False by simp
  qed
  then show "rows_of key' (trim_recent key t) = rows_of key' t"
    unfolding rows_of_def rows filter_filter by (intro filter_cong) auto
qed

lemma rows_of_insert:
  "rows_of key (insert_recent r t) = rows_of key t @ (if rr_key r = key then [r\<lparr>rr_id := rt_next t\<rparr>] else [])"
  by (simp add: rows_of_def insert_recent_def)

lemma insert_recent_ids:
  "table_ok t \<Longrightarrow> distinct (map rr_id (rt_rows (insert_recent r t))) \<and>
     (\<forall>x \<in> set (rt_rows (insert_recent r t)). rr_id x < rt_next (insert_recent r t))"
  by (auto simp: insert_recent_def table_ok_def less_Suc_eq)

lemma table_ok_record:
  assumes ok: "table_ok t" and r: "rr_key r = key"
  shows "table_ok (trim_recent key (insert_recent r t))"
proof -
  let ?t = "insert_recent r t"
  have ids: "distinct (map rr_id (rt_rows ?t))" "\<forall>x \<in> set (rt_rows ?t). rr_id x < rt_next ?t"
    using insert_recent_ids [OF ok] by auto
  have "length (rows_of k (trim_recent key ?t)) \<le> MAX_RECENT_PER_RESOURCE" for k
  proof (cases "k = key")
    case True
    have "length (recent_order (rows_of key (trim_recent key ?t))) \<le> MAX_RECENT_PER_RESOURCE"
      by (simp add: rows_of_trim(1) [OF ids(1)] del: length_recent_order)
    with True show ?thesis by simp
  next
    case False
    then show ?thesis
      using ok r by (simp add: rows_of_trim(2) [OF ids(1)] rows_of_insert table_ok_def)
  qed
  moreover have "distinct (map rr_id (rt_rows (trim_recent key ?t)))"
    using ids(1) by (simp add: trim_recent_def Let_def distinct_map_filter)
  moreover have "\<forall>x \<in> set (rt_rows (trim_recent key ?t)). rr_id x < rt_next (trim_recent key ?t)"
    using ids(2) by (auto simp: trim_recent_def Let_def)
  ultimately show ?thesis by (simp add: table_ok_def)
qed


text \<open>
  Recording a change of one resource: the answer is true exactly when the fingerprint differs
  from the one compared with; otherwise nothing is written. After a change the resource holds the ten
  newest of its former rows and the new one, in the order of their times and then of their keys, the
  other resources and tables are untouched, and the table invariant (distinct keys below the next
  key, at most ten rows per resource) is kept.
\<close>

theorem record_recent_newest:
  assumes "table_ok (rd_tables db table)"
  shows "let t = rd_tables db table;
      (prev_fingerprint, prev_json, initial) = previous_state cd ignored key previous t;
      row = (recent_row cd ignored key payload prev_json initial now)\<lparr>rr_id := rt_next t\<rparr>;
      (changed, db') = record_recent cd table key ignored payload previous now db
    in (changed \<longleftrightarrow> prev_fingerprint \<noteq> state_fingerprint cd ignored payload) \<and>
       (if changed
        then recent_order (rows_of key (rd_tables db' table)) =
               take MAX_RECENT_PER_RESOURCE (recent_order (rows_of key t @ [row])) \<and>
             (\<forall>k. k \<noteq> key \<longrightarrow> rows_of k (rd_tables db' table) = rows_of k t) \<and>
             (\<forall>x. x \<noteq> table \<longrightarrow> rd_tables db' x = rd_tables db x) \<and>
             rd_meta db' = rd_meta db \<and> rd_stations db' = rd_stations db
        else db' = db) \<and>
       table_ok (rd_tables db' table)"
proof -
  let ?t = "rd_tables db table"
  obtain pf pj ini where p: "previous_state cd ignored key previous ?t = (pf, pj, ini)"
    by (metis prod_cases3)
  let ?r = "recent_row cd ignored key payload pj ini now"
  have key: "rr_key ?r = key" by (simp add: recent_row_def)
  have ids: "distinct (map rr_id (rt_rows (insert_recent ?r ?t)))"
    using insert_recent_ids [OF assms] by simp
  show ?thesis
    using assms table_ok_record [OF assms key]
    by (auto simp: record_recent_def p rows_of_trim [OF ids] rows_of_insert key)
qed

definition empty_table :: RecentTable where
  "empty_table = \<lparr>rt_rows = [], rt_next = 1\<rparr>"

definition empty_retention :: RetentionDb where
  "empty_retention = \<lparr>rd_tables = (\<lambda>_. empty_table), rd_meta = (\<lambda>_. []), rd_stations = []\<rparr>"

definition sample_codec :: Codec where
  "sample_codec = \<lparr>cd_dumps = py_str, cd_dumps_default = py_str, cd_loads = (\<lambda>_. None), cd_sha256 = (\<lambda>s. s)\<rparr>"

lemma table_ok_empty: "table_ok empty_table"
  by (simp add: table_ok_def empty_table_def rows_of_def)

theorem record_recent_newest_witness:
  "let (changed, db') = record_recent sample_codec ''device_fact_recent'' [''d1''] [] [(''model'', PStr ''S5130'')]
         None ''2026-01-01'' empty_retention
   in changed \<and> table_ok (rd_tables db' ''device_fact_recent'') \<and>
      map rr_change_kind (rows_of [''d1''] (rd_tables db' ''device_fact_recent'')) = [''initial'']"
proof -
  let ?r = "record_recent sample_codec ''device_fact_recent'' [''d1''] [] [(''model'', PStr ''S5130'')]
         None ''2026-01-01'' empty_retention"
  have ok: "table_ok (rd_tables empty_retention ''device_fact_recent'')"
    by (simp add: empty_retention_def table_ok_empty)
  have "table_ok (rd_tables (snd ?r) ''device_fact_recent'')"
    using record_recent_newest [OF ok, of sample_codec "[]" "[''d1'']" None "[(''model'', PStr ''S5130'')]" "''2026-01-01''"]
    by (simp add: Let_def split: prod.splits)
  moreover have "fst ?r" "map rr_change_kind (rows_of [''d1''] (rd_tables (snd ?r) ''device_fact_recent'')) = [''initial'']"
    by code_simp+
  ultimately show ?thesis by (simp add: Let_def case_prod_beta)
qed

section \<open>Every recording operation keeps the tables bounded\<close>

definition db_ok :: "RetentionDb \<Rightarrow> bool" where
  "db_ok db \<longleftrightarrow> (\<forall>x. table_ok (rd_tables db x)) \<and> distinct (map st_site (rd_stations db))"

inductive retention_step :: "Codec \<Rightarrow> RetentionDb \<Rightarrow> RetentionDb \<Rightarrow> bool" for cd where
  device_fact: "retention_step cd db (snd (record_device_fact_change cd clock payload previous now db))"
| fit_ap: "retention_step cd db (snd (record_fit_ap_resource_change cd clock payload previous now db))"
| unauthenticated:
    "retention_step cd db (snd (record_fit_ap_unauthenticated_change cd clock payload previous ik now db))"
| station: "upsert_station_online_summary cd clock row collected_at now db = Inr (changed, db') \<Longrightarrow>
    retention_step cd db db'"

inductive_cases retention_stepE: "retention_step cd db db'"

inductive retention_reach :: "Codec \<Rightarrow> RetentionDb \<Rightarrow> bool" for cd where
  initially: "retention_reach cd empty_retention"
| further: "retention_reach cd db \<Longrightarrow> retention_step cd db db' \<Longrightarrow> retention_reach cd db'"

lemma set_authority_tables [simp]:
  "rd_tables (set_authority table model db) = rd_tables db"
  "rd_stations (set_authority table model db) = rd_stations db"
  by (simp_all add: set_authority_def)

lemma db_ok_authority [simp]: "db_ok (set_authority table model db) = db_ok db"
  by (simp add: db_ok_def)

lemma db_ok_record:
  assumes "db_ok db"
  shows "db_ok (snd (record_recent cd table key ignored payload previous now db))"
proof -
  obtain pf pj ini where p: "previous_state cd ignored key previous (rd_tables db table) = (pf, pj, ini)"
    by (metis prod_cases3)
  have "rr_key (recent_row cd ignored key payload pj ini now) = key" by (simp add: recent_row_def)
  then have "table_ok (trim_recent key (insert_recent (recent_row cd ignored key payload pj ini now) (rd_tables db table)))"
    using assms by (intro table_ok_record) (simp_all add: db_ok_def)
  then show ?thesis using assms by (simp add: record_recent_def p db_ok_def)
qed

lemma distinct_upsert_station:
  assumes "distinct (map st_site rows)"
  shows "distinct (map st_site (upsert_station r rows))"
proof -
  have "map st_site (map (\<lambda>x. if st_site x = st_site r
      then r\<lparr>st_first_seen_at := st_first_seen_at x, st_created_at := st_created_at x\<rparr> else x) rows) = map st_site rows"
    by auto
  then show ?thesis using assms by (auto simp: upsert_station_def simp del: map_map)
qed

lemma db_ok_station:
  assumes "db_ok db" and "upsert_station_online_summary cd clock row collected_at now db = Inr (changed, db')"
  shows "db_ok db'"
proof -
  let ?D = "\<lambda>r. (set_authority ''station_online_summary_retention_meta'' ''station_online_summary'' db)
      \<lparr>rd_stations := upsert_station r (rd_stations db)\<rparr>"
  have st: "db_ok (?D r)" for r
    using assms(1) by (simp add: db_ok_def distinct_upsert_station)
  obtain payload where payload: "station_payload row (if collected_at \<noteq> [] then collected_at else or_clock now clock) = Inr payload"
    using assms(2) by (auto simp: upsert_station_online_summary_def Let_def split: sum.splits)
  show ?thesis
  proof (cases "text_of (dget payload ''site_name'') = []")
    case True
    then show ?thesis using assms by (simp add: upsert_station_online_summary_def Let_def payload)
  next
    case False
    let ?site = "text_of (dget payload ''site_name'')"
    let ?prev = "map_option (\<lambda>r. decode_payload cd (station_columns r)) (find (\<lambda>r. st_site r = ?site) (rd_stations db))"
    let ?db = "?D (station_row cd payload ?prev (or_clock now clock))"
    have "db' = (if station_changed cd ?prev payload
        then snd (record_recent cd ''station_online_summary_recent'' [?site] [] payload ?prev (or_clock now clock) ?db)
        else ?db)"
      using assms(2) False by (auto simp: upsert_station_online_summary_def Let_def payload split: if_splits)
    then show ?thesis using st db_ok_record [OF st] by simp
  qed
qed

lemma retention_step_ok: "retention_step cd db db' \<Longrightarrow> db_ok db \<Longrightarrow> db_ok db'"
proof (induction rule: retention_step.induct)
  case (station clock row collected_at now db changed db')
  then show ?case using db_ok_station by blast
qed (auto simp: record_device_fact_change_def record_fit_ap_resource_change_def
    record_fit_ap_unauthenticated_change_def Let_def intro!: db_ok_record)

text \<open>
  C37. However device facts, AP resources, unauthenticated APs and station summaries are recorded,
  in any order, every history table holds at most ten rows of a resource under distinct keys, and
  every station has at most one current row.
\<close>

theorem retention_bounded: "retention_reach cd db \<Longrightarrow> db_ok db"
proof (induction rule: retention_reach.induct)
  case initially
  then show ?case by (simp add: db_ok_def empty_retention_def table_ok_empty)
next
  case (further db db')
  then show ?case using retention_step_ok by blast
qed


theorem retention_bounded_witness:
  "db_ok (snd (record_device_fact_change sample_codec [] [(''device_uuid'', PStr ''d1'')] None ''2026-01-01''
     empty_retention))"
  by (rule retention_bounded [OF retention_reach.further [OF retention_reach.initially retention_step.device_fact]])

end
