(* ===== verification/Shutdown_Manager.thy ===== *)
theory Shutdown_Manager
  imports NC_Prelude
begin

text \<open>
  \<^verbatim>\<open>core/shutdown_manager.py\<close>: the registry of tasks and processes that takes part in the shutdown
  of the application. Task and process objects live in a world of any type; \<open>World\<close> holds what the
  manager calls on them: asking whether a task runs (\<open>None\<close> when the call raises), requesting its
  stop, waiting for it (\<open>None\<close> when the wait raises), polling, terminating, killing and waiting for a
  process, and the monotonic clock in milliseconds. A task is registered under its name; its number
  is the identity of the object. Log output is left out.
\<close>

section \<open>State\<close>

datatype proc_kind = internal_tool | internal_task | external_tool

datatype shutdown_policy = terminate_policy | ignore_policy

record ManagedTask =
  mt_name :: string
  mt_object :: nat

record ProcessHandle =
  ph_name :: string
  ph_pid :: int
  ph_kind :: proc_kind
  ph_policy :: shutdown_policy

record ShutdownManager =
  sm_tasks :: "(string \<times> ManagedTask) list"
  sm_processes :: "(int \<times> ProcessHandle) list"
  sm_shutting_down :: bool
  sm_reason :: string

record ShutdownSnapshot =
  ss_shutting_down :: bool
  ss_reason :: string
  ss_task_count :: nat
  ss_process_count :: nat
  ss_external_process_count :: nat

record 'w World =
  w_clock :: "'w \<Rightarrow> int"
  w_task_running :: "ManagedTask \<Rightarrow> 'w \<Rightarrow> bool option"
  w_task_stop :: "ManagedTask \<Rightarrow> 'w \<Rightarrow> 'w"
  w_task_wait :: "ManagedTask \<Rightarrow> int \<Rightarrow> 'w \<Rightarrow> bool option \<times> 'w"
  w_proc_running :: "int \<Rightarrow> 'w \<Rightarrow> bool"
  w_proc_terminate :: "int \<Rightarrow> 'w \<Rightarrow> 'w"
  w_proc_kill :: "int \<Rightarrow> 'w \<Rightarrow> 'w option"
  w_proc_wait :: "int \<Rightarrow> int \<Rightarrow> 'w \<Rightarrow> bool \<times> 'w"

definition new_manager :: ShutdownManager where
  "new_manager = \<lparr>sm_tasks = [], sm_processes = [], sm_shutting_down = False, sm_reason = []\<rparr>"

section \<open>Registration\<close>

definition request_exit :: "string \<Rightarrow> ShutdownManager \<Rightarrow> bool \<times> ShutdownManager" where
  "request_exit why m =
     (if sm_shutting_down m then (False, m)
      else (True, m\<lparr>sm_shutting_down := True, sm_reason := why\<rparr>))"

definition is_shutting_down :: "ShutdownManager \<Rightarrow> bool" where
  "is_shutting_down m = sm_shutting_down m"

definition reset_for_tests :: "ShutdownManager \<Rightarrow> ShutdownManager" where
  "reset_for_tests m = m\<lparr>sm_tasks := [], sm_processes := [], sm_shutting_down := False, sm_reason := []\<rparr>"

definition register_task :: "ManagedTask \<Rightarrow> bool \<Rightarrow> ShutdownManager \<Rightarrow> bool \<times> ShutdownManager" where
  "register_task t allow_during_shutdown m =
     (if sm_shutting_down m \<and> \<not> allow_during_shutdown then (False, m)
      else (True, m\<lparr>sm_tasks := AList.update (mt_name t) t (sm_tasks m)\<rparr>))"

definition unregister_task :: "string \<Rightarrow> ShutdownManager \<Rightarrow> ShutdownManager" where
  "unregister_task name m = m\<lparr>sm_tasks := filter (\<lambda>(k, _). k \<noteq> name) (sm_tasks m)\<rparr>"

text \<open>The answer is the handle, or none when the process is rejected and terminated.\<close>

definition register_process ::
  "'w World \<Rightarrow> ProcessHandle \<Rightarrow> ShutdownManager \<times> 'w \<Rightarrow> ProcessHandle option \<times> ShutdownManager \<times> 'w" where
  "register_process W h mw =
     (case mw of (m, w) \<Rightarrow>
       (let registered = m\<lparr>sm_processes := AList.update (ph_pid h) h (sm_processes m)\<rparr> in
        if ph_policy h = ignore_policy then (Some h, registered, w)
        else if sm_shutting_down m
        then (None, m, if w_proc_running W (ph_pid h) w then w_proc_terminate W (ph_pid h) w else w)
        else (Some h, registered, w)))"

definition unregister_process :: "int \<Rightarrow> ShutdownManager \<Rightarrow> ShutdownManager" where
  "unregister_process pid m = m\<lparr>sm_processes := filter (\<lambda>(k, _). k \<noteq> pid) (sm_processes m)\<rparr>"

section \<open>Observation\<close>

definition task_running :: "'w World \<Rightarrow> 'w \<Rightarrow> ManagedTask \<Rightarrow> bool" where
  "task_running W w t = (case w_task_running W t w of Some b \<Rightarrow> b | None \<Rightarrow> True)"

definition task_list :: "ShutdownManager \<Rightarrow> ManagedTask list" where
  "task_list m = map snd (sm_tasks m)"

definition process_list :: "ShutdownManager \<Rightarrow> ProcessHandle list" where
  "process_list m = filter (\<lambda>h. ph_policy h = terminate_policy) (map snd (sm_processes m))"

definition snapshot :: "'w World \<Rightarrow> ShutdownManager \<times> 'w \<Rightarrow> ShutdownSnapshot" where
  "snapshot W mw =
     (case mw of (m, w) \<Rightarrow>
       \<lparr>ss_shutting_down = sm_shutting_down m, ss_reason = sm_reason m,
        ss_task_count = length (filter (task_running W w) (task_list m)),
        ss_process_count = length (filter (\<lambda>h. w_proc_running W (ph_pid h) w) (process_list m)),
        ss_external_process_count =
          length (filter (\<lambda>h. ph_policy h = ignore_policy \<and> w_proc_running W (ph_pid h) w)
            (map snd (sm_processes m)))\<rparr>)"

section \<open>Stopping\<close>

definition request_stop_tasks :: "'w World \<Rightarrow> ShutdownManager \<times> 'w \<Rightarrow> ShutdownManager \<times> 'w" where
  "request_stop_tasks W mw = (case mw of (m, w) \<Rightarrow> (m, fold (w_task_stop W) (task_list m) w))"

text \<open>The pass over a list of tasks; the result says whether some task still runs.\<close>

fun wait_tasks :: "'w World \<Rightarrow> int \<Rightarrow> ManagedTask list \<Rightarrow> ShutdownManager \<times> 'w \<Rightarrow> bool \<times> ShutdownManager \<times> 'w" where
  "wait_tasks W timeout [] mw = (False, mw)"
| "wait_tasks W timeout (t # ts) mw =
     (case mw of (m, w) \<Rightarrow>
       (if \<not> task_running W w t then wait_tasks W timeout ts (unregister_task (mt_name t) m, w)
        else (case w_task_wait W t timeout w of
                (Some False, w') \<Rightarrow> (True, snd (wait_tasks W timeout ts (m, w')))
              | (_, w') \<Rightarrow> wait_tasks W timeout ts (unregister_task (mt_name t) m, w'))))"

definition wait_tasks_once :: "'w World \<Rightarrow> int \<Rightarrow> ShutdownManager \<times> 'w \<Rightarrow> bool \<times> ShutdownManager \<times> 'w" where
  "wait_tasks_once W timeout mw =
     (let (remaining, mw') = wait_tasks W timeout (task_list (fst mw)) mw in (\<not> remaining, mw'))"

definition terminate_processes :: "'w World \<Rightarrow> ShutdownManager \<times> 'w \<Rightarrow> ShutdownManager \<times> 'w" where
  "terminate_processes W mw =
     (case mw of (m, w) \<Rightarrow>
       (m, fold (\<lambda>h w. if w_proc_running W (ph_pid h) w then w_proc_terminate W (ph_pid h) w else w)
             (process_list m) w))"

fun wait_processes ::
  "'w World \<Rightarrow> int \<Rightarrow> ProcessHandle list \<Rightarrow> ShutdownManager \<times> 'w \<Rightarrow> bool \<times> ShutdownManager \<times> 'w" where
  "wait_processes W timeout [] mw = (False, mw)"
| "wait_processes W timeout (h # hs) mw =
     (case mw of (m, w) \<Rightarrow>
       (if \<not> w_proc_running W (ph_pid h) w
        then wait_processes W timeout hs (unregister_process (ph_pid h) m, w)
        else (case w_proc_wait W (ph_pid h) timeout w of
                (True, w') \<Rightarrow> wait_processes W timeout hs (unregister_process (ph_pid h) m, w')
              | (False, w') \<Rightarrow> (True, snd (wait_processes W timeout hs (m, w'))))))"

definition wait_processes_once ::
  "'w World \<Rightarrow> int \<Rightarrow> ShutdownManager \<times> 'w \<Rightarrow> bool \<times> ShutdownManager \<times> 'w" where
  "wait_processes_once W timeout mw =
     (let (remaining, mw') = wait_processes W timeout (process_list (fst mw)) mw in (\<not> remaining, mw'))"

text \<open>A kill that raises leaves the process registered.\<close>

fun kill_each :: "'w World \<Rightarrow> ProcessHandle list \<Rightarrow> ShutdownManager \<times> 'w \<Rightarrow> ShutdownManager \<times> 'w" where
  "kill_each W [] mw = mw"
| "kill_each W (h # hs) mw =
     (case mw of (m, w) \<Rightarrow>
       (if w_proc_running W (ph_pid h) w
        then (case w_proc_kill W (ph_pid h) w of
                Some w' \<Rightarrow> kill_each W hs (unregister_process (ph_pid h) m, snd (w_proc_wait W (ph_pid h) 500 w'))
              | None \<Rightarrow> kill_each W hs (m, w))
        else kill_each W hs (unregister_process (ph_pid h) m, w)))"

definition kill_processes :: "'w World \<Rightarrow> ShutdownManager \<times> 'w \<Rightarrow> ShutdownManager \<times> 'w" where
  "kill_processes W mw = kill_each W (process_list (fst mw)) mw"

text \<open>
  The two polling loops; \<open>None\<close> means that the fuel ran out before the loop ended. The first ends
  when a pass leaves no task or at the deadline, the second answers whether it ended before it.
\<close>

fun task_loop :: "'w World \<Rightarrow> nat \<Rightarrow> int \<Rightarrow> ShutdownManager \<times> 'w \<Rightarrow> (ShutdownManager \<times> 'w) option" where
  "task_loop W fuel deadline mw =
     (if deadline \<le> w_clock W (snd mw) then Some mw
      else (case fuel of
              0 \<Rightarrow> None
            | Suc n \<Rightarrow>
                (let (finished, mw') = wait_tasks_once W 50 mw in
                 if finished then Some mw' else task_loop W n deadline mw')))"

fun process_loop ::
  "'w World \<Rightarrow> nat \<Rightarrow> int \<Rightarrow> ShutdownManager \<times> 'w \<Rightarrow> (bool \<times> ShutdownManager \<times> 'w) option" where
  "process_loop W fuel deadline mw =
     (if deadline \<le> w_clock W (snd mw) then Some (False, mw)
      else (case fuel of
              0 \<Rightarrow> None
            | Suc n \<Rightarrow>
                (let (finished, mw') = wait_processes_once W 50 mw in
                 if finished then Some (True, mw') else process_loop W n deadline mw')))"

declare task_loop.simps [simp del] process_loop.simps [simp del]

definition wait_for_shutdown ::
  "'w World \<Rightarrow> nat \<Rightarrow> int \<Rightarrow> ShutdownManager \<times> 'w \<Rightarrow> (bool \<times> ShutdownManager \<times> 'w) option" where
  "wait_for_shutdown W fuel timeout mw =
     (let mw1 = request_stop_tasks W mw;
          deadline = w_clock W (snd mw1) + max 0 timeout in
      case task_loop W fuel deadline mw1 of
        None \<Rightarrow> None
      | Some mw2 \<Rightarrow>
          (case process_loop W fuel deadline (terminate_processes W mw2) of
             None \<Rightarrow> None
           | Some (True, mw3) \<Rightarrow> Some (True, mw3)
           | Some (False, mw3) \<Rightarrow>
               Some (ss_task_count (snapshot W mw3) = 0 \<and> ss_process_count (snapshot W mw3) = 0, mw3)))"

section \<open>Progress of the polling loops\<close>

text \<open>
  What the wait relies on: no call turns the monotonic clock back, and a wait of 50 milliseconds
  that answers \<open>False\<close> has lasted that long.
\<close>

definition clock_runs :: "'w World \<Rightarrow> bool" where
  "clock_runs W =
     ((\<forall>t w. w_clock W w \<le> w_clock W (w_task_stop W t w)) \<and>
      (\<forall>p w. w_clock W w \<le> w_clock W (w_proc_terminate W p w)) \<and>
      (\<forall>t w. w_clock W w + (if fst (w_task_wait W t 50 w) = Some False then 50 else 0)
               \<le> w_clock W (snd (w_task_wait W t 50 w))) \<and>
      (\<forall>p w. w_clock W w + (if fst (w_proc_wait W p 50 w) then 0 else 50)
               \<le> w_clock W (snd (w_proc_wait W p 50 w))))"

text \<open>Every task and process is registered under its own key, as registering does.\<close>

definition keyed_registry :: "ShutdownManager \<Rightarrow> bool" where
  "keyed_registry m =
     (list_all (\<lambda>(k, t). k = mt_name t) (sm_tasks m) \<and> list_all (\<lambda>(k, h). k = ph_pid h) (sm_processes m))"

lemma list_all_alist_update:
  "list_all P xs \<Longrightarrow> P (k, v) \<Longrightarrow> list_all P (AList.update k v xs)"
  by (induction xs) auto

lemma register_task_keyed:
  "keyed_registry m \<Longrightarrow> keyed_registry (snd (register_task t a m))"
  by (simp add: keyed_registry_def register_task_def list_all_alist_update)

lemma register_process_keyed:
  "keyed_registry m \<Longrightarrow> keyed_registry (fst (snd (register_process W h (m, w))))"
  by (simp add: keyed_registry_def register_process_def list_all_alist_update Let_def)

lemma keyed_unregister [simp]:
  "keyed_registry m \<Longrightarrow> keyed_registry (unregister_task n m)"
  "keyed_registry m \<Longrightarrow> keyed_registry (unregister_process p m)"
  by (auto simp: keyed_registry_def unregister_task_def unregister_process_def list_all_iff)

lemma unregister_frame [simp]:
  "sm_processes (unregister_task n m) = sm_processes m"
  "sm_tasks (unregister_process p m) = sm_tasks m"
  by (simp_all add: unregister_task_def unregister_process_def)

lemma wait_tasks_frame:
  "sm_processes (fst (snd (wait_tasks W k ts mw))) = sm_processes (fst mw)"
  by (induction ts arbitrary: mw)
     (auto split: option.split bool.split simp: split_beta)

lemma wait_tasks_keyed:
  "keyed_registry (fst mw) \<Longrightarrow> keyed_registry (fst (snd (wait_tasks W k ts mw)))"
  by (induction ts arbitrary: mw)
     (auto split: option.split bool.split simp: split_beta)

lemma wait_processes_frame:
  "sm_tasks (fst (snd (wait_processes W k hs mw))) = sm_tasks (fst mw)"
  by (induction hs arbitrary: mw)
     (auto split: option.split bool.split simp: split_beta)

lemma wait_processes_keyed:
  "keyed_registry (fst mw) \<Longrightarrow> keyed_registry (fst (snd (wait_processes W k hs mw)))"
  by (induction hs arbitrary: mw)
     (auto split: option.split bool.split simp: split_beta)

text \<open>A pass that leaves nobody has removed every task it looked at.\<close>

lemma wait_tasks_removes:
  "\<not> fst (wait_tasks W k ts mw) \<Longrightarrow>
   sm_tasks (fst (snd (wait_tasks W k ts mw))) = filter (\<lambda>(n, _). n \<notin> mt_name ` set ts) (sm_tasks (fst mw))"
  by (induction ts arbitrary: mw)
     (auto split: option.splits bool.splits if_splits
           simp: split_beta unregister_task_def intro!: filter_cong)

lemma wait_processes_removes:
  "\<not> fst (wait_processes W k hs mw) \<Longrightarrow>
   sm_processes (fst (snd (wait_processes W k hs mw))) = filter (\<lambda>(p, _). p \<notin> ph_pid ` set hs) (sm_processes (fst mw))"
  by (induction hs arbitrary: mw)
     (auto split: option.splits bool.splits if_splits
           simp: split_beta unregister_process_def intro!: filter_cong)

lemma wait_tasks_clock:
  assumes "clock_runs W"
  shows "w_clock W (snd mw) + (if fst (wait_tasks W 50 ts mw) then 50 else 0) \<le> w_clock W (snd (snd (wait_tasks W 50 ts mw)))"
proof (induction ts arbitrary: mw)
  case (Cons t ts)
  obtain m w where mw: "mw = (m, w)" by (cases mw)
  obtain a w' where wt: "w_task_wait W t 50 w = (a, w')" by (cases "w_task_wait W t 50 w")
  have c: "w_clock W w + (if a = Some False then 50 else 0) \<le> w_clock W w'"
    using assms wt unfolding clock_runs_def by (metis fst_conv snd_conv)
  show ?case
    using c Cons.IH[of "(unregister_task (mt_name t) m, w)"] Cons.IH[of "(unregister_task (mt_name t) m, w')"]
      Cons.IH[of "(m, w')"]
    by (simp add: mw wt split: option.split bool.split if_splits)
qed simp

lemma wait_processes_clock:
  assumes "clock_runs W"
  shows "w_clock W (snd mw) + (if fst (wait_processes W 50 hs mw) then 50 else 0) \<le> w_clock W (snd (snd (wait_processes W 50 hs mw)))"
proof (induction hs arbitrary: mw)
  case (Cons h hs)
  obtain m w where mw: "mw = (m, w)" by (cases mw)
  obtain a w' where wt: "w_proc_wait W (ph_pid h) 50 w = (a, w')" by (cases "w_proc_wait W (ph_pid h) 50 w")
  have c: "w_clock W w + (if a then 0 else 50) \<le> w_clock W w'"
    using assms wt unfolding clock_runs_def by (metis fst_conv snd_conv)
  show ?case
    using c Cons.IH[of "(unregister_process (ph_pid h) m, w)"] Cons.IH[of "(unregister_process (ph_pid h) m, w')"]
      Cons.IH[of "(m, w')"]
    by (simp add: mw wt split: bool.split if_splits)
qed simp

lemma wait_tasks_once_done:
  assumes "wait_tasks_once W k mw = (True, mw')" and "keyed_registry (fst mw)"
  shows "sm_tasks (fst mw') = []"
proof -
  obtain m w where mw: "mw = (m, w)" by (cases mw)
  have "\<not> fst (wait_tasks W k (task_list m) mw)" "mw' = snd (wait_tasks W k (task_list m) mw)"
    using assms(1) by (auto simp: wait_tasks_once_def mw split: prod.splits)
  moreover have "filter (\<lambda>(n, _). n \<notin> mt_name ` set (task_list m)) (sm_tasks m) = []"
    using assms(2) by (auto simp: filter_empty_conv keyed_registry_def task_list_def list_all_iff mw) force
  ultimately show ?thesis by (simp add: wait_tasks_removes mw)
qed

lemma wait_processes_once_done:
  assumes "wait_processes_once W k mw = (True, mw')" and "keyed_registry (fst mw)"
  shows "process_list (fst mw') = []"
proof -
  obtain m w where mw: "mw = (m, w)" by (cases mw)
  have "\<not> fst (wait_processes W k (process_list m) mw)" "mw' = snd (wait_processes W k (process_list m) mw)"
    using assms(1) by (auto simp: wait_processes_once_def mw split: prod.splits)
  then have "sm_processes (fst mw') = filter (\<lambda>(p, _). p \<notin> ph_pid ` set (process_list m)) (sm_processes m)"
    by (simp add: wait_processes_removes mw)
  moreover have "ph_pid h \<in> ph_pid ` set (process_list m)"
    if "(p, h) \<in> set (sm_processes m)" "ph_policy h = terminate_policy" for p h
    using that by (force simp: process_list_def)
  moreover have "p = ph_pid h" if "(p, h) \<in> set (sm_processes m)" for p h
    using that assms(2) by (auto simp: keyed_registry_def list_all_iff mw)
  ultimately show ?thesis
    unfolding process_list_def[of "fst mw'"] by (simp add: filter_empty_conv) blast
qed

lemma task_loop_ends:
  assumes W: "clock_runs W"
  shows "keyed_registry (fst mw) \<Longrightarrow> deadline - w_clock W (snd mw) \<le> 50 * int fuel \<Longrightarrow>
    \<exists>mw'. task_loop W fuel deadline mw = Some mw' \<and> keyed_registry (fst mw') \<and>
      sm_processes (fst mw') = sm_processes (fst mw) \<and> w_clock W (snd mw) \<le> w_clock W (snd mw') \<and>
      (deadline \<le> w_clock W (snd mw') \<or> sm_tasks (fst mw') = [])"
proof (induction fuel arbitrary: mw)
  case 0
  then show ?case by (subst task_loop.simps) simp
next
  case (Suc n)
  obtain fin mw1 where p: "wait_tasks_once W 50 mw = (fin, mw1)" by (cases "wait_tasks_once W 50 mw")
  have eq: "mw1 = snd (wait_tasks W 50 (task_list (fst mw)) mw)" "fin = (\<not> fst (wait_tasks W 50 (task_list (fst mw)) mw))"
    using p by (auto simp: wait_tasks_once_def split: prod.splits)
  have c: "w_clock W (snd mw) + (if fin then 0 else 50) \<le> w_clock W (snd mw1)"
    using wait_tasks_clock[OF W, of mw "task_list (fst mw)"] by (simp add: eq split: if_splits)
  have k: "keyed_registry (fst mw1)" and f: "sm_processes (fst mw1) = sm_processes (fst mw)"
    using Suc.prems(1) by (simp_all add: eq wait_tasks_keyed wait_tasks_frame)
  show ?case
  proof (cases "deadline \<le> w_clock W (snd mw)")
    case True
    then show ?thesis using Suc.prems(1) by (subst task_loop.simps) simp
  next
    case False
    show ?thesis
    proof (cases fin)
      case True
      then have "sm_tasks (fst mw1) = []" using wait_tasks_once_done[of W 50 mw mw1] p Suc.prems(1) by simp
      then show ?thesis using False True k f c p by (subst task_loop.simps) simp
    next
      case F: False
      have "deadline - w_clock W (snd mw1) \<le> 50 * int n" using c F Suc.prems(2) by simp
      from Suc.IH[OF k this] show ?thesis using False F f c p by (subst task_loop.simps) auto
    qed
  qed
qed

lemma process_loop_ends:
  assumes W: "clock_runs W"
  shows "keyed_registry (fst mw) \<Longrightarrow> deadline - w_clock W (snd mw) \<le> 50 * int fuel \<Longrightarrow>
    \<exists>b mw'. process_loop W fuel deadline mw = Some (b, mw') \<and> sm_tasks (fst mw') = sm_tasks (fst mw) \<and>
      (b \<longrightarrow> w_clock W (snd mw) < deadline \<and> process_list (fst mw') = [])"
proof (induction fuel arbitrary: mw)
  case 0
  then show ?case by (subst process_loop.simps) (simp, blast)
next
  case (Suc n)
  obtain fin mw1 where p: "wait_processes_once W 50 mw = (fin, mw1)" by (cases "wait_processes_once W 50 mw")
  have eq: "mw1 = snd (wait_processes W 50 (process_list (fst mw)) mw)"
      "fin = (\<not> fst (wait_processes W 50 (process_list (fst mw)) mw))"
    using p by (auto simp: wait_processes_once_def split: prod.splits)
  have c: "w_clock W (snd mw) + (if fin then 0 else 50) \<le> w_clock W (snd mw1)"
    using wait_processes_clock[OF W, of mw "process_list (fst mw)"] by (simp add: eq split: if_splits)
  have k: "keyed_registry (fst mw1)" and f: "sm_tasks (fst mw1) = sm_tasks (fst mw)"
    using Suc.prems(1) by (simp_all add: eq wait_processes_keyed wait_processes_frame)
  show ?case
  proof (cases "deadline \<le> w_clock W (snd mw)")
    case True
    then show ?thesis by (subst process_loop.simps) (simp, blast)
  next
    case False
    show ?thesis
    proof (cases fin)
      case True
      then have "process_list (fst mw1) = []" using wait_processes_once_done[of W 50 mw mw1] p Suc.prems(1) by simp
      then show ?thesis using False True f p by (subst process_loop.simps) (simp, blast)
    next
      case F: False
      have "deadline - w_clock W (snd mw1) \<le> 50 * int n" using c F Suc.prems(2) by simp
      from Suc.IH[OF k this] show ?thesis using False F f p by (subst process_loop.simps) auto
    qed
  qed
qed

lemma fold_clock:
  assumes "\<And>x w. w_clock W w \<le> w_clock W (f x w)"
  shows "w_clock W w \<le> w_clock W (fold f xs w)"
  by (induction xs arbitrary: w) (auto intro: order_trans assms)

lemma request_stop_tasks_clock:
  "clock_runs W \<Longrightarrow> w_clock W (snd mw) \<le> w_clock W (snd (request_stop_tasks W mw))"
  by (simp add: request_stop_tasks_def split_beta clock_runs_def fold_clock)

lemma terminate_processes_clock:
  "clock_runs W \<Longrightarrow> w_clock W (snd mw) \<le> w_clock W (snd (terminate_processes W mw))"
  by (simp add: terminate_processes_def split_beta clock_runs_def fold_clock)

lemma stop_keeps_manager [simp]:
  "fst (request_stop_tasks W mw) = fst mw" "fst (terminate_processes W mw) = fst mw"
  by (simp_all add: request_stop_tasks_def terminate_processes_def split_beta)

lemma snapshot_counts:
  "sm_tasks (fst mw) = [] \<Longrightarrow> ss_task_count (snapshot W mw) = 0"
  "process_list (fst mw) = [] \<Longrightarrow> ss_process_count (snapshot W mw) = 0"
  by (simp_all add: snapshot_def task_list_def split_beta)

section \<open>The wait ends\<close>


text \<open>A world with one task that runs until 120 milliseconds have passed and one stubborn process.\<close>

definition demo_world :: "int World" where
  "demo_world =
     \<lparr>w_clock = id, w_task_running = (\<lambda>t w. Some (w < 120)), w_task_stop = (\<lambda>t w. w),
      w_task_wait = (\<lambda>t k w. if w + k < 120 then (Some False, w + k) else (Some True, max w 120)),
      w_proc_running = (\<lambda>p w. True), w_proc_terminate = (\<lambda>p w. w + 1), w_proc_kill = (\<lambda>p w. Some w),
      w_proc_wait = (\<lambda>p k w. (False, w + k))\<rparr>"

definition demo_manager :: ShutdownManager where
  "demo_manager =
     snd (register_task \<lparr>mt_name = ''poll'', mt_object = 1\<rparr> False
       (fst (snd (register_process demo_world
          \<lparr>ph_name = ''fping'', ph_pid = 7, ph_kind = internal_tool, ph_policy = terminate_policy\<rparr> (new_manager, 0)))))"


section \<open>Registration during a shutdown\<close>

lemma request_exit_once:
  "fst (request_exit r m) = (\<not> is_shutting_down m)"
  "is_shutting_down (snd (request_exit r m))"
  "\<not> fst (request_exit r' (snd (request_exit r m)))"
  by (simp_all add: request_exit_def is_shutting_down_def)

lemma no_registration_during_shutdown:
  assumes "is_shutting_down m"
  shows "register_task t False m = (False, m)"
    and "ph_policy h = terminate_policy \<Longrightarrow> fst (register_process W h (m, w)) = None"
    and "ph_policy h = terminate_policy \<Longrightarrow> fst (snd (register_process W h (m, w))) = m"
  using assms by (simp_all add: register_task_def register_process_def is_shutting_down_def)

text \<open>Killing leaves the entries of all other processes alone.\<close>

lemma kill_each_keeps_others:
  "(p, h) \<in> set (sm_processes (fst mw)) \<Longrightarrow> p \<notin> ph_pid ` set hs \<Longrightarrow>
   (p, h) \<in> set (sm_processes (fst (kill_each W hs mw)))"
  by (induction hs arbitrary: mw) (auto simp: split_beta unregister_process_def split: option.split)

end
