(* ===== verification/Command_Guard.thy ===== *)
theory Command_Guard
  imports NC_Prelude
begin

text \<open>
  \<^verbatim>\<open>services/command_guard.py\<close>: the guard that decides which commands may be sent to a device. The sets of
  the module are lists here, since only membership is used. The expressions of the guard have two
  shapes, which are written out: a keyword expression \<^verbatim>\<open>\bw1\s+w2\b\<close> is the list of its words, and
  an expression of a read-only command is its fixed text around at most one name. Word characters
  are those of ASCII, so the model is exact for commands of ASCII text. Log output is left out.
\<close>

section \<open>Tables\<close>

definition SAFE_DEVICE_COMMANDS :: "string list" where
  "SAFE_DEVICE_COMMANDS =
     [''screen-length d'', ''screen-length disable'',
      ''display current-configuration | include sysname'', ''display version'',
      ''display device'', ''display device manuinfo'', ''display boot-loader'',
      ''display interface'', ''display interface brief'', ''display transceiver interface'',
      ''display transceiver manuinfo interface'', ''display transceiver diagnosis interface'',
      ''display lldp neighbor-information list'', ''display lldp neighbor-information verbose'']"

definition DEVICE_INVENTORY_COLLECT_COMMAND_SEQUENCE :: "string list" where
  "DEVICE_INVENTORY_COLLECT_COMMAND_SEQUENCE =
     [''screen-length disable'', ''display current-configuration | include sysname'',
      ''display version'', ''display device'', ''display device manuinfo'',
      ''display boot-loader'', ''display interface'', ''display transceiver interface'',
      ''display transceiver manuinfo interface'', ''display transceiver diagnosis interface'',
      ''display lldp neighbor-information list'', ''display lldp neighbor-information verbose'']"

definition DEVICE_INVENTORY_MOBILE_ROUTER_COMMAND_SEQUENCE :: "string list" where
  "DEVICE_INVENTORY_MOBILE_ROUTER_COMMAND_SEQUENCE =
     [''screen-length disable'', ''display current-configuration | include sysname'',
      ''display version'', ''display device'', ''display device manuinfo'',
      ''display boot-loader'', ''display interface'']"

definition DEVICE_INVENTORY_ZTE_SWITCH_COMMAND_SEQUENCE :: "string list" where
  "DEVICE_INVENTORY_ZTE_SWITCH_COMMAND_SEQUENCE =
     [''show version'', ''show interface brief'', ''show running-config switchvlan'',
      ''show vlan'', ''show opticalinfo brief'', ''show lldp neighbor brief'',
      ''show lldp entry'']"

definition SAFE_DEVICE_INVENTORY_COLLECT_COMMANDS :: "string list" where
  "SAFE_DEVICE_INVENTORY_COLLECT_COMMANDS =
     DEVICE_INVENTORY_COLLECT_COMMAND_SEQUENCE @ DEVICE_INVENTORY_MOBILE_ROUTER_COMMAND_SEQUENCE @
     DEVICE_INVENTORY_ZTE_SWITCH_COMMAND_SEQUENCE"

definition SAFE_AC_COMMANDS :: "string list" where
  "SAFE_AC_COMMANDS =
     SAFE_DEVICE_COMMANDS @
     [''display wlan ap all'', ''display wlan ap all address'', ''display wlan ap all radio'',
      ''display wlan ap all radio verbose filter bbssid'',
      ''display wlan ap all connection-record'', ''display wlan ap all radio type'',
      ''display wlan ap unauthenticated'', ''display wlan ap all lldp'',
      ''display wlan ap all verbose'', ''display cpu-usage'', ''display memory'',
      ''display ip https | include port'', ''display ip https'']"

definition SAFE_AC_FIT_AP_RESOURCE_COLLECT_COMMANDS :: "string list" where
  "SAFE_AC_FIT_AP_RESOURCE_COLLECT_COMMANDS =
     [''screen-length disable'', ''display wlan ap all'', ''display wlan ap all address'',
      ''display wlan ap all radio'', ''display wlan ap all radio verbose filter bbssid'',
      ''display wlan ap all connection-record'', ''display wlan ap all radio type'',
      ''display wlan ap unauthenticated'', ''display wlan ap all lldp'']"

definition SAFE_AC_FIT_AP_DETAIL_COLLECT_COMMANDS :: "string list" where
  "SAFE_AC_FIT_AP_DETAIL_COLLECT_COMMANDS =
     [''screen-length disable'', ''display wlan ap all verbose'',
      ''display wlan ap all radio verbose filter bbssid'']"

definition SAFE_AC_FIT_AP_VERBOSE_ALL_COLLECT_COMMANDS :: "string list" where
  "SAFE_AC_FIT_AP_VERBOSE_ALL_COLLECT_COMMANDS =
     SAFE_AC_FIT_AP_DETAIL_COLLECT_COMMANDS"

definition SAFE_AC_FIT_AP_VERBOSE_SELECTED_COLLECT_COMMANDS :: "string list" where
  "SAFE_AC_FIT_AP_VERBOSE_SELECTED_COLLECT_COMMANDS =
     [''screen-length disable'']"

definition SAFE_AC_INFO_COLLECT_COMMANDS :: "string list" where
  "SAFE_AC_INFO_COLLECT_COMMANDS =
     [''screen-length disable'', ''display cpu-usage'', ''display memory'', ''display version'',
      ''display device'', ''display device manuinfo'', ''display ip https'',
      ''display ip https | include port'']"

definition SAFE_FIT_AP_COMMANDS :: "string list" where
  "SAFE_FIT_AP_COMMANDS =
     [''screen-length d'', ''screen-length disable'',
      ''display lldp neighbor-information list'', ''display transceiver interface'',
      ''display transceiver manuinfo interface'', ''display transceiver diagnosis interface'',
      ''display interface brief'']"

definition SAFE_FIT_AP_OPTICAL_COMMANDS :: "string list" where
  "SAFE_FIT_AP_OPTICAL_COMMANDS =
     [''screen-length disable'', ''display lldp neighbor-information list'',
      ''display transceiver diagnosis interface'']"

definition SAFE_OPTICAL_REFRESH_COMMANDS :: "string list" where
  "SAFE_OPTICAL_REFRESH_COMMANDS =
     [''screen-length d'', ''screen-length disable'',
      ''display lldp neighbor-information list'', ''display transceiver diagnosis interface'',
      ''display interface'', ''display interface brief'']"

definition SAFE_TRACKSIDE_SWITCH_COLLECT_COMMANDS :: "string list" where
  "SAFE_TRACKSIDE_SWITCH_COLLECT_COMMANDS =
     [''screen-length disable'', ''display lldp neighbor-information list'',
      ''display transceiver diagnosis interface'', ''display interface brief'',
      ''show version'', ''show interface brief'', ''show running-config switchvlan'',
      ''show vlan'', ''show opticalinfo brief'', ''show lldp neighbor brief'',
      ''show lldp entry'']"

definition SAFE_SWITCH_VENDOR_SAMPLE_COMMANDS :: "string list" where
  "SAFE_SWITCH_VENDOR_SAMPLE_COMMANDS =
     [''show version'', ''show interface brief'', ''show running-config switchvlan'',
      ''show vlan'', ''show opticalinfo brief'', ''show lldp neighbor brief'',
      ''show lldp entry'']"

definition SAFE_CONFIG_LIFECYCLE_COMMANDS :: "string list" where
  "SAFE_CONFIG_LIFECYCLE_COMMANDS =
     [''screen-length d'', ''screen-length disable'', ''save force'',
      ''display current-configuration'', ''display saved-configuration'']"

definition SAFE_DIAGNOSTIC_DOWNLOAD_COMMANDS :: "string list" where
  "SAFE_DIAGNOSTIC_DOWNLOAD_COMMANDS =
     [''screen-length d'', ''screen-length disable'', ''display diagnostic-information'', ''n'']"

definition SAFE_FILE_MANAGEMENT_COMMANDS :: "string list" where
  "SAFE_FILE_MANAGEMENT_COMMANDS =
     [''dir flash:/'', ''dir flash:/diagfile/'']"

definition SAFE_SFTP_ENABLE_COMMANDS :: "string list" where
  "SAFE_SFTP_ENABLE_COMMANDS =
     [''system-view'', ''sftp server enable'', ''return'', ''quit'']"

definition SAFE_GROUND_UNATTENDED_SYSLOG_READ_COMMANDS :: "string list" where
  "SAFE_GROUND_UNATTENDED_SYSLOG_READ_COMMANDS =
     [''screen-length disable'', ''display clock'', ''display version'',
      ''display info-center'', ''display current-configuration | include info-center'',
      ''display current-configuration'']"

definition SAFE_ENABLE_AP_CONSOLE_COMMANDS :: "string list" where
  "SAFE_ENABLE_AP_CONSOLE_COMMANDS =
     [''screen-length disable'', ''system-view'', ''probe'',
      ''wlan ap-execute all exec-console enable'', ''return'', ''quit'']"

definition SAFE_PERSIST_AUTO_AP_COMMANDS :: "string list" where
  "SAFE_PERSIST_AUTO_AP_COMMANDS =
     [''system-view'', ''wlan auto-ap persistent all'', ''save force'', ''return'', ''quit'']"

definition PIPE_ALLOWLIST :: "string list" where
  "PIPE_ALLOWLIST =
     [''display current-configuration | include sysname'', ''display ip https | include port'',
      ''display wlan ap all radio verbose filter bbssid'',
      ''display current-configuration | include info-center'']"

definition DANGEROUS_ALLOWLIST_EXCEPTIONS :: "string list" where
  "DANGEROUS_ALLOWLIST_EXCEPTIONS =
     [''display boot-loader'', ''display interface'', ''display interface brief'',
      ''display transceiver interface'', ''display transceiver manuinfo interface'',
      ''display transceiver diagnosis interface'', ''save force'', ''show interface'',
      ''show interface brief'', ''show running-config switchvlan'', ''show vlan'']"

definition CONTEXT_COMMANDS :: "(string \<times> string list) list" where
  "CONTEXT_COMMANDS =
     [(''device.inventory.collect'', SAFE_DEVICE_INVENTORY_COLLECT_COMMANDS),
      (''device_collect'', SAFE_DEVICE_COMMANDS),
      (''ac_collect'', SAFE_AC_COMMANDS),
      (''ac_fit_ap_resource_collect'', SAFE_AC_FIT_AP_RESOURCE_COLLECT_COMMANDS),
      (''ac_fit_ap_detail_collect'', SAFE_AC_FIT_AP_DETAIL_COLLECT_COMMANDS),
      (''ac_fit_ap_verbose_all_collect'', SAFE_AC_FIT_AP_VERBOSE_ALL_COLLECT_COMMANDS),
      (''ac_fit_ap_verbose_selected_collect'', SAFE_AC_FIT_AP_VERBOSE_SELECTED_COLLECT_COMMANDS),
      (''ac_info_collect'', SAFE_AC_INFO_COLLECT_COMMANDS),
      (''fit_ap_collect'', SAFE_FIT_AP_COMMANDS),
      (''fit_ap_optical_collect'', SAFE_FIT_AP_OPTICAL_COMMANDS),
      (''optical_refresh'', SAFE_OPTICAL_REFRESH_COMMANDS),
      (''trackside_switch_collect'', SAFE_TRACKSIDE_SWITCH_COLLECT_COMMANDS),
      (''switch_vendor_sample_collect'', SAFE_SWITCH_VENDOR_SAMPLE_COMMANDS),
      (''config_lifecycle'', SAFE_CONFIG_LIFECYCLE_COMMANDS),
      (''diagnostic_download'', SAFE_DIAGNOSTIC_DOWNLOAD_COMMANDS),
      (''file_management'', SAFE_FILE_MANAGEMENT_COMMANDS),
      (''device.sftp.enable'', SAFE_SFTP_ENABLE_COMMANDS),
      (''ground_unattended_syslog_read'', SAFE_GROUND_UNATTENDED_SYSLOG_READ_COMMANDS),
      (''ac_enable_ap_console'', SAFE_ENABLE_AP_CONSOLE_COMMANDS),
      (''ac_persist_auto_ap'', SAFE_PERSIST_AUTO_AP_COMMANDS),
      (''ac_enable_ap_remote_login'', SAFE_ENABLE_AP_CONSOLE_COMMANDS)]"

definition PROFILE_MANAGED_OPERATIONS :: "(string \<times> string) list" where
  "PROFILE_MANAGED_OPERATIONS =
     [(''device_collect'', ''device.inventory.collect''), (''sftp_enable'', ''device.sftp.enable'')]"

definition PROFILE_OPERATION_COMMAND_SEQUENCES :: "(string \<times> string list list) list" where
  "PROFILE_OPERATION_COMMAND_SEQUENCES =
     [(''device.inventory.collect'',
       [DEVICE_INVENTORY_COLLECT_COMMAND_SEQUENCE, DEVICE_INVENTORY_MOBILE_ROUTER_COMMAND_SEQUENCE,
        DEVICE_INVENTORY_ZTE_SWITCH_COMMAND_SEQUENCE])]"

definition DANGEROUS_PATTERNS :: "string list list" where
  "DANGEROUS_PATTERNS =
     [[''undo''], [''reboot''], [''no'', ''shutdown''], [''shutdown''], [''save''],
      [''reset''], [''delete''], [''format''], [''erase''], [''copy''], [''move''],
      [''rename''], [''restore''], [''install''], [''upgrade''], [''boot-loader''],
      [''startup''], [''license''], [''patch''], [''local-user''], [''password''], [''acl''],
      [''vlan''], [''interface''], [''ip'', ''route-static''], [''ftp''], [''tftp''],
      [''public-key'']]"

text \<open>
  A read-only expression: a fixed text, or a name of bounded length between two fixed texts, given
  by the test of its first character, the test of the others and the number of others allowed.
\<close>

datatype dynamic_pattern =
    Fixed string
  | Named string "char \<Rightarrow> bool" "char \<Rightarrow> bool" nat string

definition is_alnum :: "char \<Rightarrow> bool" where
  "is_alnum c \<longleftrightarrow> is_lower c \<or> is_digit c"

definition ap_name_char :: "char \<Rightarrow> bool" where
  "ap_name_char c \<longleftrightarrow> is_alnum c \<or> c \<in> set ''_.:-''"

definition port_char :: "char \<Rightarrow> bool" where
  "port_char c \<longleftrightarrow> is_alnum c \<or> c \<in> set ''./:_-''"

definition AP_NAME_VERBOSE :: dynamic_pattern where
  "AP_NAME_VERBOSE = Named ''display wlan ap name '' is_alnum ap_name_char 63 '' verbose''"

definition SHOW_INTERFACE :: dynamic_pattern where
  "SHOW_INTERFACE = Named ''show interface '' is_lower port_char 79 []"

definition SHOW_OPTICALINFO :: dynamic_pattern where
  "SHOW_OPTICALINFO = Named ''show opticalinfo '' is_lower port_char 79 []"

definition READ_ONLY_DYNAMIC_PATTERNS :: "(string \<times> dynamic_pattern list) list" where
  "READ_ONLY_DYNAMIC_PATTERNS =
     [(''ac_fit_ap_detail_collect'', [Fixed ''display wlan ap all verbose'', AP_NAME_VERBOSE]),
      (''ac_fit_ap_verbose_all_collect'', [Fixed ''display wlan ap all verbose'']),
      (''ac_fit_ap_verbose_selected_collect'', [AP_NAME_VERBOSE]),
      (''device.inventory.collect'', [SHOW_OPTICALINFO]),
      (''trackside_switch_collect'', [SHOW_INTERFACE, SHOW_OPTICALINFO]),
      (''switch_vendor_sample_collect'', [SHOW_INTERFACE, SHOW_OPTICALINFO])]"

section \<open>Matching\<close>

definition is_word :: "char \<Rightarrow> bool" where
  "is_word c \<longleftrightarrow> is_lower c \<or> is_upper c \<or> is_digit c \<or> c = CHR ''_''"

text \<open>The words of a keyword expression at the beginning of a text, and the closing word boundary.\<close>

fun match_words :: "string list \<Rightarrow> string \<Rightarrow> bool" where
  "match_words [] s = (s = [] \<or> \<not> is_word (hd s))"
| "match_words [w] s = (startswith s w \<and> match_words [] (drop (length w) s))"
| "match_words (w # v # ws) s =
     (startswith s w \<and>
      (let rest = drop (length w) s in
       rest \<noteq> [] \<and> is_space (hd rest) \<and> match_words (v # ws) (dropWhile is_space rest)))"

text \<open>\<open>re.search\<close>: the opening boundary lies where no word character precedes.\<close>

fun search_words :: "bool \<Rightarrow> string list \<Rightarrow> string \<Rightarrow> bool" where
  "search_words boundary ws [] = False"
| "search_words boundary ws (c # cs) =
     (boundary \<and> match_words ws (c # cs) \<or> search_words (\<not> is_word c) ws cs)"

definition keyword_found :: "string \<Rightarrow> string list \<Rightarrow> bool" where
  "keyword_found s ws = search_words True ws s"

fun fullmatch :: "string \<Rightarrow> dynamic_pattern \<Rightarrow> bool" where
  "fullmatch s (Fixed t) = (s = t)"
| "fullmatch s (Named before first rest n after) =
     (let m = drop (length before) (take (length s - length after) s) in
      s = before @ m @ after \<and> m \<noteq> [] \<and> length m \<le> Suc n \<and> first (hd m) \<and> list_all rest (tl m))"

section \<open>The guard\<close>

text \<open>\<open>s.split()\<close>: the words between runs of white space.\<close>

fun split_words :: "string \<Rightarrow> string \<Rightarrow> string list" where
  "split_words word [] = (if word = [] then [] else [rev word])"
| "split_words word (c # cs) =
     (if is_space c then (if word = [] then split_words [] cs else rev word # split_words [] cs)
      else split_words (c # word) cs)"

definition normalize_command :: "string \<Rightarrow> string" where
  "normalize_command command = casefold (join '' '' (split_words [] (strip command)))"

definition dynamic_allowed :: "string \<Rightarrow> string \<Rightarrow> bool" where
  "dynamic_allowed context s =
     (case map_of READ_ONLY_DYNAMIC_PATTERNS context of
        None \<Rightarrow> False
      | Some ps \<Rightarrow> list_ex (fullmatch s) ps)"

definition show_pattern :: "string list \<Rightarrow> string" where
  "show_pattern ws = [CHR 0x5C, CHR ''b''] @ join [CHR 0x5C, CHR ''s'', CHR ''+''] ws @ [CHR 0x5C, CHR ''b'']"

definition command_reject_reason :: "string \<Rightarrow> string \<Rightarrow> string option" where
  "command_reject_reason command context =
     (let s = normalize_command command in
      if s = [] then Some ''empty command''
      else if CHR '';'' \<in> set s then Some ''semicolon is not allowed''
      else if CHR ''|'' \<in> set s \<and> s \<notin> set PIPE_ALLOWLIST then Some ''pipe is not allowed for this command''
      else (let hit = (if s \<notin> set DANGEROUS_ALLOWLIST_EXCEPTIONS \<and> \<not> dynamic_allowed context s
                       then find (keyword_found s) DANGEROUS_PATTERNS else None) in
        case hit of
          Some ws \<Rightarrow> Some (''dangerous command keyword matched: '' @ show_pattern ws)
        | None \<Rightarrow>
            (case map_of CONTEXT_COMMANDS context of
               None \<Rightarrow> Some (''unknown command context: '' @ context)
             | Some allowed \<Rightarrow>
                 (if context = ''device.sftp.enable'' \<and> startswith s ''ssh user '' then None
                  else if s \<notin> set allowed \<and> \<not> dynamic_allowed context s
                  then Some (''command is not in whitelist for context: '' @ context)
                  else None))))"

definition is_command_allowed :: "string \<Rightarrow> string \<Rightarrow> bool" where
  "is_command_allowed command context \<longleftrightarrow> command_reject_reason command context = None"

fun validate_command_list :: "string list \<Rightarrow> string \<Rightarrow> unit result" where
  "validate_command_list [] context = Inr ()"
| "validate_command_list (command # commands) context =
     (case command_reject_reason command context of
        Some why \<Rightarrow> Inl (ValueError (command @ '': '' @ why))
      | None \<Rightarrow> validate_command_list commands context)"

definition validate_operation_commands :: "string list \<Rightarrow> string \<Rightarrow> string \<Rightarrow> unit result" where
  "validate_operation_commands commands context operation_id =
     (case map_of PROFILE_MANAGED_OPERATIONS context of
        None \<Rightarrow> Inl (ValueError (''command context is not profile-managed: '' @ context))
      | Some expected \<Rightarrow>
          (let operation = casefold (strip operation_id) in
           if operation \<noteq> expected
           then Inl (ValueError (''operation does not match command context: operation='' @
                  (if operation \<noteq> [] then operation else ''empty'') @ '', context='' @ context))
           else (case map_of PROFILE_OPERATION_COMMAND_SEQUENCES operation of
                   None \<Rightarrow> Inl (ValueError (''command sequence does not match operation profile: '' @ operation))
                 | Some sequences \<Rightarrow>
                     (if map normalize_command commands \<notin> set sequences
                      then Inl (ValueError (''command sequence does not match operation profile: '' @ operation))
                      else validate_command_list commands operation))))"

section \<open>Tables and filters agree\<close>

lemma is_word_code [code]:
  "is_word (Char b0 b1 b2 b3 b4 b5 b6 b7) \<longleftrightarrow>
     \<not> b7 \<and>
     (if b6 then (b0 \<or> b1 \<or> b2 \<or> b3 \<or> b4) \<and> (\<not> (b4 \<and> b3 \<and> (b2 \<or> b1 \<and> b0)) \<or> \<not> b5 \<and> b2 \<and> b1 \<and> b0)
      else b5 \<and> b4 \<and> \<not> (b3 \<and> (b2 \<or> b1)))"
  by (cases b0; cases b1; cases b2; cases b3; cases b4; cases b5; cases b6; cases b7)
     (simp_all add: is_word_def is_lower_def is_upper_def is_digit_def Let_def)

fun boundary_suffixes :: "bool \<Rightarrow> string \<Rightarrow> string list" where
  "boundary_suffixes boundary [] = []"
| "boundary_suffixes boundary (c # cs) =
     (let rest = boundary_suffixes (\<not> is_word c) cs in if boundary then (c # cs) # rest else rest)"

lemma search_words_suffixes: "search_words b ws s = list_ex (match_words ws) (boundary_suffixes b s)"
  by (induction s arbitrary: b) (simp_all add: Let_def)

definition free_of_keywords :: "string \<Rightarrow> bool" where
  "free_of_keywords s = (let suffixes = boundary_suffixes True s in
     list_all (\<lambda>ws. \<not> list_ex (match_words ws) suffixes) DANGEROUS_PATTERNS)"

lemma free_of_keywords: "free_of_keywords s = (\<not> list_ex (keyword_found s) DANGEROUS_PATTERNS)"
  by (auto simp: free_of_keywords_def keyword_found_def search_words_suffixes list_all_iff list_ex_iff)

text \<open>The tests a command has to pass before the whitelist of its context is looked at.\<close>

definition passes_filters :: "string \<Rightarrow> bool" where
  "passes_filters s \<longleftrightarrow>
     s \<noteq> [] \<and> CHR '';'' \<notin> set s \<and> (CHR ''|'' \<notin> set s \<or> s \<in> set PIPE_ALLOWLIST) \<and>
     (s \<in> set DANGEROUS_ALLOWLIST_EXCEPTIONS \<or> free_of_keywords s)"

lemma context_tables_pass: "list_all (\<lambda>(_, cs). list_all passes_filters cs) CONTEXT_COMMANDS"
  by code_simp

lemma context_commands_pass:
  "map_of CONTEXT_COMMANDS ctx = Some cs \<Longrightarrow> s \<in> set cs \<Longrightarrow> passes_filters s"
  using context_tables_pass by (auto simp: list_all_iff dest!: map_of_SomeD)

text \<open>A read-only expression matches no separator.\<close>

definition plain_char :: "char \<Rightarrow> bool" where
  "plain_char c \<longleftrightarrow> c \<noteq> CHR '';'' \<and> c \<noteq> CHR ''|''"

lemma plain_name_chars:
  "is_alnum c \<Longrightarrow> plain_char c" "is_lower c \<Longrightarrow> plain_char c"
  "ap_name_char c \<Longrightarrow> plain_char c" "port_char c \<Longrightarrow> plain_char c"
  by (auto simp: plain_char_def ap_name_char_def port_char_def is_alnum_def is_lower_def is_digit_def)

lemma fullmatch_named_plain:
  assumes "fullmatch s (Named before first rest n after)"
    and "list_all plain_char before" "list_all plain_char after"
    and "\<And>c. first c \<Longrightarrow> plain_char c" "\<And>c. rest c \<Longrightarrow> plain_char c"
  shows "list_all plain_char s"
proof -
  let ?m = "drop (length before) (take (length s - length after) s)"
  have s: "s = before @ ?m @ after" and m: "?m \<noteq> []" "first (hd ?m)" "list_all rest (tl ?m)"
    using assms(1) by (simp_all add: Let_def)
  have "list_all plain_char ?m"
    using m assms(4,5) by (cases ?m) (auto simp: list_all_iff)
  then have "list_all plain_char (before @ ?m @ after)"
    using assms(2,3) by (simp only: list_all_append)
  then show ?thesis using s by simp
qed

lemma fullmatch_named_prefix:
  assumes "fullmatch s (Named before first rest n after)"
  shows "startswith s before"
proof -
  let ?m = "drop (length before) (take (length s - length after) s)"
  have "s = before @ ?m @ after" using assms by (simp add: Let_def)
  then have "take (length before) s = take (length before) (before @ ?m @ after)" by simp
  then show ?thesis by (simp add: startswith_def)
qed

lemma dynamic_patterns:
  assumes "dynamic_allowed ctx s"
  shows "s = ''display wlan ap all verbose'' \<or> fullmatch s AP_NAME_VERBOSE \<or>
         fullmatch s SHOW_INTERFACE \<or> fullmatch s SHOW_OPTICALINFO"
  using assms by (auto simp: dynamic_allowed_def READ_ONLY_DYNAMIC_PATTERNS_def split: if_splits option.splits)

lemmas dynamic_pattern_defs = AP_NAME_VERBOSE_def SHOW_INTERFACE_def SHOW_OPTICALINFO_def

lemma fullmatch_Nil [simp]: "\<not> fullmatch [] (Named before first rest n after)"
  by simp

lemma dynamic_plain:
  assumes "dynamic_allowed ctx s"
  shows "s \<noteq> [] \<and> CHR '';'' \<notin> set s \<and> CHR ''|'' \<notin> set s"
proof -
  have "list_all plain_char s \<and> s \<noteq> []"
    using dynamic_patterns [OF assms]
    by (auto simp: dynamic_pattern_defs plain_char_def
        simp del: fullmatch.simps dest: fullmatch_named_plain intro: plain_name_chars)
  then show ?thesis by (auto simp: list_all_iff plain_char_def)
qed

definition ssh_user_exception :: "string \<Rightarrow> string \<Rightarrow> bool" where
  "ssh_user_exception ctx s \<longleftrightarrow>
     ctx = ''device.sftp.enable'' \<and> startswith s ''ssh user '' \<and> CHR '';'' \<notin> set s \<and> CHR ''|'' \<notin> set s \<and>
     \<not> list_ex (keyword_found s) DANGEROUS_PATTERNS"

lemma ssh_user_not_listed:
  "startswith s ''ssh user '' \<Longrightarrow> s \<notin> set PIPE_ALLOWLIST \<and> s \<notin> set DANGEROUS_ALLOWLIST_EXCEPTIONS"
  by (auto simp: PIPE_ALLOWLIST_def DANGEROUS_ALLOWLIST_EXCEPTIONS_def startswith_def)

lemma no_dynamic_sftp: "\<not> dynamic_allowed ''device.sftp.enable'' s"
  by (simp add: dynamic_allowed_def READ_ONLY_DYNAMIC_PATTERNS_def)

lemma find_None_list_ex: "find P xs = None \<longleftrightarrow> \<not> list_ex P xs"
  by (auto simp: find_None_iff list_ex_iff)

lemma reject_reason_None:
  "command_reject_reason c ctx = None \<longleftrightarrow>
     (let s = normalize_command c in
      (passes_filters s \<or> s \<noteq> [] \<and> CHR '';'' \<notin> set s \<and> (CHR ''|'' \<notin> set s \<or> s \<in> set PIPE_ALLOWLIST) \<and> dynamic_allowed ctx s) \<and>
      (case map_of CONTEXT_COMMANDS ctx of
         None \<Rightarrow> False
       | Some cs \<Rightarrow> ctx = ''device.sftp.enable'' \<and> startswith s ''ssh user '' \<or> s \<in> set cs \<or> dynamic_allowed ctx s))"
  unfolding command_reject_reason_def Let_def passes_filters_def free_of_keywords find_None_list_ex [symmetric]
  by (auto split: option.split)

lemma allowed_iff:
  "is_command_allowed command ctx \<longleftrightarrow>
     (case map_of CONTEXT_COMMANDS ctx of
        None \<Rightarrow> False
      | Some cs \<Rightarrow> normalize_command command \<in> set cs \<or> dynamic_allowed ctx (normalize_command command) \<or>
                  ssh_user_exception ctx (normalize_command command))"
proof (cases "map_of CONTEXT_COMMANDS ctx")
  case None
  then show ?thesis by (simp add: is_command_allowed_def reject_reason_None Let_def)
next
  case (Some cs)
  let ?s = "normalize_command command"
  have "?s \<in> set cs \<Longrightarrow> passes_filters ?s" by (rule context_commands_pass [OF Some])
  moreover have "startswith ?s ''ssh user '' \<Longrightarrow> passes_filters ?s \<longleftrightarrow>
      CHR '';'' \<notin> set ?s \<and> CHR ''|'' \<notin> set ?s \<and> \<not> list_ex (keyword_found ?s) DANGEROUS_PATTERNS"
    using ssh_user_not_listed [of ?s] by (auto simp: passes_filters_def free_of_keywords startswith_def)
  moreover have "ctx = ''device.sftp.enable'' \<Longrightarrow> \<not> dynamic_allowed ctx ?s" by (simp add: no_dynamic_sftp)
  ultimately show ?thesis
    using dynamic_plain [of ctx ?s] Some
    by (auto simp: is_command_allowed_def reject_reason_None Let_def ssh_user_exception_def)
qed

text \<open>
  C19. What the guard lets through. A command is accepted exactly when its context is known and its
  normalised form is in the whitelist of the context, matches a read-only expression of the context,
  or is a user line of the SFTP context without separators and dangerous keywords. In particular no
  entry of a whitelist is shadowed by the earlier tests for separators, pipes and dangerous
  keywords, and no read-only expression admits a separator.
\<close>

theorem is_command_allowed_iff:
  "is_command_allowed command ctx \<longleftrightarrow>
     (case map_of CONTEXT_COMMANDS ctx of
        None \<Rightarrow> False
      | Some cs \<Rightarrow> normalize_command command \<in> set cs \<or> dynamic_allowed ctx (normalize_command command) \<or>
                  ssh_user_exception ctx (normalize_command command))"
  by (rule allowed_iff)

section \<open>What accepted commands can do\<close>

definition read_only :: "string \<Rightarrow> bool" where
  "read_only s \<longleftrightarrow> s = ''n'' \<or> list_ex (startswith s) [''display '', ''show '', ''screen-length '', ''dir '']"

definition CONFIGURATION_CONTEXTS :: "string list" where
  "CONFIGURATION_CONTEXTS =
     [''config_lifecycle'', ''device.sftp.enable'', ''ac_enable_ap_console'', ''ac_persist_auto_ap'',
      ''ac_enable_ap_remote_login'']"

lemma tables_read_only:
  "list_all (\<lambda>(ctx, cs). ctx \<in> set CONFIGURATION_CONTEXTS \<or> list_all read_only cs) CONTEXT_COMMANDS"
  by code_simp

lemma tables_save:
  "list_all (\<lambda>(ctx, cs). ctx \<in> set [''config_lifecycle'', ''ac_persist_auto_ap''] \<or> ''save force'' \<notin> set cs)
     CONTEXT_COMMANDS"
  by code_simp

lemma dynamic_prefix:
  assumes "dynamic_allowed ctx s"
  shows "startswith s ''display '' \<or> startswith s ''show ''"
proof -
  have longer: "startswith s p" if "startswith s q" "startswith q p" for p q
    using that by (metis startswith_def min.absorb1 take_take length_take nat_le_linear take_all)
  have "startswith s ''display ''" if "fullmatch s AP_NAME_VERBOSE"
    by (rule longer [OF fullmatch_named_prefix [OF that [unfolded AP_NAME_VERBOSE_def]]]) (simp add: startswith_code)
  moreover have "startswith s ''show ''" if "fullmatch s SHOW_INTERFACE"
    by (rule longer [OF fullmatch_named_prefix [OF that [unfolded SHOW_INTERFACE_def]]]) (simp add: startswith_code)
  moreover have "startswith s ''show ''" if "fullmatch s SHOW_OPTICALINFO"
    by (rule longer [OF fullmatch_named_prefix [OF that [unfolded SHOW_OPTICALINFO_def]]]) (simp add: startswith_code)
  moreover have "startswith ''display wlan ap all verbose'' ''display ''" by (simp add: startswith_code)
  ultimately show ?thesis using dynamic_patterns [OF assms] by blast
qed

lemma excepted_commands:
  "s \<in> set DANGEROUS_ALLOWLIST_EXCEPTIONS \<Longrightarrow> s = ''save force'' \<or> startswith s ''display '' \<or> startswith s ''show ''"
  by (auto simp: DANGEROUS_ALLOWLIST_EXCEPTIONS_def startswith_def)

text \<open>
  C20. Accepted commands are harmless: outside the five configuration contexts every accepted
  command is a query (it begins with \<^verbatim>\<open>display\<close>, \<^verbatim>\<open>show\<close>, \<^verbatim>\<open>screen-length\<close> or \<^verbatim>\<open>dir\<close>, or is the answer
  \<^verbatim>\<open>n\<close>); in every context an accepted command with a dangerous keyword is a query or \<^verbatim>\<open>save force\<close>;
  and \<^verbatim>\<open>save force\<close> is accepted only where a configuration is saved on purpose.
\<close>

theorem accepted_commands_harmless:
  assumes "is_command_allowed command ctx" and "s = normalize_command command"
  shows "(ctx \<notin> set CONFIGURATION_CONTEXTS \<longrightarrow> read_only s) \<and>
         (list_ex (keyword_found s) DANGEROUS_PATTERNS \<longrightarrow>
            s = ''save force'' \<or> startswith s ''display '' \<or> startswith s ''show '') \<and>
         (s = ''save force'' \<longrightarrow> ctx \<in> set [''config_lifecycle'', ''ac_persist_auto_ap''])"
proof -
  obtain cs where cs: "map_of CONTEXT_COMMANDS ctx = Some cs"
    and how: "s \<in> set cs \<or> dynamic_allowed ctx s \<or> ssh_user_exception ctx s"
    using assms by (auto simp: allowed_iff split: option.splits)
  from cs have listed: "(ctx, cs) \<in> set CONTEXT_COMMANDS" by (rule map_of_SomeD)
  from how consider "s \<in> set cs" | "dynamic_allowed ctx s" | "ssh_user_exception ctx s" by blast
  then show ?thesis
  proof cases
    case 1
    then have "passes_filters s" by (rule context_commands_pass [OF cs])
    then show ?thesis
      using 1 listed tables_read_only tables_save excepted_commands [of s]
      by (auto simp: list_all_iff passes_filters_def free_of_keywords)
  next
    case 2
    then show ?thesis using dynamic_prefix [OF 2] by (auto simp: read_only_def startswith_def)
  next
    case 3
    then show ?thesis by (auto simp: ssh_user_exception_def CONFIGURATION_CONTEXTS_def startswith_def)
  qed
qed

theorem accepted_commands_harmless_witness:
  "is_command_allowed '' Display  INTERFACE brief '' ''optical_refresh'' \<and>
   read_only (normalize_command '' Display  INTERFACE brief '')"
proof -
  have a: "is_command_allowed '' Display  INTERFACE brief '' ''optical_refresh''" by code_simp
  have "''optical_refresh'' \<notin> set CONFIGURATION_CONTEXTS" by code_simp
  with accepted_commands_harmless [OF a refl] a show ?thesis by blast
qed

section \<open>Operations with a command profile\<close>

lemma validate_command_list_ok:
  "validate_command_list commands ctx = Inr () \<longleftrightarrow> list_all (\<lambda>c. is_command_allowed c ctx) commands"
  by (induction commands) (auto simp: is_command_allowed_def split: option.splits)

lemma inventory_sequences_listed:
  "list_all (list_all (\<lambda>s. s \<in> set SAFE_DEVICE_INVENTORY_COLLECT_COMMANDS))
     [DEVICE_INVENTORY_COLLECT_COMMAND_SEQUENCE, DEVICE_INVENTORY_MOBILE_ROUTER_COMMAND_SEQUENCE,
      DEVICE_INVENTORY_ZTE_SWITCH_COMMAND_SEQUENCE]"
  by (simp add: SAFE_DEVICE_INVENTORY_COLLECT_COMMANDS_def list_all_iff)

text \<open>
  A profile-managed operation passes exactly when it is the device inventory with one of its
  three command sequences in order: such a sequence is never rejected command by command. The
  second managed operation of the table, enabling SFTP, has no sequence and is always rejected.
\<close>

theorem validate_operation_commands_iff:
  "validate_operation_commands commands ctx operation_id = Inr () \<longleftrightarrow>
     ctx = ''device_collect'' \<and> casefold (strip operation_id) = ''device.inventory.collect'' \<and>
     map normalize_command commands \<in>
       {DEVICE_INVENTORY_COLLECT_COMMAND_SEQUENCE, DEVICE_INVENTORY_MOBILE_ROUTER_COMMAND_SEQUENCE,
        DEVICE_INVENTORY_ZTE_SWITCH_COMMAND_SEQUENCE}"
proof -
  let ?S = "{DEVICE_INVENTORY_COLLECT_COMMAND_SEQUENCE, DEVICE_INVENTORY_MOBILE_ROUTER_COMMAND_SEQUENCE,
        DEVICE_INVENTORY_ZTE_SWITCH_COMMAND_SEQUENCE}"
  have table: "map_of CONTEXT_COMMANDS ''device.inventory.collect'' = Some SAFE_DEVICE_INVENTORY_COLLECT_COMMANDS"
    by (simp add: CONTEXT_COMMANDS_def)
  have "validate_command_list commands ''device.inventory.collect'' = Inr ()"
    if "map normalize_command commands \<in> ?S"
  proof -
    have "list_all (\<lambda>s. s \<in> set SAFE_DEVICE_INVENTORY_COLLECT_COMMANDS) (map normalize_command commands)"
      using that inventory_sequences_listed by auto
    then show ?thesis
      unfolding validate_command_list_ok by (auto simp: allowed_iff table list_all_iff)
  qed
  then show ?thesis
    by (auto simp: validate_operation_commands_def PROFILE_MANAGED_OPERATIONS_def
        PROFILE_OPERATION_COMMAND_SEQUENCES_def Let_def)
qed

end
