(* ===== verification/Wireless_IE.thy ===== *)
theory Wireless_IE
  imports NC_Prelude "HOL-Library.Word"
begin

unbundle bit_operations_syntax

text \<open>
  \<^verbatim>\<open>services/network_tools/wireless_ie_parser.py\<close>: the information elements of beacon frames. A blob is a
  list of bytes; an element is its id, its length and that many bytes. The parser collects the
  payloads of each id in order, warns about truncated elements and left-over bytes, and reads
  channel width and number of spatial streams from the HT and VHT elements.
\<close>

section \<open>Elements\<close>

type_synonym bytes = "8 word list"
type_synonym elements = "(8 word \<times> bytes list) list"

record WirelessCapabilityInfo =
  channel_width_mhz :: "nat option"
  channel_width_text :: string
  channel_width_source :: string
  mimo :: string
  mimo_source :: string
  mimo_note :: string
  ht_supported :: bool
  vht_supported :: bool
  he_supported :: bool
  parse_warnings :: "string list"

definition payloads :: "elements \<Rightarrow> 8 word \<Rightarrow> bytes list" where
  "payloads es i = (case map_of es i of None \<Rightarrow> [] | Some ps \<Rightarrow> ps)"

definition add_element :: "8 word \<Rightarrow> bytes \<Rightarrow> elements \<Rightarrow> elements" where
  "add_element i payload es = AList.update i (payloads es i @ [payload]) es"

text \<open>The loop over the blob; the result is the elements, the final offset and the warnings.\<close>

function ie_loop :: "bytes \<Rightarrow> nat \<Rightarrow> elements \<Rightarrow> string list \<Rightarrow> elements \<times> nat \<times> string list" where
  "ie_loop blob offset es warnings =
     (if offset + 2 \<le> length blob
      then (let element_id = blob ! offset; len = unat (blob ! (offset + 1)); offset' = offset + 2 in
            if length blob < offset' + len
            then (es, offset', warnings @ [''truncated_ie_'' @ show_nat (unat element_id)])
            else ie_loop blob (offset' + len) (add_element element_id (take len (drop offset' blob)) es) warnings)
      else (es, offset, warnings))"
  by pat_completeness auto
termination by (relation "measure (\<lambda>(blob, offset, _, _). length blob - offset)") auto

declare ie_loop.simps [simp del]

definition iter_information_elements :: "bytes \<Rightarrow> string list \<Rightarrow> elements \<times> string list" where
  "iter_information_elements blob warnings =
     (let (es, offset, w) = ie_loop blob 0 [] warnings in
      (es, if offset \<noteq> length blob then w @ [''trailing_ie_bytes''] else w))"

definition first_payload :: "elements \<Rightarrow> 8 word \<Rightarrow> bytes option" where
  "first_payload es i = (case payloads es i of [] \<Rightarrow> None | p # _ \<Rightarrow> Some p)"

definition has_he_elements :: "elements \<Rightarrow> bool" where
  "has_he_elements es = list_ex (\<lambda>p. p \<noteq> [] \<and> hd p \<in> {35, 36}) (payloads es 255)"

section \<open>Capabilities\<close>

definition parse_vht_channel_width :: "bytes option \<Rightarrow> (nat option \<times> string) option" where
  "parse_vht_channel_width payload =
     (case payload of
        Some (w # _) \<Rightarrow>
          (if w = 1 then Some (Some 80, ''80 MHz'')
           else if w = 2 then Some (Some 160, ''160 MHz'')
           else if w = 3 then Some (None, ''80+80 MHz'')
           else None)
      | _ \<Rightarrow> None)"

definition parse_ht_channel_width :: "bytes option \<Rightarrow> nat option" where
  "parse_ht_channel_width payload =
     (case payload of
        Some (_ # b # _) \<Rightarrow> Some (if b AND 3 \<in> {1, 3} then 40 else 20)
      | _ \<Rightarrow> None)"

definition vht_mcs_map :: "bytes \<Rightarrow> 16 word" where
  "vht_mcs_map payload = ucast (payload ! 4) OR push_bit 8 (ucast (payload ! 5))"

definition parse_vht_mimo_streams :: "bytes option \<Rightarrow> nat" where
  "parse_vht_mimo_streams payload =
     (case payload of
        None \<Rightarrow> 0
      | Some p \<Rightarrow>
          (if length p < 8 then 0
           else min (fold (\<lambda>index stream_count.
                       if drop_bit (index * 2) (vht_mcs_map p) AND 3 \<noteq> 3 then index + 1 else stream_count)
                     [0..<8] 0) 8))"

definition parse_ht_mimo_streams :: "bytes option \<Rightarrow> nat" where
  "parse_ht_mimo_streams payload =
     (case payload of
        None \<Rightarrow> 0
      | Some p \<Rightarrow>
          (if length p < 19 then 0
           else (let mcs_set = take 16 (drop 3 p) in
                 fold (\<lambda>index stream_count. if mcs_set ! index \<noteq> 0 then index + 1 else stream_count) [0..<4] 0)))"

definition parse_channel_width :: "elements \<Rightarrow> nat option \<times> string \<times> string" where
  "parse_channel_width es =
     (case parse_vht_channel_width (first_payload es 192) of
        Some (mhz, label) \<Rightarrow> (mhz, label, ''vht_operation'')
      | None \<Rightarrow>
          (case parse_ht_channel_width (first_payload es 61) of
             Some w \<Rightarrow> (Some w, show_nat w @ '' MHz'', ''ht_operation'')
           | None \<Rightarrow> (None, ''-'', ''unavailable'')))"

definition streams_text :: "nat \<Rightarrow> string" where
  "streams_text n = show_nat n @ ''x'' @ show_nat n"

definition parse_mimo :: "elements \<Rightarrow> string \<times> string \<times> string" where
  "parse_mimo es =
     (let vht = parse_vht_mimo_streams (first_payload es 191);
          ht = parse_ht_mimo_streams (first_payload es 45) in
      if vht \<noteq> 0 then (streams_text vht, ''vht_mcs_map'', ''mimo_capability_note'')
      else if ht \<noteq> 0 then (streams_text ht, ''ht_mcs_set'', ''mimo_capability_note'')
      else (''-'', ''unavailable'', ''scan_source_unavailable''))"

definition parse_wireless_capabilities :: "bytes option \<Rightarrow> WirelessCapabilityInfo" where
  "parse_wireless_capabilities ie_blob =
     (case ie_blob of
        Some (b # bs) \<Rightarrow>
          (let (es, warnings) = iter_information_elements (b # bs) [];
               he = has_he_elements es;
               (mhz, label, width_source) = parse_channel_width es;
               (mimo_text, mimo_from, note) = parse_mimo es in
           \<lparr>channel_width_mhz = mhz, channel_width_text = label, channel_width_source = width_source,
            mimo = mimo_text, mimo_source = mimo_from, mimo_note = note,
            ht_supported = (45 \<in> fst ` set es), vht_supported = (191 \<in> fst ` set es), he_supported = he,
            parse_warnings = (if he then warnings @ [''he_parser_not_implemented''] else warnings)\<rparr>)
      | _ \<Rightarrow>
          \<lparr>channel_width_mhz = None, channel_width_text = ''-'', channel_width_source = ''unavailable'',
           mimo = ''-'', mimo_source = ''unavailable'', mimo_note = ''scan_source_unavailable'',
           ht_supported = False, vht_supported = False, he_supported = False,
           parse_warnings = [''ie_blob_unavailable'']\<rparr>)"

section \<open>Encoding\<close>

text \<open>The frame format of the elements, and the grouping by id the parser promises.\<close>

definition element_bytes :: "8 word \<times> bytes \<Rightarrow> bytes" where
  "element_bytes e = fst e # of_nat (length (snd e)) # snd e"

definition encode_elements :: "(8 word \<times> bytes) list \<Rightarrow> bytes" where
  "encode_elements es = concat (map element_bytes es)"

definition elements_ok :: "(8 word \<times> bytes) list \<Rightarrow> bool" where
  "elements_ok es = list_all (\<lambda>e. length (snd e) \<le> 255) es"

definition group_elements :: "(8 word \<times> bytes) list \<Rightarrow> elements" where
  "group_elements es = fold (\<lambda>e. add_element (fst e) (snd e)) es []"

definition payloads_of :: "8 word \<Rightarrow> (8 word \<times> bytes) list \<Rightarrow> bytes list" where
  "payloads_of i es = map snd (filter (\<lambda>e. fst e = i) es)"

lemma payloads_add: "payloads (add_element i p es) j = (if j = i then payloads es i @ [p] else payloads es j)"
  by (auto simp: payloads_def add_element_def update_conv')

lemma payloads_group: "payloads (group_elements es) i = payloads_of i es"
proof -
  have "payloads (fold (\<lambda>e. add_element (fst e) (snd e)) es ds) i = payloads ds i @ payloads_of i es" for ds
    by (induction es arbitrary: ds) (auto simp: payloads_of_def payloads_add)
  then show ?thesis by (simp add: group_elements_def payloads_def)
qed

lemma length_element_bytes: "length (element_bytes e) = 2 + length (snd e)"
  by (simp add: element_bytes_def)

text \<open>One complete element at the offset is one step of the loop.\<close>

lemma ie_loop_step:
  assumes "length (snd e) \<le> 255"
  shows "ie_loop (pre @ element_bytes e @ post) (length pre) ds w =
         ie_loop (pre @ element_bytes e @ post) (length pre + 2 + length (snd e)) (add_element (fst e) (snd e) ds) w"
proof -
  have u: "unat (of_nat (length (snd e)) :: 8 word) = length (snd e)"
    using assms by (simp add: unat_of_nat)
  show ?thesis
    by (subst ie_loop.simps) (simp add: element_bytes_def nth_append u Let_def)
qed

lemma ie_loop_elements:
  "elements_ok es \<Longrightarrow>
   ie_loop (pre @ encode_elements es @ post) (length pre) ds w =
   ie_loop (pre @ encode_elements es @ post) (length pre + length (encode_elements es))
     (fold (\<lambda>e. add_element (fst e) (snd e)) es ds) w"
proof (induction es arbitrary: pre ds)
  case Nil
  then show ?case by (simp add: encode_elements_def)
next
  case (Cons e es)
  let ?post = "encode_elements es @ post"
  have "ie_loop (pre @ element_bytes e @ ?post) (length pre) ds w =
      ie_loop (pre @ element_bytes e @ ?post) (length (pre @ element_bytes e)) (add_element (fst e) (snd e) ds) w"
    using Cons.prems ie_loop_step [of e pre ?post ds w]
    by (simp add: elements_ok_def length_element_bytes add.assoc)
  also have "\<dots> = ie_loop ((pre @ element_bytes e) @ encode_elements es @ post)
      (length (pre @ element_bytes e) + length (encode_elements es))
      (fold (\<lambda>e. add_element (fst e) (snd e)) es (add_element (fst e) (snd e) ds)) w"
    using Cons.IH [of "pre @ element_bytes e"] Cons.prems by (simp add: elements_ok_def)
  finally show ?case by (simp add: encode_elements_def add.assoc)
qed

section \<open>Complete elements and the rest\<close>

text \<open>A rest that holds no complete element, and the warnings about it.\<close>

definition incomplete :: "bytes \<Rightarrow> bool" where
  "incomplete rest \<longleftrightarrow> length rest < 2 \<or> length rest < 2 + unat (rest ! 1)"

definition rest_warnings :: "bytes \<Rightarrow> string list" where
  "rest_warnings rest =
     (if length rest < 2 then [] else [''truncated_ie_'' @ show_nat (unat (rest ! 0))]) @
     (if length rest = 0 \<or> length rest = 2 then [] else [''trailing_ie_bytes''])"

lemma ie_loop_rest:
  assumes "incomplete rest"
  shows "ie_loop (pre @ rest) (length pre) ds w =
    (if length rest < 2 then (ds, length pre, w)
     else (ds, length pre + 2, w @ [''truncated_ie_'' @ show_nat (unat (rest ! 0))]))"
  using assms by (subst ie_loop.simps) (auto simp: incomplete_def nth_append Let_def)

lemma iter_encoded:
  assumes "elements_ok es" and "incomplete rest"
  shows "iter_information_elements (encode_elements es @ rest) w = (group_elements es, w @ rest_warnings rest)"
  using ie_loop_elements [OF assms(1), of "[]" rest "[]" w] ie_loop_rest [OF assms(2), of "encode_elements es" _ w]
  by (auto simp: iter_information_elements_def rest_warnings_def group_elements_def)

text \<open>Every blob is a sequence of complete elements followed by such a rest.\<close>

lemma blob_elements: "\<exists>es rest. elements_ok es \<and> incomplete rest \<and> blob = encode_elements es @ rest"
proof (induction "length blob" arbitrary: blob rule: less_induct)
  case less
  show ?case
  proof (cases "incomplete blob")
    case True
    then show ?thesis by (intro exI [of _ "[]"] exI [of _ blob]) (simp add: elements_ok_def encode_elements_def)
  next
    case False
    then obtain i n tail where blob: "blob = i # n # tail" and long: "unat n \<le> length tail"
      by (cases blob; cases "tl blob") (auto simp: incomplete_def)
    have "length (drop (unat n) tail) < length blob" by (simp add: blob)
    from less [OF this] obtain es rest where es: "elements_ok es" "incomplete rest"
      and tail: "drop (unat n) tail = encode_elements es @ rest" by blast
    let ?e = "(i, take (unat n) tail)"
    have "unat n \<le> 255" using unsigned_less [of n, where 'a = nat] by simp
    then have "elements_ok (?e # es)" using es(1) by (simp add: elements_ok_def)
    moreover have "blob = encode_elements (?e # es) @ rest"
      using append_take_drop_id [of "unat n" tail] long tail by (simp add: blob encode_elements_def element_bytes_def)
    ultimately show ?thesis using es(2) by blast
  qed
qed

lemma rest_warnings_Nil: "rest_warnings rest = [] \<longleftrightarrow> rest = []"
  by (auto simp: rest_warnings_def)

section \<open>Properties\<close>

text \<open>
  C34. The element parser on any blob: the blob is a sequence of complete elements followed by a
  rest that holds none; the parser answers exactly the payloads of these elements, by id and in
  order, and it warns exactly when there is a rest, with the id of a truncated element.
\<close>

theorem iter_information_elements_exact:
  "\<exists>es rest. elements_ok es \<and> incomplete rest \<and> blob = encode_elements es @ rest \<and>
     (\<forall>i. payloads (fst (iter_information_elements blob [])) i = payloads_of i es) \<and>
     snd (iter_information_elements blob []) = rest_warnings rest \<and>
     (snd (iter_information_elements blob []) = [] \<longleftrightarrow> rest = [])"
proof -
  obtain es rest where "elements_ok es" "incomplete rest" "blob = encode_elements es @ rest"
    using blob_elements by blast
  then show ?thesis
    by (intro exI [of _ es] exI [of _ rest]) (simp add: iter_encoded payloads_group rest_warnings_Nil)
qed

text \<open>
  Round trip: a blob built from elements of at most 255 bytes each parses to these elements
  without a warning.
\<close>

theorem elements_roundtrip:
  assumes "elements_ok es"
  shows "iter_information_elements (encode_elements es) [] = (group_elements es, []) \<and>
         payloads (group_elements es) i = payloads_of i es"
  using iter_encoded [OF assms, of "[]" "[]"] by (simp add: incomplete_def rest_warnings_def payloads_group)

theorem elements_roundtrip_witness:
  "elements_ok [(0, [110, 99]), (45, []), (0, [7])] \<and>
   payloads (fst (iter_information_elements (encode_elements [(0, [110, 99]), (45, []), (0, [7])]) [])) 0 = [[110, 99], [7]]"
proof -
  have ok: "elements_ok [(0, [110, 99]), (45, []), (0, [7])]" by (simp add: elements_ok_def)
  show ?thesis using elements_roundtrip [OF ok, of 0] ok by (simp add: payloads_of_def)
qed

text \<open>The number of streams is the last position whose entry is in use.\<close>

definition last_in_use :: "(nat \<Rightarrow> bool) \<Rightarrow> nat \<Rightarrow> nat" where
  "last_in_use P k = fold (\<lambda>i n. if P i then Suc i else n) [0..<k] 0"

lemma last_in_use_Suc: "last_in_use P (Suc k) = (if P k then Suc k else last_in_use P k)"
  by (simp add: last_in_use_def)

lemma last_in_use:
  "last_in_use P k \<le> k"
  "0 < last_in_use P k \<Longrightarrow> P (last_in_use P k - 1)"
  "last_in_use P k \<le> i \<Longrightarrow> i < k \<Longrightarrow> \<not> P i"
proof (induction k)
  case 0
  { case 1 show ?case by (simp add: last_in_use_def) }
  { case 2 then show ?case by (simp add: last_in_use_def) }
  { case 3 then show ?case by simp }
next
  case (Suc k)
  { case 1 show ?case using Suc(1) by (simp add: last_in_use_Suc) }
  { case 2 then show ?case using Suc(2) by (simp add: last_in_use_Suc split: if_splits) }
  { case 3 then show ?case using Suc(3) by (auto simp: last_in_use_Suc less_Suc_eq split: if_splits) }
qed

lemma stream_bounds: "parse_vht_mimo_streams p \<le> 8" "parse_ht_mimo_streams p \<le> 4"
  using last_in_use(1) [of _ 4]
  by (auto simp: parse_vht_mimo_streams_def parse_ht_mimo_streams_def last_in_use_def Let_def split: option.split)

lemma vht_streams:
  assumes "8 \<le> length p" and "n = parse_vht_mimo_streams (Some p)"
  shows "0 < n \<Longrightarrow> drop_bit ((n - 1) * 2) (vht_mcs_map p) AND 3 \<noteq> 3"
    and "n \<le> i \<Longrightarrow> i < 8 \<Longrightarrow> drop_bit (i * 2) (vht_mcs_map p) AND 3 = 3"
proof -
  let ?P = "\<lambda>i. drop_bit (i * 2) (vht_mcs_map p) AND 3 \<noteq> 3"
  have n: "n = last_in_use ?P 8"
    using assms last_in_use(1) [of ?P 8] by (simp add: parse_vht_mimo_streams_def last_in_use_def)
  show "0 < n \<Longrightarrow> ?P (n - 1)" using last_in_use(2) [of ?P 8] n by simp
  show "n \<le> i \<Longrightarrow> i < 8 \<Longrightarrow> drop_bit (i * 2) (vht_mcs_map p) AND 3 = 3" using last_in_use(3) [of ?P 8 i] n by simp
qed

end
