(* ===== verification/Track_Mileage.thy ===== *)
theory Track_Mileage
  imports NC_Texts Py_Float
begin

text \<open>
  \<^verbatim>\<open>utils/mileage.py\<close>: parsing and formatting of track mileages such as \<^verbatim>\<open>ZDK12+345.5\<close>. The
  expressions are written out as matchers over ASCII digits and letters; distances are doubles, and
  the exceptions that the conversions between integers and floats raise on huge numbers are values.
  The storage text and search tokens of a fractional distance need the shortest decimal text of a
  float and are not modelled.
\<close>

section \<open>Tables\<close>

definition EMPTY_MILEAGE_VALUES :: "string list" where
  "EMPTY_MILEAGE_VALUES =
     [[], ''-'', ''N/A'', ''NA'', ''UNKNOWN'', zh_unknown, zh_nothing, ''NONE'', ''NULL'']"

definition TRACK_MILEAGE_PREFIXES :: "string list" where
  "TRACK_MILEAGE_PREFIXES = [''ZDK'', ''YDK'', ''CDK'', ''RDK'']"

definition PREFIX_ALIASES :: "(string \<times> string) list" where
  "PREFIX_ALIASES =
     [(zh_left_line, ''ZDK''), (zh_left_line_mileage, ''ZDK''), (zh_left, ''ZDK''),
      (zh_down_direction, ''ZDK''), (zh_down, ''ZDK''), (''Z'', ''ZDK''), (''ZDK'', ''ZDK''),
      (zh_right_line, ''YDK''), (zh_right_line_mileage, ''YDK''), (zh_right, ''YDK''),
      (zh_up_direction, ''YDK''), (zh_up, ''YDK''), (''Y'', ''YDK''), (''YDK'', ''YDK''),
      (zh_exit_line, ''CDK''), (zh_exit, ''CDK''), (zh_exit_depot_line, ''CDK''), (''C'', ''CDK''),
      (''CDK'', ''CDK''), (zh_entry_line, ''RDK''), (zh_entry, ''RDK''), (zh_entry_depot_line, ''RDK''),
      (''R'', ''RDK''), (''RDK'', ''RDK'')]"

record TrackMileage =
  tm_raw :: string
  tm_meters :: "pyfloat option"
  tm_prefix :: "string option"
  tm_display :: string
  tm_error :: string

section \<open>Numbers\<close>

text \<open>\<open>int(x)\<close> of a float, and \<open>n + x\<close> of an integer and a float.\<close>

fun int_of_pyfloat :: "pyfloat \<Rightarrow> int result" where
  "int_of_pyfloat (Fin a) = (let (p, q) = quotient_of a in Inr (if p < 0 then - (- p div q) else p div q))"
| "int_of_pyfloat FNaN = Inl (ValueError ''cannot convert float NaN to integer'')"
| "int_of_pyfloat _ = Inl OverflowError"

definition int_plus_float :: "int \<Rightarrow> pyfloat \<Rightarrow> pyfloat result" where
  "int_plus_float n x =
     (case double_frac n 1 of Fin a \<Rightarrow> Inr (fadd (Fin a) x) | _ \<Rightarrow> Inl OverflowError)"

text \<open>\<open>int(s)\<close> of ASCII digits: Python refuses more than 4300 of them.\<close>

definition int_of_digits :: "string \<Rightarrow> int result" where
  "int_of_digits s =
     (if 4300 < length s
      then Inl (ValueError (''Exceeds the limit (4300 digits) for integer string conversion: value has '' @
             show_nat (length s) @ '' digits; use sys.set_int_max_str_digits() to increase the limit''))
      else Inr (int (nat_of_digits s)))"

definition float_of_decimal :: "string \<times> string \<Rightarrow> pyfloat" where
  "float_of_decimal wd = (case wd of (w, f) \<Rightarrow> double_frac (int (nat_of_digits (w @ f))) (10 ^ length f))"

text \<open>The expression \<^verbatim>\<open>\d+(?:\.\d+)?\<close> on a whole text: the digits before and after the point.\<close>

definition match_decimal :: "string \<Rightarrow> (string \<times> string) option" where
  "match_decimal s =
     (let w = takeWhile is_digit s in
      if w = [] then None
      else (case drop (length w) s of
              [] \<Rightarrow> Some (w, [])
            | c # cs \<Rightarrow> if c = CHR ''.'' \<and> isdigit cs then Some (w, cs) else None))"

text \<open>The expression \<^verbatim>\<open>([A-Z]*K)?(\d+)\+(\d+(?:\.\d+)?)\<close>: prefix, kilometres and metres.\<close>

definition match_track :: "string \<Rightarrow> (string \<times> string \<times> string \<times> string) option" where
  "match_track s =
     (let p = takeWhile is_upper s; rest = drop (length p) s; km = takeWhile is_digit rest in
      if (p \<noteq> [] \<and> last p \<noteq> CHR ''K'') \<or> km = [] then None
      else (case drop (length km) rest of
              [] \<Rightarrow> None
            | c # cs \<Rightarrow>
                if c = CHR ''+'' then map_option (\<lambda>(w, f). (p, km, w, f)) (match_decimal cs) else None))"

section \<open>Parsing and formatting\<close>

definition is_empty_mileage :: "pyval \<Rightarrow> bool" where
  "is_empty_mileage v \<longleftrightarrow> upper (text_of v) \<in> set EMPTY_MILEAGE_VALUES"

definition normalize_prefix :: "string \<Rightarrow> string option" where
  "normalize_prefix p = (let t = upper (strip p) in if t \<in> set TRACK_MILEAGE_PREFIXES then Some t else None)"

definition pad3 :: "int \<Rightarrow> string" where
  "pad3 r = (let s = show_nat (nat r) in replicate (3 - length s) (CHR ''0'') @ s)"

definition format_meters :: "pyfloat \<Rightarrow> string option \<Rightarrow> string result" where
  "format_meters x p =
     (case int_of_pyfloat x of
        Inl e \<Rightarrow> Inl e
      | Inr n \<Rightarrow> Inr ((case p of Some q \<Rightarrow> q | None \<Rightarrow> ''K'') @ show_int (n div 1000) @ ''+'' @ pad3 (n mod 1000)))"

definition mileage_of :: "string \<Rightarrow> string option \<Rightarrow> pyfloat \<Rightarrow> TrackMileage result" where
  "mileage_of raw p x =
     (case format_meters x p of
        Inl e \<Rightarrow> Inl e
      | Inr d \<Rightarrow> Inr \<lparr>tm_raw = raw, tm_meters = Some x, tm_prefix = p, tm_display = d, tm_error = []\<rparr>)"

definition parse_track_mileage :: "pyval \<Rightarrow> TrackMileage result" where
  "parse_track_mileage v =
     (let raw = (if v = PNone then [] else strip (py_str v)) in
      if is_empty_mileage (PStr raw)
      then Inr \<lparr>tm_raw = raw, tm_meters = None, tm_prefix = None, tm_display = ''-'', tm_error = []\<rparr>
      else (let s = upper (filter (\<lambda>c. c \<noteq> CHR '' '') raw) in
        case match_track s of
          Some (p, km, w, f) \<Rightarrow>
            (case int_of_digits km of
               Inl e \<Rightarrow> Inl e
             | Inr k \<Rightarrow>
                 (case int_plus_float (k * 1000) (float_of_decimal (w, f)) of
                    Inl e \<Rightarrow> Inl e
                  | Inr x \<Rightarrow> mileage_of raw (normalize_prefix p) x))
        | None \<Rightarrow>
            (case match_decimal s of
               Some wd \<Rightarrow> mileage_of raw None (float_of_decimal wd)
             | None \<Rightarrow> Inr \<lparr>tm_raw = raw, tm_meters = None, tm_prefix = None, tm_display = ''-'',
                            tm_error = msg_mileage_unparsable\<rparr>)))"

text \<open>A whole number of metres is given as an integer.\<close>

definition compact_number :: "pyfloat \<Rightarrow> int + pyfloat" where
  "compact_number x =
     (case x of
        Fin a \<Rightarrow> (let (p, q) = quotient_of a in if q = 1 then Inl p else Inr x)
      | _ \<Rightarrow> Inr x)"

definition parse_mileage_to_meters :: "pyval \<Rightarrow> (int + pyfloat) option result" where
  "parse_mileage_to_meters v =
     (case parse_track_mileage v of
        Inl e \<Rightarrow> Inl e
      | Inr m \<Rightarrow> Inr (map_option compact_number (tm_meters m)))"

text \<open>Removal of blanks and separators, among them the full-width colon and brackets.\<close>

fun remove_separators :: "string \<Rightarrow> string" where
  "remove_separators (a # b # c # cs) =
     (if [a, b, c] \<in> {zh_wide_colon, zh_wide_left_bracket, zh_wide_right_bracket} then remove_separators cs
      else if is_space a \<or> a \<in> set ''_:()-/'' then remove_separators (b # c # cs)
      else a # remove_separators (b # c # cs))"
| "remove_separators s = filter (\<lambda>a. \<not> (is_space a \<or> a \<in> set ''_:()-/'')) s"

definition normalize_mileage_prefix :: "pyval \<Rightarrow> string option" where
  "normalize_mileage_prefix v =
     (let t = text_of v in
      if t = [] then None
      else (case map_of PREFIX_ALIASES (upper (remove_separators t)) of
              Some p \<Rightarrow> Some p
            | None \<Rightarrow> map_of PREFIX_ALIASES t))"

fun first_prefix :: "pyval list \<Rightarrow> string option" where
  "first_prefix [] = None"
| "first_prefix (v # vs) = (case normalize_mileage_prefix v of Some p \<Rightarrow> Some p | None \<Rightarrow> first_prefix vs)"

definition format_track_mileage :: "pyval \<Rightarrow> pyval \<Rightarrow> pyval \<Rightarrow> pyval \<Rightarrow> pyval \<Rightarrow> string result" where
  "format_track_mileage v direction mileage_type prefix line_side =
     (case parse_track_mileage v of
        Inl e \<Rightarrow> Inl e
      | Inr m \<Rightarrow>
          (case tm_meters m of
             None \<Rightarrow> Inr (if is_empty_mileage (PStr (tm_raw m)) \<or> tm_error m \<noteq> [] then ''-'' else tm_raw m)
           | Some x \<Rightarrow>
               format_meters x (case tm_prefix m of
                                  Some p \<Rightarrow> Some p
                                | None \<Rightarrow> first_prefix [prefix, mileage_type, line_side, direction])))"

definition format_mileage_k :: "pyval \<Rightarrow> pyval \<Rightarrow> pyval \<Rightarrow> string result" where
  "format_mileage_k v direction prefix = format_track_mileage v direction PNone prefix PNone"

section \<open>Exact integers\<close>

lemma round_div_1 [simp]: "round_div n 1 = n"
  by (simp add: round_div_def)

lemma bitlen_le_53: "n < 2 ^ 53 \<Longrightarrow> bitlen n \<le> 53"
  using bitlen_le_iff_power [of n 53] by simp

lemma leading_exponent_int:
  assumes "1 \<le> n" "n < 2 ^ 53"
  shows "- 1 \<le> leading_exponent n 1 \<and> leading_exponent n 1 \<le> 52"
proof -
  have "1 \<le> bitlen n" using assms(1) bitlen_le_iff_power [of n 0] by (cases "bitlen n \<le> 0") auto
  moreover have "bitlen n \<le> 53" by (rule bitlen_le_53 [OF assms(2)])
  moreover have "bitlen 1 = 1" by (simp add: bitlen_def floorlog_def)
  ultimately show ?thesis by (auto simp: leading_exponent_def Let_def)
qed

lemma double_frac_int:
  assumes "0 \<le> n" "n < 2 ^ 53"
  shows "double_frac n 1 = Fin (of_int n)"
proof (cases "n = 0")
  case True
  then show ?thesis by (simp add: double_frac_def)
next
  case False
  define e where "e = max (leading_exponent n 1 - 52) (- 1074)"
  have e: "- 53 \<le> e" "e \<le> 0" using leading_exponent_int [of n] assms False by (auto simp: e_def)
  define k where "k = nat (- e)"
  have k: "k \<le> 53" "nat e = 0" using e by (simp_all add: k_def)
  have nd: "nearest_double n 1 = (n * 2 ^ k, e)"
    using k by (simp add: nearest_double_def Let_def k_def flip: e_def)
  have "(2 :: int) ^ k \<le> 2 ^ 53" using k(1) by (intro power_increasing) auto
  then have "n * 2 ^ k < 2 ^ 53 * 2 ^ 53"
    using assms by (intro mult_less_le_imp_less) auto
  also have "(2 :: int) ^ 53 * 2 ^ 53 \<le> 2 ^ 1024" by (simp flip: power_add add: power_increasing)
  finally have small: "n * 2 ^ k < 2 ^ 1024" .
  have "Fract (n * 2 ^ k) (2 ^ k) = of_int n"
    by (simp add: Fract_of_int_quotient)
  then show ?thesis
    using False assms(1) small k by (simp add: double_frac_def nd k_def [symmetric])
qed

lemma quotient_of_whole: "quotient_of (rat_of_int c) = (c, 1)"
  by simp

lemma fadd_int:
  assumes "0 \<le> a" "0 \<le> b" "a + b < 2 ^ 53"
  shows "fadd (Fin (of_int a)) (Fin (of_int b)) = Fin (of_int (a + b))"
proof -
  have eq: "rat_of_int a + rat_of_int b = rat_of_int (a + b)" by simp
  show ?thesis
    unfolding fadd.simps double_def eq quotient_of_whole Let_def prod.case
    using assms by (intro double_frac_int) auto
qed

lemma int_plus_float_int:
  "0 \<le> a \<Longrightarrow> 0 \<le> b \<Longrightarrow> a + b < 2 ^ 53 \<Longrightarrow> int_plus_float a (Fin (of_int b)) = Inr (Fin (of_int (a + b)))"
  using fadd_int [of a b] by (simp add: int_plus_float_def double_frac_int del: fadd.simps)

section \<open>Matching the display form\<close>

definition mileage_text :: "string option \<Rightarrow> int \<Rightarrow> string" where
  "mileage_text p n = (case p of Some q \<Rightarrow> q | None \<Rightarrow> ''K'') @ show_int (n div 1000) @ ''+'' @ pad3 (n mod 1000)"

lemma pad3_digits: "list_all is_digit (pad3 r) \<and> pad3 r \<noteq> []"
  using show_nat_digits [of "nat r"] by (auto simp: pad3_def Let_def list_all_iff is_digit_def)

lemma nat_of_digits_zeros: "nat_of_digits (replicate k (CHR ''0'') @ s) = nat_of_digits s"
  by (induction k) (auto simp: nat_of_digits_def digit_val_def)

lemma nat_of_digits_pad3: "0 \<le> r \<Longrightarrow> nat_of_digits (pad3 r) = nat r"
  by (simp add: pad3_def Let_def nat_of_digits_zeros)

lemma takeWhile_digits: "list_all P xs \<Longrightarrow> (ys = [] \<or> \<not> P (hd ys)) \<Longrightarrow> takeWhile P (xs @ ys) = xs"
  by (cases ys) (auto simp: list_all_iff takeWhile_append)

lemma show_int_nonneg: "0 \<le> n \<Longrightarrow> show_int n = show_nat (nat n)"
  by (simp add: show_int_def)

definition prefix_ok :: "string option \<Rightarrow> bool" where
  "prefix_ok p \<longleftrightarrow> (case p of None \<Rightarrow> True | Some q \<Rightarrow> q \<in> set TRACK_MILEAGE_PREFIXES)"

definition shown_prefix :: "string option \<Rightarrow> string" where
  "shown_prefix p = (case p of Some q \<Rightarrow> q | None \<Rightarrow> ''K'')"

lemma shown_prefix_cases:
  "prefix_ok p \<Longrightarrow> shown_prefix p \<in> {''K'', ''ZDK'', ''YDK'', ''CDK'', ''RDK''}"
  by (auto simp: prefix_ok_def shown_prefix_def TRACK_MILEAGE_PREFIXES_def split: option.splits)

lemma normalize_shown_prefix: "prefix_ok p \<Longrightarrow> normalize_prefix (shown_prefix p) = p"
  by (auto simp: prefix_ok_def shown_prefix_def TRACK_MILEAGE_PREFIXES_def normalize_prefix_def
      strip_def lstrip_def rstrip_by_def is_space_def upper_def upper_char_def is_lower_def Let_def split: option.splits)

lemma shown_prefix_upper: "prefix_ok p \<Longrightarrow> list_all is_upper (shown_prefix p) \<and> last (shown_prefix p) = CHR ''K'' \<and> shown_prefix p \<noteq> []"
  using shown_prefix_cases [of p] by (auto simp: is_upper_def)

lemma digit_not_upper: "is_digit c \<Longrightarrow> \<not> is_upper c"
  by (auto simp: is_digit_def is_upper_def Let_def)

lemma match_decimal_digits: "list_all is_digit s \<Longrightarrow> s \<noteq> [] \<Longrightarrow> match_decimal s = Some (s, [])"
  by (simp add: match_decimal_def Let_def takeWhile_eq_all_conv [THEN iffD2] list_all_iff)

lemma match_track_display:
  assumes "prefix_ok p" "list_all is_digit km" "km \<noteq> []" "list_all is_digit me" "me \<noteq> []"
  shows "match_track (shown_prefix p @ km @ ''+'' @ me) = Some (shown_prefix p, km, me, [])"
proof -
  have "takeWhile is_upper (shown_prefix p @ km @ ''+'' @ me) = shown_prefix p"
    using assms shown_prefix_upper [OF assms(1)] digit_not_upper
    by (intro takeWhile_digits) (auto simp: list_all_iff hd_append)
  moreover have "takeWhile is_digit (km @ ''+'' @ me) = km"
    using assms(2) by (intro takeWhile_digits) (auto simp: is_digit_def)
  ultimately show ?thesis
    using assms shown_prefix_upper [OF assms(1)] by (simp add: match_track_def Let_def match_decimal_digits)
qed

lemma strip_id: "s \<noteq> [] \<Longrightarrow> \<not> is_space (hd s) \<Longrightarrow> \<not> is_space (last s) \<Longrightarrow> strip s = s"
proof -
  assume s: "s \<noteq> []" "\<not> is_space (hd s)" "\<not> is_space (last s)"
  have "dropWhile is_space s = s" using s by (cases s) auto
  moreover have "dropWhile is_space (rev s) = rev s" using s by (cases s rule: rev_cases) auto
  ultimately show "strip s = s" by (simp add: strip_def lstrip_def rstrip_by_def)
qed

lemma length_show_nat: "n < 10 ^ k \<Longrightarrow> 0 < k \<Longrightarrow> length (show_nat n) \<le> k"
proof (induction n arbitrary: k rule: show_nat.induct)
  case (1 n)
  show ?case
  proof (cases "n < 10")
    case True
    then show ?thesis using 1(3) by (subst show_nat.simps) simp
  next
    case False
    then obtain j where k: "k = Suc j" "0 < j" using 1(2,3) by (cases k; cases "k - 1") auto
    have "n div 10 < 10 ^ j" using 1(2) k by (simp add: less_mult_imp_div_less mult.commute)
    then show ?thesis using 1(1) [OF False, of j] False k by (subst show_nat.simps) simp
  qed
qed

lemma int_of_digits_show:
  assumes "0 \<le> n" "n < 2 ^ 53"
  shows "int_of_digits (show_nat (nat n)) = Inr n"
proof -
  have "nat n < 10 ^ 16" using assms by simp
  then have "length (show_nat (nat n)) \<le> 16" by (rule length_show_nat) simp
  then show ?thesis using assms by (simp add: int_of_digits_def)
qed

lemma int_of_pyfloat_int: "0 \<le> n \<Longrightarrow> int_of_pyfloat (Fin (of_int n)) = Inr n"
  by (simp add: Let_def)

lemma mileage_text_shown:
  assumes "0 \<le> n"
  shows "mileage_text p n = shown_prefix p @ show_nat (nat (n div 1000)) @ ''+'' @ pad3 (n mod 1000)"
  using assms by (simp add: mileage_text_def shown_prefix_def show_int_nonneg)

lemma mileage_text_chars:
  assumes "prefix_ok p" "0 \<le> n"
  shows "list_all (\<lambda>c. is_upper c \<or> is_digit c \<or> c = CHR ''+'') (mileage_text p n)"
  using shown_prefix_upper [OF assms(1)] pad3_digits [of "n mod 1000"] show_nat_digits [of "nat (n div 1000)"]
  by (auto simp: mileage_text_shown [OF assms(2)] list_all_iff)

lemma upper_id: "list_all (\<lambda>c. is_upper c \<or> is_digit c \<or> c = CHR ''+'') s \<Longrightarrow> upper s = s"
  by (induction s) (auto simp: upper_def upper_char_def is_lower_def is_upper_def is_digit_def Let_def)

lemma no_blank: "list_all (\<lambda>c. is_upper c \<or> is_digit c \<or> c = CHR ''+'') s \<Longrightarrow> c \<in> set s \<Longrightarrow> \<not> is_space c"
  by (auto simp: list_all_iff is_space_def is_upper_def is_digit_def Let_def)

lemma parse_mileage_text:
  assumes p: "prefix_ok p" and n: "0 \<le> n" "n < 2 ^ 53"
  shows "parse_track_mileage (PStr (mileage_text p n)) =
    Inr \<lparr>tm_raw = mileage_text p n, tm_meters = Some (Fin (of_int n)), tm_prefix = p,
         tm_display = mileage_text p n, tm_error = []\<rparr>"
proof -
  let ?s = "mileage_text p n" let ?k = "n div 1000" let ?r = "n mod 1000"
  note chars = mileage_text_chars [OF p n(1)]
  have ne: "?s \<noteq> []" by (simp add: mileage_text_def)
  have st: "strip ?s = ?s"
    using ne no_blank [OF chars] by (intro strip_id) auto
  have bl: "filter (\<lambda>c. c \<noteq> CHR '' '') ?s = ?s"
  proof (intro filter_True ballI)
    fix c assume "c \<in> set ?s"
    then have "\<not> is_space c" by (rule no_blank [OF chars])
    then show "c \<noteq> CHR '' ''" by (auto simp: is_space_def)
  qed
  have plus: "CHR ''+'' \<in> set ?s" by (simp add: mileage_text_def)
  have nonempty: "\<not> is_empty_mileage (PStr ?s)"
    using plus upper_id [OF chars] st
    by (auto simp: is_empty_mileage_def EMPTY_MILEAGE_VALUES_def zh_unknown_def zh_nothing_def)
  have tr: "match_track ?s = Some (shown_prefix p, show_nat (nat ?k), pad3 ?r, [])"
    unfolding mileage_text_shown [OF n(1)]
    using match_track_display [OF p, of "show_nat (nat ?k)" "pad3 ?r"] show_nat_digits [of "nat ?k"] pad3_digits [of ?r]
    by simp
  have km: "int_of_digits (show_nat (nat ?k)) = Inr ?k"
    using n by (intro int_of_digits_show) auto
  have r: "float_of_decimal (pad3 ?r, []) = Fin (of_int ?r)"
    using n by (simp add: float_of_decimal_def nat_of_digits_pad3 double_frac_int)
  have "int_plus_float (?k * 1000) (Fin (of_int ?r)) = Inr (Fin (of_int (?k * 1000 + ?r)))"
    using n by (intro int_plus_float_int) auto
  then have x: "int_plus_float (?k * 1000) (float_of_decimal (pad3 ?r, [])) = Inr (Fin (of_int n))"
    unfolding r by simp
  have d: "mileage_of ?s p (Fin (of_int n)) =
    Inr \<lparr>tm_raw = ?s, tm_meters = Some (Fin (of_int n)), tm_prefix = p, tm_display = ?s, tm_error = []\<rparr>"
    using int_of_pyfloat_int [OF n(1)]
    by (simp add: mileage_of_def format_meters_def mileage_text_def del: int_of_pyfloat.simps)
  show ?thesis
    using nonempty
    by (simp add: parse_track_mileage_def st bl upper_id [OF chars] tr km x d normalize_shown_prefix [OF p] Let_def)
qed

section \<open>Round trip of the display form\<close>

lemma round_div_nonneg: "0 \<le> n \<Longrightarrow> 0 < d \<Longrightarrow> 0 \<le> round_div n d"
  using pos_imp_zdiv_nonneg_iff [of d n] unfolding round_div_def Let_def by auto

lemma double_frac_nonneg:
  assumes "0 \<le> n" "0 < d" "double_frac n d = Fin x"
  shows "0 \<le> x"
proof (cases "n = 0")
  case True
  then show ?thesis using assms(3) by (simp add: double_frac_def)
next
  case False
  obtain m e where me: "nearest_double n d = (m, e)" by (cases "nearest_double n d")
  have "0 \<le> m"
    using me assms(1,2) round_div_nonneg
    unfolding nearest_double_def Let_def prod.inject abs_of_nonneg [OF assms(1)] by force
  then have "0 \<le> Fract (m * 2 ^ nat e) (2 ^ nat (- e))" by (simp add: zero_le_Fract_iff)
  then show ?thesis
    using assms(1,3) False by (simp add: double_frac_def me split: if_splits)
qed

lemma fadd_nonneg: "0 \<le> a \<Longrightarrow> 0 \<le> b \<Longrightarrow> fadd (Fin a) (Fin b) = Fin x \<Longrightarrow> 0 \<le> x"
proof -
  assume ab: "0 \<le> a" "0 \<le> b" and f: "fadd (Fin a) (Fin b) = Fin x"
  obtain p q where pq: "quotient_of (a + b) = (p, q)" by (cases "quotient_of (a + b)")
  have q: "0 < q" by (rule quotient_of_denom_pos [OF pq])
  have "a + b = of_int p / of_int q" by (rule quotient_of_div [OF pq])
  then have "0 \<le> rat_of_int p / rat_of_int q" using ab by (metis add_nonneg_nonneg)
  then have "0 \<le> p" using q by (auto simp: zero_le_divide_iff)
  then show "0 \<le> x" using double_frac_nonneg [of p q x] q f by (simp add: double_def pq)
qed

lemma float_of_decimal_nonneg: "float_of_decimal wd = Fin x \<Longrightarrow> 0 \<le> x"
  using double_frac_nonneg [of "int (nat_of_digits (fst wd @ snd wd))" "10 ^ length (snd wd)" x]
  by (cases wd) (simp add: float_of_decimal_def)

lemma int_plus_float_nonneg:
  assumes "0 \<le> n" "int_plus_float n (float_of_decimal wd) = Inr (Fin x)"
  shows "0 \<le> x"
proof -
  obtain a where a: "double_frac n 1 = Fin a" "fadd (Fin a) (float_of_decimal wd) = Fin x"
    using assms(2) by (auto simp: int_plus_float_def split: pyfloat.splits)
  have "0 \<le> a" using double_frac_nonneg [OF assms(1) _ a(1)] by simp
  then show ?thesis
    using a(2) float_of_decimal_nonneg [of wd] by (cases "float_of_decimal wd") (auto intro: fadd_nonneg)
qed

lemma int_of_pyfloat_floor:
  assumes "0 \<le> x"
  shows "int_of_pyfloat (Fin x) = Inr \<lfloor>x\<rfloor>"
proof -
  obtain p q where pq: "quotient_of x = (p, q)" by (cases "quotient_of x")
  have q: "0 < q" by (rule quotient_of_denom_pos [OF pq])
  have x: "x = of_int p / of_int q" by (rule quotient_of_div [OF pq])
  then have "0 \<le> p" using assms q by (auto simp: zero_le_divide_iff)
  moreover have "\<lfloor>x\<rfloor> = p div q" unfolding x by (rule floor_divide_of_int_eq)
  ultimately show ?thesis by (simp add: pq)
qed

lemma normalize_prefix_ok: "prefix_ok (normalize_prefix p)"
  by (simp add: prefix_ok_def normalize_prefix_def Let_def)

lemma int_of_digits_nonneg: "int_of_digits s = Inr k \<Longrightarrow> 0 \<le> k"
  by (auto simp: int_of_digits_def split: if_splits)

lemma mileage_of_display:
  assumes "mileage_of raw p (Fin x) = Inr m" "0 \<le> x"
  shows "tm_display m = mileage_text p \<lfloor>x\<rfloor> \<and> tm_prefix m = p \<and> tm_meters m = Some (Fin x)"
  using assms int_of_pyfloat_floor [OF assms(2)]
  by (auto simp: mileage_of_def format_meters_def mileage_text_def simp del: int_of_pyfloat.simps)

lemma mileage_of_meters: "mileage_of raw p y = Inr m \<Longrightarrow> tm_meters m = Some y"
  by (auto simp: mileage_of_def split: sum.splits)

lemma parse_track_display:
  assumes "parse_track_mileage v = Inr m" and "tm_meters m = Some (Fin x)"
  shows "tm_display m = mileage_text (tm_prefix m) \<lfloor>x\<rfloor> \<and> prefix_ok (tm_prefix m) \<and> 0 \<le> x"
proof -
  have "\<exists>raw p y. mileage_of raw p y = Inr m \<and> prefix_ok p \<and> (\<forall>z. y = Fin z \<longrightarrow> 0 \<le> z)"
  proof -
    define raw where "raw = (if v = PNone then [] else strip (py_str v))"
    define s where "s = upper (filter (\<lambda>c. c \<noteq> CHR '' '') raw)"
    have body: "\<not> is_empty_mileage (PStr raw)"
      using assms by (auto simp: parse_track_mileage_def Let_def simp flip: raw_def)
    show ?thesis
    proof (cases "match_track s")
      case None
      then obtain wd where wd: "match_decimal s = Some wd" "mileage_of raw None (float_of_decimal wd) = Inr m"
        using assms body
        by (auto simp: parse_track_mileage_def Let_def split: option.splits simp flip: raw_def s_def)
      then show ?thesis
        using float_of_decimal_nonneg [of wd]
        by (intro exI [of _ raw] exI [of _ None] exI [of _ "float_of_decimal wd"]) (simp add: prefix_ok_def)
    next
      case (Some r)
      obtain p km w f where r: "r = (p, km, w, f)" by (cases r)
      obtain k y where k: "int_of_digits km = Inr k" "int_plus_float (k * 1000) (float_of_decimal (w, f)) = Inr y"
        and m: "mileage_of raw (normalize_prefix p) y = Inr m"
        using assms(1) body Some r
        by (auto simp: parse_track_mileage_def Let_def split: sum.splits simp flip: raw_def s_def)
      show ?thesis
        using m k int_of_digits_nonneg [OF k(1)] int_plus_float_nonneg [of "k * 1000" "(w, f)"] normalize_prefix_ok [of p]
        by (intro exI [of _ raw] exI [of _ "normalize_prefix p"] exI [of _ y]) auto
    qed
  qed
  then obtain raw p y where y: "mileage_of raw p y = Inr m" "prefix_ok p" "\<forall>z. y = Fin z \<longrightarrow> 0 \<le> z" by blast
  have "y = Fin x" using mileage_of_meters [OF y(1)] assms(2) by simp
  then show ?thesis using mileage_of_display [of raw p x m] y by simp
qed

text \<open>
  C39. The display of a mileage is a canonical form: when a value parses to less than \<open>2 ^ 53\<close>
  metres, its display parses to the same prefix, to the whole metres of the value, and to the same
  display. So the fraction of a metre is lost by formatting and nothing else is.
\<close>

theorem mileage_display_roundtrip:
  assumes "parse_track_mileage v = Inr m" and "tm_meters m = Some (Fin x)" and "x < 2 ^ 53"
  shows "parse_track_mileage (PStr (tm_display m)) =
    Inr \<lparr>tm_raw = tm_display m, tm_meters = Some (Fin (of_int \<lfloor>x\<rfloor>)), tm_prefix = tm_prefix m,
         tm_display = tm_display m, tm_error = []\<rparr>"
proof -
  note d = parse_track_display [OF assms(1,2)]
  have "\<lfloor>x\<rfloor> < 2 ^ 53" using assms(3) by (simp add: floor_less_iff)
  then show ?thesis using parse_mileage_text [of "tm_prefix m" "\<lfloor>x\<rfloor>"] d by simp
qed

theorem mileage_display_roundtrip_witness:
  "\<exists>m. parse_track_mileage (PStr ''zdk12 + 345.5'') = Inr m \<and>
     map_sum id tm_meters (parse_track_mileage (PStr (tm_display m))) = Inr (Some (Fin 12345))"
proof -
  have "map_sum id (\<lambda>m. (tm_meters m, tm_display m)) (parse_track_mileage (PStr ''zdk12 + 345.5'')) =
      Inr (Some (Fin (24691 / 2)), ''ZDK12+345'')"
    by code_simp
  then obtain m where m: "parse_track_mileage (PStr ''zdk12 + 345.5'') = Inr m" "tm_meters m = Some (Fin (24691 / 2))"
    by (cases "parse_track_mileage (PStr ''zdk12 + 345.5'')") auto
  have "\<lfloor>24691 / 2 :: rat\<rfloor> = 12345" by (rule floor_unique) simp_all
  then show ?thesis using mileage_display_roundtrip [OF m] m(1) by auto
qed

end
