(* ===== verification/Ap_Identity.thy ===== *)
theory Ap_Identity
  imports Track_Mileage
begin

text \<open>
  Matching an observation of an access point with the known access points:
  \<^verbatim>\<open>core/ap_identity/normalizers.py\<close> (texts, MAC addresses, names and mileages in canonical form),
  \<^verbatim>\<open>services/ap_identity/models.py\<close> and \<^verbatim>\<open>services/ap_identity/resolver.py\<close>. Identity fields are
  values of any type, as the normalisers take them; the expressions for the MAC formats are written
  out as matchers over ASCII. The raw mappings the records carry along are left out.
\<close>

section \<open>Normalisers\<close>

definition EMPTY_VALUES :: "string list" where
  "EMPTY_VALUES =
     [[], ''-'', ''--'', ''n/a'', ''na'', ''none'', ''null'', ''unknown'', zh_unknown, zh_nothing]"

definition clean_text :: "pyval \<Rightarrow> string option" where
  "clean_text v =
     (if v = PNone then None
      else (let t = strip (py_str v) in if casefold t \<in> set EMPTY_VALUES then None else Some t))"

definition is_hex :: "char \<Rightarrow> bool" where
  "is_hex c \<longleftrightarrow> is_digit c \<or> c \<in> set ''abcdefABCDEF''"

text \<open>\<open>n + 1\<close> groups of \<open>width\<close> hexadecimal digits, with a separator from \<open>seps\<close> between two groups.\<close>

fun hex_groups :: "nat \<Rightarrow> string \<Rightarrow> nat \<Rightarrow> string \<Rightarrow> bool" where
  "hex_groups width seps 0 s = (length s = width \<and> list_all is_hex s)"
| "hex_groups width seps (Suc n) s =
     (length (take width s) = width \<and> list_all is_hex (take width s) \<and>
      (case drop width s of [] \<Rightarrow> False | c # cs \<Rightarrow> c \<in> set seps \<and> hex_groups width seps n cs))"

definition is_mac_text :: "string \<Rightarrow> bool" where
  "is_mac_text s \<longleftrightarrow>
     hex_groups 2 '':-'' 5 s \<or> hex_groups 4 ''.'' 2 s \<or> hex_groups 4 ''-'' 2 s \<or> hex_groups 12 [] 0 s"

text \<open>\<^verbatim>\<open>re.sub(r"[-:.]", "", text)\<close>\<close>

definition mac_digits :: "string \<Rightarrow> string" where
  "mac_digits t = filter (\<lambda>c. c \<notin> set ''-:.'') t"

definition normalize_mac_key :: "pyval \<Rightarrow> string option" where
  "normalize_mac_key v =
     (case clean_text v of
        None \<Rightarrow> None
      | Some t \<Rightarrow> if is_mac_text t then Some (casefold (mac_digits t)) else None)"

definition format_mac :: "pyval \<Rightarrow> string" where
  "format_mac v =
     (case normalize_mac_key v of
        None \<Rightarrow> []
      | Some k \<Rightarrow> take 4 k @ ''-'' @ take 4 (drop 4 k) @ ''-'' @ take 4 (drop 8 k))"

definition colon_form :: "string \<Rightarrow> string" where
  "colon_form k = join '':'' (map (\<lambda>i. take 2 (drop (2 * i) k)) [0..<6])"

definition normalize_mac :: "pyval \<Rightarrow> string option" where
  "normalize_mac v = map_option colon_form (normalize_mac_key v)"

definition mac_prefix :: "pyval \<Rightarrow> int \<Rightarrow> string option" where
  "mac_prefix v bits =
     (case normalize_mac_key v of
        None \<Rightarrow> None
      | Some k \<Rightarrow> if bits \<le> 0 \<or> 48 < bits \<or> bits mod 4 \<noteq> 0 then None else Some (take (nat (bits div 4)) k))"

text \<open>\<^verbatim>\<open>re.sub(r"\s+", " ", text)\<close>\<close>

function squeeze_spaces :: "string \<Rightarrow> string" where
  "squeeze_spaces [] = []"
| "squeeze_spaces (c # cs) =
     (if is_space c then CHR '' '' # squeeze_spaces (dropWhile is_space cs) else c # squeeze_spaces cs)"
  by pat_completeness auto
termination
  by (relation "measure length") (auto simp: le_imp_less_Suc length_dropWhile_le)

definition normalize_ap_name :: "pyval \<Rightarrow> string option" where
  "normalize_ap_name v = map_option squeeze_spaces (clean_text v)"

definition is_mac_like :: "pyval \<Rightarrow> bool" where
  "is_mac_like v \<longleftrightarrow> normalize_mac_key v \<noteq> None"

definition same_mac :: "pyval \<Rightarrow> pyval \<Rightarrow> bool" where
  "same_mac a b \<longleftrightarrow>
     (case (normalize_mac_key a, normalize_mac_key b) of (Some x, Some y) \<Rightarrow> x = y | _ \<Rightarrow> False)"

definition normalize_mileage :: "pyval \<Rightarrow> string option result" where
  "normalize_mileage v =
     (case clean_text v of
        None \<Rightarrow> Inr None
      | Some t \<Rightarrow>
          (case parse_track_mileage (PStr (filter (\<lambda>c. c \<noteq> CHR ''!'') t)) of
             Inl e \<Rightarrow> Inl e
           | Inr m \<Rightarrow> Inr (if tm_meters m \<noteq> None then Some (tm_display m) else None)))"

definition parse_line_direction :: "pyval \<Rightarrow> (string \<times> string) option" where
  "parse_line_direction v =
     (case clean_text v of
        None \<Rightarrow> None
      | Some t \<Rightarrow>
          (let compact = upper (filter (\<lambda>c. \<not> (is_space c \<or> c \<in> set ''!_:-/'')) t) in
           if startswith compact ''ZDK'' \<or> t \<in> {zh_left_line, zh_left, zh_down_direction, zh_down}
           then Some (zh_left_line, zh_down_direction)
           else if startswith compact ''YDK'' \<or> t \<in> {zh_right_line, zh_right, zh_up_direction, zh_up}
           then Some (zh_right_line, zh_up_direction)
           else if startswith compact ''CDK'' \<or> t \<in> {zh_exit_line, zh_exit, zh_exit_depot_line}
           then Some (zh_exit_line, zh_exit)
           else if startswith compact ''RDK'' \<or> t \<in> {zh_entry_line, zh_entry, zh_entry_depot_line}
           then Some (zh_entry_line, zh_entry)
           else None))"

definition normalize_identifier :: "pyval \<Rightarrow> string option" where
  "normalize_identifier v = clean_text v"

section \<open>Observations, candidates and results\<close>

record CanonicalApIdentity =
  id_ap_uuid :: pyval
  id_ap_mac :: pyval
  id_ap_name :: pyval
  id_ac_uuid :: pyval
  id_ap_id :: pyval
  id_serial_number :: pyval
  id_site_id :: pyval
  id_source :: pyval
  id_source_ref :: pyval

record CanonicalApRadioIdentity =
  ra_radio_id :: pyval
  ra_radio_mac :: pyval
  ra_bssid :: pyval
  ra_bbssid :: pyval
  ra_band :: pyval
  ra_ap_uuid :: pyval
  ra_ap_mac :: pyval

record CanonicalApLocation =
  lo_site :: pyval
  lo_station :: pyval
  lo_section :: pyval
  lo_mileage :: pyval
  lo_line :: pyval
  lo_direction :: pyval
  lo_ownership_type :: pyval
  lo_system_type :: pyval
  lo_network_domain :: pyval

record ApObservation =
  ob_ap_uuid :: pyval
  ob_ap_id :: pyval
  ob_ap_mac :: pyval
  ob_ap_name :: pyval
  ob_peer_mac :: pyval
  ob_peer_radio_mac :: pyval
  ob_radio_mac :: pyval
  ob_bssid :: pyval
  ob_ac_uuid :: pyval
  ob_device_uuid :: pyval
  ob_interface_name :: pyval
  ob_site :: pyval
  ob_station :: pyval
  ob_section :: pyval
  ob_mileage :: pyval
  ob_source :: pyval
  ob_source_ref :: pyval

record ApIdentityCandidate =
  ca_identity :: CanonicalApIdentity
  ca_radios :: "CanonicalApRadioIdentity list"
  ca_location :: CanonicalApLocation

record ApMatchEvidence =
  me_field :: string
  me_observation_value :: string
  me_candidate_value :: string
  me_confidence :: nat
  me_reason :: string

datatype ApMatchStatus = MATCHED | UNRESOLVED | AMBIGUOUS

record ApMatchResult =
  mr_status :: ApMatchStatus
  mr_candidate :: "ApIdentityCandidate option"
  mr_candidates :: "ApIdentityCandidate list"
  mr_evidence :: "ApMatchEvidence list"
  mr_warnings :: "string list"

section \<open>Matching\<close>

type_synonym matches = "ApIdentityCandidate list \<times> ApMatchEvidence list"

definition id_key :: "pyval \<Rightarrow> string option" where
  "id_key v = map_option casefold (normalize_identifier v)"

definition name_key :: "pyval \<Rightarrow> string option" where
  "name_key v = map_option casefold (normalize_ap_name v)"

definition evidence :: "string \<Rightarrow> nat \<Rightarrow> string \<Rightarrow> string \<Rightarrow> string \<Rightarrow> ApMatchEvidence" where
  "evidence field confidence why observed expected =
     \<lparr>me_field = field, me_observation_value = observed, me_candidate_value = expected,
      me_confidence = confidence, me_reason = why\<rparr>"

definition matches_by ::
  "string \<Rightarrow> string option \<Rightarrow> (ApIdentityCandidate \<Rightarrow> string option) \<Rightarrow> nat \<Rightarrow> string \<Rightarrow>
   ApIdentityCandidate list \<Rightarrow> matches" where
  "matches_by field observed value_of confidence why cs =
     (case observed of
        None \<Rightarrow> ([], [])
      | Some x \<Rightarrow>
          (let ms = filter (\<lambda>c. value_of c = Some x) cs in
           (ms, map (\<lambda>c. evidence field confidence why x (case value_of c of Some y \<Rightarrow> y | None \<Rightarrow> [])) ms)))"

definition radio_matches ::
  "string \<Rightarrow> string option \<Rightarrow> (CanonicalApRadioIdentity \<Rightarrow> string option list) \<Rightarrow> nat \<Rightarrow> string \<Rightarrow>
   ApIdentityCandidate list \<Rightarrow> matches" where
  "radio_matches field observed radio_values confidence why cs =
     (case observed of
        None \<Rightarrow> ([], [])
      | Some x \<Rightarrow>
          (let ms = filter (\<lambda>c. list_ex (\<lambda>r. Some x \<in> set (radio_values r)) (ca_radios c)) cs in
           (ms, map (\<lambda>_. evidence field confidence why x x) ms)))"

text \<open>A value in the scope of a controller.\<close>

definition scoped :: "string option \<Rightarrow> string option \<Rightarrow> string option" where
  "scoped a b = (case (a, b) of (Some x, Some y) \<Rightarrow> Some (x @ '':'' @ y) | _ \<Rightarrow> None)"

definition match_ap_uuid :: "ApObservation \<Rightarrow> ApIdentityCandidate list \<Rightarrow> matches" where
  "match_ap_uuid ob =
     matches_by ''ap_uuid'' (id_key (ob_ap_uuid ob)) (\<lambda>c. id_key (id_ap_uuid (ca_identity c))) 100 msg_reason_ap_uuid"

definition match_scoped_ap_id :: "ApObservation \<Rightarrow> ApIdentityCandidate list \<Rightarrow> matches" where
  "match_scoped_ap_id ob =
     matches_by ''ac_uuid+ap_id'' (scoped (id_key (ob_ac_uuid ob)) (id_key (ob_ap_id ob)))
       (\<lambda>c. scoped (id_key (id_ac_uuid (ca_identity c))) (id_key (id_ap_id (ca_identity c)))) 98 msg_reason_scoped_ap_id"

definition match_scoped_ap_mac :: "ApObservation \<Rightarrow> ApIdentityCandidate list \<Rightarrow> matches" where
  "match_scoped_ap_mac ob =
     matches_by ''ac_uuid+ap_mac'' (scoped (id_key (ob_ac_uuid ob)) (normalize_mac (ob_ap_mac ob)))
       (\<lambda>c. scoped (id_key (id_ac_uuid (ca_identity c))) (normalize_mac (id_ap_mac (ca_identity c)))) 96
       msg_reason_scoped_ap_mac"

definition match_ap_mac :: "ApObservation \<Rightarrow> ApIdentityCandidate list \<Rightarrow> matches" where
  "match_ap_mac ob =
     matches_by ''ap_mac'' (normalize_mac (ob_ap_mac ob)) (\<lambda>c. normalize_mac (id_ap_mac (ca_identity c))) 92
       msg_reason_ap_mac"

definition match_scoped_ap_name :: "ApObservation \<Rightarrow> ApIdentityCandidate list \<Rightarrow> matches" where
  "match_scoped_ap_name ob =
     matches_by ''ac_uuid+ap_name'' (scoped (id_key (ob_ac_uuid ob)) (name_key (ob_ap_name ob)))
       (\<lambda>c. scoped (id_key (id_ac_uuid (ca_identity c))) (name_key (id_ap_name (ca_identity c)))) 85
       msg_reason_scoped_ap_name"

definition match_ap_name :: "ApObservation \<Rightarrow> ApIdentityCandidate list \<Rightarrow> matches" where
  "match_ap_name ob =
     matches_by ''ap_name'' (name_key (ob_ap_name ob)) (\<lambda>c. name_key (id_ap_name (ca_identity c))) 75 msg_reason_ap_name"

definition match_radio_mac :: "ApObservation \<Rightarrow> ApIdentityCandidate list \<Rightarrow> matches" where
  "match_radio_mac ob =
     radio_matches ''radio_mac'' (normalize_mac (ob_radio_mac ob)) (\<lambda>r. [normalize_mac (ra_radio_mac r)]) 90
       msg_reason_radio_mac"

definition match_bssid :: "ApObservation \<Rightarrow> ApIdentityCandidate list \<Rightarrow> matches" where
  "match_bssid ob =
     radio_matches ''bssid'' (normalize_mac (ob_bssid ob))
       (\<lambda>r. [normalize_mac (ra_bssid r), normalize_mac (ra_bbssid r)]) 90 msg_reason_bssid"

text \<open>The first of two fields that matches anything.\<close>

definition first_field :: "(string \<Rightarrow> pyval \<Rightarrow> matches) \<Rightarrow> ApObservation \<Rightarrow> matches" where
  "first_field f ob =
     (let (ms, ev) = f ''peer_radio_mac'' (ob_peer_radio_mac ob) in
      if ms \<noteq> [] then (ms, ev)
      else (let (ms', ev') = f ''peer_mac'' (ob_peer_mac ob) in if ms' \<noteq> [] then (ms', ev') else ([], [])))"

definition match_peer_radio :: "ApObservation \<Rightarrow> ApIdentityCandidate list \<Rightarrow> matches" where
  "match_peer_radio ob cs =
     first_field (\<lambda>field v. radio_matches field (normalize_mac v)
       (\<lambda>r. [normalize_mac (ra_radio_mac r), normalize_mac (ra_bssid r), normalize_mac (ra_bbssid r)]) 80
       msg_reason_peer_radio cs) ob"

definition peer_ap_mac_fallback :: "ApObservation \<Rightarrow> ApIdentityCandidate list \<Rightarrow> matches" where
  "peer_ap_mac_fallback ob cs =
     first_field (\<lambda>field v. matches_by field (normalize_mac v) (\<lambda>c. normalize_mac (id_ap_mac (ca_identity c))) 55
       msg_reason_peer_ap_mac cs) ob"

definition observation_warnings :: "ApObservation \<Rightarrow> ApMatchEvidence list \<times> string list" where
  "observation_warnings ob =
     (case normalize_mac (ob_peer_mac ob) of
        None \<Rightarrow> ([], [])
      | Some p \<Rightarrow>
          (if normalize_mac (ob_peer_radio_mac ob) \<noteq> Some p then ([], [])
           else ([evidence ''peer_mac+peer_radio_mac'' 0 msg_reason_peer_duplicate p p], [PEER_MAC_DUPLICATE_WARNING])))"

definition location_entry :: "string \<Rightarrow> string option \<Rightarrow> string option \<Rightarrow> ApMatchEvidence list" where
  "location_entry field observed expected =
     (case (observed, expected) of
        (Some x, Some y) \<Rightarrow>
          (if x \<noteq> [] \<and> y \<noteq> [] \<and> casefold x = casefold y then [evidence field 10 msg_reason_location x y] else [])
      | _ \<Rightarrow> [])"

definition location_evidence :: "ApObservation \<Rightarrow> ApIdentityCandidate \<Rightarrow> ApMatchEvidence list result" where
  "location_evidence ob c =
     (let l = ca_location c in
      case normalize_mileage (ob_mileage ob) of
        Inl e \<Rightarrow> Inl e
      | Inr om \<Rightarrow>
          (case normalize_mileage (lo_mileage l) of
             Inl e \<Rightarrow> Inl e
           | Inr cm \<Rightarrow>
               Inr (location_entry ''site'' (normalize_ap_name (ob_site ob)) (normalize_ap_name (lo_site l)) @
                    location_entry ''station'' (normalize_ap_name (ob_station ob)) (normalize_ap_name (lo_station l)) @
                    location_entry ''section'' (normalize_ap_name (ob_section ob)) (normalize_ap_name (lo_section l)) @
                    location_entry ''mileage'' om cm)))"

definition result_for_matches ::
  "ApIdentityCandidate list \<Rightarrow> ApMatchEvidence list \<Rightarrow> string list \<Rightarrow> ApObservation \<Rightarrow> ApMatchResult result" where
  "result_for_matches ms ev ws ob =
     (case ms of
        [c] \<Rightarrow>
          (case location_evidence ob c of
             Inl e \<Rightarrow> Inl e
           | Inr le \<Rightarrow> Inr \<lparr>mr_status = MATCHED, mr_candidate = Some c, mr_candidates = ms,
                           mr_evidence = ev @ le, mr_warnings = ws\<rparr>)
      | _ \<Rightarrow> Inr \<lparr>mr_status = AMBIGUOUS, mr_candidate = None, mr_candidates = ms,
                 mr_evidence = ev, mr_warnings = ws\<rparr>)"

definition strategies :: "(ApObservation \<Rightarrow> ApIdentityCandidate list \<Rightarrow> matches) list" where
  "strategies =
     [match_ap_uuid, match_scoped_ap_id, match_scoped_ap_mac, match_ap_mac, match_radio_mac, match_bssid,
      match_peer_radio, match_scoped_ap_name, match_ap_name]"

fun first_match ::
  "(ApObservation \<Rightarrow> ApIdentityCandidate list \<Rightarrow> matches) list \<Rightarrow> ApObservation \<Rightarrow> ApIdentityCandidate list \<Rightarrow>
   matches option" where
  "first_match [] ob cs = None"
| "first_match (f # fs) ob cs =
     (let (ms, ev) = f ob cs in if ms = [] then first_match fs ob cs else Some (ms, ev))"

definition resolve :: "ApObservation \<Rightarrow> ApIdentityCandidate list \<Rightarrow> ApMatchResult result" where
  "resolve ob cs =
     (let (base, ws) = observation_warnings ob in
      case first_match strategies ob cs of
        Some (ms, ev) \<Rightarrow> result_for_matches ms (base @ ev) ws ob
      | None \<Rightarrow>
          (let (peers, ev) = peer_ap_mac_fallback ob cs in
           if peers \<noteq> []
           then Inr \<lparr>mr_status = UNRESOLVED, mr_candidate = None, mr_candidates = peers,
                     mr_evidence = base @ ev, mr_warnings = ws @ [PEER_AP_MAC_FALLBACK_WARNING]\<rparr>
           else Inr \<lparr>mr_status = UNRESOLVED, mr_candidate = None, mr_candidates = [],
                     mr_evidence = base, mr_warnings = ws\<rparr>))"

section \<open>Digits of an address\<close>

definition is_lower_hex :: "char \<Rightarrow> bool" where
  "is_lower_hex c \<longleftrightarrow> is_digit c \<or> c \<in> set ''abcdef''"

definition HEX_CHARS :: string where
  "HEX_CHARS = ''0123456789abcdefABCDEF''"

lemma is_digit_chars: "is_digit c \<longleftrightarrow> c \<in> set ''0123456789''"
proof (cases c)
  case (Char b0 b1 b2 b3 b4 b5 b6 b7)
  then show ?thesis
    by (cases b0; cases b1; cases b2; cases b3; cases b4; cases b5; cases b6; cases b7) (simp_all add: is_digit_code)
qed

lemma is_hex_chars: "is_hex c \<longleftrightarrow> c \<in> set HEX_CHARS"
  by (auto simp: is_hex_def is_digit_chars HEX_CHARS_def)

lemma hex_chars_facts:
  "list_all (\<lambda>c. is_lower_hex (lower_char c) \<and> (is_lower_hex c \<longrightarrow> lower_char c = c) \<and>
     \<not> is_space c \<and> c \<notin> set ''-:.'') HEX_CHARS"
  by code_simp

lemma lower_hex: "is_hex c \<Longrightarrow> is_lower_hex (lower_char c)"
  using hex_chars_facts by (simp add: is_hex_chars list_all_iff)

lemma lower_hex_hex: "is_lower_hex c \<Longrightarrow> is_hex c"
  by (auto simp: is_hex_def is_lower_hex_def)

lemma lower_hex_fixed: "is_lower_hex c \<Longrightarrow> lower_char c = c"
  using hex_chars_facts lower_hex_hex [of c] by (simp add: is_hex_chars list_all_iff)

lemma hex_plain: "is_hex c \<Longrightarrow> \<not> is_space c \<and> c \<notin> set ''-:.''"
  using hex_chars_facts unfolding is_hex_chars list_all_iff by blast

lemma filter_hex: "list_all is_hex s \<Longrightarrow> mac_digits s = s"
  unfolding mac_digits_def using hex_plain by (intro filter_True) (auto simp only: list_all_iff)

lemma mac_digits_append: "mac_digits (s @ t) = mac_digits s @ mac_digits t"
  by (simp add: mac_digits_def)

lemma mac_digits_sep: "c \<in> set ''-:.'' \<Longrightarrow> mac_digits (c # s) = mac_digits s"
  unfolding mac_digits_def by (simp only: filter.simps simp_thms if_False)

text \<open>A MAC text has twelve digits once its separators are dropped, whatever its format.\<close>

lemma hex_groups_key:
  "hex_groups width seps n s \<Longrightarrow> set seps \<subseteq> set ''-:.'' \<Longrightarrow>
   length (mac_digits s) = width * Suc n \<and> list_all is_hex (mac_digits s)"
proof (induction n arbitrary: s)
  case 0
  then show ?case by (auto simp: filter_hex)
next
  case (Suc n)
  from Suc.prems(1) obtain c cs where d: "drop width s = c # cs" "c \<in> set seps" "hex_groups width seps n cs"
    and t: "length (take width s) = width" "list_all is_hex (take width s)"
    by (auto split: list.splits)
  have s: "s = take width s @ c # cs" using d(1) append_take_drop_id [of width s] by simp
  have "c \<in> set ''-:.''" using d(2) Suc.prems(2) by blast
  then have "mac_digits s = take width s @ mac_digits cs"
    by (subst s) (simp only: mac_digits_append filter_hex [OF t(2)] mac_digits_sep)
  then show ?case using Suc.IH [OF d(3) Suc.prems(2)] t by simp
qed

text \<open>Groups of digits joined by a separator are such a text.\<close>

lemma hex_groups_join:
  "gs \<noteq> [] \<Longrightarrow> list_all (\<lambda>g. length g = width \<and> list_all is_hex g) gs \<Longrightarrow> c \<in> set seps \<Longrightarrow> c \<in> set ''-:.'' \<Longrightarrow>
   hex_groups width seps (length gs - 1) (join [c] gs) \<and> mac_digits (join [c] gs) = concat gs"
proof (induction gs rule: induct_list012)
  case (3 g g' gs)
  then show ?case
    by (simp add: mac_digits_append mac_digits_sep filter_hex del: set_simps)
qed (simp_all add: filter_hex)

definition mac_key :: "string \<Rightarrow> bool" where
  "mac_key k \<longleftrightarrow> length k = 12 \<and> list_all is_lower_hex k"

lemma normalize_mac_key_form:
  assumes "normalize_mac_key v = Some k"
  shows "mac_key k"
proof -
  obtain t where t: "is_mac_text t" "k = casefold (mac_digits t)"
    using assms by (auto simp: normalize_mac_key_def split: option.splits if_splits)
  have "length (mac_digits t) = 12 \<and> list_all is_hex (mac_digits t)"
    using t(1) hex_groups_key [of 2 "'':-''" 5 t] hex_groups_key [of 4 "''.''" 2 t]
      hex_groups_key [of 4 "''-''" 2 t] hex_groups_key [of 12 "[]" 0 t]
    by (auto simp: is_mac_text_def)
  then show ?thesis
    by (auto simp: t(2) mac_key_def casefold_def list_all_iff intro: lower_hex)
qed

section \<open>The formats of one address\<close>

definition groups_of :: "nat \<Rightarrow> string \<Rightarrow> string list" where
  "groups_of width k = map (\<lambda>i. take width (drop (width * i) k)) [0..<12 div width]"

definition mac_forms :: "string \<Rightarrow> string list" where
  "mac_forms k =
     [k, join '':'' (groups_of 2 k), join ''-'' (groups_of 2 k), join ''.'' (groups_of 4 k),
      join ''-'' (groups_of 4 k)]"

lemma twelve:
  assumes "length k = 12"
  obtains a b c d e f g h i j l m where "k = [a, b, c, d, e, f, g, h, i, j, l, m]"
proof -
  have "length k = Suc (Suc (Suc (Suc (Suc (Suc (Suc (Suc (Suc (Suc (Suc (Suc 0)))))))))))" using assms by simp
  then show ?thesis unfolding length_Suc_conv length_0_conv by (elim exE conjE) (rule that, blast)
qed

lemma groups_of_facts:
  assumes "length k = 12" "list_all is_hex k" "width \<in> {2, 4}"
  shows "list_all (\<lambda>g. length g = width \<and> list_all is_hex g) (groups_of width k) \<and>
         length (groups_of width k) = 12 div width \<and> concat (groups_of width k) = k \<and> groups_of width k \<noteq> []"
proof -
  obtain a b c d e f g h i j l m where k: "k = [a, b, c, d, e, f, g, h, i, j, l, m]"
    using twelve [OF assms(1)] by blast
  have "groups_of 2 k = [[a, b], [c, d], [e, f], [g, h], [i, j], [l, m]]"
    by (simp add: groups_of_def k upt_conv_Cons)
  moreover have "groups_of 4 k = [[a, b, c, d], [e, f, g, h], [i, j, l, m]]"
    by (simp add: groups_of_def k upt_conv_Cons)
  moreover have "width = 2 \<or> width = 4" using assms(3) by simp
  ultimately show ?thesis using assms(2) by (elim disjE) (simp_all add: k)
qed

lemma join_ends:
  "gs \<noteq> [] \<Longrightarrow> list_all (\<lambda>g. g \<noteq> []) gs \<Longrightarrow>
   hd (join s gs) = hd (concat gs) \<and> last (join s gs) = last (concat gs) \<and> join s gs \<noteq> [] \<and>
   length (concat gs) \<le> length (join s gs)"
  by (induction gs rule: induct_list012) auto

lemma mac_form_text:
  assumes "length k = 12" "list_all is_hex k" "f \<in> set (mac_forms k)"
  shows "is_mac_text f \<and> mac_digits f = k \<and> 12 \<le> length f \<and> hd f = hd k \<and> last f = last k"
proof -
  have g: "list_all (\<lambda>g. g \<noteq> []) (groups_of w k) \<and> concat (groups_of w k) = k \<and> groups_of w k \<noteq> []"
    if "w \<in> {2, 4}" for w
    using groups_of_facts [OF assms(1,2) that] that by (auto simp: list_all_iff)
  have ends: "12 \<le> length (join s (groups_of w k)) \<and> hd (join s (groups_of w k)) = hd k \<and>
      last (join s (groups_of w k)) = last k" if "w \<in> {2, 4}" for s w
    using join_ends [of "groups_of w k" s] g [OF that] assms(1) by auto
  have joined: "hex_groups w seps (12 div w - 1) (join [c] (groups_of w k)) \<and> mac_digits (join [c] (groups_of w k)) = k"
    if "w \<in> {2, 4}" "c \<in> set seps" "c \<in> set ''-:.''" for w seps c
    using hex_groups_join [of "groups_of w k" w c seps] groups_of_facts [OF assms(1,2) that(1)] that by auto
  from assms(3) consider "f = k" | "f = join '':'' (groups_of 2 k)" | "f = join ''-'' (groups_of 2 k)"
    | "f = join ''.'' (groups_of 4 k)" | "f = join ''-'' (groups_of 4 k)" by (auto simp: mac_forms_def)
  then show ?thesis
  proof cases
    case 1
    then show ?thesis using assms(1,2) by (simp add: filter_hex is_mac_text_def)
  next
    case 2
    then show ?thesis using ends [of 2 "'':''"] joined [of 2 "CHR '':''" "'':-''"] by (simp add: is_mac_text_def)
  next
    case 3
    then show ?thesis using ends [of 2 "''-''"] joined [of 2 "CHR ''-''" "'':-''"] by (simp add: is_mac_text_def)
  next
    case 4
    then show ?thesis using ends [of 4 "''.''"] joined [of 4 "CHR ''.''" "''.''"] by (simp add: is_mac_text_def)
  next
    case 5
    then show ?thesis using ends [of 4 "''-''"] joined [of 4 "CHR ''-''" "''-''"] by (simp add: is_mac_text_def)
  qed
qed

section \<open>One canonical form\<close>

lemma clean_text_mac:
  assumes "12 \<le> length f" "is_hex (hd f)" "is_hex (last f)"
  shows "clean_text (PStr f) = Some f"
proof -
  have "f \<noteq> []" using assms(1) by auto
  then have "strip f = f" using assms hex_plain by (intro strip_id) auto
  moreover have "casefold f \<notin> set EMPTY_VALUES"
  proof
    assume "casefold f \<in> set EMPTY_VALUES"
    then have "length (casefold f) \<le> 7"
      by (auto simp: EMPTY_VALUES_def zh_unknown_def zh_nothing_def)
    then show False using assms(1) by (simp add: casefold_def)
  qed
  ultimately show ?thesis by (simp add: clean_text_def)
qed

lemma mac_forms_key:
  assumes "length k = 12" "list_all is_hex k" "f \<in> set (mac_forms k)"
  shows "normalize_mac_key (PStr f) = Some (casefold k)"
proof -
  have "k \<noteq> []" using assms(1) by auto
  then have "is_hex (hd k)" "is_hex (last k)" using assms(2) by (auto simp: list_all_iff)
  then show ?thesis
    using mac_form_text [OF assms] clean_text_mac [of f] by (simp add: normalize_mac_key_def)
qed

lemma mac_key_casefold: "mac_key k \<Longrightarrow> casefold k = k \<and> list_all is_hex k"
  by (auto simp: mac_key_def casefold_def list_all_iff lower_hex_hex lower_hex_fixed intro!: map_idI)

lemma colon_form_groups: "colon_form k = join '':'' (groups_of 2 k)"
  by (simp add: colon_form_def groups_of_def)

lemma normalize_mac_fixed:
  assumes "normalize_mac v = Some m"
  shows "normalize_mac (PStr m) = Some m"
proof -
  obtain x where x: "normalize_mac_key v = Some x" "m = colon_form x"
    using assms by (auto simp: normalize_mac_def)
  note xk = normalize_mac_key_form [OF x(1)]
  have "normalize_mac_key (PStr m) = Some (casefold x)"
    using xk mac_key_casefold [OF xk]
    by (intro mac_forms_key) (auto simp: mac_key_def mac_forms_def x(2) colon_form_groups)
  then show ?thesis using mac_key_casefold [OF xk] x(2) by (simp add: normalize_mac_def)
qed

text \<open>
  MAC addresses have one canonical form: the five usual formats of twelve hexadecimal digits, in
  any case, have the same key, twelve lower-case digits; and the colon form the normaliser answers
  for any value is recognised again with itself as the result.
\<close>

theorem normalize_mac_canonical:
  assumes "length k = 12" and "list_all is_hex k" and "f \<in> set (mac_forms k)"
  shows "normalize_mac_key (PStr f) = Some (casefold k) \<and> mac_key (casefold k) \<and>
         (normalize_mac v = Some m \<longrightarrow> normalize_mac (PStr m) = Some m)"
  using mac_forms_key [OF assms] normalize_mac_key_form [OF mac_forms_key [OF assms]] normalize_mac_fixed [of v m]
  by simp

theorem normalize_mac_canonical_witness:
  "normalize_mac_key (PStr ''AABB-CC00-1122'') = Some ''aabbcc001122'' \<and>
   normalize_mac (PStr ''aa:bb:cc:00:11:22'') = Some ''aa:bb:cc:00:11:22''"
proof -
  have l: "length ''AABBCC001122'' = 12" by simp
  have h: "list_all is_hex ''AABBCC001122''" by code_simp
  have f: "''AABB-CC00-1122'' \<in> set (mac_forms ''AABBCC001122'')" by code_simp
  have c: "casefold ''AABBCC001122'' = ''aabbcc001122''" by code_simp
  have n: "normalize_mac (PStr ''AABB-CC00-1122'') = Some ''aa:bb:cc:00:11:22''" by code_simp
  show ?thesis
    using normalize_mac_canonical [OF l h f, of "PStr ''AABB-CC00-1122''" "''aa:bb:cc:00:11:22''"] n c by simp
qed

section \<open>The ranking of evidence\<close>

text \<open>Two keys agree when both are known and equal.\<close>

definition agree :: "'a option \<Rightarrow> 'a option \<Rightarrow> bool" where
  "agree a b \<longleftrightarrow> a \<noteq> None \<and> a = b"

definition has_radio :: "pyval \<Rightarrow> (CanonicalApRadioIdentity \<Rightarrow> pyval list) \<Rightarrow> ApIdentityCandidate \<Rightarrow> bool" where
  "has_radio v addresses c \<longleftrightarrow>
     list_ex (\<lambda>r. list_ex (\<lambda>a. agree (normalize_mac v) (normalize_mac a)) (addresses r)) (ca_radios c)"

text \<open>
  What agrees between an observation and a candidate, strongest evidence first. A MAC address
  or name in the scope of a controller needs both to agree.
\<close>

definition evidence_ranks :: "ApObservation \<Rightarrow> (ApIdentityCandidate \<Rightarrow> bool) list" where
  "evidence_ranks ob =
     [\<lambda>c. agree (id_key (ob_ap_uuid ob)) (id_key (id_ap_uuid (ca_identity c))),
      \<lambda>c. agree (scoped (id_key (ob_ac_uuid ob)) (id_key (ob_ap_id ob)))
            (scoped (id_key (id_ac_uuid (ca_identity c))) (id_key (id_ap_id (ca_identity c)))),
      \<lambda>c. agree (id_key (ob_ac_uuid ob)) (id_key (id_ac_uuid (ca_identity c))) \<and>
          agree (normalize_mac (ob_ap_mac ob)) (normalize_mac (id_ap_mac (ca_identity c))),
      \<lambda>c. agree (normalize_mac (ob_ap_mac ob)) (normalize_mac (id_ap_mac (ca_identity c))),
      has_radio (ob_radio_mac ob) (\<lambda>r. [ra_radio_mac r]),
      has_radio (ob_bssid ob) (\<lambda>r. [ra_bssid r, ra_bbssid r]),
      has_radio (ob_peer_radio_mac ob) (\<lambda>r. [ra_radio_mac r, ra_bssid r, ra_bbssid r]),
      has_radio (ob_peer_mac ob) (\<lambda>r. [ra_radio_mac r, ra_bssid r, ra_bbssid r]),
      \<lambda>c. agree (scoped (id_key (ob_ac_uuid ob)) (name_key (ob_ap_name ob)))
            (scoped (id_key (id_ac_uuid (ca_identity c))) (name_key (id_ap_name (ca_identity c)))),
      \<lambda>c. agree (name_key (ob_ap_name ob)) (name_key (id_ap_name (ca_identity c)))]"

fun strongest :: "('c \<Rightarrow> bool) list \<Rightarrow> 'c list \<Rightarrow> 'c list" where
  "strongest [] cs = []"
| "strongest (p # ps) cs = (if list_ex p cs then filter p cs else strongest ps cs)"

lemma matches_by_agree: "fst (matches_by field x f n why cs) = filter (\<lambda>c. agree x (f c)) cs"
  by (auto simp: matches_by_def agree_def Let_def split: option.split intro!: filter_cong)

lemma radio_matches_agree:
  "fst (radio_matches field (normalize_mac v) (\<lambda>r. map normalize_mac (addresses r)) n why cs) =
   filter (has_radio v addresses) cs"
proof (cases "normalize_mac v")
  case None
  then show ?thesis by (simp add: radio_matches_def has_radio_def agree_def list_ex_iff)
next
  case (Some x)
  have "list_ex (\<lambda>r. Some x \<in> set (map normalize_mac (addresses r))) (ca_radios c) = has_radio v addresses c" for c
    using Some by (auto simp: has_radio_def agree_def list_ex_iff image_iff)
  then show ?thesis using Some by (simp add: radio_matches_def Let_def)
qed

lemma colon_form_length: "mac_key k \<Longrightarrow> length (colon_form k) = 17"
proof -
  assume k: "mac_key k"
  obtain a b c d e f g h i j l m where "k = [a, b, c, d, e, f, g, h, i, j, l, m]"
    using k by (auto simp: mac_key_def elim: twelve)
  then show ?thesis by (simp add: colon_form_def upt_conv_Cons)
qed

lemma normalize_mac_length: "normalize_mac v = Some m \<Longrightarrow> length m = 17"
  by (auto simp: normalize_mac_def intro: colon_form_length normalize_mac_key_form)

lemma scoped_mac_agree:
  "agree (scoped a (normalize_mac v)) (scoped b (normalize_mac w)) \<longleftrightarrow> agree a b \<and> agree (normalize_mac v) (normalize_mac w)"
  using normalize_mac_length [of v] normalize_mac_length [of w]
  by (auto simp: agree_def scoped_def split: option.splits)

lemma first_field_agree:
  "fst (first_field (\<lambda>field v. radio_matches field (normalize_mac v) (\<lambda>r. map normalize_mac (addresses r)) n why cs) ob) =
   strongest [has_radio (ob_peer_radio_mac ob) addresses, has_radio (ob_peer_mac ob) addresses] cs"
  by (simp add: first_field_def split_beta Let_def radio_matches_agree filter_empty_conv list_ex_iff)

lemma strongest_append: "strongest (ps @ qs) cs = (if strongest ps cs = [] then strongest qs cs else strongest ps cs)"
  by (induction ps) (auto simp: filter_empty_conv list_ex_iff)

lemma first_match_strongest:
  "map (\<lambda>f. fst (f ob cs)) fs = map (\<lambda>ps. strongest ps cs) pss \<Longrightarrow>
   (case first_match fs ob cs of None \<Rightarrow> [] | Some (ms, _) \<Rightarrow> ms) = strongest (concat pss) cs \<and>
   (first_match fs ob cs = None \<longleftrightarrow> strongest (concat pss) cs = [])"
proof (induction fs arbitrary: pss)
  case Nil
  then show ?case by simp
next
  case (Cons f fs)
  then obtain ps pss' where pss: "pss = ps # pss'" by (cases pss) auto
  show ?case
    using Cons.IH [of pss'] Cons.prems
    by (cases "f ob cs") (auto simp: pss strongest_append Let_def split: if_splits)
qed

lemma singleton_rank: "strongest [p] cs = filter p cs"
  by (simp add: filter_empty_conv list_ex_iff)

lemma strategies_strongest:
  "map (\<lambda>f. fst (f ob cs)) strategies =
   map (\<lambda>ps. strongest ps cs)
     [[evidence_ranks ob ! 0], [evidence_ranks ob ! 1], [evidence_ranks ob ! 2], [evidence_ranks ob ! 3],
      [evidence_ranks ob ! 4], [evidence_ranks ob ! 5], [evidence_ranks ob ! 6, evidence_ranks ob ! 7],
      [evidence_ranks ob ! 8], [evidence_ranks ob ! 9]]"
  using radio_matches_agree [of _ "ob_radio_mac ob" "\<lambda>r. [ra_radio_mac r]"]
    radio_matches_agree [of _ "ob_bssid ob" "\<lambda>r. [ra_bssid r, ra_bbssid r]"]
    first_field_agree [of "\<lambda>r. [ra_radio_mac r, ra_bssid r, ra_bbssid r]" _ _ cs ob]
  by (simp add: strategies_def evidence_ranks_def singleton_rank matches_by_agree scoped_mac_agree
      match_ap_uuid_def match_scoped_ap_id_def match_scoped_ap_mac_def match_ap_mac_def match_scoped_ap_name_def
      match_ap_name_def match_radio_mac_def match_bssid_def match_peer_radio_def del: strongest.simps)

lemma concat_ranks:
  "concat [[evidence_ranks ob ! 0], [evidence_ranks ob ! 1], [evidence_ranks ob ! 2], [evidence_ranks ob ! 3],
      [evidence_ranks ob ! 4], [evidence_ranks ob ! 5], [evidence_ranks ob ! 6, evidence_ranks ob ! 7],
      [evidence_ranks ob ! 8], [evidence_ranks ob ! 9]] = evidence_ranks ob"
  by (simp add: evidence_ranks_def)

lemma resolve_first_match:
  "(case first_match strategies ob cs of None \<Rightarrow> [] | Some (ms, _) \<Rightarrow> ms) = strongest (evidence_ranks ob) cs"
  "first_match strategies ob cs = None \<longleftrightarrow> strongest (evidence_ranks ob) cs = []"
  using first_match_strongest [OF strategies_strongest] unfolding concat_ranks by blast+

lemma result_for_matches_ok:
  assumes "result_for_matches ms ev ws ob = Inr r" and "ms \<noteq> []"
  shows "mr_status r = (if length ms = 1 then MATCHED else AMBIGUOUS) \<and>
         mr_candidate r = (if length ms = 1 then Some (hd ms) else None) \<and> mr_candidates r = ms"
proof -
  obtain x xs where ms: "ms = x # xs" using assms(2) by (cases ms) auto
  show ?thesis
  proof (cases xs)
    case Nil
    then show ?thesis using assms(1) by (auto simp: result_for_matches_def ms split: sum.splits)
  next
    case (Cons y ys)
    then show ?thesis using assms(1) by (auto simp: result_for_matches_def ms)
  qed
qed

text \<open>
  C21. Resolving an observation refines the ranking of evidence: the candidates that agree on the
  strongest evidence anybody agrees on decide. One such candidate is the match, several are
  ambiguous, and without any the observation stays unresolved, even when a peer address equals the
  address of an access point.
\<close>

theorem resolve_refines_ranking:
  assumes "resolve ob cs = Inr r"
  shows "let ms = strongest (evidence_ranks ob) cs in
         (mr_status r = (if ms = [] then UNRESOLVED else if length ms = 1 then MATCHED else AMBIGUOUS)) \<and>
         mr_candidate r = (if length ms = 1 then Some (hd ms) else None) \<and>
         (ms \<noteq> [] \<longrightarrow> mr_candidates r = ms)"
proof (cases "first_match strategies ob cs")
  case None
  then have "strongest (evidence_ranks ob) cs = []" by (simp add: resolve_first_match)
  then show ?thesis
    using assms None by (auto simp: resolve_def Let_def split: prod.splits if_splits)
next
  case (Some m)
  obtain ms ev where m: "m = (ms, ev)" by (cases m)
  have ms: "strongest (evidence_ranks ob) cs = ms" "ms \<noteq> []"
    using resolve_first_match [of ob cs] Some m by auto
  obtain base ws where "result_for_matches ms (base @ ev) ws ob = Inr r"
    using assms Some m by (auto simp: resolve_def split: prod.splits)
  from result_for_matches_ok [OF this ms(2)] show ?thesis using ms by (simp add: Let_def)
qed

definition sample_identity :: CanonicalApIdentity where
  "sample_identity =
     \<lparr>id_ap_uuid = PNone, id_ap_mac = PStr ''aabb-cc00-1122'', id_ap_name = PStr ''AP-01'',
      id_ac_uuid = PStr ''ac1'', id_ap_id = PNone, id_serial_number = PNone, id_site_id = PNone,
      id_source = PStr [], id_source_ref = PNone\<rparr>"

definition sample_candidate :: ApIdentityCandidate where
  "sample_candidate =
     \<lparr>ca_identity = sample_identity, ca_radios = [],
      ca_location = \<lparr>lo_site = PNone, lo_station = PNone, lo_section = PNone, lo_mileage = PStr ''K1+002'',
        lo_line = PNone, lo_direction = PNone, lo_ownership_type = PNone, lo_system_type = PNone,
        lo_network_domain = PNone\<rparr>\<rparr>"

definition sample_observation :: ApObservation where
  "sample_observation =
     \<lparr>ob_ap_uuid = PNone, ob_ap_id = PNone, ob_ap_mac = PStr ''AA:BB:CC:00:11:22'', ob_ap_name = PStr ''other'',
      ob_peer_mac = PNone, ob_peer_radio_mac = PNone, ob_radio_mac = PNone, ob_bssid = PNone,
      ob_ac_uuid = PNone, ob_device_uuid = PNone, ob_interface_name = PNone, ob_site = PNone,
      ob_station = PNone, ob_section = PNone, ob_mileage = PNone, ob_source = PStr [], ob_source_ref = PNone\<rparr>"

theorem resolve_refines_ranking_witness:
  "\<exists>r. resolve sample_observation [sample_candidate] = Inr r \<and> mr_status r = MATCHED \<and>
     mr_candidate r = Some sample_candidate"
proof -
  have ok: "case resolve sample_observation [sample_candidate] of Inl _ \<Rightarrow> False | Inr _ \<Rightarrow> True" by code_simp
  have s: "strongest (evidence_ranks sample_observation) [sample_candidate] = [sample_candidate]" by code_simp
  obtain r where r: "resolve sample_observation [sample_candidate] = Inr r"
    using ok by (auto split: sum.splits)
  then show ?thesis using resolve_refines_ranking [OF r] s by (simp add: Let_def)
qed

end
