(* ===== verification/Task_History.thy ===== *)
theory Task_History
  imports Worker_Protocol "HOL-Library.List_Lexorder" "HOL-Library.Char_ord"
begin

text \<open>
  \<^verbatim>\<open>models/task_history_policy.py\<close>: the projection of task results to business fields, the tasks that
  need attention, their retention time and their links to long-term data. Times are milliseconds; the
  ISO parser and printer of the standard library are arguments. Sets and tuples do not occur in the
  results, which come from JSON.
\<close>

section \<open>Tables\<close>

definition ACTIVE_TASK_STATE_VALUES :: "string list" where
  "ACTIVE_TASK_STATE_VALUES = map state_value [PENDING, STARTING, RUNNING, STOPPING]"

definition TERMINAL_TASK_STATE_VALUES :: "string list" where
  "TERMINAL_TASK_STATE_VALUES = map state_value [COMPLETED, FAILED, CANCELLED]"

definition TASK_HISTORY_SCOPE_LIMIT :: nat where
  "TASK_HISTORY_SCOPE_LIMIT = 10"

definition LONG_TERM_TASK_RESOURCE_PREFIXES :: "string list" where
  "LONG_TERM_TASK_RESOURCE_PREFIXES =
     [''online_mr_session:'', ''online-mr:'', ''ground-unattended:'', ''ground_unattended:'', ''mesh-import:'',
      ''mesh_catalog:'', ''mesh_profile:'', ''mesh-source:'', ''mesh_source:'', ''mesh-session:'', ''mesh_session:'']"

definition LONG_TERM_TASK_RESULT_REFERENCE_FIELDS :: "string list" where
  "LONG_TERM_TASK_RESULT_REFERENCE_FIELDS =
     [''online_mr_session_id'', ''online_mr_session_ids'', ''ground_session_id'', ''ground_session_ids'',
      ''ground_unattended_session_id'', ''ground_unattended_session_ids'', ''ground_run_id'',
      ''ground_operation_id'', ''mesh_session_id'', ''mesh_session_ids'', ''mesh_source_id'', ''mesh_source_ids'']"

record BusinessResultProjection =
  business_status :: string
  success_count :: int
  failed_count :: int
  skipped_count :: int
  warning_count :: int
  partial_success :: bool
  primary_failure_reason :: string

definition BUSINESS_STATUS_ALIASES :: "(string \<times> string) list" where
  "BUSINESS_STATUS_ALIASES =
     [(''COMPLETED'', ''SUCCESS''), (''DONE'', ''SUCCESS''), (''OK'', ''SUCCESS''),
      (''NO_TARGET'', ''NO_EFFECTIVE_TARGET''), (''NO_TARGETS'', ''NO_EFFECTIVE_TARGET''),
      (''NO_EFFECTIVE_TARGET'', ''NO_EFFECTIVE_TARGET''), (''NO_DATA'', ''NO_EFFECTIVE_TARGET''),
      (''PARTIAL'', ''PARTIAL_SUCCESS''), (''PARTIAL_FAILED'', ''PARTIAL_SUCCESS''),
      (''PARTIAL_SUCCESS'', ''PARTIAL_SUCCESS''), (''SUCCESS'', ''SUCCESS''),
      (''SUCCESS_WITH_WARNINGS'', ''SUCCESS_WITH_WARNINGS''),
      (''REMOTE_RESULT_UNKNOWN'', ''REMOTE_RESULT_UNKNOWN''), (''WARNING'', ''WARNING''),
      (''ERROR'', ''FAILED''), (''FAILED'', ''FAILED''), (''CANCELLED'', ''CANCELLED'')]"

section \<open>Reading a result\<close>

fun nested_from :: "string list \<Rightarrow> pydict \<Rightarrow> pydict" where
  "nested_from [] source = []"
| "nested_from (k # ks) source =
     (case dget source k of PDict d \<Rightarrow> d | _ \<Rightarrow> nested_from ks source)"

definition nested_business_result :: "pydict \<Rightarrow> pydict" where
  "nested_business_result source = nested_from [''business_result'', ''collection'', ''summary''] source"

text \<open>\<open>int(v)\<close> under \<^verbatim>\<open>except (TypeError, ValueError)\<close>: \<open>None\<close> when caught, other exceptions pass.\<close>

definition try_int :: "pyval \<Rightarrow> int option result" where
  "try_int v =
     (case py_int v of
        Inr n \<Rightarrow> Inr (Some n)
      | Inl TypeError \<Rightarrow> Inr None
      | Inl (ValueError _) \<Rightarrow> Inr None
      | Inl e \<Rightarrow> Inl e)"

fun count_of :: "string list \<Rightarrow> pydict \<Rightarrow> int result" where
  "count_of [] source = Inr 0"
| "count_of (k # ks) source =
     (case dget source k of
        PBool _ \<Rightarrow> count_of ks source
      | PList xs \<Rightarrow> Inr (int (length xs))
      | v \<Rightarrow>
          (if v = PNone \<or> v = PStr [] then count_of ks source
           else (case try_int v of
                   Inl e \<Rightarrow> Inl e
                 | Inr None \<Rightarrow> count_of ks source
                 | Inr (Some n) \<Rightarrow> Inr (max 0 n))))"

fun first_text :: "string list \<Rightarrow> pydict \<Rightarrow> string" where
  "first_text [] source = []"
| "first_text (k # ks) source =
     (case dget source k of
        PNone \<Rightarrow> first_text ks source
      | PDict _ \<Rightarrow> first_text ks source
      | PList _ \<Rightarrow> first_text ks source
      | v \<Rightarrow> if v = PStr [] then first_text ks source else strip (py_str v))"

fun reason_candidates :: "pydict \<Rightarrow> (int \<times> string) list result" where
  "reason_candidates [] = Inr []"
| "reason_candidates ((k, v) # rest) =
     (case try_int v of
        Inl e \<Rightarrow> Inl e
      | Inr parsed \<Rightarrow>
          (case reason_candidates rest of
             Inl e \<Rightarrow> Inl e
           | Inr cs \<Rightarrow> Inr (case parsed of Some n \<Rightarrow> if 0 < n then (n, k) # cs else cs | None \<Rightarrow> cs)))"

text \<open>The largest pair, by count and then by name.\<close>

fun max_reason :: "(int \<times> string) \<Rightarrow> (int \<times> string) list \<Rightarrow> int \<times> string" where
  "max_reason b [] = b"
| "max_reason b (c # cs) =
     max_reason (if fst b < fst c \<or> fst b = fst c \<and> snd b < snd c then c else b) cs"

definition dominant_reason :: "pyval \<Rightarrow> string result" where
  "dominant_reason v =
     (case v of
        PDict d \<Rightarrow>
          (case reason_candidates d of
             Inl e \<Rightarrow> Inl e
           | Inr [] \<Rightarrow> Inr []
           | Inr (c # cs) \<Rightarrow> Inr (snd (max_reason c cs)))
      | _ \<Rightarrow> Inr [])"

section \<open>Projection\<close>

definition SUCCESS_KEYS :: "string list" where
  "SUCCESS_KEYS =
     [''success_count'', ''succeeded_count'', ''successful_count'', ''completed_count'', ''processed_count'',
      ''deleted'', ''success'']"

definition FAILED_KEYS :: "string list" where
  "FAILED_KEYS = [''failed_count'', ''failure_count'', ''failed'', ''errors_count'', ''rejected_count'']"

definition SKIPPED_KEYS :: "string list" where
  "SKIPPED_KEYS = [''skipped_count'', ''actionable_skipped_count'', ''skipped'', ''not_executed_count'']"

definition WARNING_KEYS :: "string list" where
  "WARNING_KEYS = [''warning_count'', ''warnings_count'', ''warnings'']"

definition REASON_KEYS :: "string list" where
  "REASON_KEYS =
     [''primary_failure_reason'', ''failure_reason'', ''error_code'', ''error'', ''error_message'', ''reason'']"

definition explicit_status :: "pydict \<Rightarrow> string" where
  "explicit_status merged =
     (let raw = upper (first_text [''business_status'', ''business_outcome'', ''status'', ''outcome''] merged) in
      if raw = [] then []
      else (case map_of BUSINESS_STATUS_ALIASES raw of Some s \<Rightarrow> s | None \<Rightarrow> ''UNKNOWN''))"

text \<open>The status of a result that names none.\<close>

definition derived_status :: "string \<Rightarrow> pydict \<Rightarrow> int \<Rightarrow> int \<Rightarrow> int \<Rightarrow> int \<Rightarrow> string" where
  "derived_status lifecycle source ok bad skipped warned =
     (if lifecycle = ''CANCELLED'' then ''CANCELLED''
      else if lifecycle = ''FAILED'' then ''FAILED''
      else if lifecycle = ''COMPLETED''
      then (if ok > 0 \<and> (bad > 0 \<or> skipped > 0) then ''PARTIAL_SUCCESS''
            else if bad > 0 then ''FAILED''
            else if warned > 0 then ''WARNING''
            else if skipped > 0 \<and> ok = 0 then ''NO_EFFECTIVE_TARGET''
            else if source \<noteq> [] then ''SUCCESS'' else ''UNKNOWN'')
      else if lifecycle \<in> set ACTIVE_TASK_STATE_VALUES then []
      else if source \<noteq> [] then ''UNKNOWN'' else [])"

definition failure_reason :: "pydict \<Rightarrow> string \<Rightarrow> string \<Rightarrow> string result" where
  "failure_reason merged lifecycle error_message =
     (let t = first_text REASON_KEYS merged in
      if t \<noteq> [] then Inr t
      else (case dominant_reason (dget merged ''failure_reason_counts'') of
              Inl e \<Rightarrow> Inl e
            | Inr r1 \<Rightarrow>
                if r1 \<noteq> [] then Inr r1
                else (case dominant_reason (dget merged ''skipped_reason_counts'') of
                        Inl e \<Rightarrow> Inl e
                      | Inr r2 \<Rightarrow>
                          Inr (if r2 \<noteq> [] then r2
                               else if lifecycle = ''FAILED'' then strip error_message else []))))"

definition project_business_result :: "pydict \<Rightarrow> string \<Rightarrow> string \<Rightarrow> BusinessResultProjection result" where
  "project_business_result source lifecycle_status error_message =
     (let merged = dmerge (nested_business_result source) source;
          lifecycle = upper lifecycle_status in
      case count_of SUCCESS_KEYS merged of
        Inl e \<Rightarrow> Inl e
      | Inr ok \<Rightarrow>
     (case count_of FAILED_KEYS merged of
        Inl e \<Rightarrow> Inl e
      | Inr bad \<Rightarrow>
     (case count_of SKIPPED_KEYS merged of
        Inl e \<Rightarrow> Inl e
      | Inr skipped \<Rightarrow>
     (case count_of WARNING_KEYS merged of
        Inl e \<Rightarrow> Inl e
      | Inr warned \<Rightarrow>
     (case failure_reason merged lifecycle error_message of
        Inl e \<Rightarrow> Inl e
      | Inr why \<Rightarrow>
          (let status = (if explicit_status merged \<noteq> [] then explicit_status merged
                         else derived_status lifecycle source ok bad skipped warned) in
           Inr \<lparr>business_status = status, success_count = ok, failed_count = bad, skipped_count = skipped,
                warning_count = warned,
                partial_success =
                  dget merged ''partial_success'' = PBool True \<or> status = ''PARTIAL_SUCCESS'' \<or>
                  lifecycle = ''COMPLETED'' \<and> ok > 0 \<and> (bad > 0 \<or> skipped > 0),
                primary_failure_reason = why\<rparr>))))))"

section \<open>Attention and retention\<close>

definition optional_int :: "pyval \<Rightarrow> int result" where
  "optional_int v =
     (if v = PNone then Inr 0
      else (case try_int v of Inl e \<Rightarrow> Inl e | Inr None \<Rightarrow> Inr 0 | Inr (Some n) \<Rightarrow> Inr n))"

fun some_positive :: "string list \<Rightarrow> pydict \<Rightarrow> bool result" where
  "some_positive [] d = Inr False"
| "some_positive (k # ks) d =
     (case optional_int (dget d k) of
        Inl e \<Rightarrow> Inl e
      | Inr n \<Rightarrow> if 0 < n then Inr True else some_positive ks d)"

definition business_result_has_warning :: "pydict \<Rightarrow> bool result" where
  "business_result_has_warning source =
     (if source = [] then Inr False
      else (let res = dmerge (nested_business_result source) source;
                outcome = upper (str_or_empty (py_or (dget res ''business_outcome'')
                            (py_or (dget res ''status'') (dget res ''outcome'')))) in
            if outcome \<in> set [''PARTIAL_SUCCESS'', ''SUCCESS_WITH_WARNINGS'', ''WARNING''] then Inr True
            else if dget res ''partial_success'' = PBool True then Inr True
            else (case some_positive [''failed_count'', ''warning_count'', ''actionable_skipped_count''] res of
                    Inl e \<Rightarrow> Inl e
                  | Inr True \<Rightarrow> Inr True
                  | Inr False \<Rightarrow>
                      (case dget res ''summary'' of
                         PDict summary \<Rightarrow>
                           some_positive [''failed'', ''failed_count'', ''warning'', ''warning_count'', ''rejected''] summary
                       | _ \<Rightarrow> Inr False))))"

definition task_requires_attention :: "string \<Rightarrow> string \<Rightarrow> pydict \<Rightarrow> bool result" where
  "task_requires_attention status error_message res =
     (let value = upper status in
      if value = ''FAILED'' then Inr True
      else if value \<noteq> ''COMPLETED'' then Inr False
      else if strip error_message \<noteq> [] then Inr True
      else business_result_has_warning res)"

definition parse_utc :: "(string \<Rightarrow> int option) \<Rightarrow> string \<Rightarrow> int option" where
  "parse_utc fromisoformat value = (let t = strip value in if t = [] then None else fromisoformat t)"

definition DAY_MS :: int where
  "DAY_MS = 24 * 60 * 60 * 1000"

definition task_expires_at ::
  "(string \<Rightarrow> int option) \<Rightarrow> (int \<Rightarrow> string) \<Rightarrow> string \<Rightarrow> string \<Rightarrow> string \<Rightarrow> string \<Rightarrow> pydict \<Rightarrow> string result" where
  "task_expires_at fromisoformat utc_iso status finished_time updated_time error_message res =
     (let value = upper status in
      if value \<notin> set TERMINAL_TASK_STATE_VALUES then Inr []
      else (case parse_utc fromisoformat (if finished_time \<noteq> [] then finished_time else updated_time) of
              None \<Rightarrow> Inr []
            | Some finished \<Rightarrow>
                (case task_requires_attention value error_message res of
                   Inl e \<Rightarrow> Inl e
                 | Inr attention \<Rightarrow> Inr (utc_iso (finished + (if attention then 30 else 7) * DAY_MS)))))"

definition task_history_scope :: "pyval \<Rightarrow> pyval \<Rightarrow> string \<times> string" where
  "task_history_scope site kind = (text_of site, text_of kind)"

definition utc_time_reached :: "(string \<Rightarrow> int option) \<Rightarrow> string \<Rightarrow> int \<Rightarrow> bool" where
  "utc_time_reached fromisoformat value now =
     (case parse_utc fromisoformat value of None \<Rightarrow> False | Some target \<Rightarrow> target \<le> now)"

section \<open>Long-term references\<close>

definition has_value :: "pyval \<Rightarrow> bool" where
  "has_value v =
     (case v of PStr s \<Rightarrow> strip s \<noteq> [] | PDict d \<Rightarrow> d \<noteq> [] | PList xs \<Rightarrow> xs \<noteq> [] | _ \<Rightarrow> v \<noteq> PNone)"

fun has_long_term_result_reference :: "pyval \<Rightarrow> bool" where
  "has_long_term_result_reference (PDict d) =
     list_ex (\<lambda>kv. casefold (strip (fst kv)) \<in> set LONG_TERM_TASK_RESULT_REFERENCE_FIELDS \<and> has_value (snd kv) \<or>
       has_long_term_result_reference (snd kv)) d"
| "has_long_term_result_reference (PList xs) = list_ex has_long_term_result_reference xs"
| "has_long_term_result_reference v = False"

definition task_has_long_term_reference :: "pyval list \<Rightarrow> pydict \<Rightarrow> bool" where
  "task_has_long_term_reference resource_keys res \<longleftrightarrow>
     list_ex (\<lambda>v. list_ex (startswith (casefold (text_of v))) LONG_TERM_TASK_RESOURCE_PREFIXES) resource_keys \<or>
     has_long_term_result_reference (PDict res)"

section \<open>Projection\<close>

definition BUSINESS_STATUSES :: "string list" where
  "BUSINESS_STATUSES =
     [''SUCCESS'', ''PARTIAL_SUCCESS'', ''SUCCESS_WITH_WARNINGS'', ''WARNING'', ''FAILED'', ''CANCELLED'',
      ''NO_EFFECTIVE_TARGET'', ''REMOTE_RESULT_UNKNOWN'', ''UNKNOWN'']"

lemma aliases_closed: "list_all (\<lambda>(_, s). s \<in> set BUSINESS_STATUSES) BUSINESS_STATUS_ALIASES"
  by code_simp

lemma explicit_status_closed: "explicit_status d = [] \<or> explicit_status d \<in> set BUSINESS_STATUSES"
proof -
  have "s \<in> set BUSINESS_STATUSES" if "map_of BUSINESS_STATUS_ALIASES raw = Some s" for raw s
    using aliases_closed map_of_SomeD [OF that] by (auto simp: list_all_iff)
  moreover have "''UNKNOWN'' \<in> set BUSINESS_STATUSES" by (simp add: BUSINESS_STATUSES_def)
  ultimately show ?thesis by (auto simp: explicit_status_def Let_def split: option.split)
qed

lemma derived_status_closed:
  "derived_status lifecycle source ok bad skipped warned = [] \<or>
   derived_status lifecycle source ok bad skipped warned \<in> set BUSINESS_STATUSES"
  by (simp add: derived_status_def BUSINESS_STATUSES_def)

lemma count_of_nonneg: "count_of ks d = Inr n \<Longrightarrow> 0 \<le> n"
  by (induction ks d rule: count_of.induct)
     (auto split: pyval.splits if_splits sum.splits option.splits)

text \<open>
  C36. The projection of a task result is well formed: the business status is one of nine (or empty),
  no count is negative, a partial success is flagged as one, and when the result names no status a
  failed or cancelled task is never shown as a success.
\<close>

theorem project_business_result_ok:
  assumes "project_business_result source lifecycle error_message = Inr p"
  shows "business_status p \<in> insert [] (set BUSINESS_STATUSES) \<and>
         0 \<le> success_count p \<and> 0 \<le> failed_count p \<and> 0 \<le> skipped_count p \<and> 0 \<le> warning_count p \<and>
         (business_status p = ''PARTIAL_SUCCESS'' \<longrightarrow> partial_success p) \<and>
         (explicit_status (dmerge (nested_business_result source) source) = [] \<and>
            upper lifecycle \<in> {''FAILED'', ''CANCELLED''} \<longrightarrow> business_status p = upper lifecycle)"
proof -
  let ?m = "dmerge (nested_business_result source) source"
  obtain ok bad skipped warned where counts:
      "count_of SUCCESS_KEYS ?m = Inr ok" "count_of FAILED_KEYS ?m = Inr bad"
      "count_of SKIPPED_KEYS ?m = Inr skipped" "count_of WARNING_KEYS ?m = Inr warned"
    and p: "success_count p = ok" "failed_count p = bad" "skipped_count p = skipped" "warning_count p = warned"
      "business_status p = (if explicit_status ?m \<noteq> [] then explicit_status ?m
         else derived_status (upper lifecycle) source ok bad skipped warned)"
      "business_status p = ''PARTIAL_SUCCESS'' \<Longrightarrow> partial_success p"
    using assms by (auto simp: project_business_result_def Let_def split: sum.splits)
  have "business_status p \<in> insert [] (set BUSINESS_STATUSES)"
    using p(5) explicit_status_closed [of ?m]
      derived_status_closed [of "upper lifecycle" source ok bad skipped warned] by auto
  moreover have "0 \<le> ok" "0 \<le> bad" "0 \<le> skipped" "0 \<le> warned" using counts count_of_nonneg by blast+
  ultimately show ?thesis using p by (auto simp: derived_status_def)
qed

theorem project_business_result_ok_witness:
  "\<exists>p. project_business_result [(''success'', PInt 2), (''failed'', PStr ''1'')] ''completed'' [] = Inr p \<and>
     partial_success p \<and> business_status p = ''PARTIAL_SUCCESS'' \<and> 0 \<le> failed_count p"
proof -
  let ?r = "project_business_result [(''success'', PInt 2), (''failed'', PStr ''1'')] ''completed'' []"
  have s: "map_sum id business_status ?r = Inr ''PARTIAL_SUCCESS''" by code_simp
  then obtain p where p: "?r = Inr p" "business_status p = ''PARTIAL_SUCCESS''" by (cases ?r) auto
  then show ?thesis using project_business_result_ok [OF p(1)] by blast
qed

text \<open>
  The guard around the counts of a result is incomplete: it passes over values that are no
  numbers, but an infinite float raises \<open>OverflowError\<close> out of the projection and of the test for
  attention, for any life cycle and message.
\<close>

theorem projection_overflow:
  "project_business_result [(''failed_count'', PFloat ''inf'')] lifecycle error_message = Inl OverflowError \<and>
   task_requires_attention ''completed'' [] [(''failed_count'', PFloat ''inf'')] = Inl OverflowError"
proof -
  have "count_of FAILED_KEYS [(''failed_count'', PFloat ''inf'')] = Inl OverflowError" by code_simp
  moreover have "count_of SUCCESS_KEYS [(''failed_count'', PFloat ''inf'')] = Inr 0" by code_simp
  moreover have "dmerge (nested_business_result [(''failed_count'', PFloat ''inf'')]) [(''failed_count'', PFloat ''inf'')] =
      [(''failed_count'', PFloat ''inf'')]" by code_simp
  moreover have "task_requires_attention ''completed'' [] [(''failed_count'', PFloat ''inf'')] = Inl OverflowError"
    by code_simp
  ultimately show ?thesis by (simp add: project_business_result_def)
qed

section \<open>References at any depth\<close>

text \<open>The entries of the dictionaries inside a value, at any depth.\<close>

inductive entry_within :: "pyval \<Rightarrow> string \<times> pyval \<Rightarrow> bool" where
  here: "(k, v) \<in> set d \<Longrightarrow> entry_within (PDict d) (k, v)"
| deeper: "(k, v) \<in> set d \<Longrightarrow> entry_within v e \<Longrightarrow> entry_within (PDict d) e"
| listed: "x \<in> set xs \<Longrightarrow> entry_within x e \<Longrightarrow> entry_within (PList xs) e"

inductive_cases within_dict: "entry_within (PDict d) e"
inductive_cases within_list: "entry_within (PList xs) e"
inductive_simps within_simps:
  "entry_within PNone e" "entry_within (PBool b) e" "entry_within (PInt i) e" "entry_within (PFloat s) e"
  "entry_within (PStr s) e"

definition reference_entry :: "string \<times> pyval \<Rightarrow> bool" where
  "reference_entry kv \<longleftrightarrow>
     casefold (strip (fst kv)) \<in> set LONG_TERM_TASK_RESULT_REFERENCE_FIELDS \<and> has_value (snd kv)"

lemma reference_sound: "has_long_term_result_reference v \<Longrightarrow> \<exists>e. entry_within v e \<and> reference_entry e"
proof (induction v rule: has_long_term_result_reference.induct)
  case (1 d)
  then obtain kv where kv: "kv \<in> set d" "reference_entry kv \<or> has_long_term_result_reference (snd kv)"
    by (auto simp: list_ex_iff reference_entry_def)
  from kv(2) show ?case
  proof
    assume "reference_entry kv"
    then show ?thesis using entry_within.here [of "fst kv" "snd kv" d] kv(1) by (intro exI [of _ kv]) simp
  next
    assume "has_long_term_result_reference (snd kv)"
    then obtain e where e: "entry_within (snd kv) e" "reference_entry e" using 1(1) [OF kv(1)] by blast
    then show ?thesis using entry_within.deeper [of "fst kv" "snd kv" d e] kv(1) by (intro exI [of _ e]) simp
  qed
next
  case (2 xs)
  then obtain x where x: "x \<in> set xs" "has_long_term_result_reference x" by (auto simp: list_ex_iff)
  then obtain e where e: "entry_within x e" "reference_entry e" using 2 by blast
  then show ?case using entry_within.listed [OF x(1) e(1)] by blast
qed auto

lemma reference_complete: "entry_within v e \<Longrightarrow> reference_entry e \<Longrightarrow> has_long_term_result_reference v"
  by (induction rule: entry_within.induct) (force simp: list_ex_iff reference_entry_def)+

text \<open>
  A task result is protected exactly when some dictionary inside it, at any depth, has an entry
  under a reference field with a value.
\<close>

theorem long_term_reference_iff:
  "has_long_term_result_reference v \<longleftrightarrow>
     (\<exists>k x. entry_within v (k, x) \<and> casefold (strip k) \<in> set LONG_TERM_TASK_RESULT_REFERENCE_FIELDS \<and> has_value x)"
  using reference_sound [of v] reference_complete [of v] by (force simp: reference_entry_def)

end
