(* ===== verification/Py_Numbers.thy ===== *)
theory Py_Numbers
  imports Py_Float
begin

text \<open>
  Conversions between Python's numbers that several components share: the quotient of two integers as a
  double, rounding, and \<open>float\<close> of any value.
\<close>

section \<open>Quotients and texts\<close>

definition fdiv_int :: "int \<Rightarrow> int \<Rightarrow> pyfloat" where
  "fdiv_int n d = double_frac n d"

fun fscale :: "pyfloat \<Rightarrow> rat \<Rightarrow> pyfloat" where
  "fscale (Fin a) k = double (a * k)"
| "fscale x k = x"

text \<open>\<open>round(x)\<close> of a finite float.\<close>

fun fround :: "pyfloat \<Rightarrow> int" where
  "fround (Fin a) = (let (p, q) = quotient_of a in round_div p q)"
| "fround _ = 0"

text \<open>The optional exponent of a decimal text.\<close>

definition parse_exponent :: "string \<Rightarrow> int option" where
  "parse_exponent s =
     (case s of
        [] \<Rightarrow> Some 0
      | c # cs \<Rightarrow>
          if c \<in> set ''eE''
          then (case cs of
                  [] \<Rightarrow> None
                | d # ds \<Rightarrow>
                    if d \<in> set ''+-''
                    then map_option (\<lambda>n. if d = CHR ''-'' then - int n else int n) (unsigned_int ds)
                    else map_option int (unsigned_int cs))
          else None)"

text \<open>A decimal number without sign: digits (with single underscores), point, exponent.\<close>

definition unsigned_float :: "string \<Rightarrow> pyfloat option" where
  "unsigned_float s =
     (let ok = (\<lambda>c. is_digit c \<or> c = CHR ''_''); w = takeWhile ok s; r1 = drop (length w) s;
          point = (r1 \<noteq> [] \<and> hd r1 = CHR ''.'');
          f = (if point then takeWhile ok (tl r1) else []);
          r2 = (if point then drop (length f) (tl r1) else r1);
          part = (\<lambda>t. if t = [] then Some [] else if digits_underscored t then Some (filter is_digit t) else None) in
      case (part w, part f, parse_exponent r2) of
        (Some a, Some b, Some e) \<Rightarrow>
          (if a = [] \<and> b = [] then None
           else (let n = int (nat_of_digits (a @ b)); k = e - int (length b) in
                 Some (double_frac (n * 10 ^ nat k) (10 ^ nat (- k)))))
      | _ \<Rightarrow> None)"

definition float_of_text :: "string \<Rightarrow> pyfloat option" where
  "float_of_text s =
     (let t = casefold (strip s);
          neg = (t \<noteq> [] \<and> hd t = CHR ''-'');
          u = (if t \<noteq> [] \<and> hd t \<in> set ''+-'' then tl t else t);
          x = (if u = ''inf'' \<or> u = ''infinity'' then Some PInf
               else if u = ''nan'' then Some FNaN else unsigned_float u) in
      map_option (\<lambda>y. if neg then fneg y else y) x)"

text \<open>\<open>float(v)\<close>; an integer too large for a double raises \<open>OverflowError\<close>.\<close>

fun py_float :: "pyval \<Rightarrow> pyfloat result" where
  "py_float (PBool b) = Inr (Fin (if b then 1 else 0))"
| "py_float (PInt n) = (case double_frac n 1 of Fin a \<Rightarrow> Inr (Fin a) | _ \<Rightarrow> Inl OverflowError)"
| "py_float (PFloat s) = (case float_of_text s of Some x \<Rightarrow> Inr x | None \<Rightarrow> Inl (ValueError ''float''))"
| "py_float (PStr s) = (case float_of_text s of Some x \<Rightarrow> Inr x | None \<Rightarrow> Inl (ValueError ''float''))"
| "py_float _ = Inl TypeError"

text \<open>\<open>max(a, b)\<close> and \<open>min(a, b)\<close>: the first argument unless the second is larger, or smaller.\<close>

definition fmax :: "pyfloat \<Rightarrow> pyfloat \<Rightarrow> pyfloat" where
  "fmax a b = (if flt a b then b else a)"

definition fmin :: "pyfloat \<Rightarrow> pyfloat \<Rightarrow> pyfloat" where
  "fmin a b = (if flt b a then b else a)"

end
