(* ===== verification/Rssi_Zero_Runs.thy ===== *)
theory Rssi_Zero_Runs
  imports Py_Numbers
begin

text \<open>
  \<^verbatim>\<open>services/mesh_rssi_zero_runs.py\<close>: the runs of zero RSSI samples of a mesh log. A parsed time is its
  microsecond count; the ISO parser and printer of the standard library are arguments, and the times
  of one log are taken to be all with or all without a zone, as Python compares only such. Intervals
  are doubles as in the source. The selectors of a row are arguments here as they are there.
\<close>

section \<open>Finite numbers\<close>

definition finite_number :: "pyval \<Rightarrow> rat option result" where
  "finite_number v =
     (if v = PNone \<or> v = PStr [] \<or> is_pbool v then Inr None
      else (case py_float v of
              Inr (Fin a) \<Rightarrow> Inr (Some a)
            | Inr _ \<Rightarrow> Inr None
            | Inl TypeError \<Rightarrow> Inr None
            | Inl (ValueError _) \<Rightarrow> Inr None
            | Inl e \<Rightarrow> Inl e))"

section \<open>Data\<close>

definition SUSTAINED_ZERO_MINIMUM_NATURAL_SECOND_COUNT :: int where
  "SUSTAINED_ZERO_MINIMUM_NATURAL_SECOND_COUNT = 2"

definition MINIMUM_SAMPLE_INTERVAL_MS :: int where
  "MINIMUM_SAMPLE_INTERVAL_MS = 100"

definition MAXIMUM_SAMPLE_INTERVAL_MS :: int where
  "MAXIMUM_SAMPLE_INTERVAL_MS = 5000"

definition DEFAULT_SAMPLE_INTERVAL_MS :: int where
  "DEFAULT_SAMPLE_INTERVAL_MS = 1000"

definition MAXIMUM_CONTINUOUS_GAP_MS :: int where
  "MAXIMUM_CONTINUOUS_GAP_MS = 60000"

datatype RssiZeroState = Suppressed | Sustained

datatype RssiZeroBoundary = BStart | BMiddle | BEnd | BSingle

record RssiZeroRunMetadata =
  zm_state :: RssiZeroState
  zm_start_time :: string
  zm_end_time :: string
  zm_duration_ms :: int
  zm_sample_count :: nat
  zm_boundary :: RssiZeroBoundary
  zm_estimated_end :: bool

record RssiZeroRunSummary =
  zs_suppressed_sample_count :: nat
  zs_suppressed_run_count :: nat
  zs_sustained_run_count :: nat
  zs_sustained_total_duration_ms :: int
  zs_sustained_longest_duration_ms :: int

record RssiZeroRunAnalysis =
  za_metadata :: "(nat \<times> RssiZeroRunMetadata) list"
  za_sustained_boundaries :: "nat list"
  za_suppressed_recoveries :: "nat list"
  za_sample_interval_ms :: int
  za_continuous_gap_ms :: int
  za_summary :: RssiZeroRunSummary

text \<open>The local variables of the analysis.\<close>

record ZeroRun =
  zr_zeros :: "nat list"
  zr_previous :: "int option"
  zr_metadata :: "(nat \<times> RssiZeroRunMetadata) list"
  zr_sustained :: "nat list"
  zr_recoveries :: "nat list"
  zr_summary :: RssiZeroRunSummary

record RunConfig =
  rc_times :: "int option list"
  rc_isoformat :: "int \<Rightarrow> string"
  rc_interval_ms :: int
  rc_gap_ms :: int
  rc_minimum_seconds :: int

section \<open>Intervals\<close>

definition parse_time :: "(string \<Rightarrow> int option) \<Rightarrow> pyval \<Rightarrow> int option" where
  "parse_time fromisoformat v =
     (let t = text_of v in
      if t = [] then None
      else fromisoformat (if last t = CHR ''Z'' then butlast t @ ''+00:00'' else t))"

text \<open>\<open>(b - a).total_seconds() * 1_000\<close>\<close>

definition interval_ms :: "int \<Rightarrow> int \<Rightarrow> pyfloat" where
  "interval_ms a b = fscale (fdiv_int (b - a) 1000000) 1000"

definition fin_between :: "int \<Rightarrow> pyfloat \<Rightarrow> int \<Rightarrow> bool" where
  "fin_between lo x hi \<longleftrightarrow> fle (Fin (of_int lo)) x \<and> fle x (Fin (of_int hi))"

fun intervals :: "int option \<Rightarrow> (int option \<times> bool) list \<Rightarrow> rat list" where
  "intervals previous [] = []"
| "intervals previous ((t, boundary) # rest) =
     (case t of
        None \<Rightarrow> intervals None rest
      | Some b \<Rightarrow>
          (if boundary then intervals (Some b) rest
           else (case previous of
                   None \<Rightarrow> intervals (Some b) rest
                 | Some a \<Rightarrow>
                     (case interval_ms a b of
                        Fin x \<Rightarrow>
                          (if fin_between MINIMUM_SAMPLE_INTERVAL_MS (Fin x) MAXIMUM_SAMPLE_INTERVAL_MS
                           then x # intervals (Some b) rest else intervals (Some b) rest)
                      | _ \<Rightarrow> intervals (Some b) rest))))"

text \<open>\<open>statistics.median\<close> of a list that is not empty.\<close>

definition median :: "rat list \<Rightarrow> pyfloat" where
  "median xs =
     (let s = sort xs; n = length s in
      if odd n then Fin (s ! (n div 2))
      else fscale (fadd (Fin (s ! (n div 2 - 1))) (Fin (s ! (n div 2)))) (1 / 2))"

definition clamp_float :: "int \<Rightarrow> int \<Rightarrow> pyfloat \<Rightarrow> pyfloat" where
  "clamp_float lo hi x =
     (let y = (if flt x (Fin (of_int hi)) then x else Fin (of_int hi)) in
      if flt (Fin (of_int lo)) y then y else Fin (of_int lo))"

definition estimate_sample_interval_ms :: "(int option \<times> bool) list \<Rightarrow> pyval \<Rightarrow> int result" where
  "estimate_sample_interval_ms rows fallback =
     (let xs = intervals None rows in
      if xs \<noteq> []
      then Inr (fround (clamp_float MINIMUM_SAMPLE_INTERVAL_MS MAXIMUM_SAMPLE_INTERVAL_MS (median xs)))
      else (case finite_number fallback of
              Inl e \<Rightarrow> Inl e
            | Inr f \<Rightarrow>
                Inr (fround (clamp_float MINIMUM_SAMPLE_INTERVAL_MS MAXIMUM_SAMPLE_INTERVAL_MS
                  (case f of Some a \<Rightarrow> if 0 < a then Fin a else Fin (of_int DEFAULT_SAMPLE_INTERVAL_MS)
                           | None \<Rightarrow> Fin (of_int DEFAULT_SAMPLE_INTERVAL_MS))))))"

definition continuous_gap_ms :: "pyval \<Rightarrow> int \<Rightarrow> int result" where
  "continuous_gap_ms configured interval =
     (case finite_number configured of
        Inl e \<Rightarrow> Inl e
      | Inr f \<Rightarrow>
          (case f of
             Some a \<Rightarrow>
               if 0 < a then Inr (fround (clamp_float interval MAXIMUM_CONTINUOUS_GAP_MS (Fin a)))
               else Inr (min MAXIMUM_CONTINUOUS_GAP_MS (max MAXIMUM_SAMPLE_INTERVAL_MS (interval * 5)))
           | None \<Rightarrow> Inr (min MAXIMUM_CONTINUOUS_GAP_MS (max MAXIMUM_SAMPLE_INTERVAL_MS (interval * 5)))))"

section \<open>Runs\<close>

definition natural_seconds :: "int option list \<Rightarrow> nat list \<Rightarrow> int list" where
  "natural_seconds stamps zeros = remdups (concat (map (\<lambda>i. case stamps ! i of Some t \<Rightarrow> [t div 1000000] | None \<Rightarrow> []) zeros))"

definition boundary_of :: "nat \<Rightarrow> nat \<Rightarrow> RssiZeroBoundary" where
  "boundary_of count offset =
     (if count = 1 then BSingle else if offset = 0 then BStart else if offset = count - 1 then BEnd else BMiddle)"

definition count_run :: "RssiZeroState \<Rightarrow> nat \<Rightarrow> int \<Rightarrow> RssiZeroRunSummary \<Rightarrow> RssiZeroRunSummary" where
  "count_run state count duration s =
     (if state = Suppressed
      then s\<lparr>zs_suppressed_sample_count := zs_suppressed_sample_count s + count,
             zs_suppressed_run_count := zs_suppressed_run_count s + 1\<rparr>
      else s\<lparr>zs_sustained_run_count := zs_sustained_run_count s + 1,
             zs_sustained_total_duration_ms := zs_sustained_total_duration_ms s + duration,
             zs_sustained_longest_duration_ms := max (zs_sustained_longest_duration_ms s) duration\<rparr>)"

definition run_state :: "RunConfig \<Rightarrow> nat list \<Rightarrow> RssiZeroState" where
  "run_state cf zeros =
     (if max (rc_minimum_seconds cf) 1 \<le> int (length (natural_seconds (rc_times cf) zeros)) then Sustained else Suppressed)"

definition flush_run :: "RunConfig \<Rightarrow> int option \<Rightarrow> ZeroRun \<Rightarrow> RssiZeroState option \<times> ZeroRun" where
  "flush_run cf next_valid z =
     (let zeros = zr_zeros z in
      if zeros = [] then (None, z)
      else (case (rc_times cf ! hd zeros, rc_times cf ! last zeros) of
              (Some start, Some final) \<Rightarrow>
                (let finish = (case next_valid of Some t \<Rightarrow> t | None \<Rightarrow> final + rc_interval_ms cf * 1000);
                     duration = max (fround (interval_ms start finish)) 0;
                     count = length zeros;
                     state = run_state cf zeros;
                     entry = (\<lambda>offset. \<lparr>zm_state = state, zm_start_time = rc_isoformat cf start,
                                zm_end_time = rc_isoformat cf finish, zm_duration_ms = duration,
                                zm_sample_count = count, zm_boundary = boundary_of count offset,
                                zm_estimated_end = (next_valid = None)\<rparr>) in
                 (Some state,
                  z\<lparr>zr_zeros := [],
                    zr_metadata := fold (\<lambda>(offset, i). AList.update i (entry offset)) (enumerate 0 zeros) (zr_metadata z),
                    zr_sustained := zr_sustained z @
                      map snd (filter (\<lambda>(offset, i). state = Sustained \<and> boundary_of count offset \<noteq> BMiddle) (enumerate 0 zeros)),
                    zr_summary := count_run state count duration (zr_summary z)\<rparr>))
            | _ \<Rightarrow> (None, z\<lparr>zr_zeros := []\<rparr>)))"

definition gap_before :: "RunConfig \<Rightarrow> int option \<Rightarrow> int option \<Rightarrow> bool" where
  "gap_before cf previous t =
     (case (previous, t) of
        (Some a, Some b) \<Rightarrow> b < a \<or> flt (Fin (of_int (rc_gap_ms cf))) (interval_ms a b)
      | _ \<Rightarrow> False)"

text \<open>A missing time, a boundary mark or a gap ends the run before the row is read.\<close>

definition break_run :: "RunConfig \<Rightarrow> nat \<Rightarrow> bool \<Rightarrow> ZeroRun \<Rightarrow> ZeroRun" where
  "break_run cf i boundary z =
     (let t = rc_times cf ! i in
      if t = None \<or> boundary \<or> gap_before cf (zr_previous z) t
      then (snd (flush_run cf None z))\<lparr>zr_previous := None\<rparr> else z)"

definition read_value :: "RunConfig \<Rightarrow> nat \<Rightarrow> int \<Rightarrow> pyval \<Rightarrow> ZeroRun \<Rightarrow> ZeroRun result" where
  "read_value cf i now v z =
     (case finite_number v of
        Inl e \<Rightarrow> Inl e
      | Inr (Some x) \<Rightarrow>
          (if x = 0 then Inr (z\<lparr>zr_zeros := zr_zeros z @ [i], zr_previous := Some now\<rparr>)
           else (let (state, z2) = flush_run cf (Some now) z;
                     z3 = (if state = Some Suppressed then z2\<lparr>zr_recoveries := zr_recoveries z2 @ [i]\<rparr> else z2) in
                 Inr (z3\<lparr>zr_previous := Some now\<rparr>)))
      | Inr None \<Rightarrow> Inr ((snd (flush_run cf None z))\<lparr>zr_previous := None\<rparr>))"

text \<open>One row: its index, its boundary mark and its value.\<close>

definition zero_step :: "RunConfig \<Rightarrow> nat \<Rightarrow> bool \<Rightarrow> pyval \<Rightarrow> ZeroRun \<Rightarrow> ZeroRun result" where
  "zero_step cf i boundary v z =
     (let z1 = break_run cf i boundary z in
      case rc_times cf ! i of None \<Rightarrow> Inr z1 | Some now \<Rightarrow> read_value cf i now v z1)"

fun zero_loop :: "RunConfig \<Rightarrow> nat \<Rightarrow> (bool \<times> pyval) list \<Rightarrow> ZeroRun \<Rightarrow> ZeroRun result" where
  "zero_loop cf i [] z = Inr (snd (flush_run cf None z))"
| "zero_loop cf i ((boundary, v) # rows) z =
     (case zero_step cf i boundary v z of
        Inl e \<Rightarrow> Inl e
      | Inr z' \<Rightarrow> zero_loop cf (Suc i) rows z')"

definition no_runs :: ZeroRun where
  "no_runs =
     \<lparr>zr_zeros = [], zr_previous = None, zr_metadata = [], zr_sustained = [], zr_recoveries = [],
      zr_summary = \<lparr>zs_suppressed_sample_count = 0, zs_suppressed_run_count = 0, zs_sustained_run_count = 0,
        zs_sustained_total_duration_ms = 0, zs_sustained_longest_duration_ms = 0\<rparr>\<rparr>"

definition analyze_rssi_zero_runs ::
  "(string \<Rightarrow> int option) \<Rightarrow> (int \<Rightarrow> string) \<Rightarrow> ('r \<Rightarrow> pyval) \<Rightarrow> ('r \<Rightarrow> pyval) \<Rightarrow> ('r \<Rightarrow> bool) \<Rightarrow>
   pyval \<Rightarrow> pyval \<Rightarrow> int \<Rightarrow> 'r list \<Rightarrow> RssiZeroRunAnalysis result" where
  "analyze_rssi_zero_runs fromisoformat isoformat time_of value_of boundary_before fallback max_gap minimum rows =
     (let stamps = map (\<lambda>r. parse_time fromisoformat (time_of r)) rows in
      case estimate_sample_interval_ms (zip stamps (map boundary_before rows)) fallback of
        Inl e \<Rightarrow> Inl e
      | Inr interval \<Rightarrow>
          (case continuous_gap_ms max_gap interval of
             Inl e \<Rightarrow> Inl e
           | Inr gap \<Rightarrow>
               (case zero_loop \<lparr>rc_times = stamps, rc_isoformat = isoformat, rc_interval_ms = interval,
                        rc_gap_ms = gap, rc_minimum_seconds = minimum\<rparr> 0
                      (map (\<lambda>r. (boundary_before r, value_of r)) rows) no_runs of
                  Inl e \<Rightarrow> Inl e
                | Inr z \<Rightarrow>
                    Inr \<lparr>za_metadata = zr_metadata z, za_sustained_boundaries = zr_sustained z,
                         za_suppressed_recoveries = zr_recoveries z, za_sample_interval_ms = interval,
                         za_continuous_gap_ms = gap, za_summary = zr_summary z\<rparr>)))"

section \<open>The annotated rows\<close>

text \<open>A row with a time whose value is the number zero.\<close>

definition zero_row :: "int option list \<Rightarrow> pyval list \<Rightarrow> nat \<Rightarrow> bool" where
  "zero_row ts vs j \<longleftrightarrow> ts ! j \<noteq> None \<and> finite_number (vs ! j) = Inr (Some 0)"

definition suppressed_entry :: "nat \<times> RssiZeroRunMetadata \<Rightarrow> bool" where
  "suppressed_entry e \<longleftrightarrow> zm_state (snd e) = Suppressed"

definition edge_entry :: "nat \<times> RssiZeroRunMetadata \<Rightarrow> bool" where
  "edge_entry e \<longleftrightarrow> zm_state (snd e) = Sustained \<and> zm_boundary (snd e) \<noteq> BMiddle"

definition summary_ok :: "RssiZeroRunSummary \<Rightarrow> bool" where
  "summary_ok s \<longleftrightarrow>
     0 \<le> zs_sustained_longest_duration_ms s \<and>
     zs_sustained_longest_duration_ms s \<le> zs_sustained_total_duration_ms s"

definition run_inv :: "RunConfig \<Rightarrow> pyval list \<Rightarrow> nat \<Rightarrow> ZeroRun \<Rightarrow> bool" where
  "run_inv cf vs i z \<longleftrightarrow>
     map fst (zr_metadata z) @ zr_zeros z = filter (zero_row (rc_times cf) vs) [0..<i] \<and>
     zs_suppressed_sample_count (zr_summary z) = length (filter suppressed_entry (zr_metadata z)) \<and>
     zr_sustained z = map fst (filter edge_entry (zr_metadata z)) \<and> summary_ok (zr_summary z)"

lemma update_new: "k \<notin> fst ` set al \<Longrightarrow> AList.update k v al = al @ [(k, v)]"
  by (induction al) auto

lemma fold_update_new:
  "distinct (map fst al @ map snd es) \<Longrightarrow>
   fold (\<lambda>(a, k). AList.update k (f a)) es al = al @ map (\<lambda>(a, k). (k, f a)) es"
proof (induction es arbitrary: al)
  case Nil
  then show ?case by simp
next
  case (Cons e es)
  obtain a k where e: "e = (a, k)" by (cases e)
  have "AList.update k (f a) al = al @ [(k, f a)]" using Cons.prems by (intro update_new) (auto simp: e)
  then show ?case using Cons.IH [of "al @ [(k, f a)]"] Cons.prems by (simp add: e)
qed

lemma run_inv_zeros:
  assumes "run_inv cf vs i z" and "j \<in> set (zr_zeros z)"
  shows "rc_times cf ! j \<noteq> None"
proof -
  have "j \<in> set (filter (zero_row (rc_times cf) vs) [0..<i])"
    using assms by (metis (no_types, lifting) UnCI run_inv_def set_append)
  then show ?thesis by (simp add: zero_row_def)
qed

lemma count_run_ok: "summary_ok s \<Longrightarrow> 0 \<le> d \<Longrightarrow> summary_ok (count_run st n d s)"
  by (auto simp: summary_ok_def count_run_def)

lemma count_run_suppressed:
  "zs_suppressed_sample_count (count_run st n d s) = zs_suppressed_sample_count s + (if st = Suppressed then n else 0)"
  by (simp add: count_run_def)

lemma flush_run_inv:
  assumes inv: "run_inv cf vs i z"
  shows "run_inv cf vs i (snd (flush_run cf nv z)) \<and> zr_zeros (snd (flush_run cf nv z)) = []"
proof (cases "zr_zeros z = []")
  case True
  then show ?thesis using inv by (simp add: flush_run_def)
next
  case False
  let ?zs = "zr_zeros z"
  obtain a b where ab: "rc_times cf ! hd ?zs = Some a" "rc_times cf ! last ?zs = Some b"
    using run_inv_zeros [OF inv hd_in_set [OF False]] run_inv_zeros [OF inv last_in_set [OF False]] by auto
  define finish where "finish = (case nv of Some t \<Rightarrow> t | None \<Rightarrow> b + rc_interval_ms cf * 1000)"
  define d where "d = max (fround (interval_ms a finish)) 0"
  define st where "st = run_state cf ?zs"
  define entry where "entry = (\<lambda>offset. \<lparr>zm_state = st, zm_start_time = rc_isoformat cf a,
     zm_end_time = rc_isoformat cf finish, zm_duration_ms = d, zm_sample_count = length ?zs,
     zm_boundary = boundary_of (length ?zs) offset, zm_estimated_end = (nv = None)\<rparr>)"
  define new where "new = map (\<lambda>(offset, i). (i, entry offset)) (enumerate 0 ?zs)"
  define z' where "z' = snd (flush_run cf nv z)"
  have z': "z' = z\<lparr>zr_zeros := [],
      zr_metadata := fold (\<lambda>(offset, i). AList.update i (entry offset)) (enumerate 0 ?zs) (zr_metadata z),
      zr_sustained := zr_sustained z @ map snd (filter (\<lambda>(offset, i). st = Sustained \<and>
        boundary_of (length ?zs) offset \<noteq> BMiddle) (enumerate 0 ?zs)),
      zr_summary := count_run st (length ?zs) d (zr_summary z)\<rparr>"
    using False ab by (simp add: z'_def flush_run_def Let_def entry_def d_def finish_def st_def)
  have keys: "map fst (zr_metadata z) @ ?zs = filter (zero_row (rc_times cf) vs) [0..<i]"
    using inv by (simp add: run_inv_def)
  have "distinct (map fst (zr_metadata z) @ map snd (enumerate 0 ?zs))"
    using distinct_filter [OF distinct_upt, of "zero_row (rc_times cf) vs" 0 i] unfolding keys [symmetric] by simp
  from fold_update_new [OF this, of entry] have meta: "zr_metadata z' = zr_metadata z @ new"
    by (simp add: z' new_def)
  have fst_new: "map fst new = ?zs"
    by (simp add: new_def split_beta comp_def)
  have sup: "length (filter suppressed_entry new) = (if st = Suppressed then length ?zs else 0)"
    by (simp add: new_def filter_map comp_def split_beta suppressed_entry_def entry_def)
  have edge: "map fst (filter edge_entry new) = map snd (filter (\<lambda>(offset, i). st = Sustained \<and>
        boundary_of (length ?zs) offset \<noteq> BMiddle) (enumerate 0 ?zs))"
    by (simp add: new_def filter_map comp_def split_beta edge_entry_def entry_def)
  have "0 \<le> d" by (simp add: d_def)
  then have "run_inv cf vs i z'"
    using inv keys count_run_ok
    by (simp add: run_inv_def meta fst_new sup edge) (simp add: z' count_run_suppressed)
  then show ?thesis by (simp add: z'_def [symmetric]) (simp add: z')
qed

lemma run_inv_frame [simp]:
  "run_inv cf vs i (z\<lparr>zr_previous := p\<rparr>) = run_inv cf vs i z"
  "run_inv cf vs i (z\<lparr>zr_recoveries := r\<rparr>) = run_inv cf vs i z"
  by (simp_all add: run_inv_def)

lemma run_inv_skip: "run_inv cf vs i z \<Longrightarrow> \<not> zero_row (rc_times cf) vs i \<Longrightarrow> run_inv cf vs (Suc i) z"
  by (simp add: run_inv_def)

lemma run_inv_zero:
  "run_inv cf vs i z \<Longrightarrow> zero_row (rc_times cf) vs i \<Longrightarrow> run_inv cf vs (Suc i) (z\<lparr>zr_zeros := zr_zeros z @ [i]\<rparr>)"
  by (simp add: run_inv_def)

lemma break_run_inv: "run_inv cf vs i z \<Longrightarrow> run_inv cf vs i (break_run cf i boundary z)"
  by (simp add: break_run_def Let_def flush_run_inv)

lemma read_value_inv:
  assumes z: "run_inv cf vs i z" and t: "rc_times cf ! i = Some now" and step: "read_value cf i now (vs ! i) z = Inr z'"
  shows "run_inv cf vs (Suc i) z'"
proof -
  obtain x where x: "finite_number (vs ! i) = Inr x"
    using step by (auto simp: read_value_def split: sum.splits)
  note flushed = flush_run_inv [OF z, THEN conjunct1]
  show ?thesis
  proof (cases "x = Some 0")
    case True
    have "z' = z\<lparr>zr_zeros := zr_zeros z @ [i]\<rparr>\<lparr>zr_previous := Some now\<rparr>"
      using step x True by (simp add: read_value_def)
    moreover have "zero_row (rc_times cf) vs i" using t x True by (simp add: zero_row_def)
    ultimately show ?thesis using run_inv_zero [OF z] by simp
  next
    case False
    have "run_inv cf vs i z'"
      using step x False flushed [of "Some now"] flushed [of None]
      by (auto simp: read_value_def split: option.splits prod.splits if_splits)
    then show ?thesis using x False by (simp add: run_inv_skip zero_row_def)
  qed
qed

lemma zero_step_inv:
  assumes "run_inv cf vs i z" and "zero_step cf i boundary (vs ! i) z = Inr z'"
  shows "run_inv cf vs (Suc i) z'"
  using assms break_run_inv [OF assms(1), of boundary]
  by (auto simp: zero_step_def Let_def zero_row_def intro: run_inv_skip read_value_inv split: option.splits)

lemma zero_loop_inv:
  "run_inv cf vs i z \<Longrightarrow> map snd rows = drop i vs \<Longrightarrow> zero_loop cf i rows z = Inr z' \<Longrightarrow>
   run_inv cf vs (i + length rows) z' \<and> zr_zeros z' = []"
proof (induction rows arbitrary: i z)
  case Nil
  then show ?case using flush_run_inv [OF Nil.prems(1), of None] by auto
next
  case (Cons r rows)
  obtain boundary v where r: "r = (boundary, v)" by (cases r)
  have "drop i vs = v # map snd rows" using Cons.prems(2) by (simp add: r)
  then have v: "vs ! i = v" and rest: "map snd rows = drop (Suc i) vs"
    by (metis nth_via_drop, metis drop_Suc list.sel(3) tl_drop)
  obtain z1 where z1: "zero_step cf i boundary v z = Inr z1" "zero_loop cf (Suc i) rows z1 = Inr z'"
    using Cons.prems(3) by (auto simp: r split: sum.splits)
  have "run_inv cf vs (Suc i) z1" using zero_step_inv [OF Cons.prems(1)] z1(1) v by simp
  from Cons.IH [OF this rest z1(2)] show ?case by simp
qed


definition sample_rows :: "(pyval \<times> pyval) list" where
  "sample_rows =
     [(PStr ''100'', PInt 0), (PStr ''1100'', PInt 0), (PStr ''2100'', PInt 5), (PStr ''2600'', PInt 0)]"

definition sample_analysis :: "RssiZeroRunAnalysis result" where
  "sample_analysis =
     analyze_rssi_zero_runs (\<lambda>s. Some (int (nat_of_digits s) * 1000)) (\<lambda>t. []) fst snd (\<lambda>_. False) PNone PNone 2 sample_rows"


end
