(* ===== verification/Task_Authority.thy ===== *)
theory Task_Authority
  imports NC_Prelude
begin

text \<open>
  \<^verbatim>\<open>services/job_center/task_authority_index.py\<close>: the index that routes a task to the sites whose
  databases hold it. The file is modelled by the JSON value it holds, \<open>None\<close> when it is missing or
  no JSON; writing is atomic, as the source replaces the file, and operating system errors of the
  writing are left out. An index entry is a list of authorities; the old format, one authority per
  task, is still read.
\<close>

type_synonym index_file = "pyval option"

section \<open>Operations\<close>

definition SCHEMA_VERSION :: int where
  "SCHEMA_VERSION = 2"

text \<open>\<^verbatim>\<open>version not in {1, 2}\<close>: equal numbers are members, a list or dictionary cannot be hashed.\<close>

definition known_version :: "pyval \<Rightarrow> bool result" where
  "known_version v =
     (case v of
        PList _ \<Rightarrow> Inl TypeError
      | PDict _ \<Rightarrow> Inl TypeError
      | _ \<Rightarrow> Inr (v \<in> {PInt 1, PBool True, PFloat ''1.0'', PInt SCHEMA_VERSION, PFloat ''2.0''}))"

definition load_index :: "index_file \<Rightarrow> pydict result" where
  "load_index f =
     (case f of
        Some (PDict payload) \<Rightarrow>
          (case known_version (dget payload ''schema_version'') of
             Inl e \<Rightarrow> Inl e
           | Inr False \<Rightarrow> Inr []
           | Inr True \<Rightarrow> Inr (dict_of (dget payload ''tasks'')))
      | _ \<Rightarrow> Inr [])"

definition save_index :: "pydict \<Rightarrow> index_file" where
  "save_index values = Some (PDict [(''schema_version'', PInt SCHEMA_VERSION), (''tasks'', PDict values)])"

fun dicts_in :: "pyval list \<Rightarrow> pydict list" where
  "dicts_in [] = []"
| "dicts_in (v # vs) = (case v of PDict d \<Rightarrow> d # dicts_in vs | _ \<Rightarrow> dicts_in vs)"

definition authorities_from_values :: "pydict \<Rightarrow> string \<Rightarrow> pydict list" where
  "authorities_from_values values task =
     (case dget values task of PList xs \<Rightarrow> dicts_in xs | PDict d \<Rightarrow> [d] | _ \<Rightarrow> [])"

definition site_of :: "pydict \<Rightarrow> string" where
  "site_of item = text_of (dget item ''site_name'')"

definition authority_sites :: "pydict \<Rightarrow> string \<Rightarrow> string list" where
  "authority_sites values task = filter (\<lambda>s. s \<noteq> []) (remdups (map site_of (authorities_from_values values task)))"

definition resolve_task :: "pyval \<Rightarrow> index_file \<Rightarrow> string option result" where
  "resolve_task task f =
     (case load_index f of
        Inl e \<Rightarrow> Inl e
      | Inr values \<Rightarrow> Inr (case authority_sites values (text_of task) of [s] \<Rightarrow> Some s | _ \<Rightarrow> None))"

text \<open>The first authority of the site is replaced, or the new one is appended.\<close>

fun put_authority :: "string \<Rightarrow> pydict \<Rightarrow> pydict list \<Rightarrow> pydict list" where
  "put_authority site new [] = [new]"
| "put_authority site new (a # as) = (if site_of a = site then new # as else a # put_authority site new as)"

definition bind_task :: "pyval \<Rightarrow> pyval \<Rightarrow> pyval \<Rightarrow> index_file \<Rightarrow> index_file result" where
  "bind_task task site kind f =
     (if text_of task = [] \<or> text_of site = [] \<or> text_of kind = [] then Inr f
      else (case load_index f of
              Inl e \<Rightarrow> Inl e
            | Inr values \<Rightarrow>
                (let new = [(''site_name'', PStr (text_of site)), (''task_type'', PStr (text_of kind))];
                     as = put_authority (text_of site) new (authorities_from_values values (text_of task)) in
                 Inr (save_index (dput (text_of task) (PList (map PDict as)) values)))))"

definition drop_entry :: "string \<Rightarrow> pydict \<Rightarrow> pydict" where
  "drop_entry k d = filter (\<lambda>kv. fst kv \<noteq> k) d"

text \<open>One task of a removal: the new values and whether something changed.\<close>

definition remove_one :: "string \<Rightarrow> string \<Rightarrow> pydict \<times> bool \<Rightarrow> pydict \<times> bool" where
  "remove_one selected task vc =
     (let as = authorities_from_values (fst vc) task;
          remaining = (if selected \<noteq> [] then filter (\<lambda>a. site_of a \<noteq> selected) as else []) in
      if as = [] then vc
      else if remaining \<noteq> [] then (dput task (PList (map PDict remaining)) (fst vc), True)
      else (drop_entry task (fst vc), True))"

definition remove_tasks :: "pyval list \<Rightarrow> pyval \<Rightarrow> index_file \<Rightarrow> index_file result" where
  "remove_tasks tasks site f =
     (let ids = filter (\<lambda>t. t \<noteq> []) (remdups (map text_of tasks)); selected = text_of site in
      if ids = [] then Inr f
      else (case load_index f of
              Inl e \<Rightarrow> Inl e
            | Inr values \<Rightarrow>
                (let (values', changed) = fold (remove_one selected) ids (values, False) in
                 Inr (if changed then save_index values' else f))))"

definition index_sites :: "index_file \<Rightarrow> string set result" where
  "index_sites f =
     (case load_index f of
        Inl e \<Rightarrow> Inl e
      | Inr values \<Rightarrow>
          Inr (set (filter (\<lambda>s. s \<noteq> [])
            (concat (map (\<lambda>kv. case snd kv of PList xs \<Rightarrow> map site_of (dicts_in xs) | _ \<Rightarrow> []) values)))))"

section \<open>The abstract index\<close>

text \<open>The sites of every task; what the index promises to remember.\<close>

definition site_map :: "index_file \<Rightarrow> string \<Rightarrow> string set" where
  "site_map f task = (case load_index f of Inl _ \<Rightarrow> {} | Inr values \<Rightarrow> set (authority_sites values task))"

lemma load_save [simp]: "load_index (save_index values) = Inr values"
  by (simp add: load_index_def save_index_def known_version_def dict_simps)

lemma dicts_in_map [simp]: "dicts_in (map PDict as) = as"
  by (induction as) auto

lemma authority_sites_set:
  "set (authority_sites values task) = site_of ` set (authorities_from_values values task) - {[]}"
  by (auto simp: authority_sites_def)

lemma authorities_dput:
  "authorities_from_values (dput k (PList (map PDict as)) values) task =
     (if task = k then as else authorities_from_values values task)"
  by (simp add: authorities_from_values_def dict_simps)

lemma dget_drop_entry: "dget (drop_entry k d) j = (if j = k then PNone else dget d j)"
  by (induction d) (auto simp: drop_entry_def dget_def)

lemma authorities_drop:
  "authorities_from_values (drop_entry k values) task = (if task = k then [] else authorities_from_values values task)"
  by (simp add: authorities_from_values_def dget_drop_entry)

lemma put_authority_sites:
  "site_of new = site \<Longrightarrow> site_of ` set (put_authority site new as) = insert site (site_of ` set as)"
  by (induction as) auto

definition removed_sites :: "string \<Rightarrow> string set \<Rightarrow> string set" where
  "removed_sites selected S = (if selected = [] then {} else S - {selected})"

lemma remove_one_sites:
  "set (authority_sites (fst (remove_one selected t vc)) task) =
     (if task = t then removed_sites selected (set (authority_sites (fst vc) task)) else set (authority_sites (fst vc) task))"
  by (auto simp: remove_one_def authority_sites_set authorities_dput authorities_drop removed_sites_def Let_def
      filter_empty_conv)

lemma removed_sites_idem [simp]: "removed_sites selected (removed_sites selected S) = removed_sites selected S"
  by (auto simp: removed_sites_def)

lemma remove_fold_sites:
  "set (authority_sites (fst (fold (remove_one selected) ids vc)) task) =
     (if task \<in> set ids then removed_sites selected (set (authority_sites (fst vc) task))
      else set (authority_sites (fst vc) task))"
  by (induction ids arbitrary: vc) (auto simp: remove_one_sites)

lemma remove_one_unchanged:
  "\<not> snd (remove_one selected t vc) \<Longrightarrow> remove_one selected t vc = vc \<and> \<not> snd vc"
  by (auto simp: remove_one_def Let_def split: if_splits)

lemma remove_fold_unchanged:
  "\<not> snd (fold (remove_one selected) ids vc) \<Longrightarrow> fold (remove_one selected) ids vc = vc \<and> \<not> snd vc"
proof (induction ids arbitrary: vc)
  case (Cons t ids)
  then have "\<not> snd (remove_one selected t vc)" by (metis fold_simps(2))
  from remove_one_unchanged [OF this] Cons show ?case by simp
qed simp

lemma bind_task_saved:
  assumes "text_of task \<noteq> []" "text_of site \<noteq> []" "text_of kind \<noteq> []" "load_index f = Inr values"
  shows "bind_task task site kind f =
    Inr (save_index (dput (text_of task) (PList (map PDict
      (put_authority (text_of site) [(''site_name'', PStr (text_of site)), (''task_type'', PStr (text_of kind))]
        (authorities_from_values values (text_of task))))) values))"
  using assms by (simp add: bind_task_def Let_def)

definition listed_ids :: "pyval list \<Rightarrow> string list" where
  "listed_ids tasks = filter (\<lambda>t. t \<noteq> []) (remdups (map text_of tasks))"

lemma remove_tasks_cases:
  assumes "load_index f = Inr values"
  shows "remove_tasks tasks site f =
    (let vc = fold (remove_one (text_of site)) (listed_ids tasks) (values, False) in
     Inr (if snd vc then save_index (fst vc) else f))"
  using assms by (simp add: remove_tasks_def listed_ids_def [symmetric] case_prod_beta Let_def)

lemma remove_tasks_saved:
  assumes "load_index f = Inr values"
  shows "\<exists>g. remove_tasks tasks site f = Inr g \<and>
    (\<forall>task. site_map g task =
       set (authority_sites (fst (fold (remove_one (text_of site)) (listed_ids tasks) (values, False))) task))"
proof (cases "snd (fold (remove_one (text_of site)) (listed_ids tasks) (values, False))")
  case True
  then show ?thesis using assms by (simp add: remove_tasks_cases Let_def site_map_def)
next
  case False
  from remove_fold_unchanged [OF this] False assms show ?thesis
    by (simp add: remove_tasks_cases Let_def site_map_def)
qed

section \<open>The index refines the map of sites\<close>

lemma strip_text_of: "strip (text_of v) = text_of v"
  by (simp add: text_of_def text_simps)

lemma bind_task_site_map:
  assumes "text_of task \<noteq> []" "text_of site \<noteq> []" "text_of kind \<noteq> []" "load_index f = Inr values"
  shows "\<exists>g. bind_task task site kind f = Inr g \<and>
    site_map g = (site_map f)(text_of task := insert (text_of site) (site_map f (text_of task)))"
proof -
  define new where "new = [(''site_name'', PStr (text_of site)), (''task_type'', PStr (text_of kind))]"
  have "site_of new = text_of site"
    by (simp add: new_def site_of_def dict_simps strip_text_of)
  from put_authority_sites [OF this, of "authorities_from_values values (text_of task)"]
  have sites: "set (authority_sites (dput (text_of task) (PList (map PDict
        (put_authority (text_of site) new (authorities_from_values values (text_of task))))) values) t) =
      (if t = text_of task then insert (text_of site) (set (authority_sites values t)) else set (authority_sites values t))" for t
    using assms(2) by (auto simp: authority_sites_set authorities_dput)
  show ?thesis
    by (simp add: bind_task_saved [OF assms] new_def [symmetric] site_map_def assms(4) sites fun_eq_iff)
qed

lemma remove_tasks_site_map:
  assumes "load_index f = Inr values"
  shows "\<exists>g. remove_tasks tasks site f = Inr g \<and>
    (\<forall>t. site_map g t = (if t \<in> set (listed_ids tasks) then removed_sites (text_of site) (site_map f t) else site_map f t))"
proof -
  obtain g where g: "remove_tasks tasks site f = Inr g"
    "\<forall>t. site_map g t = set (authority_sites (fst (fold (remove_one (text_of site)) (listed_ids tasks) (values, False))) t)"
    using remove_tasks_saved [OF assms] by blast
  have "site_map f t = set (authority_sites values t)" for t
    by (simp add: site_map_def assms)
  with g show ?thesis by (simp add: remove_fold_sites)
qed

lemma distinct_single_iff: "distinct xs \<Longrightarrow> (set xs = {s}) = (xs = [s])"
  by (cases xs) (auto simp: set_empty subset_singleton_iff)

lemma resolve_task_iff:
  "load_index f = Inr values \<Longrightarrow> (resolve_task task f = Inr (Some s)) = (site_map f (text_of task) = {s})"
proof -
  have "distinct (authority_sites values (text_of task))"
    by (simp add: authority_sites_def)
  then show "load_index f = Inr values \<Longrightarrow> ?thesis"
    by (auto simp: resolve_task_def site_map_def distinct_single_iff split: list.splits)
qed

section \<open>Property\<close>

text \<open>
  C35. The file is an index of sets of sites: binding a task adds its site to the sites of that task
  and of no other, removing tasks takes the selected site (every site when none is selected) from the
  listed tasks only, and a task resolves to a site exactly when that is its one site.
\<close>

theorem authority_index_refines:
  assumes "load_index f = Inr values" "text_of task \<noteq> []" "text_of site \<noteq> []" "text_of kind \<noteq> []"
  shows "(\<exists>g. bind_task task site kind f = Inr g \<and>
            site_map g = (site_map f)(text_of task := insert (text_of site) (site_map f (text_of task)))) \<and>
         (\<exists>h. remove_tasks tasks selected f = Inr h \<and>
            site_map h = (\<lambda>t. if t \<in> set (listed_ids tasks) then removed_sites (text_of selected) (site_map f t) else site_map f t)) \<and>
         (resolve_task task f = Inr (Some s)) = (site_map f (text_of task) = {s})"
  using bind_task_site_map [OF assms(2,3,4,1)] remove_tasks_site_map [OF assms(1), of tasks selected]
    resolve_task_iff [OF assms(1), of task s] by (auto simp: fun_eq_iff)

definition example_index :: index_file where
  "example_index = save_index [(''t1'', PDict [(''site_name'', PStr '' A '')]), (''t2'', PList [PInt 3])]"

lemma authority_index_refines_witness:
  "(\<exists>g. bind_task (PStr ''t1'') (PStr ''B'') (PStr ''ping'') example_index = Inr g \<and>
      site_map g = (site_map example_index)(''t1'' := insert ''B'' (site_map example_index ''t1''))) \<and>
   resolve_task (PStr ''t1'') example_index = Inr (Some ''A'')"
proof -
  have t: "text_of (PStr ''t1'') = ''t1''" "text_of (PStr ''B'') = ''B''" "text_of (PStr ''ping'') = ''ping''"
    by code_simp+
  have s: "site_map example_index ''t1'' = {''A''}"
  proof -
    have "authority_sites [(''t1'', PDict [(''site_name'', PStr '' A '')]), (''t2'', PList [PInt 3])] ''t1'' = [''A'']"
      by code_simp
    then show ?thesis by (simp add: example_index_def site_map_def)
  qed
  have "load_index example_index = Inr [(''t1'', PDict [(''site_name'', PStr '' A '')]), (''t2'', PList [PInt 3])]"
    by (simp add: example_index_def)
  from authority_index_refines [OF this, of "PStr ''t1''" "PStr ''B''" "PStr ''ping''" _ _ "''A''", unfolded t] s
  show ?thesis by simp
qed

end
