(* ===== verification/Step_System.thy ===== *)
theory Step_System
  imports NC_Prelude
begin

text \<open>
  The contract of a component that is driven by actions: \<open>step a s\<close> is the state after the action,
  \<open>None\<close> when the action is not possible in \<open>s\<close>, and an invariant that every step keeps. Runs of any
  length, the interleavings of the threads of a component included, keep the invariant; this is proved
  once and used by every component that interprets the contract.
\<close>

primrec run_actions :: "('a \<Rightarrow> 's \<Rightarrow> 's option) \<Rightarrow> 'a list \<Rightarrow> 's \<Rightarrow> 's option" where
  "run_actions step [] s = Some s"
| "run_actions step (a # as) s = (case step a s of None \<Rightarrow> None | Some s' \<Rightarrow> run_actions step as s')"

lemma run_actions_append:
  "run_actions step (as @ bs) s =
     (case run_actions step as s of None \<Rightarrow> None | Some s' \<Rightarrow> run_actions step bs s')"
  by (induction as arbitrary: s) (auto split: option.splits)

locale step_system =
  fixes step :: "'a \<Rightarrow> 's \<Rightarrow> 's option" and inv :: "'s \<Rightarrow> bool"
  assumes keeps: "inv s \<Longrightarrow> step a s = Some s' \<Longrightarrow> inv s'"
begin

lemma run_keeps: "inv s \<Longrightarrow> run_actions step as s = Some s' \<Longrightarrow> inv s'"
  by (induction as arbitrary: s) (auto split: option.splits intro: keeps)

lemma run_holds:
  assumes "inv s" "run_actions step as s = Some s'" "\<And>t. inv t \<Longrightarrow> P t"
  shows "P s'"
  using run_keeps [OF assms(1,2)] assms(3) by blast

end

end
