(* ===== verification/Process_Lock.thy ===== *)
theory Process_Lock
  imports Step_System
begin

text \<open>
  \<^verbatim>\<open>core/interprocess_lock.py\<close>: the lock on a file that excludes the threads of all processes and may
  be taken again by the thread that has it. The model is the system of all processes that use one
  lock file; the dictionaries of the source are indexed by the path, so other files do not interfere.

  Every thread has a stack of \<open>frame\<close>s, one for each call of \<open>interprocess_file_lock\<close> it is in,
  innermost first; \<open>fr_pc\<close> is the point the call has reached. A section under \<open>_LOCAL_LOCKS_GUARD\<close>, an
  operation of a reentrant lock and an operation of the operating system are one step each, and the
  steps of all threads interleave freely. A file lock belongs to the handle that took it, is refused
  while another handle has it and ends when its handle is closed. A waiting thread makes no step; a
  time limit or an error of the system is the action that gives up.
\<close>

section \<open>State\<close>

datatype pc = Registered | Acquired | HasHandle | Body | Leaving | Released | Closing

text \<open>\<open>_LocalLockState\<close>: owner and count of the reentrant lock, the file handle and the users.\<close>

record 't local_state =
  ls_owner :: "('t \<times> nat) option"
  ls_handle :: "nat option"
  ls_active :: nat

record frame =
  fr_state :: nat
  fr_depth :: nat
  fr_locked :: bool
  fr_handle :: "nat option"
  fr_pc :: pc

text \<open>
  A process: the entry of \<open>_LOCAL_STATES\<close>, the objects it has named so far, the depth of every thread
  and its open handles. \<open>pr_fresh\<close> is the next object or handle number.
\<close>

record 't process =
  pr_current :: "nat option"
  pr_objects :: "nat \<Rightarrow> 't local_state"
  pr_fresh :: nat
  pr_depths :: "'t \<Rightarrow> nat"
  pr_stacks :: "'t \<Rightarrow> frame list"
  pr_open :: "nat set"

definition new_process :: "'t process" where
  "new_process = \<lparr>pr_current = None, pr_objects = (\<lambda>_. \<lparr>ls_owner = None, ls_handle = None, ls_active = 0\<rparr>),
     pr_fresh = 0, pr_depths = (\<lambda>_. 0), pr_stacks = (\<lambda>_. []), pr_open = {}\<rparr>"

section \<open>Steps of one thread\<close>

definition update_object :: "nat \<Rightarrow> ('t local_state \<Rightarrow> 't local_state) \<Rightarrow> 't process \<Rightarrow> 't process" where
  "update_object i f P = P\<lparr>pr_objects := (pr_objects P)(i := f (pr_objects P i))\<rparr>"

definition set_stack :: "'t \<Rightarrow> frame list \<Rightarrow> 't process \<Rightarrow> 't process" where
  "set_stack t fs P = P\<lparr>pr_stacks := (pr_stacks P)(t := fs)\<rparr>"

text \<open>The call may start outside the lock and inside the body of another call.\<close>

definition register_local_state :: "'t \<Rightarrow> 't process \<Rightarrow> 't process option" where
  "register_local_state t P =
     (let fs = pr_stacks P t;
          call = (\<lambda>i. \<lparr>fr_state = i, fr_depth = 0, fr_locked = False, fr_handle = None, fr_pc = Registered\<rparr>) in
      if fs \<noteq> [] \<and> fr_pc (hd fs) \<noteq> Body then None
      else (case pr_current P of
              None \<Rightarrow>
                (let i = pr_fresh P in
                 Some (set_stack t (call i # fs)
                   (update_object i (\<lambda>_. \<lparr>ls_owner = None, ls_handle = None, ls_active = 1\<rparr>)
                     (P\<lparr>pr_current := Some i, pr_fresh := Suc i\<rparr>))))
            | Some i \<Rightarrow>
                Some (set_stack t (call i # fs) (update_object i (\<lambda>l. l\<lparr>ls_active := ls_active l + 1\<rparr>) P))))"

text \<open>\<open>local_lock.acquire\<close> and the count of the thread; \<open>None\<close> while another thread has the lock.\<close>

definition acquire_local :: "'t \<Rightarrow> 't process \<Rightarrow> 't process option" where
  "acquire_local t P =
     (case pr_stacks P t of
        f # fs \<Rightarrow>
          (let l = pr_objects P (fr_state f);
               taken = (\<lambda>n. Some (set_stack t (f\<lparr>fr_depth := pr_depths P t, fr_pc := Acquired\<rparr> # fs)
                 (update_object (fr_state f) (\<lambda>l. l\<lparr>ls_owner := Some (t, n)\<rparr>)
                   (P\<lparr>pr_depths := (pr_depths P)(t := pr_depths P t + 1)\<rparr>)))) in
           if fr_pc f \<noteq> Registered then None
           else (case ls_owner l of None \<Rightarrow> taken 1 | Some (u, n) \<Rightarrow> if u = t then taken (n + 1) else None))
      | [] \<Rightarrow> None)"

text \<open>The wait for the reentrant lock runs out while another thread has it.\<close>

definition give_up_local :: "'t \<Rightarrow> 't process \<Rightarrow> 't process option" where
  "give_up_local t P =
     (case pr_stacks P t of
        f # fs \<Rightarrow>
          (case ls_owner (pr_objects P (fr_state f)) of
             Some (u, n) \<Rightarrow>
               if fr_pc f = Registered \<and> u \<noteq> t then Some (set_stack t (f\<lparr>fr_pc := Released\<rparr> # fs) P) else None
           | None \<Rightarrow> None)
      | [] \<Rightarrow> None)"

text \<open>\<open>_os_lock_handle_for\<close>: the handle of the object while it is open, else a new one.\<close>

definition open_handle_of :: "nat \<Rightarrow> 't process \<Rightarrow> nat option" where
  "open_handle_of i P =
     (case ls_handle (pr_objects P i) of Some h \<Rightarrow> if h \<in> pr_open P then Some h else None | None \<Rightarrow> None)"

definition os_lock_handle_for :: "nat \<Rightarrow> 't process \<Rightarrow> nat \<times> 't process" where
  "os_lock_handle_for i P =
     (case open_handle_of i P of
        Some h \<Rightarrow> (h, P)
      | None \<Rightarrow>
          (let h = pr_fresh P in
           (h, update_object i (\<lambda>l. l\<lparr>ls_handle := Some h\<rparr>)
                 (P\<lparr>pr_fresh := Suc h, pr_open := insert h (pr_open P)\<rparr>))))"

text \<open>\<open>ok = False\<close>: opening the file fails, the call goes to its outer \<open>finally\<close>.\<close>

definition get_handle :: "bool \<Rightarrow> 't \<Rightarrow> 't process \<Rightarrow> 't process option" where
  "get_handle ok t P =
     (case pr_stacks P t of
        f # fs \<Rightarrow>
          if fr_pc f \<noteq> Acquired then None
          else if ok then (let (h, P') = os_lock_handle_for (fr_state f) P in
                           Some (set_stack t (f\<lparr>fr_handle := Some h, fr_pc := HasHandle\<rparr> # fs) P'))
          else if open_handle_of (fr_state f) P = None then Some (set_stack t (f\<lparr>fr_pc := Leaving\<rparr> # fs) P)
          else None
      | [] \<Rightarrow> None)"

text \<open>The outer \<open>finally\<close>: the depth of the thread and \<open>local_lock.release\<close>.\<close>

definition release_local :: "'t \<Rightarrow> 't process \<Rightarrow> 't process option" where
  "release_local t P =
     (case pr_stacks P t of
        f # fs \<Rightarrow>
          (case ls_owner (pr_objects P (fr_state f)) of
             Some (u, n) \<Rightarrow>
               if fr_pc f = Leaving \<and> u = t
               then Some (set_stack t (f\<lparr>fr_pc := Released\<rparr> # fs)
                      (update_object (fr_state f) (\<lambda>l. l\<lparr>ls_owner := (if n \<le> 1 then None else Some (t, n - 1))\<rparr>)
                        (P\<lparr>pr_depths := (pr_depths P)(t := pr_depths P t - 1)\<rparr>)))
               else None
           | None \<Rightarrow> None)
      | [] \<Rightarrow> None)"

text \<open>\<open>_unregister_local_state\<close>: the last user takes the handle out and closes it afterwards.\<close>

definition unregister_local_state :: "'t \<Rightarrow> 't process \<Rightarrow> 't process option" where
  "unregister_local_state t P =
     (case pr_stacks P t of
        f # fs \<Rightarrow>
          (let i = fr_state f; l = pr_objects P i in
           if fr_pc f \<noteq> Released then None
           else if 1 < ls_active l then Some (set_stack t fs (update_object i (\<lambda>l. l\<lparr>ls_active := ls_active l - 1\<rparr>) P))
           else Some (set_stack t
                  (case ls_handle l of None \<Rightarrow> fs | Some h \<Rightarrow> f\<lparr>fr_handle := Some h, fr_pc := Closing\<rparr> # fs)
                  (update_object i (\<lambda>l. l\<lparr>ls_active := 0, ls_handle := None\<rparr>)
                    (P\<lparr>pr_current := (if pr_current P = Some i then None else pr_current P)\<rparr>))))
      | [] \<Rightarrow> None)"

section \<open>The system of all processes\<close>

text \<open>\<open>sy_holder\<close>: the process and handle that have the file locked.\<close>

record ('p, 't) system =
  sy_processes :: "'p \<Rightarrow> 't process"
  sy_holder :: "('p \<times> nat) option"

definition fresh_system :: "('p, 't) system" where
  "fresh_system = \<lparr>sy_processes = (\<lambda>_. new_process), sy_holder = None\<rparr>"

definition in_process :: "'p \<Rightarrow> ('t process \<Rightarrow> 't process option) \<Rightarrow> ('p, 't) system \<Rightarrow> ('p, 't) system option" where
  "in_process p g S =
     (case g (sy_processes S p) of
        None \<Rightarrow> None
      | Some P \<Rightarrow> Some (S\<lparr>sy_processes := (sy_processes S)(p := P)\<rparr>))"

definition move_top :: "'p \<Rightarrow> 't \<Rightarrow> (frame \<Rightarrow> frame) \<Rightarrow> ('p, 't) system \<Rightarrow> ('p, 't) system" where
  "move_top p t g S =
     S\<lparr>sy_processes := (sy_processes S)(p :=
       set_stack t (g (hd (pr_stacks (sy_processes S p) t)) # tl (pr_stacks (sy_processes S p) t)) (sy_processes S p))\<rparr>"

text \<open>
  \<open>_acquire_os_lock\<close> for the outermost call, nothing to do for an inner one. \<open>ok = False\<close> is the time
  limit, or the error a busy file gives in the end.
\<close>

definition acquire_os_lock :: "bool \<Rightarrow> 'p \<Rightarrow> 't \<Rightarrow> ('p, 't) system \<Rightarrow> ('p, 't) system option" where
  "acquire_os_lock ok p t S =
     (case pr_stacks (sy_processes S p) t of
        f # fs \<Rightarrow>
          (case (fr_pc f, fr_handle f) of
             (HasHandle, Some h) \<Rightarrow>
               if 0 < fr_depth f then (if ok then Some (move_top p t (\<lambda>f. f\<lparr>fr_pc := Body\<rparr>) S) else None)
               else if \<not> ok then Some (move_top p t (\<lambda>f. f\<lparr>fr_pc := Leaving\<rparr>) S)
               else if sy_holder S \<in> {None, Some (p, h)}
               then Some (move_top p t (\<lambda>f. f\<lparr>fr_locked := True, fr_pc := Body\<rparr>) (S\<lparr>sy_holder := Some (p, h)\<rparr>))
               else None
           | _ \<Rightarrow> None)
      | [] \<Rightarrow> None)"

text \<open>Leaving the body, also by an exception: the inner \<open>finally\<close> with \<open>_release_os_lock\<close>.\<close>

definition leave_body :: "'p \<Rightarrow> 't \<Rightarrow> ('p, 't) system \<Rightarrow> ('p, 't) system option" where
  "leave_body p t S =
     (case pr_stacks (sy_processes S p) t of
        f # fs \<Rightarrow>
          (if fr_pc f \<noteq> Body then None
           else Some (move_top p t (\<lambda>f. f\<lparr>fr_pc := Leaving\<rparr>)
                  (if fr_locked f \<and> sy_holder S = map_option (Pair p) (fr_handle f) then S\<lparr>sy_holder := None\<rparr> else S)))
      | [] \<Rightarrow> None)"

definition close_handle :: "'p \<Rightarrow> 't \<Rightarrow> ('p, 't) system \<Rightarrow> ('p, 't) system option" where
  "close_handle p t S =
     (case pr_stacks (sy_processes S p) t of
        f # fs \<Rightarrow>
          (case (fr_pc f, fr_handle f) of
             (Closing, Some h) \<Rightarrow>
               Some (S\<lparr>sy_processes := (sy_processes S)(p :=
                        set_stack t fs ((sy_processes S p)\<lparr>pr_open := pr_open (sy_processes S p) - {h}\<rparr>)),
                      sy_holder := (if sy_holder S = Some (p, h) then None else sy_holder S)\<rparr>)
           | _ \<Rightarrow> None)
      | [] \<Rightarrow> None)"

datatype lock_action = Register | Acquire_Local | Give_Up | Get_Handle bool | Acquire_OS bool | Leave | Release_Local | Unregister | Close

fun lock_step :: "'p \<times> 't \<times> lock_action \<Rightarrow> ('p, 't) system \<Rightarrow> ('p, 't) system option" where
  "lock_step (p, t, Register) S = in_process p (register_local_state t) S"
| "lock_step (p, t, Acquire_Local) S = in_process p (acquire_local t) S"
| "lock_step (p, t, Give_Up) S = in_process p (give_up_local t) S"
| "lock_step (p, t, Get_Handle ok) S = in_process p (get_handle ok t) S"
| "lock_step (p, t, Acquire_OS ok) S = acquire_os_lock ok p t S"
| "lock_step (p, t, Leave) S = leave_body p t S"
| "lock_step (p, t, Release_Local) S = in_process p (release_local t) S"
| "lock_step (p, t, Unregister) S = in_process p (unregister_local_state t) S"
| "lock_step (p, t, Close) S = close_handle p t S"

definition in_body :: "('p, 't) system \<Rightarrow> 'p \<Rightarrow> 't \<Rightarrow> bool" where
  "in_body S p t = list_ex (\<lambda>f. fr_pc f = Body) (pr_stacks (sy_processes S p) t)"

section \<open>The invariant of a process\<close>

definition live :: "frame \<Rightarrow> bool" where
  "live f = (fr_pc f \<noteq> Closing)"

definition holds :: "frame \<Rightarrow> bool" where
  "holds f = (fr_pc f \<in> {Acquired, HasHandle, Body, Leaving})"

definition held :: "frame list \<Rightarrow> nat" where
  "held fs = length (filter holds fs)"

primrec stack_ok :: "frame list \<Rightarrow> bool" where
  "stack_ok [] = True"
| "stack_ok (f # fs) =
     ((holds f \<longrightarrow> fr_depth f = length fs) \<and> (fr_pc f = Body \<longrightarrow> fr_locked f = (fs = [])) \<and>
      (fr_pc f \<in> {Registered, Acquired, HasHandle} \<longrightarrow> \<not> fr_locked f) \<and>
      (fr_pc f = Closing \<longrightarrow> fr_handle f \<noteq> None) \<and> list_all (\<lambda>g. fr_pc g = Body) fs \<and> stack_ok fs)"

definition users :: "('t::finite \<Rightarrow> frame list) \<Rightarrow> nat" where
  "users st = (\<Sum>t\<in>UNIV. length (filter live (st t)))"

definition current_handle :: "'t process \<Rightarrow> nat option" where
  "current_handle P = (case pr_current P of None \<Rightarrow> None | Some i \<Rightarrow> ls_handle (pr_objects P i))"

definition closing_handle :: "frame list \<Rightarrow> nat option" where
  "closing_handle fs = (case fs of f # _ \<Rightarrow> if fr_pc f = Closing then fr_handle f else None | [] \<Rightarrow> None)"

text \<open>The invariant of a process, clause by clause.\<close>

definition stacks_ok :: "'t process \<Rightarrow> bool" where
  "stacks_ok P = (\<forall>t. stack_ok (pr_stacks P t) \<and> pr_depths P t = held (pr_stacks P t))"

definition users_ok :: "'t::finite process \<Rightarrow> bool" where
  "users_ok P = (case pr_current P of
     None \<Rightarrow> users (pr_stacks P) = 0
   | Some i \<Rightarrow> ls_active (pr_objects P i) = users (pr_stacks P) \<and> 0 < users (pr_stacks P))"

definition states_ok :: "'t process \<Rightarrow> bool" where
  "states_ok P = (\<forall>t f. f \<in> set (pr_stacks P t) \<longrightarrow> live f \<longrightarrow> pr_current P = Some (fr_state f))"

definition owned :: "('t \<times> nat) option \<Rightarrow> ('t \<Rightarrow> nat) \<Rightarrow> bool" where
  "owned ow d = (case ow of None \<Rightarrow> d = (\<lambda>_. 0) | Some (u, n) \<Rightarrow> 0 < n \<and> d = (\<lambda>t. if t = u then n else 0))"

definition owner_ok :: "'t process \<Rightarrow> bool" where
  "owner_ok P = (\<forall>i. pr_current P = Some i \<longrightarrow> owned (ls_owner (pr_objects P i)) (pr_depths P))"

definition handles_ok :: "'t process \<Rightarrow> bool" where
  "handles_ok P = (\<forall>t f. f \<in> set (pr_stacks P t) \<longrightarrow> fr_pc f \<in> {HasHandle, Body} \<longrightarrow>
     fr_handle f = current_handle P \<and> fr_handle f \<noteq> None)"

definition open_ok :: "'t process \<Rightarrow> bool" where
  "open_ok P = ((\<forall>h. (h \<in> pr_open P) = (current_handle P = Some h \<or> (\<exists>t. closing_handle (pr_stacks P t) = Some h))) \<and>
     (\<forall>t u h. closing_handle (pr_stacks P t) = Some h \<longrightarrow> closing_handle (pr_stacks P u) = Some h \<longrightarrow> t = u) \<and>
     (\<forall>t h. closing_handle (pr_stacks P t) = Some h \<longrightarrow> current_handle P \<noteq> Some h) \<and>
     (\<forall>h \<in> pr_open P. h < pr_fresh P))"

definition process_ok :: "'t::finite process \<Rightarrow> bool" where
  "process_ok P = (stacks_ok P \<and> users_ok P \<and> states_ok P \<and> owner_ok P \<and> handles_ok P \<and> open_ok P)"

lemmas frame_defs = live_def holds_def held_def closing_handle_def
lemmas state_upd_defs = set_stack_def update_object_def

lemma users_upd: "users (st(t := fs)) + length (filter live (st t)) = users st + length (filter live fs)"
proof -
  have "users st' = length (filter live (st' t)) + (\<Sum>u \<in> UNIV - {t}. length (filter live (st' u)))" for st'
    unfolding users_def by (rule sum.remove) auto
  from this [of st] this [of "st(t := fs)"] show ?thesis by simp
qed

lemma users_0: "(users st = 0) = (\<forall>t. filter live (st t) = [])"
  by (simp add: users_def)

lemma stack_ok_below: "stack_ok (f # fs) \<Longrightarrow> fr_pc f \<noteq> Body \<Longrightarrow> g \<in> set fs \<Longrightarrow> fr_pc g = Body"
  by (simp add: list_all_iff)

lemma held_below: "stack_ok (f # fs) \<Longrightarrow> held fs = length fs"
  by (auto simp: frame_defs list_all_iff)

lemma states_okD: "states_ok P \<Longrightarrow> f \<in> set (pr_stacks P t) \<Longrightarrow> live f \<Longrightarrow> pr_current P = Some (fr_state f)"
  by (auto simp: states_ok_def)

lemma states_okI:
  "(\<And>t f. f \<in> set (pr_stacks P t) \<Longrightarrow> live f \<Longrightarrow> pr_current P = Some (fr_state f)) \<Longrightarrow> states_ok P"
  by (auto simp: states_ok_def)

lemma handles_okD:
  "handles_ok P \<Longrightarrow> f \<in> set (pr_stacks P t) \<Longrightarrow> fr_pc f \<in> {HasHandle, Body} \<Longrightarrow>
   fr_handle f = current_handle P \<and> fr_handle f \<noteq> None"
  unfolding handles_ok_def by blast

lemma handles_okI:
  "(\<And>t f. f \<in> set (pr_stacks P t) \<Longrightarrow> fr_pc f \<in> {HasHandle, Body} \<Longrightarrow>
     fr_handle f = current_handle P \<and> fr_handle f \<noteq> None) \<Longrightarrow> handles_ok P"
  unfolding handles_ok_def by blast

lemma process_ok_parts:
  assumes "process_ok P"
  shows "stacks_ok P" "users_ok P" "states_ok P" "owner_ok P" "handles_ok P" "open_ok P"
  using assms by (simp_all add: process_ok_def)

lemma open_ok_keep:
  assumes "open_ok P" "pr_open P' = pr_open P" "pr_fresh P \<le> pr_fresh P'" "current_handle P' = current_handle P"
    and "\<And>u. closing_handle (pr_stacks P' u) = closing_handle (pr_stacks P u)"
  shows "open_ok P'"
  using assms by (auto simp: open_ok_def intro: less_le_trans)

text \<open>Replacing the top frame of a thread, the objects and dictionaries as they are.\<close>

lemma register_ok:
  assumes "process_ok P" "register_local_state t P = Some P'"
  shows "process_ok P'"
proof -
  note d = assms(2) [unfolded register_local_state_def Let_def]
  show ?thesis
  proof (cases "pr_current P")
    case None
    have e: "filter live (pr_stacks P u) = []" for u
      using assms(1) None by (simp add: process_ok_def users_ok_def users_0)
    have top: "pr_stacks P t = []"
    proof (rule ccontr)
      assume "pr_stacks P t \<noteq> []"
      then show False using d None e [of t] by (cases "pr_stacks P t") (auto simp: live_def split: if_splits)
    qed
    then have P': "P' = set_stack t [\<lparr>fr_state = pr_fresh P, fr_depth = 0, fr_locked = False, fr_handle = None, fr_pc = Registered\<rparr>]
        (update_object (pr_fresh P) (\<lambda>_. \<lparr>ls_owner = None, ls_handle = None, ls_active = 1\<rparr>)
          (P\<lparr>pr_current := Some (pr_fresh P), pr_fresh := Suc (pr_fresh P)\<rparr>))"
      using d None by simp
    have dep: "pr_depths P u = 0" for u
    proof -
      have "held (pr_stacks P u) = 0" using e [of u] by (auto simp: held_def filter_empty_conv live_def holds_def)
      then show ?thesis using assms(1) by (simp add: process_ok_def stacks_ok_def)
    qed
    have "users_ok P'" using users_upd [of "pr_stacks P" t "[\<lparr>fr_state = pr_fresh P, fr_depth = 0, fr_locked = False, fr_handle = None, fr_pc = Registered\<rparr>]"] e
      assms(1) None by (simp add: P' users_ok_def process_ok_def state_upd_defs live_def)
    moreover have "stacks_ok P'" using assms(1) top dep by (simp add: P' stacks_ok_def process_ok_def state_upd_defs held_def holds_def)
    moreover have "states_ok P'" using e by (simp add: P' states_ok_def state_upd_defs filter_empty_conv live_def)
    moreover have "owner_ok P'" using dep by (simp add: P' owner_ok_def owned_def state_upd_defs fun_eq_iff)
    moreover have "handles_ok P'" using e by (fastforce simp: P' handles_ok_def state_upd_defs filter_empty_conv live_def)
    moreover have "open_ok P'"
      by (rule open_ok_keep [of P]) (use assms(1) top None in
        \<open>auto simp: P' process_ok_def state_upd_defs current_handle_def closing_handle_def\<close>)
    ultimately show ?thesis by (simp add: process_ok_def)
  next
    case (Some i)
    define f where "f = \<lparr>fr_state = i, fr_depth = 0, fr_locked = False, fr_handle = None, fr_pc = Registered\<rparr>"
    have P': "P' = set_stack t (f # pr_stacks P t) (update_object i (\<lambda>l. l\<lparr>ls_active := ls_active l + 1\<rparr>) P)"
      and top: "pr_stacks P t \<noteq> [] \<Longrightarrow> fr_pc (hd (pr_stacks P t)) = Body"
      using d Some by (auto simp: f_def split: if_splits)
    have ok: "stack_ok (pr_stacks P t)" using assms(1) by (simp add: process_ok_def stacks_ok_def)
    have below: "list_all (\<lambda>g. fr_pc g = Body) (pr_stacks P t)"
      using ok top by (cases "pr_stacks P t") auto
    have "users_ok P'" using users_upd [of "pr_stacks P" t "f # pr_stacks P t"] assms(1) Some
      by (simp add: P' users_ok_def process_ok_def state_upd_defs live_def f_def)
    moreover have "stacks_ok P'" using assms(1) below
      by (simp add: P' stacks_ok_def process_ok_def state_upd_defs held_def holds_def f_def)
    moreover have "states_ok P'" using assms(1) Some by (simp add: P' states_ok_def process_ok_def state_upd_defs f_def)
    moreover have "owner_ok P'" using assms(1) Some by (simp add: P' owner_ok_def process_ok_def state_upd_defs)
    moreover have ch: "current_handle P' = current_handle P" using Some by (simp add: P' state_upd_defs current_handle_def)
    moreover have "handles_ok P'"
    proof (rule handles_okI)
      fix u g assume g: "g \<in> set (pr_stacks P' u)" "fr_pc g \<in> {HasHandle, Body}"
      then have "g \<in> set (pr_stacks P u)" by (auto simp: P' state_upd_defs f_def split: if_splits)
      from handles_okD [OF process_ok_parts(5) [OF assms(1)] this g(2)]
      show "fr_handle g = current_handle P' \<and> fr_handle g \<noteq> None" unfolding ch .
    qed
    moreover have "open_ok P'"
    proof (rule open_ok_keep)
      show "open_ok P" by (rule process_ok_parts(6) [OF assms(1)])
      show "pr_open P' = pr_open P" "pr_fresh P \<le> pr_fresh P'" by (simp_all add: P' state_upd_defs)
      show "current_handle P' = current_handle P" by (rule ch)
      have "closing_handle (pr_stacks P t) = None" using top by (auto simp: closing_handle_def split: list.splits)
      then show "closing_handle (pr_stacks P' u) = closing_handle (pr_stacks P u)" for u
        by (simp add: P' state_upd_defs f_def closing_handle_def)
    qed
    ultimately show ?thesis by (simp add: process_ok_def)
  qed
qed

text \<open>A step that replaces the top frame, with the users and the current handle as they are.\<close>

lemma move_frame_ok:
  assumes ok: "process_ok P" and top: "pr_stacks P t = f # fs" and live: "live f" "live f'" "fr_state f' = fr_state f"
    and Q: "pr_stacks Q = (pr_stacks P)(t := f' # fs)" "pr_current Q = pr_current P" "pr_open Q = pr_open P"
      "pr_fresh Q = pr_fresh P" "current_handle Q = current_handle P"
      "\<And>i. ls_active (pr_objects Q i) = ls_active (pr_objects P i)"
    and depths: "pr_depths Q = (pr_depths P)(t := held (f' # fs))"
    and frame: "stack_ok (f' # fs)" "fr_pc f' \<in> {HasHandle, Body} \<Longrightarrow> fr_handle f' = current_handle P \<and> fr_handle f' \<noteq> None"
    and owner: "owner_ok Q"
  shows "process_ok Q"
proof -
  have "stacks_ok Q" using ok frame by (simp add: process_ok_def stacks_ok_def Q depths)
  moreover have "users_ok Q" using ok users_upd [of "pr_stacks P" t "f' # fs"] top live
    by (simp add: process_ok_def users_ok_def Q split: option.splits)
  moreover have "states_ok Q"
  proof (rule states_okI)
    fix u g assume "g \<in> set (pr_stacks Q u)" "live g"
    then have "fr_state g = fr_state f \<or> g \<in> set (pr_stacks P u)" using top live by (auto simp: Q split: if_splits)
    moreover have "pr_current P = Some (fr_state f)"
      by (rule states_okD [OF process_ok_parts(3) [OF ok], of _ t]) (simp_all add: top live)
    ultimately show "pr_current Q = Some (fr_state g)"
      using states_okD [OF process_ok_parts(3) [OF ok] _ \<open>live g\<close>] by (auto simp: Q)
  qed
  moreover have "handles_ok Q"
  proof (rule handles_okI)
    fix u g assume g: "g \<in> set (pr_stacks Q u)" "fr_pc g \<in> {HasHandle, Body}"
    then have "g = f' \<or> g \<in> set (pr_stacks P u)" using top by (auto simp: Q split: if_splits)
    then show "fr_handle g = current_handle Q \<and> fr_handle g \<noteq> None"
      using handles_okD [OF process_ok_parts(5) [OF ok] _ g(2)] frame(2) g(2) by (auto simp: Q)
  qed
  moreover have "open_ok Q"
    by (rule open_ok_keep [of P]) (use ok Q top live in \<open>auto simp: process_ok_def closing_handle_def live_def\<close>)
  ultimately show ?thesis using owner by (simp add: process_ok_def)
qed

lemma process_okD:
  assumes "process_ok P" "pr_stacks P t = f # fs" "live f"
  shows "pr_current P = Some (fr_state f)" "stack_ok (f # fs)" "pr_depths P t = held (f # fs)"
    "owned (ls_owner (pr_objects P (fr_state f))) (pr_depths P)"
    "current_handle P = ls_handle (pr_objects P (fr_state f))"
proof -
  show c: "pr_current P = Some (fr_state f)"
    by (rule states_okD [OF process_ok_parts(3) [OF assms(1)], of _ t]) (simp_all add: assms)
  have "stack_ok (pr_stacks P t) \<and> pr_depths P t = held (pr_stacks P t)"
    using assms(1) unfolding process_ok_def stacks_ok_def by blast
  then show "stack_ok (f # fs)" "pr_depths P t = held (f # fs)" by (simp_all add: assms(2))
  show "owned (ls_owner (pr_objects P (fr_state f))) (pr_depths P)" using assms c by (simp add: process_ok_def owner_ok_def)
  show "current_handle P = ls_handle (pr_objects P (fr_state f))" by (simp add: current_handle_def c)
qed

lemma acquire_local_ok:
  assumes ok: "process_ok P" and step: "acquire_local t P = Some Q"
  shows "process_ok Q"
proof -
  obtain f fs where top: "pr_stacks P t = f # fs" and pc: "fr_pc f = Registered"
    using step by (auto simp: acquire_local_def Let_def split: list.splits if_splits)
  have live: "live f" by (simp add: live_def pc)
  note P = process_okD [OF ok top live]
  have depth: "pr_depths P t = length fs" "held fs = length fs"
    using P(2,3) held_below [OF P(2)] pc by (auto simp: held_def holds_def)
  define f' where "f' = f\<lparr>fr_depth := pr_depths P t, fr_pc := Acquired\<rparr>"
  obtain n where Q: "Q = set_stack t (f' # fs) (update_object (fr_state f) (\<lambda>l. l\<lparr>ls_owner := Some (t, n)\<rparr>)
      (P\<lparr>pr_depths := (pr_depths P)(t := pr_depths P t + 1)\<rparr>))"
    and n: "ls_owner (pr_objects P (fr_state f)) = None \<and> n = 1 \<or> (\<exists>m. ls_owner (pr_objects P (fr_state f)) = Some (t, m) \<and> n = m + 1)"
    using step top pc by (auto simp: acquire_local_def Let_def f'_def split: option.splits if_splits)
  have ow: "owned (Some (t, n)) ((pr_depths P)(t := pr_depths P t + 1))"
    using P(4) n by (auto simp: owned_def fun_eq_iff)
  show ?thesis
    by (rule move_frame_ok [OF ok top live])
      (use P pc depth ow in \<open>auto simp: Q f'_def state_upd_defs live_def current_handle_def held_def holds_def owner_ok_def list_all_iff\<close>)
qed

lemma give_up_local_ok:
  assumes ok: "process_ok P" and step: "give_up_local t P = Some Q"
  shows "process_ok Q"
proof -
  obtain f fs where top: "pr_stacks P t = f # fs" and pc: "fr_pc f = Registered"
      and Q: "Q = set_stack t (f\<lparr>fr_pc := Released\<rparr> # fs) P"
    using step by (auto simp: give_up_local_def split: list.splits option.splits if_splits)
  have live: "live f" by (simp add: live_def pc)
  note P = process_okD [OF ok top live]
  show ?thesis
    by (rule move_frame_ok [OF ok top live])
      (use ok P pc in \<open>auto simp: Q state_upd_defs live_def current_handle_def held_def holds_def owner_ok_def process_ok_def\<close>)
qed

lemma release_local_ok:
  assumes ok: "process_ok P" and step: "release_local t P = Some Q"
  shows "process_ok Q"
proof -
  obtain f fs n where top: "pr_stacks P t = f # fs" and pc: "fr_pc f = Leaving"
      and ow: "ls_owner (pr_objects P (fr_state f)) = Some (t, n)"
      and Q: "Q = set_stack t (f\<lparr>fr_pc := Released\<rparr> # fs)
                      (update_object (fr_state f) (\<lambda>l. l\<lparr>ls_owner := (if n \<le> 1 then None else Some (t, n - 1))\<rparr>)
                        (P\<lparr>pr_depths := (pr_depths P)(t := pr_depths P t - 1)\<rparr>))"
    using step by (auto simp: release_local_def split: list.splits option.splits if_splits)
  have live: "live f" by (simp add: live_def pc)
  note P = process_okD [OF ok top live]
  have "owned (if n \<le> 1 then None else Some (t, n - 1)) ((pr_depths P)(t := pr_depths P t - 1))"
    using P(4) ow by (auto simp: owned_def fun_eq_iff)
  then show ?thesis
    by (intro move_frame_ok [OF ok top live])
      (use P pc in \<open>auto simp: Q state_upd_defs live_def current_handle_def held_def holds_def owner_ok_def\<close>)
qed

section \<open>Every step of a process keeps its invariant\<close>

lemma current_handle_set_stack [simp]: "current_handle (set_stack t fs P) = current_handle P"
  by (simp add: current_handle_def set_stack_def split: option.splits)

lemma pr_stacks_set_stack [simp]: "pr_stacks (set_stack t fs P) = (pr_stacks P)(t := fs)"
  by (simp add: set_stack_def)

lemma handles_okE:
  assumes "process_ok P" "f \<in> set (pr_stacks P t)" "fr_pc f \<in> {HasHandle, Body}"
  obtains h where "current_handle P = Some h" "fr_handle f = Some h"
  using handles_okD [OF process_ok_parts(5) [OF assms(1)] assms(2,3)] by (metis option.exhaust)

lemma os_lock_handle_for_ok:
  assumes ok: "process_ok P" and cur: "pr_current P = Some i" and e: "os_lock_handle_for i P = (h, Q)"
  shows "process_ok Q \<and> current_handle Q = Some h \<and> pr_stacks Q = pr_stacks P \<and> pr_current Q = Some i \<and>
    pr_depths Q = pr_depths P"
proof (cases "open_handle_of i P")
  case (Some h')
  then show ?thesis using e cur ok
    by (auto simp: os_lock_handle_for_def open_handle_of_def current_handle_def split: option.splits if_splits)
next
  case None
  have ch: "current_handle P = ls_handle (pr_objects P i)" by (simp add: current_handle_def cur)
  have "ls_handle (pr_objects P i) = None"
  proof (rule ccontr)
    assume "ls_handle (pr_objects P i) \<noteq> None"
    then obtain k where k: "current_handle P = Some k" using ch by auto
    then have "k \<in> pr_open P" using process_ok_parts(6) [OF ok] by (simp add: open_ok_def)
    then show False using None k ch by (simp add: open_handle_of_def)
  qed
  then have none: "current_handle P = None" using ch by simp
  have Q: "Q = update_object i (\<lambda>l. l\<lparr>ls_handle := Some (pr_fresh P)\<rparr>)
                 (P\<lparr>pr_fresh := Suc (pr_fresh P), pr_open := insert (pr_fresh P) (pr_open P)\<rparr>)" and h: "h = pr_fresh P"
    using e None by (auto simp: os_lock_handle_for_def Let_def)
  have fresh: "closing_handle (pr_stacks P t) \<noteq> Some (pr_fresh P)" for t
    using process_ok_parts(6) [OF ok] by (force simp: open_ok_def)
  have cq: "current_handle Q = Some h" using cur by (simp add: Q h current_handle_def state_upd_defs)
  have "stacks_ok Q" "users_ok Q" "states_ok Q" "owner_ok Q"
    using process_ok_parts [OF ok] cur by (auto simp: Q state_upd_defs stacks_ok_def users_ok_def states_ok_def owner_ok_def)
  moreover have "handles_ok Q"
  proof (rule handles_okI)
    fix u g assume g: "g \<in> set (pr_stacks Q u)" "fr_pc g \<in> {HasHandle, Body}"
    then have "g \<in> set (pr_stacks P u)" by (simp add: Q state_upd_defs)
    from handles_okE [OF ok this g(2)] none
    show "fr_handle g = current_handle Q \<and> fr_handle g \<noteq> None" by (metis option.distinct(1))
  qed
  moreover have "open_ok Q"
    using process_ok_parts(6) [OF ok] none fresh unfolding open_ok_def cq
    by (auto simp: Q state_upd_defs h intro: less_SucI)
  ultimately show ?thesis using cq by (simp add: process_ok_def Q state_upd_defs cur)
qed

lemma get_handle_ok:
  assumes ok: "process_ok P" and step: "get_handle b t P = Some Q"
  shows "process_ok Q"
proof -
  obtain f fs where top: "pr_stacks P t = f # fs" and pc: "fr_pc f = Acquired"
    using step by (auto simp: get_handle_def split: list.splits if_splits)
  have live: "live f" by (simp add: live_def pc)
  note P = process_okD [OF ok top live]
  obtain h R where R: "os_lock_handle_for (fr_state f) P = (h, R)" by fastforce
  note r = os_lock_handle_for_ok [OF ok P(1) R]
  have top': "pr_stacks R t = f # fs" using r top by simp
  consider "Q = set_stack t (f\<lparr>fr_handle := Some h, fr_pc := HasHandle\<rparr> # fs) R" | "Q = set_stack t (f\<lparr>fr_pc := Leaving\<rparr> # fs) P"
    using step top pc R by (auto simp: get_handle_def split: if_splits)
  then show ?thesis
  proof cases
    case 1
    have "process_ok R" using r by blast
    from this top' live show ?thesis
      by (rule move_frame_ok)
        (use r P pc process_ok_parts(4) [of R] in \<open>auto simp: 1 state_upd_defs live_def current_handle_def held_def holds_def owner_ok_def\<close>)
  next
    case 2
    show ?thesis
      by (rule move_frame_ok [OF ok top live])
        (use process_ok_parts(4) [OF ok] P pc in \<open>auto simp: 2 state_upd_defs live_def current_handle_def held_def holds_def owner_ok_def\<close>)
  qed
qed

lemma filter_live_body: "list_all (\<lambda>g. fr_pc g = Body) fs \<Longrightarrow> filter live fs = fs"
  by (induction fs) (auto simp: live_def)

lemma unregister_ok:
  assumes ok: "process_ok P" and step: "unregister_local_state t P = Some Q"
  shows "process_ok Q"
proof -
  obtain f fs where top: "pr_stacks P t = f # fs" and pc: "fr_pc f = Released"
    using step by (auto simp: unregister_local_state_def Let_def split: list.splits if_splits)
  have live: "live f" by (simp add: live_def pc)
  note P = process_okD [OF ok top live]
  let ?i = "fr_state f"
  have fs: "filter live fs = fs" using P(2) by (simp add: filter_live_body)
  have act: "ls_active (pr_objects P ?i) = users (pr_stacks P)"
    using process_ok_parts(2) [OF ok] P(1) by (simp add: users_ok_def)
  show ?thesis
  proof (cases "1 < ls_active (pr_objects P ?i)")
    case True
    then have Q: "Q = set_stack t fs (update_object ?i (\<lambda>l. l\<lparr>ls_active := ls_active l - 1\<rparr>) P)"
      using step top pc by (auto simp: unregister_local_state_def Let_def)
    have "stacks_ok Q" using process_ok_parts(1) [OF ok] P(2,3) pc
      by (auto simp: stacks_ok_def Q state_upd_defs held_def holds_def)
    moreover have "users_ok Q" using users_upd [of "pr_stacks P" t fs] True act P(1) top live
      by (simp add: users_ok_def Q state_upd_defs)
    moreover have "states_ok Q"
    proof (rule states_okI)
      fix u g assume g: "g \<in> set (pr_stacks Q u)" "live g"
      then have "g \<in> set (pr_stacks P u)" using top by (auto simp: Q state_upd_defs split: if_splits)
      from states_okD [OF process_ok_parts(3) [OF ok] this g(2)] show "pr_current Q = Some (fr_state g)"
        by (simp add: Q state_upd_defs)
    qed
    moreover have "owner_ok Q" using process_ok_parts(4) [OF ok] by (auto simp: owner_ok_def Q state_upd_defs)
    moreover have ch: "current_handle Q = current_handle P" by (auto simp: Q state_upd_defs current_handle_def split: option.splits)
    moreover have "handles_ok Q"
    proof (rule handles_okI)
      fix u g assume g: "g \<in> set (pr_stacks Q u)" "fr_pc g \<in> {HasHandle, Body}"
      then have "g \<in> set (pr_stacks P u)" using top by (auto simp: Q state_upd_defs split: if_splits)
      from handles_okD [OF process_ok_parts(5) [OF ok] this g(2)] show "fr_handle g = current_handle Q \<and> fr_handle g \<noteq> None"
        unfolding ch .
    qed
    moreover have "open_ok Q"
      by (rule open_ok_keep [OF process_ok_parts(6) [OF ok]])
        (use top pc P(2) ch in \<open>auto simp: Q state_upd_defs closing_handle_def list_all_iff split: list.splits\<close>)
    ultimately show ?thesis by (simp add: process_ok_def)
  next
    case False
    define fs' where "fs' = (case ls_handle (pr_objects P ?i) of None \<Rightarrow> fs | Some h \<Rightarrow> f\<lparr>fr_handle := Some h, fr_pc := Closing\<rparr> # fs)"
    have Q: "Q = set_stack t fs' (update_object ?i (\<lambda>l. l\<lparr>ls_active := 0, ls_handle := None\<rparr>) (P\<lparr>pr_current := None\<rparr>))"
      using step top pc False P(1) by (simp add: unregister_local_state_def Let_def fs'_def)
    have "users ((pr_stacks P)(t := [])) + Suc (length fs) = users (pr_stacks P)"
      using users_upd [of "pr_stacks P" t "[]"] top live fs by simp
    then have "length fs = 0" and others: "users ((pr_stacks P)(t := [])) = 0" using False act by linarith+
    then have fs_Nil: "fs = []" by simp
    have nolive: "filter live (pr_stacks Q u) = []" for u
      using others [unfolded users_0, rule_format, of u]
      by (auto simp: Q state_upd_defs fs'_def fs_Nil live_def split: option.splits)
    have dep: "held (pr_stacks Q u) = 0" for u
      using nolive [of u] by (auto simp: held_def filter_empty_conv live_def holds_def)
    have cl: "closing_handle (pr_stacks Q u) = (if u = t then current_handle P else closing_handle (pr_stacks P u))" for u
      using P(5) by (auto simp: Q state_upd_defs fs'_def fs_Nil closing_handle_def split: option.splits)
    have clt: "closing_handle (pr_stacks P t) = None" using top pc by (simp add: closing_handle_def)
    have "stacks_ok Q"
    proof -
      have "stack_ok (pr_stacks Q u)" for u
        using process_ok_parts(1) [OF ok] by (auto simp: stacks_ok_def Q state_upd_defs fs'_def fs_Nil holds_def split: option.splits)
      moreover have "pr_depths Q u = held (pr_stacks P u)" for u
        using process_ok_parts(1) [OF ok] by (simp add: stacks_ok_def Q state_upd_defs)
      moreover have "held (pr_stacks P u) = held (pr_stacks Q u)" for u
        using top pc by (auto simp: Q state_upd_defs held_def holds_def fs'_def fs_Nil split: option.splits)
      ultimately show ?thesis by (simp add: stacks_ok_def)
    qed
    moreover have "users_ok Q" using nolive by (simp add: users_ok_def users_0 Q state_upd_defs)
    moreover have "states_ok Q" using nolive by (auto simp: states_ok_def filter_empty_conv)
    moreover have "owner_ok Q" by (simp add: owner_ok_def Q state_upd_defs)
    moreover have "handles_ok Q" using nolive by (intro handles_okI) (fastforce simp: filter_empty_conv live_def)
    moreover have "open_ok Q"
    proof -
      have cn: "current_handle Q = None" by (simp add: Q state_upd_defs current_handle_def)
      have ex: "(\<exists>u. closing_handle (pr_stacks Q u) = Some h) =
          (current_handle P = Some h \<or> (\<exists>u. closing_handle (pr_stacks P u) = Some h))" for h
        using clt by (auto simp: cl) (metis option.distinct(1))
      note o = process_ok_parts(6) [OF ok, unfolded open_ok_def]
      have "pr_open Q = pr_open P" "pr_fresh Q = pr_fresh P" by (simp_all add: Q state_upd_defs)
      then show ?thesis using o clt unfolding open_ok_def cn ex by (auto simp: cl split: if_splits)
    qed
    ultimately show ?thesis by (simp add: process_ok_def)
  qed
qed

section \<open>The invariant of the system\<close>

definition bodies :: "frame list \<Rightarrow> bool" where
  "bodies fs = list_ex (\<lambda>f. fr_pc f = Body) fs"

lemma in_body_bodies: "in_body S p t = bodies (pr_stacks (sy_processes S p) t)"
  by (simp add: in_body_def bodies_def)

lemma bodies_simps [simp]: "bodies [] = False" "bodies (f # fs) = (fr_pc f = Body \<or> bodies fs)"
  by (simp_all add: bodies_def)

lemma bodies_handle:
  assumes "process_ok P" "bodies (pr_stacks P t)"
  shows "\<exists>h. current_handle P = Some h \<and> h \<in> pr_open P"
proof -
  obtain f where f: "f \<in> set (pr_stacks P t)" "fr_pc f = Body"
    using assms(2) by (auto simp: bodies_def list_ex_iff)
  obtain h where "current_handle P = Some h" by (rule handles_okE [OF assms(1) f(1)]) (simp_all add: f)
  then show ?thesis using process_ok_parts(6) [OF assms(1)] by (simp add: open_ok_def)
qed

lemma bodies_live: "bodies fs \<Longrightarrow> filter live fs \<noteq> []"
  by (induction fs) (auto simp: live_def)

definition keeps_bodies :: "'t process \<Rightarrow> 't process \<Rightarrow> bool" where
  "keeps_bodies P Q = ((\<forall>u. bodies (pr_stacks Q u) = bodies (pr_stacks P u)) \<and>
     (\<forall>u. bodies (pr_stacks P u) \<longrightarrow> current_handle Q = current_handle P))"

lemma keeps_bodies_top:
  assumes "pr_stacks P t = f # fs" "fr_pc f \<noteq> Body" "fr_pc f' \<noteq> Body"
    and "pr_stacks Q = (pr_stacks P)(t := f' # fs)" "current_handle Q = current_handle P"
  shows "keeps_bodies P Q"
  using assms by (simp add: keeps_bodies_def)

lemma register_keeps: "process_ok P \<Longrightarrow> register_local_state t P = Some Q \<Longrightarrow> keeps_bodies P Q"
proof -
  assume ok: "process_ok P" and step: "register_local_state t P = Some Q"
  show "keeps_bodies P Q"
  proof (cases "pr_current P")
    case None
    then have "\<not> bodies (pr_stacks P u)" for u
      using process_ok_parts(2) [OF ok] bodies_live by (auto simp: users_ok_def users_0)
    then show ?thesis using step None
      by (auto simp: keeps_bodies_def register_local_state_def Let_def state_upd_defs split: if_splits)
  next
    case (Some i)
    then show ?thesis using step
      by (auto simp: keeps_bodies_def register_local_state_def Let_def state_upd_defs current_handle_def split: if_splits)
  qed
qed

lemma acquire_local_keeps: "acquire_local t P = Some Q \<Longrightarrow> keeps_bodies P Q"
  by (auto simp: keeps_bodies_def acquire_local_def Let_def state_upd_defs current_handle_def
      split: list.splits option.splits if_splits)

lemma give_up_local_keeps: "give_up_local t P = Some Q \<Longrightarrow> keeps_bodies P Q"
  by (auto simp: keeps_bodies_def give_up_local_def state_upd_defs current_handle_def split: list.splits option.splits if_splits)

lemma release_local_keeps: "release_local t P = Some Q \<Longrightarrow> keeps_bodies P Q"
  by (auto simp: keeps_bodies_def release_local_def state_upd_defs current_handle_def split: list.splits option.splits if_splits)

lemma get_handle_keeps:
  assumes ok: "process_ok P" and step: "get_handle b t P = Some Q"
  shows "keeps_bodies P Q"
proof -
  obtain f fs where top: "pr_stacks P t = f # fs" and pc: "fr_pc f = Acquired"
    using step by (auto simp: get_handle_def split: list.splits if_splits)
  have live: "live f" by (simp add: live_def pc)
  note P = process_okD [OF ok top live]
  obtain h R where R: "os_lock_handle_for (fr_state f) P = (h, R)" by fastforce
  note r = os_lock_handle_for_ok [OF ok P(1) R]
  have same: "R = P" if body: "bodies (pr_stacks P u)" for u
  proof -
    obtain k where "current_handle P = Some k" "k \<in> pr_open P" using bodies_handle [OF ok body] by blast
    then show "R = P" using R P(1) by (simp add: os_lock_handle_for_def open_handle_of_def current_handle_def)
  qed
  consider "Q = set_stack t (f\<lparr>fr_handle := Some h, fr_pc := HasHandle\<rparr> # fs) R" | "Q = set_stack t (f\<lparr>fr_pc := Leaving\<rparr> # fs) P"
    using step top pc R by (auto simp: get_handle_def split: if_splits)
  then show ?thesis
  proof cases
    case 1
    show ?thesis using same top pc r by (auto simp: keeps_bodies_def 1)
  next
    case 2
    then show ?thesis using top pc by (auto simp: keeps_bodies_def)
  qed
qed

lemma unregister_keeps:
  assumes ok: "process_ok P" and step: "unregister_local_state t P = Some Q"
  shows "keeps_bodies P Q"
proof -
  obtain f fs where top: "pr_stacks P t = f # fs" and pc: "fr_pc f = Released"
    using step by (auto simp: unregister_local_state_def Let_def split: list.splits if_splits)
  have live: "live f" by (simp add: live_def pc)
  note P = process_okD [OF ok top live]
  have act: "ls_active (pr_objects P (fr_state f)) = users (pr_stacks P)"
    using process_ok_parts(2) [OF ok] P(1) by (simp add: users_ok_def)
  show ?thesis
  proof (cases "1 < ls_active (pr_objects P (fr_state f))")
    case True
    then show ?thesis using step top pc
      by (auto simp: keeps_bodies_def unregister_local_state_def Let_def state_upd_defs current_handle_def
          split: option.splits if_splits)
  next
    case False
    have "users ((pr_stacks P)(t := [])) + Suc (length fs) = users (pr_stacks P)"
      using users_upd [of "pr_stacks P" t "[]"] top live P(2) by (simp add: filter_live_body)
    then have "length fs = 0" and others: "users ((pr_stacks P)(t := [])) = 0" using False act by linarith+
    then have fs: "fs = []" by simp
    have none: "\<not> bodies (pr_stacks P u)" for u
      using others [unfolded users_0, rule_format, of u] bodies_live [of "pr_stacks P u"] top pc fs
      by (auto split: if_splits)
    then show ?thesis using step top pc False fs
      by (auto simp: keeps_bodies_def unregister_local_state_def Let_def state_upd_defs split: option.splits if_splits)
  qed
qed

definition system_ok :: "('p, 't::finite) system \<Rightarrow> bool" where
  "system_ok S = ((\<forall>p. process_ok (sy_processes S p)) \<and>
     (\<forall>p h. sy_holder S = Some (p, h) \<longrightarrow> current_handle (sy_processes S p) = Some h \<and> (\<exists>t. in_body S p t)) \<and>
     (\<forall>p t. in_body S p t \<longrightarrow> (\<exists>h. sy_holder S = Some (p, h))))"

lemma in_process_ok:
  assumes S: "system_ok S" and step: "in_process p g S = Some S'"
    and g: "\<And>Q. process_ok (sy_processes S p) \<Longrightarrow> g (sy_processes S p) = Some Q \<Longrightarrow>
      process_ok Q \<and> keeps_bodies (sy_processes S p) Q"
  shows "system_ok S'"
proof -
  obtain Q where Q: "g (sy_processes S p) = Some Q" and S': "S' = S\<lparr>sy_processes := (sy_processes S)(p := Q)\<rparr>"
    using step by (auto simp: in_process_def split: option.splits)
  have ok: "process_ok (sy_processes S q)" for q using S by (simp add: system_ok_def)
  from g [OF ok Q] have k: "process_ok Q" "keeps_bodies (sy_processes S p) Q" by auto
  have b: "in_body S' q u = in_body S q u" for q u
    using k(2) by (simp add: S' in_body_bodies keeps_bodies_def)
  have c: "current_handle (sy_processes S' q) = current_handle (sy_processes S q)" if "in_body S q u" for q u
    using k(2) that by (auto simp: S' in_body_bodies keeps_bodies_def)
  have h: "sy_holder S' = sy_holder S" by (simp add: S')
  have "current_handle (sy_processes S' q) = Some h \<and> (\<exists>t. in_body S q t)" if holder: "sy_holder S = Some (q, h)" for q h
  proof -
    obtain u where u: "in_body S q u" and "current_handle (sy_processes S q) = Some h"
      using S holder unfolding system_ok_def by blast
    then show ?thesis using c [OF u] by auto
  qed
  moreover have "process_ok (sy_processes S' q)" for q using k(1) ok by (simp add: S')
  ultimately show ?thesis using S unfolding system_ok_def b h by blast
qed

section \<open>Every step of the system keeps its invariant\<close>

lemma system_okD:
  assumes "system_ok S"
  shows "process_ok (sy_processes S p)"
    "sy_holder S = Some (p, h) \<Longrightarrow> current_handle (sy_processes S p) = Some h \<and> (\<exists>t. in_body S p t)"
    "in_body S p t \<Longrightarrow> \<exists>h. sy_holder S = Some (p, h)"
  using assms unfolding system_ok_def by blast+

lemma system_okI:
  assumes "\<And>p. process_ok (sy_processes S p)"
    and "\<And>p h. sy_holder S = Some (p, h) \<Longrightarrow> current_handle (sy_processes S p) = Some h \<and> (\<exists>t. in_body S p t)"
    and "\<And>p t. in_body S p t \<Longrightarrow> \<exists>h. sy_holder S = Some (p, h)"
  shows "system_ok S"
  using assms unfolding system_ok_def by blast

lemma system_ok_same:
  assumes "system_ok S" "sy_holder S' = sy_holder S" "\<And>q u. in_body S' q u = in_body S q u"
    and "\<And>q. process_ok (sy_processes S' q)" "\<And>q. current_handle (sy_processes S' q) = current_handle (sy_processes S q)"
  shows "system_ok S'"
  using assms(1,4) unfolding system_ok_def assms(2,3,5) by blast

text \<open>A step between points at which the thread has the reentrant lock.\<close>

lemma move_held_ok:
  assumes ok: "process_ok P" and top: "pr_stacks P t = f # fs" and pc: "holds f" "holds f'" "fr_state f' = fr_state f"
      "fr_depth f' = fr_depth f"
    and "fr_pc f' \<in> {Body, Leaving}" "fr_pc f' = Body \<Longrightarrow> fr_locked f' = (fs = [])"
    and handle: "fr_pc f' \<in> {HasHandle, Body} \<Longrightarrow> fr_handle f' = current_handle P \<and> fr_handle f' \<noteq> None"
  shows "process_ok (set_stack t (f' # fs) P)"
proof -
  have live: "live f" "live f'" using pc by (auto simp: live_def holds_def)
  note P = process_okD [OF ok top live(1)]
  show ?thesis
  proof (rule move_frame_ok [OF ok top live])
    show "stack_ok (f' # fs)" using P(2) assms(3-8) by auto
    show "owner_ok (set_stack t (f' # fs) P)" using process_ok_parts(4) [OF ok] by (simp add: set_stack_def owner_ok_def)
    show "pr_depths (set_stack t (f' # fs) P) = (pr_depths P)(t := held (f' # fs))"
      using P(3) pc by (simp add: set_stack_def held_def fun_eq_iff)
    show "fr_handle f' = current_handle P \<and> fr_handle f' \<noteq> None" if "fr_pc f' \<in> {HasHandle, Body}"
      by (rule handle [OF that])
    show "current_handle (set_stack t (f' # fs) P) = current_handle P" by (rule current_handle_set_stack)
  qed (use pc live in \<open>simp_all add: set_stack_def\<close>)
qed

lemma process_move_top:
  "pr_stacks (sy_processes S p) t = f # fs \<Longrightarrow>
   sy_processes (move_top p t g S) = (sy_processes S)(p := set_stack t (g f # fs) (sy_processes S p))"
  by (simp add: move_top_def)

lemma holder_move_top [simp]: "sy_holder (move_top p t g S) = sy_holder S"
  by (simp add: move_top_def)

lemma acquire_os_lock_ok:
  assumes S: "system_ok S" and step: "acquire_os_lock b p t S = Some S'"
  shows "system_ok S'"
proof -
  let ?P = "sy_processes S p"
  obtain f fs h where top: "pr_stacks ?P t = f # fs" and pc: "fr_pc f = HasHandle" and h: "fr_handle f = Some h"
    using step by (auto simp: acquire_os_lock_def split: list.splits pc.splits option.splits)
  note ok = system_okD(1) [OF S]
  have ch: "current_handle ?P = Some h"
    by (rule handles_okE [OF ok, of f p t]) (use top pc h in auto)
  have live: "live f" and holds: "holds f" by (simp_all add: live_def holds_def pc)
  note P = process_okD [OF ok top live]
  have depth: "fr_depth f = length fs" and below: "\<And>g. g \<in> set fs \<Longrightarrow> fr_pc g = Body"
    using P(2) holds by (simp_all add: list_all_iff)
  have inner: "in_body S p t" if "0 < fr_depth f"
    using that depth below top by (cases fs) (auto simp: in_body_bodies)
  have outer: "fs = []" if "\<not> 0 < fr_depth f" using that depth by simp
  consider (body) "S' = move_top p t (\<lambda>f. f\<lparr>fr_pc := Body\<rparr>) S" "0 < fr_depth f"
    | (leaving) "S' = move_top p t (\<lambda>f. f\<lparr>fr_pc := Leaving\<rparr>) S" "\<not> 0 < fr_depth f"
    | (locked) "S' = move_top p t (\<lambda>f. f\<lparr>fr_locked := True, fr_pc := Body\<rparr>) (S\<lparr>sy_holder := Some (p, h)\<rparr>)"
        "\<not> 0 < fr_depth f" "sy_holder S \<in> {None, Some (p, h)}"
    using step top pc h by (auto simp: acquire_os_lock_def split: if_splits)
  then show ?thesis
  proof cases
    case body
    define g where "g = f\<lparr>fr_pc := Body\<rparr>"
    note S' = body(1)
    have fs: "fs \<noteq> []" using body(2) depth by auto
    have Q: "sy_processes S' = (sy_processes S)(p := set_stack t (g # fs) ?P)"
      using process_move_top [OF top] by (simp add: S' g_def)
    have b: "in_body S' q u = in_body S q u" for q u
      using inner [OF body(2)] by (auto simp: in_body_bodies Q g_def)
    have "process_ok (set_stack t (g # fs) ?P)"
      by (rule move_held_ok [OF ok top holds]) (use P(2) pc ch h fs in \<open>auto simp: g_def holds_def\<close>)
    then show ?thesis using ok by (intro system_ok_same [OF S _ b]) (simp_all add: Q, simp add: S')
  next
    case leaving
    define g where "g = f\<lparr>fr_pc := Leaving\<rparr>"
    note S' = leaving(1)
    have Q: "sy_processes S' = (sy_processes S)(p := set_stack t (g # fs) ?P)"
      using process_move_top [OF top] by (simp add: S' g_def)
    have b: "in_body S' q u = in_body S q u" for q u
      using top pc by (auto simp: in_body_bodies Q g_def)
    have "process_ok (set_stack t (g # fs) ?P)"
      by (rule move_held_ok [OF ok top holds]) (use P(2) pc in \<open>auto simp: g_def holds_def\<close>)
    then show ?thesis using ok by (intro system_ok_same [OF S _ b]) (simp_all add: Q, simp add: S')
  next
    case locked
    define g where "g = f\<lparr>fr_locked := True, fr_pc := Body\<rparr>"
    note S' = locked(1)
    have fs: "fs = []" using outer locked(2) by blast
    have Q: "sy_processes S' = (sy_processes S)(p := set_stack t (g # fs) ?P)"
      using process_move_top [of S p t f fs] top by (simp add: S' g_def move_top_def)
    have b: "in_body S' q u = (in_body S q u \<or> q = p \<and> u = t)" for q u
      using top pc by (auto simp: in_body_bodies Q g_def)
    have new: "process_ok (set_stack t (g # fs) ?P)"
      by (rule move_held_ok [OF ok top holds]) (use P(2) pc ch h fs in \<open>auto simp: g_def holds_def\<close>)
    have only: "q = p" if "in_body S q u" for q u
      using system_okD(3) [OF S that] locked(3) by auto
    show ?thesis
    proof (rule system_okI)
      show "process_ok (sy_processes S' q)" for q using new ok by (simp add: Q)
      show "current_handle (sy_processes S' q) = Some k \<and> (\<exists>u. in_body S' q u)" if "sy_holder S' = Some (q, k)" for q k
        using that ch b [of q t] by (simp add: Q) (auto simp: S')
      show "\<exists>k. sy_holder S' = Some (q, k)" if "in_body S' q u" for q u
        using that only b by (auto simp: S')
    qed
  qed
qed

section \<open>Leaving, closing and the whole system\<close>

lemma body_held: "process_ok P \<Longrightarrow> bodies (pr_stacks P t) \<Longrightarrow> 0 < pr_depths P t"
proof -
  assume ok: "process_ok P" and b: "bodies (pr_stacks P t)"
  have "filter holds (pr_stacks P t) \<noteq> []"
    using b by (auto simp: bodies_def list_ex_iff filter_empty_conv holds_def)
  then show ?thesis using process_ok_parts(1) [OF ok] by (simp add: stacks_ok_def held_def)
qed

lemma body_unique:
  assumes ok: "process_ok P" and b: "bodies (pr_stacks P t)" "bodies (pr_stacks P u)"
  shows "t = u"
proof -
  obtain f where "f \<in> set (pr_stacks P t)" "live f"
    using bodies_live [OF b(1)] by (auto simp: filter_empty_conv)
  from states_okD [OF process_ok_parts(3) [OF ok] this] process_ok_parts(4) [OF ok]
  have "owned (ls_owner (pr_objects P (fr_state f))) (pr_depths P)" by (simp add: owner_ok_def)
  with body_held [OF ok b(1)] body_held [OF ok b(2)] show ?thesis
    by (auto simp: owned_def split: option.splits if_splits)
qed

lemma leave_body_ok:
  assumes S: "system_ok S" and step: "leave_body p t S = Some S'"
  shows "system_ok S'"
proof -
  let ?P = "sy_processes S p"
  obtain f fs where top: "pr_stacks ?P t = f # fs" and pc: "fr_pc f = Body"
    using step by (auto simp: leave_body_def split: list.splits if_splits)
  note ok = system_okD(1) [OF S]
  have live: "live f" and holds: "holds f" by (simp_all add: live_def holds_def pc)
  note P = process_okD [OF ok top live]
  have body: "in_body S p t" by (simp add: in_body_bodies top pc)
  obtain h where h: "sy_holder S = Some (p, h)" using system_okD(3) [OF S body] by blast
  then have ch: "current_handle ?P = Some h" using system_okD(2) [OF S] by blast
  have fh: "fr_handle f = Some h"
    by (rule handles_okE [OF ok, of f p t]) (use top pc ch in auto)
  have locked: "fr_locked f = (fs = [])" using P(2) pc by simp
  define g where "g = f\<lparr>fr_pc := Leaving\<rparr>"
  have new: "process_ok (set_stack t (g # fs) ?P)"
    by (rule move_held_ok [OF ok top holds]) (simp_all add: g_def holds_def)
  show ?thesis
  proof (cases "fs = []")
    case True
    then have S': "S' = move_top p t (\<lambda>f. f\<lparr>fr_pc := Leaving\<rparr>) (S\<lparr>sy_holder := None\<rparr>)"
      using step top pc locked h fh by (simp add: leave_body_def)
    have Q: "sy_processes S' = (sy_processes S)(p := set_stack t (g # fs) ?P)"
      using top by (simp add: S' g_def move_top_def)
    have "\<not> in_body S' q u" for q u
    proof
      assume b: "in_body S' q u"
      then have old: "in_body S q u" "q = p \<longrightarrow> u \<noteq> t" using True
        by (auto simp: in_body_bodies Q g_def split: if_splits)
      have "q = p" using system_okD(3) [OF S old(1)] h by auto
      then show False using body_unique [OF ok, of p u t] old body by (simp add: in_body_bodies)
    qed
    moreover have "process_ok (sy_processes S' q)" for q using new ok by (simp add: Q)
    moreover have "sy_holder S' = None" by (simp add: S')
    ultimately show ?thesis by (intro system_okI) simp_all
  next
    case False
    then have S': "S' = move_top p t (\<lambda>f. f\<lparr>fr_pc := Leaving\<rparr>) S"
      using step top pc locked by (simp add: leave_body_def)
    have Q: "sy_processes S' = (sy_processes S)(p := set_stack t (g # fs) ?P)"
      using process_move_top [OF top] by (simp add: S' g_def)
    have "bodies fs" using False P(2) by (cases fs) auto
    then have b: "in_body S' q u = in_body S q u" for q u
      using body by (auto simp: in_body_bodies Q)
    show ?thesis by (rule system_ok_same [OF S _ b]) (use new ok in \<open>simp_all add: Q\<close>, simp add: S')
  qed
qed

lemma close_process_ok:
  assumes ok: "process_ok P" and top: "pr_stacks P t = f # fs" and pc: "fr_pc f = Closing" and h: "fr_handle f = Some h"
  shows "process_ok (set_stack t fs (P\<lparr>pr_open := pr_open P - {h}\<rparr>))" (is "process_ok ?Q")
proof -
  have st: "stack_ok (f # fs)" using process_ok_parts(1) [OF ok] top unfolding stacks_ok_def by metis
  have sub: "g \<in> set (pr_stacks ?Q u) \<Longrightarrow> g \<in> set (pr_stacks P u)" for g u
    using top by (auto simp: set_stack_def split: if_splits)
  have ch: "current_handle ?Q = current_handle P" by (simp add: current_handle_def set_stack_def split: option.splits)
  have clt: "closing_handle (pr_stacks P t) = Some h" "closing_handle fs = None"
    using top pc h st by (auto simp: closing_handle_def split: list.splits)
  have "stacks_ok ?Q"
  proof -
    have "held (f # fs) = held fs" by (simp add: held_def holds_def pc)
    then show ?thesis using process_ok_parts(1) [OF ok] st top by (auto simp: stacks_ok_def set_stack_def)
  qed
  moreover have "users_ok ?Q"
  proof -
    have "users (pr_stacks ?Q) = users (pr_stacks P)"
      using users_upd [of "pr_stacks P" t fs] top pc by (simp add: set_stack_def live_def)
    then show ?thesis using process_ok_parts(2) [OF ok] by (simp add: users_ok_def set_stack_def split: option.splits)
  qed
  moreover have "states_ok ?Q"
    using states_okD [OF process_ok_parts(3) [OF ok] sub] by (intro states_okI) (simp add: set_stack_def)
  moreover have "owner_ok ?Q" using process_ok_parts(4) [OF ok] by (simp add: owner_ok_def set_stack_def)
  moreover have "handles_ok ?Q"
    by (rule handles_okI, unfold ch) (rule handles_okD [OF process_ok_parts(5) [OF ok] sub])
  moreover have "open_ok ?Q"
  proof -
    note o = process_ok_parts(6) [OF ok, unfolded open_ok_def]
    have cl: "closing_handle (pr_stacks ?Q u) = (if u = t then None else closing_handle (pr_stacks P u))" for u
      using clt by (simp add: set_stack_def)
    have "closing_handle (pr_stacks P u) = Some h \<Longrightarrow> u = t" and nh: "current_handle P \<noteq> Some h" for u
      using o clt(1) by blast+
    then have ex: "(\<exists>u. closing_handle (pr_stacks ?Q u) = Some k) = (k \<noteq> h \<and> (\<exists>u. closing_handle (pr_stacks P u) = Some k))" for k
      unfolding cl using clt(1) by (metis option.distinct(1) option.inject)
    have "(k \<in> pr_open ?Q) = (current_handle ?Q = Some k \<or> (\<exists>u. closing_handle (pr_stacks ?Q u) = Some k))" for k
      using o nh unfolding ch ex by (auto simp: set_stack_def)
    then show ?thesis using o unfolding open_ok_def ch cl by (auto simp: set_stack_def split: if_splits)
  qed
  ultimately show ?thesis by (simp add: process_ok_def)
qed

lemma close_handle_ok:
  assumes S: "system_ok S" and step: "close_handle p t S = Some S'"
  shows "system_ok S'"
proof -
  let ?P = "sy_processes S p"
  obtain f fs h where top: "pr_stacks ?P t = f # fs" and pc: "fr_pc f = Closing" and h: "fr_handle f = Some h"
    using step by (auto simp: close_handle_def split: list.splits pc.splits option.splits)
  note ok = system_okD(1) [OF S]
  have clt: "closing_handle (pr_stacks ?P t) = Some h" using top pc h by (simp add: closing_handle_def)
  have "current_handle ?P \<noteq> Some h" using process_ok_parts(6) [OF ok] clt unfolding open_ok_def by blast
  then have free: "sy_holder S \<noteq> Some (p, h)" using system_okD(2) [OF S] by blast
  then have S': "S' = S\<lparr>sy_processes := (sy_processes S)(p := set_stack t fs (?P\<lparr>pr_open := pr_open ?P - {h}\<rparr>))\<rparr>"
    using step top pc h by (simp add: close_handle_def)
  have new: "process_ok (set_stack t fs (?P\<lparr>pr_open := pr_open ?P - {h}\<rparr>))"
    by (rule close_process_ok [OF ok top pc h])
  have ch: "current_handle (?P\<lparr>pr_open := x\<rparr>) = current_handle ?P" for x
    by (simp add: current_handle_def split: option.splits)
  show ?thesis
    by (rule system_ok_same [OF S]) (use new ok top pc ch in \<open>auto simp: S' in_body_bodies\<close>)
qed

lemma fresh_system_ok: "system_ok fresh_system"
proof -
  have "process_ok new_process"
    by (simp add: process_ok_def new_process_def stacks_ok_def users_ok_def users_0 states_ok_def owner_ok_def handles_ok_def
        open_ok_def held_def closing_handle_def current_handle_def)
  then show ?thesis by (simp add: system_ok_def fresh_system_def in_body_def new_process_def)
qed

lemma lock_step_ok:
  assumes "system_ok S" "lock_step a S = Some S'"
  shows "system_ok S'"
proof -
  obtain p t b where a: "a = (p, t, b)" by (cases a) auto
  note steps = in_process_ok [OF assms(1)]
  show ?thesis
  proof (cases b)
    case Register
    then show ?thesis using assms(2) a register_ok register_keeps by (auto intro!: steps)
  next
    case Acquire_Local
    then show ?thesis using assms(2) a acquire_local_ok acquire_local_keeps by (auto intro!: steps)
  next
    case Give_Up
    then show ?thesis using assms(2) a give_up_local_ok give_up_local_keeps by (auto intro!: steps)
  next
    case (Get_Handle x)
    then show ?thesis using assms(2) a get_handle_ok get_handle_keeps by (auto intro!: steps)
  next
    case Release_Local
    then show ?thesis using assms(2) a release_local_ok release_local_keeps by (auto intro!: steps)
  next
    case Unregister
    then show ?thesis using assms(2) a unregister_ok unregister_keeps by (auto intro!: steps)
  qed (use assms a in \<open>auto intro: acquire_os_lock_ok leave_body_ok close_handle_ok\<close>)
qed

interpretation file_lock: step_system "lock_step :: 'p \<times> 't::finite \<times> lock_action \<Rightarrow> _" system_ok
  by unfold_locales (rule lock_step_ok)

section \<open>Exclusion and clean-up\<close>

text \<open>
  C4. At most one thread of all processes is in the body of the lock, whatever the interleaving, the
  reentrant calls, the time limits and the errors of opening or locking the file; while it is there
  the file is locked by the handle of its process.
\<close>

theorem lock_mutual_exclusion:
  fixes S :: "('p, 't::finite) system"
  assumes "run_actions lock_step as fresh_system = Some S" "in_body S p t"
  shows "(in_body S q u \<longrightarrow> p = q \<and> t = u) \<and>
    (\<exists>h. sy_holder S = Some (p, h) \<and> h \<in> pr_open (sy_processes S p))"
proof -
  have S: "system_ok S" by (rule file_lock.run_keeps [OF fresh_system_ok assms(1)])
  obtain h where h: "sy_holder S = Some (p, h)" using system_okD(3) [OF S assms(2)] by blast
  have "h \<in> pr_open (sy_processes S p)"
    using bodies_handle [OF system_okD(1) [OF S], of p t] assms(2) system_okD(2) [OF S h] by (auto simp: in_body_bodies)
  moreover have "p = q \<and> t = u" if b: "in_body S q u"
  proof -
    have "p = q" using system_okD(3) [OF S b] h by simp
    then show ?thesis using body_unique [OF system_okD(1) [OF S], of p t u] assms(2) b by (simp add: in_body_bodies)
  qed
  ultimately show ?thesis using h by blast
qed

text \<open>
  C12. Nothing is left behind: when no thread of a process is in a call, the process has no entry for
  the file, no open handle and no count of any thread, and it does not have the file locked.
\<close>

theorem lock_leaves_nothing:
  fixes S :: "('p, 't::finite) system"
  assumes "run_actions lock_step as fresh_system = Some S" "\<forall>t. pr_stacks (sy_processes S p) t = []"
  shows "pr_current (sy_processes S p) = None \<and> pr_open (sy_processes S p) = {} \<and>
    (\<forall>t. pr_depths (sy_processes S p) t = 0) \<and> (\<forall>h. sy_holder S \<noteq> Some (p, h))"
proof -
  have S: "system_ok S" by (rule file_lock.run_keeps [OF fresh_system_ok assms(1)])
  note P = process_ok_parts [OF system_okD(1) [OF S, of p]]
  have c: "pr_current (sy_processes S p) = None"
    using P(2) assms(2) by (auto simp: users_ok_def users_def split: option.splits)
  moreover have "pr_open (sy_processes S p) = {}"
    using P(6) assms(2) c by (auto simp: open_ok_def current_handle_def closing_handle_def)
  moreover have "\<forall>t. pr_depths (sy_processes S p) t = 0" using P(1) assms(2) by (simp add: stacks_ok_def held_def)
  moreover have "sy_holder S \<noteq> Some (p, h)" for h
    using system_okD(2) [OF S, of p h] assms(2) by (auto simp: in_body_def)
  ultimately show ?thesis by blast
qed

text \<open>Two processes with two threads: a reentrant call, a thread and a process that wait, and the end.\<close>

definition lock_run :: "(bool \<times> bool \<times> lock_action) list" where
  "lock_run =
     [(False, False, Register), (True, False, Register), (False, False, Acquire_Local), (False, True, Register),
      (True, False, Acquire_Local), (False, False, Get_Handle True), (True, False, Get_Handle True),
      (False, False, Acquire_OS True), (False, False, Register), (False, True, Give_Up), (False, False, Acquire_Local),
      (False, False, Get_Handle True), (False, False, Acquire_OS True)]"

definition lock_end :: "(bool \<times> bool \<times> lock_action) list" where
  "lock_end =
     [(False, False, Leave), (False, True, Unregister), (False, False, Release_Local), (False, False, Unregister),
      (False, False, Leave), (True, False, Acquire_OS True), (False, False, Release_Local), (False, False, Unregister),
      (False, False, Close)]"

definition example_system :: "(bool \<times> bool \<times> lock_action) list \<Rightarrow> (bool, bool) system" where
  "example_system as = (case run_actions lock_step as fresh_system of None \<Rightarrow> fresh_system | Some S \<Rightarrow> S)"

lemma example_run:
  "\<not> Option.is_none (run_actions lock_step as fresh_system) \<Longrightarrow>
   run_actions lock_step as fresh_system = Some (example_system as)"
  by (auto simp: example_system_def Option.is_none_def split: option.splits)

lemma lock_run_possible: "run_actions lock_step lock_run fresh_system = Some (example_system lock_run)"
  by (rule example_run) code_simp

lemma lock_end_possible: "run_actions lock_step (lock_run @ lock_end) fresh_system = Some (example_system (lock_run @ lock_end))"
  by (rule example_run) code_simp

lemma lock_mutual_exclusion_witness:
  "in_body (example_system lock_run) False False \<and> \<not> in_body (example_system lock_run) True False \<and>
   (\<exists>h. sy_holder (example_system lock_run) = Some (False, h))"
proof -
  have b: "in_body (example_system lock_run) False False" by code_simp
  note x = lock_mutual_exclusion [OF lock_run_possible b]
  from x [of True False] b show ?thesis by auto
qed

lemma lock_leaves_nothing_witness:
  "pr_open (sy_processes (example_system (lock_run @ lock_end)) False) = {} \<and>
   in_body (example_system (lock_run @ lock_end)) True False"
proof -
  have "pr_stacks (sy_processes (example_system (lock_run @ lock_end)) False) False = []"
    "pr_stacks (sy_processes (example_system (lock_run @ lock_end)) False) True = []" by code_simp+
  then have "\<forall>t. pr_stacks (sy_processes (example_system (lock_run @ lock_end)) False) t = []" by (metis (full_types))
  from lock_leaves_nothing [OF lock_end_possible this] have "pr_open (sy_processes (example_system (lock_run @ lock_end)) False) = {}"
    by blast
  moreover have "in_body (example_system (lock_run @ lock_end)) True False" by code_simp
  ultimately show ?thesis by blast
qed

end
