(* ===== verification/Traffic_Events.thy ===== *)
theory Traffic_Events
  imports Step_System "HOL-Library.Sublist"
begin

text \<open>
  \<^verbatim>\<open>services/traffic/event_hub.py\<close>: the streams of traffic test events. A full stream gives up its oldest
  output or sample event for a new one; when only events that must arrive are waiting it drops a new
  output event, and closes with an overflow mark before it would lose one that must arrive, so that
  the reader goes back to the event store. Subscriptions are numbered in the order they are opened;
  each operation is one step, as the conditions and the lock of the source make it, and a wait for an
  event is the answer \<open>Empty\<close>.
\<close>

section \<open>Events and subscriptions\<close>

datatype traffic_event_type = STATE | STDOUT | STDERR | SAMPLE | SUMMARY | ERROR | SYSTEM

record traffic_event =
  te_run_id :: string
  te_controller_task_id :: string
  te_source :: string
  te_type :: traffic_event_type
  te_payload :: pydict
  te_timestamp :: string
  te_sequence :: int
  te_remote_sequence :: "int option"

definition DROPPABLE_TYPES :: "traffic_event_type list" where
  "DROPPABLE_TYPES = [STDOUT, STDERR, SAMPLE]"

definition droppable :: "traffic_event \<Rightarrow> bool" where
  "droppable e = (te_type e \<in> set DROPPABLE_TYPES)"

record subscription =
  ts_max :: nat
  ts_events :: "traffic_event list"
  ts_closed :: bool
  ts_overflowed :: bool

text \<open>\<open>max(1, int(max_events))\<close>\<close>

definition new_subscription :: "int \<Rightarrow> subscription" where
  "new_subscription m = \<lparr>ts_max = nat (max 1 m), ts_events = [], ts_closed = False, ts_overflowed = False\<rparr>"

fun drop_first :: "('a \<Rightarrow> bool) \<Rightarrow> 'a list \<Rightarrow> 'a list option" where
  "drop_first p [] = None"
| "drop_first p (x # xs) = (if p x then Some xs else map_option (Cons x) (drop_first p xs))"

definition offer :: "traffic_event \<Rightarrow> subscription \<Rightarrow> bool \<times> subscription" where
  "offer e s =
     (if ts_closed s then (False, s)
      else if ts_max s \<le> length (ts_events s)
      then (case drop_first droppable (ts_events s) of
              Some es \<Rightarrow> (True, s\<lparr>ts_events := es @ [e]\<rparr>)
            | None \<Rightarrow>
                if droppable e then (True, s)
                else (False, s\<lparr>ts_overflowed := True, ts_closed := True\<rparr>))
      else (True, s\<lparr>ts_events := ts_events s @ [e]\<rparr>))"

datatype get_result = Got traffic_event | StreamOverflow | StreamClosed | Empty

definition get_event :: "subscription \<Rightarrow> get_result \<times> subscription" where
  "get_event s =
     (case ts_events s of
        e # es \<Rightarrow> (Got e, s\<lparr>ts_events := es\<rparr>)
      | [] \<Rightarrow> (if ts_overflowed s then StreamOverflow else if ts_closed s then StreamClosed else Empty, s))"

definition mark_closed :: "subscription \<Rightarrow> subscription" where
  "mark_closed s = s\<lparr>ts_closed := True\<rparr>"

section \<open>The hub\<close>

record traffic_hub =
  th_listed :: "nat list"
  th_streams :: "subscription list"

definition new_hub :: traffic_hub where
  "new_hub = \<lparr>th_listed = [], th_streams = []\<rparr>"

definition open_traffic_stream :: "int \<Rightarrow> traffic_hub \<Rightarrow> traffic_hub" where
  "open_traffic_stream m h =
     h\<lparr>th_listed := th_listed h @ [length (th_streams h)], th_streams := th_streams h @ [new_subscription m]\<rparr>"

fun offer_all :: "traffic_event \<Rightarrow> nat list \<Rightarrow> subscription list \<Rightarrow> nat list \<times> subscription list" where
  "offer_all e [] ss = ([], ss)"
| "offer_all e (i # is) ss =
     (let (ok, s) = offer e (ss ! i); (stale, ss') = offer_all e is (ss[i := s]) in
      (if ok then stale else i # stale, ss'))"

definition publish_traffic :: "traffic_event \<Rightarrow> traffic_hub \<Rightarrow> traffic_hub result" where
  "publish_traffic e h =
     (if te_sequence e \<le> 0 then Inl (ValueError ''TrafficEvent must be persisted and sequenced before publish'')
      else (let (stale, ss) = offer_all e (th_listed h) (th_streams h) in
            Inr (h\<lparr>th_listed := filter (\<lambda>i. i \<notin> set stale) (th_listed h), th_streams := ss\<rparr>)))"

definition close_traffic_stream :: "nat \<Rightarrow> traffic_hub \<Rightarrow> traffic_hub" where
  "close_traffic_stream i h = h\<lparr>th_listed := remove1 i (th_listed h), th_streams := (th_streams h)[i := mark_closed (th_streams h ! i)]\<rparr>"

definition get_from :: "nat \<Rightarrow> traffic_hub \<Rightarrow> get_result \<times> traffic_hub" where
  "get_from i h = (let (r, s) = get_event (th_streams h ! i) in (r, h\<lparr>th_streams := (th_streams h)[i := s]\<rparr>))"

section \<open>Runs of one stream\<close>

text \<open>
  A trace adds to a stream the events it took (\<open>offer\<close> answered true) and those its reader got.
\<close>

record stream_trace =
  tr_stream :: subscription
  tr_taken :: "traffic_event list"
  tr_got :: "traffic_event list"

datatype stream_action = Offer traffic_event | Get | Close_Stream

fun trace_step :: "stream_action \<Rightarrow> stream_trace \<Rightarrow> stream_trace option" where
  "trace_step (Offer e) t =
     (let (ok, s) = offer e (tr_stream t) in
      Some (t\<lparr>tr_stream := s, tr_taken := tr_taken t @ (if ok then [e] else [])\<rparr>))"
| "trace_step Get t =
     (let (r, s) = get_event (tr_stream t) in
      Some (t\<lparr>tr_stream := s, tr_got := tr_got t @ (case r of Got e \<Rightarrow> [e] | _ \<Rightarrow> [])\<rparr>))"
| "trace_step Close_Stream t = Some (t\<lparr>tr_stream := mark_closed (tr_stream t)\<rparr>)"

definition new_trace :: "int \<Rightarrow> stream_trace" where
  "new_trace m = \<lparr>tr_stream = new_subscription m, tr_taken = [], tr_got = []\<rparr>"

definition trace_ok :: "stream_trace \<Rightarrow> bool" where
  "trace_ok t =
     (let s = tr_stream t; seen = tr_got t @ ts_events s in
      filter (Not \<circ> droppable) seen = filter (Not \<circ> droppable) (tr_taken t) \<and> subseq seen (tr_taken t) \<and>
      length (ts_events s) \<le> ts_max s \<and> 0 < ts_max s \<and> (ts_overflowed s \<longrightarrow> ts_closed s))"

lemma drop_first_Some:
  "drop_first p xs = Some ys \<Longrightarrow> \<exists>us v vs. xs = us @ v # vs \<and> ys = us @ vs \<and> p v"
proof (induction xs arbitrary: ys)
  case (Cons x xs)
  show ?case
  proof (cases "p x")
    case True
    then show ?thesis using Cons.prems by (intro exI [of _ "[]"]) auto
  next
    case False
    then obtain zs where zs: "drop_first p xs = Some zs" "ys = x # zs" using Cons.prems by auto
    from Cons.IH [OF zs(1)] obtain us v vs where "xs = us @ v # vs" "zs = us @ vs" "p v" by blast
    then show ?thesis using zs(2) by (intro exI [of _ "x # us"] exI [of _ v] exI [of _ vs]) simp
  qed
qed simp

lemma drop_first_None: "drop_first p xs = None \<longleftrightarrow> (\<forall>x \<in> set xs. \<not> p x)"
  by (induction xs) auto

lemma trace_ok_append:
  assumes "trace_ok t" "ts_events s = us @ [e]" "filter (Not \<circ> droppable) us = filter (Not \<circ> droppable) (ts_events (tr_stream t))"
    and "subseq us (ts_events (tr_stream t))" "length us < ts_max s" "ts_max s = ts_max (tr_stream t)" "\<not> ts_overflowed s"
  shows "trace_ok (t\<lparr>tr_stream := s, tr_taken := tr_taken t @ [e]\<rparr>)"
proof -
  have "subseq (tr_got t @ us) (tr_taken t)"
    using assms(1,4) by (auto simp: trace_ok_def Let_def intro: subseq_order.trans list_emb_append_mono)
  then have "subseq (tr_got t @ us @ [e]) (tr_taken t @ [e])"
    by (metis append_assoc list_emb_append_mono subseq_order.order_refl)
  then show ?thesis using assms by (simp add: trace_ok_def Let_def)
qed

lemma trace_step_keeps: "trace_ok t \<Longrightarrow> trace_step a t = Some t' \<Longrightarrow> trace_ok t'"
proof (cases a)
  case (Offer e)
  assume ok: "trace_ok t" and step: "trace_step a t = Some t'"
  let ?s = "tr_stream t"
  show ?thesis
  proof (cases "fst (offer e ?s)")
    case False
    then have "t' = t\<lparr>tr_stream := snd (offer e ?s)\<rparr>" using step Offer by (auto simp: case_prod_beta)
    moreover have "ts_events (snd (offer e ?s)) = ts_events ?s" "ts_max (snd (offer e ?s)) = ts_max ?s"
      "ts_overflowed (snd (offer e ?s)) \<longrightarrow> ts_closed (snd (offer e ?s))"
      using False ok by (auto simp: offer_def trace_ok_def Let_def split: option.splits if_splits)
    ultimately show ?thesis using ok by (simp add: trace_ok_def Let_def)
  next
    case True
    then have t': "t' = t\<lparr>tr_stream := snd (offer e ?s), tr_taken := tr_taken t @ [e]\<rparr>"
      using step Offer by (auto simp: case_prod_beta)
    have open': "\<not> ts_closed ?s" "\<not> ts_overflowed ?s" using True ok by (auto simp: offer_def trace_ok_def Let_def split: if_splits)
    consider (room) "length (ts_events ?s) < ts_max ?s"
      | (dropped) es where "length (ts_events ?s) = ts_max ?s" "drop_first droppable (ts_events ?s) = Some es"
      | (ignored) "length (ts_events ?s) = ts_max ?s" "drop_first droppable (ts_events ?s) = None" "droppable e"
      using True ok open' by (fastforce simp: offer_def trace_ok_def Let_def split: option.splits if_splits)
    then show ?thesis
    proof cases
      case room
      then show ?thesis unfolding t' using open'
        by (intro trace_ok_append [OF ok, of _ "ts_events ?s"]) (auto simp: offer_def)
    next
      case (dropped es)
      then obtain us v vs where e: "ts_events ?s = us @ v # vs" "es = us @ vs" "droppable v"
        using drop_first_Some by blast
      have "subseq es (ts_events ?s)" unfolding e(1,2) by (intro list_emb_append_mono) auto
      then show ?thesis unfolding t' using open' dropped e
        by (intro trace_ok_append [OF ok, of _ es]) (auto simp: offer_def)
    next
      case ignored
      then have "snd (offer e ?s) = ?s" using open' by (auto simp: offer_def)
      then show ?thesis unfolding t' using ok ignored by (auto simp: trace_ok_def Let_def )
    qed
  qed
next
  case Get
  assume "trace_ok t" "trace_step a t = Some t'"
  then show ?thesis using Get
    by (auto simp: trace_ok_def get_event_def Let_def split: list.splits if_splits)
next
  case Close_Stream
  assume "trace_ok t" "trace_step a t = Some t'"
  then show ?thesis using Close_Stream by (auto simp: trace_ok_def mark_closed_def Let_def)
qed

interpretation trace: step_system trace_step trace_ok
  by unfold_locales (rule trace_step_keeps)

lemma new_trace_ok: "trace_ok (new_trace m)"
  by (simp add: trace_ok_def new_trace_def new_subscription_def)

section \<open>Properties\<close>

text \<open>
  C7. Whatever is offered, read or closed, a stream holds at most its bound, its reader gets a
  subsequence of what the stream took in order, and of the events that must arrive it has got or will
  find every one the stream took. An event that must arrive is refused only by a closed stream, and a
  reader of a stream that overflowed is told so when the stream is drained.
\<close>

theorem stream_keeps_significant:
  assumes "run_actions trace_step as (new_trace m) = Some t"
  defines "s \<equiv> tr_stream t"
  shows "filter (Not \<circ> droppable) (tr_got t @ ts_events s) = filter (Not \<circ> droppable) (tr_taken t) \<and>
    subseq (tr_got t @ ts_events s) (tr_taken t) \<and> length (ts_events s) \<le> ts_max s \<and>
    (\<not> fst (offer e s) \<longrightarrow> ts_closed (snd (offer e s)) \<and> (ts_closed s \<or> \<not> droppable e \<and> ts_overflowed (snd (offer e s)))) \<and>
    (ts_overflowed s \<longrightarrow> ts_events s = [] \<longrightarrow> fst (get_event s) = StreamOverflow)"
proof -
  have ok: "trace_ok t" by (rule trace.run_keeps [OF new_trace_ok assms(1)])
  have "\<not> fst (offer e s) \<longrightarrow> ts_closed (snd (offer e s)) \<and> (ts_closed s \<or> \<not> droppable e \<and> ts_overflowed (snd (offer e s)))"
    by (auto simp: offer_def split: option.splits)
  moreover have "ts_overflowed s \<longrightarrow> ts_events s = [] \<longrightarrow> fst (get_event s) = StreamOverflow"
    by (simp add: get_event_def)
  ultimately show ?thesis using ok by (simp add: trace_ok_def Let_def s_def)
qed

definition sample_event :: "int \<Rightarrow> traffic_event_type \<Rightarrow> traffic_event" where
  "sample_event n k = \<lparr>te_run_id = ''run'', te_controller_task_id = ''task'', te_source = ''local'', te_type = k, te_payload = [],
     te_timestamp = [], te_sequence = n, te_remote_sequence = None\<rparr>"

definition example_trace :: stream_trace where
  "example_trace = the (run_actions trace_step
     [Offer (sample_event 1 STATE), Offer (sample_event 2 SAMPLE), Offer (sample_event 3 STATE), Get,
      Offer (sample_event 4 SUMMARY), Offer (sample_event 5 STDOUT), Offer (sample_event 6 ERROR)] (new_trace 2))"

lemma stream_keeps_significant_witness:
  "map te_sequence (filter (Not \<circ> droppable) (tr_got example_trace @ ts_events (tr_stream example_trace))) = [1, 3, 4] \<and>
   map te_sequence (filter (Not \<circ> droppable) (tr_taken example_trace)) = [1, 3, 4] \<and> ts_overflowed (tr_stream example_trace)"
proof -
  have run: "run_actions trace_step
     [Offer (sample_event 1 STATE), Offer (sample_event 2 SAMPLE), Offer (sample_event 3 STATE), Get,
      Offer (sample_event 4 SUMMARY), Offer (sample_event 5 STDOUT), Offer (sample_event 6 ERROR)] (new_trace 2) = Some example_trace"
    unfolding example_trace_def by code_simp
  have "map te_sequence (filter (Not \<circ> droppable) (tr_taken example_trace)) = [1, 3, 4]"
    "ts_overflowed (tr_stream example_trace)" by code_simp+
  with stream_keeps_significant [OF run] show ?thesis by simp
qed

section \<open>The hub\<close>

definition hub_ok :: "traffic_hub \<Rightarrow> bool" where
  "hub_ok h = (distinct (th_listed h) \<and>
     (\<forall>i. (i \<in> set (th_listed h)) = (i < length (th_streams h) \<and> \<not> ts_closed (th_streams h ! i))))"

lemma offer_all_spec:
  assumes "distinct is" "\<And>i. i \<in> set is \<Longrightarrow> i < length ss"
  shows "snd (offer_all e is ss) =
      map (\<lambda>i. if i \<in> set is then snd (offer e (ss ! i)) else ss ! i) [0..<length ss] \<and>
    fst (offer_all e is ss) = filter (\<lambda>i. \<not> fst (offer e (ss ! i))) is"
  using assms
proof (induction "is" arbitrary: ss)
  case Nil
  then show ?case by (simp add: map_nth)
next
  case (Cons i "is")
  let ?ss = "ss[i := snd (offer e (ss ! i))]"
  have "snd (offer_all e is ?ss) = map (\<lambda>j. if j \<in> set is then snd (offer e (?ss ! j)) else ?ss ! j) [0..<length ?ss] \<and>
      fst (offer_all e is ?ss) = filter (\<lambda>j. \<not> fst (offer e (?ss ! j))) is"
    using Cons.prems by (intro Cons.IH) auto
  moreover have "j \<in> set is \<Longrightarrow> ?ss ! j = ss ! j" for j
    using Cons.prems(1) by (metis distinct.simps(2) nth_list_update_neq)
  ultimately show ?case using Cons.prems
    by (auto simp: case_prod_beta Let_def nth_list_update intro!: filter_cong map_cong)
qed

lemma open_stream_ok: "hub_ok h \<Longrightarrow> hub_ok (open_traffic_stream m h)"
proof -
  assume h: "hub_ok h"
  let ?n = "length (th_streams h)"
  have listed: "(i \<in> set (th_listed h)) = (i < ?n \<and> \<not> ts_closed (th_streams h ! i))" for i
    using h by (simp add: hub_ok_def)
  have "distinct (th_listed h @ [?n])" using h listed by (simp add: hub_ok_def)
  moreover have "(i \<in> set (th_listed h @ [?n])) = (i < Suc ?n \<and> \<not> ts_closed ((th_streams h @ [new_subscription m]) ! i))" for i
    using listed [of i] by (cases "i = ?n") (auto simp: nth_append new_subscription_def less_Suc_eq)
  ultimately show ?thesis by (simp add: hub_ok_def open_traffic_stream_def)
qed

lemma close_stream_ok: "hub_ok h \<Longrightarrow> i < length (th_streams h) \<Longrightarrow> hub_ok (close_traffic_stream i h)"
  by (simp add: hub_ok_def close_traffic_stream_def mark_closed_def nth_list_update)

lemma get_from_ok: "hub_ok h \<Longrightarrow> i < length (th_streams h) \<Longrightarrow> hub_ok (snd (get_from i h))"
  by (cases "ts_events (th_streams h ! i)") (auto simp: hub_ok_def get_from_def get_event_def nth_list_update)

text \<open>
  A published event is offered once to every open stream and to no other, nothing else changes a
  stream, and the hub goes on listing exactly the streams that are still open; an event without a
  sequence number is rejected.
\<close>

theorem publish_traffic_effect:
  assumes "hub_ok h"
  shows "(\<exists>h'. publish_traffic e h = Inr h' \<and> hub_ok h' \<and> length (th_streams h') = length (th_streams h) \<and>
      (\<forall>i < length (th_streams h). th_streams h' ! i =
         (if i \<in> set (th_listed h) then snd (offer e (th_streams h ! i)) else th_streams h ! i))) = (0 < te_sequence e)"
proof (cases "0 < te_sequence e")
  case True
  have "distinct (th_listed h)" "\<And>i. i \<in> set (th_listed h) \<Longrightarrow> i < length (th_streams h)"
    using assms by (auto simp: hub_ok_def)
  note spec = conjunct1 [OF offer_all_spec [OF this, of e]] conjunct2 [OF offer_all_spec [OF this, of e]]
  define h' where "h' = h\<lparr>th_listed := filter (\<lambda>i. i \<notin> set (fst (offer_all e (th_listed h) (th_streams h)))) (th_listed h),
      th_streams := snd (offer_all e (th_listed h) (th_streams h))\<rparr>"
  have pub: "publish_traffic e h = Inr h'"
    using True by (simp add: publish_traffic_def h'_def case_prod_beta)
  have streams: "th_streams h' = map (\<lambda>i. if i \<in> set (th_listed h) then snd (offer e (th_streams h ! i)) else th_streams h ! i)
      [0..<length (th_streams h)]"
    by (simp add: h'_def spec(1))
  have listed: "th_listed h' = filter (\<lambda>i. fst (offer e (th_streams h ! i))) (th_listed h)"
    by (simp add: h'_def spec(2) cong: filter_cong)
  have closed: "ts_closed (snd (offer e s)) = (\<not> fst (offer e s))" if "\<not> ts_closed s" for s
    using that by (auto simp: offer_def split: option.splits)
  have "hub_ok h'"
  proof -
    have "(i \<in> set (th_listed h')) = (i < length (th_streams h') \<and> \<not> ts_closed (th_streams h' ! i))" for i
    proof (cases "i < length (th_streams h)")
      case True
      then show ?thesis using assms closed [of "th_streams h ! i"] by (auto simp: hub_ok_def streams listed)
    next
      case False
      then show ?thesis using assms by (auto simp: hub_ok_def streams listed)
    qed
    moreover have "distinct (th_listed h')" using assms by (simp add: hub_ok_def listed)
    ultimately show ?thesis by (simp add: hub_ok_def)
  qed
  moreover have "th_streams h' ! i = (if i \<in> set (th_listed h) then snd (offer e (th_streams h ! i)) else th_streams h ! i)"
    if "i < length (th_streams h)" for i using that by (simp add: streams)
  moreover have "length (th_streams h') = length (th_streams h)" by (simp add: streams)
  ultimately show ?thesis using True pub by blast
qed (simp add: publish_traffic_def)

lemma publish_traffic_effect_witness:
  "\<exists>h'. publish_traffic (sample_event 1 STATE) (close_traffic_stream 1 (open_traffic_stream 5 (open_traffic_stream 3 new_hub))) = Inr h' \<and> hub_ok h'"
proof -
  have "hub_ok (close_traffic_stream 1 (open_traffic_stream 5 (open_traffic_stream 3 new_hub)))"
    by (intro close_stream_ok open_stream_ok) (simp_all add: hub_ok_def new_hub_def open_traffic_stream_def)
  from publish_traffic_effect [OF this, of "sample_event 1 STATE"] show ?thesis by (auto simp: sample_event_def)
qed
end
