(* ===== verification/Text_Encoding.thy ===== *)
theory Text_Encoding
  imports Text_Decoder
begin

text \<open>
  \<^verbatim>\<open>utils/text_encoding.py\<close>, the decoding of device output and of files in an unknown encoding. The
  codecs other than UTF-8 are the parameter \<open>codec\<close>: strict decoding of bytes in a named encoding,
  \<open>None\<close> for \<open>UnicodeDecodeError\<close>; all names that occur are encodings the standard library has.
\<close>

section \<open>UTF-8 with replacement\<close>

text \<open>
  Decoding with \<open>errors="replace"\<close>: an incomplete code point before a byte that does not continue it,
  and a byte that starts none, become one replacement character each.
\<close>

fun utf8_replace :: "string \<Rightarrow> string \<Rightarrow> string" where
  "utf8_replace p [] = (if p = [] then [] else replacement_char)"
| "utf8_replace p (c # cs) =
     (case utf8_step p c of
        Some (out, p') \<Rightarrow> out @ utf8_replace p' cs
      | None \<Rightarrow>
          if p = [] then replacement_char @ utf8_replace [] cs
          else replacement_char @
            (case utf8_step [] c of
               Some (out, p') \<Rightarrow> out @ utf8_replace p' cs
             | None \<Rightarrow> replacement_char @ utf8_replace [] cs))"

definition utf8_strict :: "string \<Rightarrow> string option" where
  "utf8_strict bytes = (case utf8_feed [] bytes of Some (t, []) \<Rightarrow> Some t | _ \<Rightarrow> None)"

type_synonym codec = "string \<Rightarrow> string \<Rightarrow> string option"

section \<open>Candidates in order\<close>

definition TEXT_ENCODINGS :: "string list" where
  "TEXT_ENCODINGS = [''utf-8-sig'', ''utf-8'', ''gb18030'', ''gbk'']"

text \<open>\<open>encoding.lower().replace("_", "-") == "utf-8-sig"\<close>\<close>

definition is_sig :: "string \<Rightarrow> bool" where
  "is_sig enc = (map (\<lambda>c. if c = CHR ''_'' then CHR ''-'' else c) (casefold enc) = ''utf-8-sig'')"

definition strict_decode :: "codec \<Rightarrow> string \<Rightarrow> string \<Rightarrow> string option" where
  "strict_decode codec enc raw =
     (if enc = ''utf-8'' then utf8_strict raw
      else if enc = ''utf-8-sig''
      then utf8_strict (if startswith raw byte_order_mark then drop (length byte_order_mark) raw else raw)
      else codec enc raw)"

fun first_decoding :: "codec \<Rightarrow> string \<Rightarrow> string \<Rightarrow> string list \<Rightarrow> TextDecodeResult option" where
  "first_decoding codec source raw [] = None"
| "first_decoding codec source raw (enc # encs) =
     (if is_sig enc \<and> \<not> startswith raw byte_order_mark then first_decoding codec source raw encs
      else (case strict_decode codec enc raw of
              None \<Rightarrow> first_decoding codec source raw encs
            | Some t \<Rightarrow>
                Some \<lparr>td_text = clean_device_text t, td_encoding = enc, td_used_replacement = False,
                      td_had_bom = is_sig enc, td_decode_warning = [], td_source = source\<rparr>))"

definition decode_bytes_with_fallback ::
  "codec \<Rightarrow> string list \<Rightarrow> bool \<Rightarrow> string \<Rightarrow> string \<Rightarrow> TextDecodeResult result" where
  "decode_bytes_with_fallback codec encs replace_on_failure source raw =
     (case first_decoding codec source raw encs of
        Some r \<Rightarrow> Inr r
      | None \<Rightarrow>
          if \<not> replace_on_failure then Inl (ValueError msg_encoding_unknown)
          else Inr \<lparr>td_text = clean_device_text (utf8_replace [] raw), td_encoding = ''utf-8-replace'',
                     td_used_replacement = True, td_had_bom = False,
                     td_decode_warning = msg_all_encodings_failed, td_source = source\<rparr>)"

definition decode_text_auto :: "codec \<Rightarrow> string \<Rightarrow> string result" where
  "decode_text_auto codec raw =
     map_sum id td_text (decode_bytes_with_fallback codec TEXT_ENCODINGS False ''external_bytes'' raw)"

text \<open>\<open>decode_external_text\<close> for bytes and for text; \<open>hint = ''''\<close> is no hint.\<close>

definition external_candidates :: "string \<Rightarrow> string list" where
  "external_candidates hint =
     (let names = (if hint = [] then [] else [hint]) @ [''utf-8-sig'', ''utf-8'', ''gb18030'', ''cp936''] in
      rev (remdups (rev names)))"

definition decode_external_bytes :: "codec \<Rightarrow> string \<Rightarrow> string \<Rightarrow> string \<Rightarrow> TextDecodeResult result" where
  "decode_external_bytes codec source hint raw =
     decode_bytes_with_fallback codec (external_candidates hint) True source raw"

definition decode_external_str :: "string \<Rightarrow> string \<Rightarrow> TextDecodeResult" where
  "decode_external_str source t =
     \<lparr>td_text = clean_device_text t, td_encoding = ''unicode'', td_used_replacement = False, td_had_bom = False,
      td_decode_warning = [], td_source = source\<rparr>"

definition safe_decode_bytes :: "codec \<Rightarrow> string \<Rightarrow> string result" where
  "safe_decode_bytes codec raw = map_sum id td_text (decode_external_bytes codec ''device_output'' [] raw)"

section \<open>Lemmas\<close>

text \<open>A text decodes strictly when it is a sequence of whole code points.\<close>

definition well_formed :: "string \<Rightarrow> bool" where
  "well_formed s = (utf8_feed [] s = Some (s, []))"

lemma utf8_strict_Some: "utf8_strict raw = Some t \<Longrightarrow> t = raw \<and> well_formed raw"
  using utf8_feed_bytes [of "[]" raw] by (auto simp: utf8_strict_def well_formed_def split: option.splits list.splits)

lemma well_formed_Nil [simp]: "well_formed []"
  by (simp add: well_formed_def)

lemma well_formed_append: "well_formed a \<Longrightarrow> well_formed b \<Longrightarrow> well_formed (a @ b)"
  by (simp add: well_formed_def utf8_feed_append)

lemma well_formed_replacement: "well_formed replacement_char"
  unfolding well_formed_def by code_simp

lemma utf8_step_out:
  assumes "utf8_step p c = Some (out, p')" "utf8_feed [] p = Some ([], p)"
  shows "well_formed out \<and> utf8_feed [] p' = Some ([], p')"
proof -
  have b: "p @ [c] = out @ p'" by (rule utf8_step_bytes [OF assms(1)])
  have f: "utf8_feed [] (p @ [c]) = Some (out, p')" using assms by (simp add: utf8_feed_append)
  have "out = [] \<or> p' = []" using assms(1) by (auto simp: utf8_step_def Let_def split: list.splits if_splits)
  then show ?thesis using b f by (auto simp: well_formed_def)
qed

text \<open>Replacing decoding always gives whole code points.\<close>

lemma utf8_replace_well_formed: "utf8_feed [] p = Some ([], p) \<Longrightarrow> well_formed (utf8_replace p bytes)"
proof (induction bytes arbitrary: p)
  case (Cons c cs)
  have start: "utf8_feed [] [] = Some ([], [])" by simp
  note step = utf8_step_out [OF _ Cons.prems] utf8_step_out [OF _ start]
  note app = well_formed_append well_formed_replacement Cons.IH Cons.IH [OF start]
  show ?case
  proof (cases "utf8_step p c")
    case None
    show ?thesis
    proof (cases "utf8_step [] c")
      case none: None
      then show ?thesis using None app by simp
    next
      case (Some op)
      then show ?thesis using None app step(2) by (cases op) (auto split: option.splits)
    qed
  next
    case (Some op)
    then show ?thesis using app step(1) by (cases op) auto
  qed
qed (simp add: well_formed_replacement)

lemma utf8_replace_valid: "well_formed raw \<Longrightarrow> utf8_replace [] raw = raw"
proof -
  have "utf8_feed p bytes = Some (t, []) \<Longrightarrow> utf8_replace p bytes = t" for p bytes t
  proof (induction bytes arbitrary: p t)
    case (Cons c cs)
    then show ?case by (auto split: option.splits)
  qed simp
  then show "well_formed raw \<Longrightarrow> ?thesis" by (simp add: well_formed_def)
qed

definition refuses :: "codec \<Rightarrow> string \<Rightarrow> string \<Rightarrow> bool" where
  "refuses codec raw enc = (is_sig enc \<and> \<not> startswith raw byte_order_mark \<or> strict_decode codec enc raw = None)"

lemma first_decoding_None: "(first_decoding codec source raw encs = None) = list_all (refuses codec raw) encs"
  by (induction encs) (auto simp: refuses_def split: option.splits)

lemma first_decoding_Some:
  "first_decoding codec source raw encs = Some r \<Longrightarrow>
   \<exists>pre post t. encs = pre @ td_encoding r # post \<and> list_all (refuses codec raw) pre \<and>
     \<not> refuses codec raw (td_encoding r) \<and> strict_decode codec (td_encoding r) raw = Some t \<and>
     td_text r = clean_device_text t \<and> \<not> td_used_replacement r"
proof (induction encs)
  case (Cons enc encs)
  show ?case
  proof (cases "refuses codec raw enc")
    case True
    then have "first_decoding codec source raw encs = Some r"
      using Cons.prems by (auto simp: refuses_def split: if_splits option.splits)
    from Cons.IH [OF this] obtain pre post t where *: "encs = pre @ td_encoding r # post" "list_all (refuses codec raw) pre"
      "\<not> refuses codec raw (td_encoding r)" "strict_decode codec (td_encoding r) raw = Some t"
      "td_text r = clean_device_text t" "\<not> td_used_replacement r" by blast
    then show ?thesis using True by (intro exI [of _ "enc # pre"] exI [of _ post] exI [of _ t]) simp
  next
    case False
    then show ?thesis using Cons.prems
      by (intro exI [of _ "[]"] exI [of _ encs] exI [of _ "the (strict_decode codec enc raw)"])
        (auto simp: refuses_def split: if_splits)
  qed
qed simp

section \<open>Property\<close>

text \<open>
  With replacement allowed decoding always answers. The answer is the text of the first candidate
  that decodes the bytes strictly; only when there is none the bytes are decoded with replacement, the
  result says so, and it is whole code points.
\<close>

theorem decode_bytes_outcome:
  "\<exists>r t. decode_bytes_with_fallback codec encs True source raw = Inr r \<and> td_text r = clean_device_text t \<and>
     td_used_replacement r = list_all (refuses codec raw) encs \<and>
     (if td_used_replacement r then t = utf8_replace [] raw \<and> well_formed t
      else strict_decode codec (td_encoding r) raw = Some t \<and>
        (\<exists>pre post. encs = pre @ td_encoding r # post \<and> list_all (refuses codec raw) pre))"
proof (cases "first_decoding codec source raw encs")
  case None
  then show ?thesis using first_decoding_None [of codec source raw encs] utf8_replace_well_formed [of "[]" raw]
    by (simp add: decode_bytes_with_fallback_def)
next
  case (Some r)
  moreover have "\<not> list_all (refuses codec raw) encs" using Some first_decoding_None [of codec source raw encs] by simp
  ultimately show ?thesis using first_decoding_Some [OF Some]
    by (simp add: decode_bytes_with_fallback_def) blast
qed
end
