(* ===== verification/Log_Pages.thy ===== *)
theory Log_Pages
  imports Text_Encoding
begin

text \<open>
  \<^verbatim>\<open>core/pagination.py\<close> and \<^verbatim>\<open>core/log_pagination.py\<close>: pages of lists and of log files. A file is its
  bytes, \<open>None\<close> when it does not exist; the files do not change while a page is read. The log is read
  backwards in chunks, so the newest lines come first and no more than one chunk and one line is kept.
  A loop that does not end is \<open>None\<close>; that the loops end is part of the properties.
\<close>

section \<open>Pages of lists\<close>

definition DEFAULT_PAGE_SIZE :: int where
  "DEFAULT_PAGE_SIZE = 200"

definition PAGE_SIZE_OPTIONS :: "int list" where
  "PAGE_SIZE_OPTIONS = [200, 500, 1000]"

record PaginationState =
  pg_page_size :: int
  pg_current_page :: int
  pg_total_items :: int
  pg_total_pages :: int

definition valid_size :: "int \<Rightarrow> int" where
  "valid_size n = (if n \<in> set PAGE_SIZE_OPTIONS then n else DEFAULT_PAGE_SIZE)"

text \<open>\<open>max(ceil(total / size), 1)\<close>; the quotient is exact enough for totals below \<open>2 ^ 40\<close>.\<close>

definition total_pages :: "nat \<Rightarrow> int \<Rightarrow> int" where
  "total_pages n psize = max ((int n + psize - 1) div psize) 1"

definition page_slice :: "int \<Rightarrow> int \<Rightarrow> 'a list \<Rightarrow> 'a list" where
  "page_slice psize page rows = take (nat psize) (drop (nat ((page - 1) * psize)) rows)"

text \<open>\<open>int(current_page or 1)\<close> for a whole number.\<close>

definition paginate_rows :: "'a list \<Rightarrow> int \<Rightarrow> int \<Rightarrow> 'a list \<times> PaginationState" where
  "paginate_rows rows page_size current_page =
     (let psize = valid_size page_size; pages = total_pages (length rows) psize;
          page = min (max (if current_page = 0 then 1 else current_page) 1) pages in
      (page_slice psize page rows,
       \<lparr>pg_page_size = psize, pg_current_page = page, pg_total_items = int (length rows), pg_total_pages = pages\<rparr>))"

section \<open>Lines of a file, last line first\<close>

definition line_end :: char where
  "line_end = CHR 0x0A"

text \<open>One chunk: the lines it completes, last one first, and the new buffer.\<close>

definition chunk_lines :: "string \<Rightarrow> string \<Rightarrow> string list \<times> string" where
  "chunk_lines chunk buffer =
     (let parts = split_on line_end (chunk @ buffer) in
      (filter (\<lambda>l. l \<noteq> []) (rev (tl parts)), hd parts))"

partial_function (option) read_back :: "string \<Rightarrow> nat \<Rightarrow> nat \<Rightarrow> string \<Rightarrow> string list option" where
  "read_back content chunk_size position buffer =
     (if position = 0 then Some (if buffer = [] then [] else [buffer])
      else (let read_size = min chunk_size position; position' = position - read_size;
                (ls, buffer') = chunk_lines (take read_size (drop position' content)) buffer in
            Option.bind (read_back content chunk_size position' buffer') (\<lambda>rest. Some (ls @ rest))))"

definition CHUNK_SIZE :: nat where
  "CHUNK_SIZE = 64 * 1024"

definition limited :: "int option \<Rightarrow> string \<Rightarrow> nat" where
  "limited max_bytes content =
     (case max_bytes of None \<Rightarrow> length content | Some m \<Rightarrow> min (length content) (nat (max 0 m)))"

definition line_text :: "codec \<Rightarrow> string \<Rightarrow> string" where
  "line_text codec raw =
     (case decode_bytes_with_fallback codec TEXT_ENCODINGS True ''external_bytes'' raw of
        Inr r \<Rightarrow> rstrip_by (\<lambda>c. c = CHR 0x0D \<or> c = CHR 0x0A) (td_text r)
      | Inl _ \<Rightarrow> [])"

definition read_lines_reversed :: "codec \<Rightarrow> string \<Rightarrow> nat \<Rightarrow> int option \<Rightarrow> string list option" where
  "read_lines_reversed codec content chunk_size max_bytes =
     map_option (map (line_text codec)) (read_back content chunk_size (limited max_bytes content) [])"

section \<open>Log rows\<close>

type_synonym log_row = "(string \<times> string) list"

type_synonym parser = "string \<Rightarrow> log_row option"

text \<open>\<open>line.split(" | ", 3)\<close>\<close>

fun split_max :: "nat \<Rightarrow> string \<Rightarrow> string \<Rightarrow> string \<Rightarrow> string list" where
  "split_max n sep acc [] = [rev acc]"
| "split_max n sep acc (c # cs) =
     (if 0 < n \<and> sep \<noteq> [] \<and> startswith (c # cs) sep
      then rev acc # split_max (n - 1) sep [] (drop (length sep - 1) cs)
      else split_max n sep (c # acc) cs)"

definition default_parse_line :: parser where
  "default_parse_line line =
     (case split_max 3 '' | '' [] line of
        [time, level, event, detail] \<Rightarrow>
          Some [(''time'', time), (''level'', level), (''event'', event), (''detail'', detail)]
      | _ \<Rightarrow> None)"

text \<open>\<open>x.strip().casefold() if x else None\<close>, tested for truth: an empty text is no filter.\<close>

definition keyword_of :: "string option \<Rightarrow> string" where
  "keyword_of k = (case k of None \<Rightarrow> [] | Some s \<Rightarrow> casefold (strip s))"

definition level_of :: "string option \<Rightarrow> string" where
  "level_of l = (case l of None \<Rightarrow> [] | Some s \<Rightarrow> upper (strip s))"

definition row_selected :: "string option \<Rightarrow> string option \<Rightarrow> log_row \<Rightarrow> bool" where
  "row_selected keyword level row =
     ((level_of level = [] \<or> map_of row ''level'' = Some (level_of level)) \<and>
      (keyword_of keyword = [] \<or> occurs (keyword_of keyword) (casefold (join '' '' (map snd row)))))"

section \<open>Reading pages and whole logs\<close>

text \<open>The lines of all files, in the order of the files.\<close>

fun all_lines :: "codec \<Rightarrow> nat \<Rightarrow> (string option \<times> int option) list \<Rightarrow> string list option" where
  "all_lines codec chunk_size [] = Some []"
| "all_lines codec chunk_size ((None, m) # fs) = all_lines codec chunk_size fs"
| "all_lines codec chunk_size ((Some content, m) # fs) =
     (case (read_lines_reversed codec content chunk_size m, all_lines codec chunk_size fs) of
        (Some ls, Some rest) \<Rightarrow> Some (ls @ rest)
      | _ \<Rightarrow> None)"

text \<open>The body of the loop over lines: the rows of the page and the count.\<close>

fun collect_page ::
  "parser \<Rightarrow> string option \<Rightarrow> string option \<Rightarrow> int \<Rightarrow> int \<Rightarrow> string list \<Rightarrow> log_row list \<times> int \<Rightarrow> log_row list \<times> int"
where
  "collect_page parse keyword level offset psize [] acc = acc"
| "collect_page parse keyword level offset psize (l # ls) (rows, n) =
     (case parse l of
        None \<Rightarrow> collect_page parse keyword level offset psize ls (rows, n)
      | Some row \<Rightarrow>
          if \<not> row_selected keyword level row then collect_page parse keyword level offset psize ls (rows, n)
          else collect_page parse keyword level offset psize ls
                 (if offset \<le> n \<and> n < offset + psize then rows @ [row] else rows, n + 1))"

partial_function (option) get_logs_from_paths ::
  "codec \<Rightarrow> nat \<Rightarrow> string option list \<Rightarrow> int \<Rightarrow> int \<Rightarrow> string option \<Rightarrow> string option \<Rightarrow> parser \<Rightarrow>
   (log_row list \<times> PaginationState) option" where
  "get_logs_from_paths codec chunk_size files page page_size keyword level parse =
     (let psize = valid_size page_size; requested = max (if page = 0 then 1 else page) 1 in
      case all_lines codec chunk_size (map (\<lambda>f. (f, None)) files) of
        None \<Rightarrow> None
      | Some ls \<Rightarrow>
          (let (rows, n) = collect_page parse keyword level ((requested - 1) * psize) psize ls ([], 0);
               pages = total_pages (nat n) psize; current = min requested pages in
           if current \<noteq> requested
           then get_logs_from_paths codec chunk_size files current psize keyword level parse
           else Some (rows, \<lparr>pg_page_size = psize, pg_current_page = current, pg_total_items = n, pg_total_pages = pages\<rparr>)))"

definition select_rows :: "parser \<Rightarrow> string option \<Rightarrow> string option \<Rightarrow> string list \<Rightarrow> log_row list" where
  "select_rows parse keyword level ls = filter (row_selected keyword level) (List.map_filter parse ls)"

definition iter_logs_from_paths ::
  "codec \<Rightarrow> nat \<Rightarrow> (string option \<times> int option) list \<Rightarrow> string option \<Rightarrow> string option \<Rightarrow> parser \<Rightarrow> log_row list option" where
  "iter_logs_from_paths codec chunk_size files keyword level parse =
     map_option (select_rows parse keyword level) (all_lines codec chunk_size files)"

section \<open>The lines of a file, as a whole\<close>

definition lines_of :: "string \<Rightarrow> string list" where
  "lines_of s = filter (\<lambda>l. l \<noteq> []) (rev (split_on line_end s))"

lemma split_on_append_hd:
  "split_on d (a @ b) = butlast (split_on d a) @ (last (split_on d a) @ hd (split_on d b)) # tl (split_on d b)"
proof (induction a)
  case Nil
  then show ?case by (cases "split_on d b") auto
next
  case (Cons c cs)
  obtain x xs where x: "split_on d cs = x # xs" by (meson list.exhaust split_on_nonempty)
  show ?case using Cons x by (cases xs) auto
qed

lemma hd_split_no_sep: "d \<notin> set (hd (split_on d s))"
  by (induction s) (auto split: list.splits)

lemma lines_of_append:
  "lines_of (a @ b) = filter (\<lambda>l. l \<noteq> []) (rev (tl (split_on line_end b))) @ lines_of (a @ hd (split_on line_end b))"
proof -
  obtain x xs where x: "split_on line_end b = x # xs" by (meson list.exhaust split_on_nonempty)
  have "line_end \<notin> set x" using hd_split_no_sep [of line_end b] x by simp
  then have "split_on line_end x = [x]" by (rule split_on_no_sep)
  then show ?thesis by (simp add: lines_of_def split_on_append_hd [of line_end a] x)
qed

lemma read_back_lines:
  "0 < chunk_size \<Longrightarrow> position \<le> length content \<Longrightarrow> line_end \<notin> set buffer \<Longrightarrow>
   read_back content chunk_size position buffer = Some (lines_of (take position content @ buffer))"
proof (induction position arbitrary: buffer rule: less_induct)
  case (less position)
  show ?case
  proof (cases "position = 0")
    case True
    then show ?thesis using less.prems(3) by (subst read_back.simps) (simp add: lines_of_def split_on_no_sep)
  next
    case False
    define k where "k = min chunk_size position"
    define chunk where "chunk = take k (drop (position - k) content)"
    have k: "0 < k" "k \<le> position" using False less.prems(1) by (auto simp: k_def)
    have split: "take position content = take (position - k) content @ chunk"
      unfolding chunk_def using k by (metis le_add_diff_inverse2 take_add)
    obtain x xs where x: "split_on line_end (chunk @ buffer) = x # xs" by (meson list.exhaust split_on_nonempty)
    have clean: "line_end \<notin> set x" using hd_split_no_sep [of line_end "chunk @ buffer"] x by simp
    have "read_back content chunk_size (position - k) x = Some (lines_of (take (position - k) content @ x))"
      using k less.prems clean by (intro less.IH) auto
    then show ?thesis
      using False x split lines_of_append [of "take (position - k) content" "chunk @ buffer"]
      by (subst read_back.simps) (simp add: k_def [symmetric] chunk_def [symmetric] chunk_lines_def Let_def)
  qed
qed

section \<open>Pages and logs are those of the list of all selected lines\<close>

definition file_lines :: "codec \<Rightarrow> (string option \<times> int option) list \<Rightarrow> string list" where
  "file_lines codec fs =
     concat (map (\<lambda>f. case fst f of None \<Rightarrow> []
       | Some content \<Rightarrow> map (line_text codec) (lines_of (take (limited (snd f) content) content))) fs)"

lemma limited_le: "limited m content \<le> length content"
  by (simp add: limited_def split: option.splits)

lemma all_lines_file_lines: "0 < chunk_size \<Longrightarrow> all_lines codec chunk_size fs = Some (file_lines codec fs)"
  by (induction codec chunk_size fs rule: all_lines.induct)
    (auto simp: file_lines_def read_lines_reversed_def read_back_lines limited_le)

definition window :: "int \<Rightarrow> int \<Rightarrow> int \<Rightarrow> 'a list \<Rightarrow> 'a list" where
  "window offset psize n xs = take (nat (min psize (offset + psize - n))) (drop (nat (offset - n)) xs)"

lemma window_Cons:
  "0 \<le> psize \<Longrightarrow> window offset psize n (x # xs) =
     (if offset \<le> n \<and> n < offset + psize then x # window offset psize (n + 1) xs else window offset psize (n + 1) xs)"
proof -
  assume "0 \<le> psize"
  consider (before) "n < offset" | (inside) "offset \<le> n" "n < offset + psize" | (after) "offset \<le> n" "offset + psize \<le> n"
    by linarith
  then show ?thesis
  proof cases
    case before
    then have "nat (offset - n) = Suc (nat (offset - (n + 1)))" by linarith
    then show ?thesis using before by (simp add: window_def min_def)
  next
    case inside
    then have "nat (min psize (offset + psize - n)) = Suc (nat (min psize (offset + psize - (n + 1))))" by linarith
    then show ?thesis using inside by (simp add: window_def)
  qed (simp add: window_def)
qed

lemma window_Nil: "window offset psize n [] = []"
  by (simp add: window_def)

lemma collect_page_rows:
  "0 \<le> psize \<Longrightarrow> collect_page parse keyword level offset psize ls (rows, n) =
     (rows @ window offset psize n (select_rows parse keyword level ls),
      n + int (length (select_rows parse keyword level ls)))"
  by (induction ls arbitrary: rows n)
    (auto simp: select_rows_def window_Cons window_Nil algebra_simps split: option.splits)

lemma collect_page_slice:
  "0 < psize \<Longrightarrow> collect_page parse keyword level ((page - 1) * psize) psize ls ([], 0) =
     (page_slice psize page (select_rows parse keyword level ls), int (length (select_rows parse keyword level ls)))"
  if "1 \<le> page"
  using that by (simp add: collect_page_rows window_def page_slice_def min_def)

lemma valid_size_pos: "0 < valid_size n"
  by (simp add: valid_size_def PAGE_SIZE_OPTIONS_def DEFAULT_PAGE_SIZE_def)

lemma valid_size_idem [simp]: "valid_size (valid_size n) = valid_size n"
  by (simp add: valid_size_def PAGE_SIZE_OPTIONS_def DEFAULT_PAGE_SIZE_def)

text \<open>A page in range is answered at once, the others by one more reading.\<close>

lemma get_logs_in_range:
  assumes "0 < chunk_size" "requested = max (if page = 0 then 1 else page) 1"
    and rows_def: "rows = select_rows parse keyword level (file_lines codec (map (\<lambda>f. (f, None)) files))"
    and pages_def: "pages = total_pages (length rows) (valid_size page_size)"
  shows "get_logs_from_paths codec chunk_size files page page_size keyword level parse =
    (if requested \<le> pages
     then Some (page_slice (valid_size page_size) requested rows,
       \<lparr>pg_page_size = valid_size page_size, pg_current_page = requested, pg_total_items = int (length rows), pg_total_pages = pages\<rparr>)
     else get_logs_from_paths codec chunk_size files pages (valid_size page_size) keyword level parse)"
proof -
  have r: "1 \<le> requested" using assms(2) by simp
  show ?thesis
    by (subst get_logs_from_paths.simps)
      (simp add: Let_def assms(2) [symmetric] all_lines_file_lines [OF assms(1)] collect_page_slice [OF r valid_size_pos]
        rows_def [symmetric] pages_def [symmetric] min_def)
qed

section \<open>Properties\<close>

text \<open>
  C9. Reading a file backwards in chunks of any size ends and answers its lines, the last one first and
  without empty ones, so neither the chunks nor their borders can be seen; whole logs are the selected
  lines of their files in order.
\<close>

theorem logs_are_reversed_lines:
  assumes "0 < chunk_size"
  shows "read_lines_reversed codec content chunk_size max_bytes =
      Some (map (line_text codec) (filter (\<lambda>l. l \<noteq> []) (rev (split_on line_end (take (limited max_bytes content) content))))) \<and>
    iter_logs_from_paths codec chunk_size files keyword level parse = Some (select_rows parse keyword level (file_lines codec files))"
  using assms by (simp add: read_lines_reversed_def read_back_lines limited_le lines_of_def iter_logs_from_paths_def all_lines_file_lines)

text \<open>
  C8. A page of the logs, read line by line and read again when the page is past the end, is the page
  of the list of all selected rows: the same rows, page number and counts as \<open>paginate_rows\<close> answers.
\<close>

theorem get_logs_is_paginate:
  assumes "0 < chunk_size"
  shows "get_logs_from_paths codec chunk_size files page page_size keyword level parse =
    Some (paginate_rows (select_rows parse keyword level (file_lines codec (map (\<lambda>f. (f, None)) files))) page_size page)"
proof -
  define rows where "rows = select_rows parse keyword level (file_lines codec (map (\<lambda>f. (f, None)) files))"
  define pages where "pages = total_pages (length rows) (valid_size page_size)"
  define requested where "requested = max (if page = 0 then 1 else page) 1"
  have pages: "1 \<le> pages" by (simp add: pages_def total_pages_def)
  have spec: "paginate_rows rows page_size page =
      (page_slice (valid_size page_size) (min requested pages) rows,
       \<lparr>pg_page_size = valid_size page_size, pg_current_page = min requested pages, pg_total_items = int (length rows), pg_total_pages = pages\<rparr>)"
    by (simp add: paginate_rows_def Let_def requested_def [symmetric] pages_def [symmetric])
  note first = get_logs_in_range [OF assms requested_def rows_def pages_def]
  have again: "pages = max (if pages = 0 then 1 else pages) 1" using pages by auto
  have "pages = total_pages (length rows) (valid_size (valid_size page_size))" by (simp add: pages_def)
  note second = get_logs_in_range [OF assms again rows_def this]
  show ?thesis unfolding rows_def [symmetric] spec first
    by (simp add: second min_def)
qed

lemma logs_are_reversed_lines_witness:
  "map_option length (read_lines_reversed (\<lambda>_ _. None) (''a | b'' @ line_end # ''x'') 2 None) = Some 2"
  using logs_are_reversed_lines [of 2 "\<lambda>_ _. None" "''a | b'' @ line_end # ''x''" None "[]" None None default_parse_line]
  by (simp add: limited_def line_end_def)

lemma get_logs_is_paginate_witness:
  "map_option (pg_current_page \<circ> snd) (get_logs_from_paths (\<lambda>_ _. None) 3 [None, Some []] 7 200 None None default_parse_line) = Some 1"
proof -
  have "file_lines (\<lambda>_ _. None) (map (\<lambda>f. (f, None)) [None, Some []]) = []"
    by (simp add: file_lines_def lines_of_def limited_def)
  then show ?thesis
    using get_logs_is_paginate [of 3 "\<lambda>_ _. None" "[None, Some []]" 7 200 None None default_parse_line]
    by (simp add: select_rows_def paginate_rows_def total_pages_def valid_size_def PAGE_SIZE_OPTIONS_def Let_def)
qed
end
