(* ===== verification/Mesh_Links.thy ===== *)
theory Mesh_Links
  imports Py_Numbers NC_Texts
begin

text \<open>
  \<^verbatim>\<open>models/mesh_analysis_params.py\<close> and \<^verbatim>\<open>core/storage/mesh_link_analyzer.py\<close>: the parameters of the mesh
  analysis and the rules that group the samples of a mesh log into links and decide whether a link
  counts as established. The ISO parser of the standard library is an argument that answers the
  microseconds and whether the text has a zone. The identifiers of the rows of one log are of one type.
  The texts that explain a decision are left out.
\<close>

section \<open>Parameters\<close>

definition SERVICE_TYPE_CHOICES :: "string list" where
  "SERVICE_TYPE_CHOICES = [''PIS'', ''CBTC'', choice_signal, choice_other]"

definition WIFI_TYPE_CHOICES :: "string list" where
  "WIFI_TYPE_CHOICES = [''WiFi5'', ''WiFi6'', choice_other]"

record MeshAnalysisParams =
  mp_link_time_window :: int
  mp_link_switch_threshold :: int
  mp_link_hold_rssi :: int
  mp_link_establish_threshold :: int
  mp_main_link_switch_time_ms :: int
  mp_short_link_tolerance_ms :: int
  mp_pingpong_tolerance_ms :: int
  mp_pingpong_return_window_ms :: "int option"
  mp_merge_same_physical_ap_dual_radio :: bool
  mp_include_log_boundary_segments :: bool
  mp_sample_interval_ms :: "int option"
  mp_service_type :: string
  mp_wifi_type :: string

definition DEFAULT_MESH_ANALYSIS_PARAMS :: MeshAnalysisParams where
  "DEFAULT_MESH_ANALYSIS_PARAMS =
     \<lparr>mp_link_time_window = 4000, mp_link_switch_threshold = 10, mp_link_hold_rssi = 22,
      mp_link_establish_threshold = 4, mp_main_link_switch_time_ms = 4000, mp_short_link_tolerance_ms = 500,
      mp_pingpong_tolerance_ms = 500, mp_pingpong_return_window_ms = Some 500,
      mp_merge_same_physical_ap_dual_radio = True, mp_include_log_boundary_segments = False,
      mp_sample_interval_ms = None, mp_service_type = ''PIS'', mp_wifi_type = ''WiFi6''\<rparr>"

text \<open>\<open>int(value)\<close> with the two exceptions the helpers catch; others leave them.\<close>

definition caught_int :: "pyval \<Rightarrow> int option result" where
  "caught_int v =
     (case py_int v of
        Inr n \<Rightarrow> Inr (Some n)
      | Inl TypeError \<Rightarrow> Inr None
      | Inl (ValueError _) \<Rightarrow> Inr None
      | Inl e \<Rightarrow> Inl e)"

definition positive_int :: "pyval \<Rightarrow> int \<Rightarrow> int result" where
  "positive_int v dflt =
     map_sum id (\<lambda>n. case n of None \<Rightarrow> dflt | Some k \<Rightarrow> if 0 < k then k else dflt) (caught_int v)"

definition non_negative_int :: "pyval \<Rightarrow> int \<Rightarrow> int result" where
  "non_negative_int v dflt = map_sum id (\<lambda>n. case n of None \<Rightarrow> dflt | Some k \<Rightarrow> max k 0) (caught_int v)"

definition optional_positive_int :: "pyval \<Rightarrow> int option result" where
  "optional_positive_int v =
     map_sum id (\<lambda>n. case n of None \<Rightarrow> None | Some k \<Rightarrow> if 0 < k then Some k else None) (caught_int v)"

text \<open>\<open>_bool\<close>: the words, then \<open>value in (0, 1)\<close>, then the default.\<close>

definition bool_of :: "pyval \<Rightarrow> bool \<Rightarrow> bool" where
  "bool_of v dflt =
     (let word = (case v of PStr s \<Rightarrow> casefold (strip s) | _ \<Rightarrow> []) in
      if is_pbool v then v = PBool True
      else if word \<in> {''1'', ''true'', ''yes'', ''on'', word_enabled} then True
      else if word \<in> {''0'', ''false'', ''no'', ''off'', word_disabled} then False
      else if v \<in> {PInt 0, PFloat ''0.0'', PFloat ''-0.0''} then False
      else if v \<in> {PInt 1, PFloat ''1.0''} then True
      else dflt)"

definition choice_of :: "pyval \<Rightarrow> string list \<Rightarrow> string \<Rightarrow> string" where
  "choice_of v choices dflt = (if text_of v \<in> set choices then text_of v else dflt)"

fun value_of :: "pydict \<Rightarrow> string list \<Rightarrow> pyval" where
  "value_of d [] = PNone"
| "value_of d (k # ks) = (if dhas d k then dget d k else value_of d ks)"

text \<open>The migration of the old field of the time window.\<close>

definition window_value :: "pydict \<Rightarrow> pyval" where
  "window_value d =
     (let raw = value_of d [''link_time_window'', ''link-time-window''] in
      if raw \<noteq> PNone then raw else dget d ''main_link_switch_time_ms'')"

definition is_error :: "'a result \<Rightarrow> bool" where
  "is_error r = (case r of Inl _ \<Rightarrow> True | Inr _ \<Rightarrow> False)"

definition bind_result :: "'a result \<Rightarrow> ('a \<Rightarrow> 'b result) \<Rightarrow> 'b result" where
  "bind_result r f = (case r of Inl e \<Rightarrow> Inl e | Inr x \<Rightarrow> f x)"

definition normalize_mesh_analysis_params :: "pydict \<Rightarrow> MeshAnalysisParams result" where
  "normalize_mesh_analysis_params d =
     bind_result (positive_int (window_value d) 4000) (\<lambda>window.
     bind_result (non_negative_int (value_of d [''link_switch_threshold'', ''link-switch-threshold'']) 10) (\<lambda>switch.
     bind_result (non_negative_int (value_of d [''link_hold_rssi'', ''link-hold-rssi'']) 22) (\<lambda>hold.
     bind_result (non_negative_int (value_of d [''link_establish_threshold'', ''link-establish-threshold'']) 4) (\<lambda>establish.
     bind_result (non_negative_int (dget d ''short_link_tolerance_ms'') 500) (\<lambda>short.
     bind_result (non_negative_int (dget d ''pingpong_tolerance_ms'') 500) (\<lambda>tolerance.
     bind_result (optional_positive_int (dget d ''pingpong_return_window_ms'')) (\<lambda>return_window.
     bind_result (optional_positive_int (dget d ''sample_interval_ms'')) (\<lambda>interval.
     Inr \<lparr>mp_link_time_window = window, mp_link_switch_threshold = switch, mp_link_hold_rssi = hold,
          mp_link_establish_threshold = establish, mp_main_link_switch_time_ms = window,
          mp_short_link_tolerance_ms = short, mp_pingpong_tolerance_ms = tolerance,
          mp_pingpong_return_window_ms = return_window,
          mp_merge_same_physical_ap_dual_radio = bool_of (dget d ''merge_same_physical_ap_dual_radio'') True,
          mp_include_log_boundary_segments = bool_of (dget d ''include_log_boundary_segments'') False,
          mp_sample_interval_ms = interval,
          mp_service_type = choice_of (dget d ''service_type'') SERVICE_TYPE_CHOICES ''PIS'',
          mp_wifi_type = choice_of (dget d ''wifi_type'') WIFI_TYPE_CHOICES ''WiFi6''\<rparr>))))))))"

text \<open>\<open>to_dict\<close>; a zero or missing optional number becomes \<open>None\<close>.\<close>

definition optional_value :: "int option \<Rightarrow> pyval" where
  "optional_value x = (case x of None \<Rightarrow> PNone | Some n \<Rightarrow> if n = 0 then PNone else PInt n)"

definition params_to_dict :: "MeshAnalysisParams \<Rightarrow> pydict" where
  "params_to_dict p =
     [(''link_time_window'', PInt (mp_link_time_window p)),
      (''link_switch_threshold'', PInt (mp_link_switch_threshold p)),
      (''link_hold_rssi'', PInt (mp_link_hold_rssi p)),
      (''link_establish_threshold'', PInt (mp_link_establish_threshold p)),
      (''main_link_switch_time_ms'', PInt (mp_link_time_window p)),
      (''short_link_tolerance_ms'', PInt (mp_short_link_tolerance_ms p)),
      (''pingpong_tolerance_ms'', PInt (mp_pingpong_tolerance_ms p)),
      (''pingpong_return_window_ms'', optional_value (mp_pingpong_return_window_ms p)),
      (''merge_same_physical_ap_dual_radio'', PBool (mp_merge_same_physical_ap_dual_radio p)),
      (''include_log_boundary_segments'', PBool (mp_include_log_boundary_segments p)),
      (''sample_interval_ms'', optional_value (mp_sample_interval_ms p)),
      (''service_type'', PStr (if mp_service_type p \<in> set SERVICE_TYPE_CHOICES then mp_service_type p else choice_other)),
      (''wifi_type'', PStr (if mp_wifi_type p \<in> set WIFI_TYPE_CHOICES then mp_wifi_type p else choice_other))]"

definition link_establish_rssi :: "MeshAnalysisParams \<Rightarrow> int" where
  "link_establish_rssi p = mp_link_hold_rssi p + mp_link_establish_threshold p"

definition short_link_threshold_ms :: "MeshAnalysisParams \<Rightarrow> int" where
  "short_link_threshold_ms p = mp_link_time_window p"

definition effective_pingpong_return_window_ms :: "MeshAnalysisParams \<Rightarrow> int" where
  "effective_pingpong_return_window_ms p =
     (case mp_pingpong_return_window_ms p of
        Some n \<Rightarrow> if 0 < n then n else max (if mp_service_type p = ''PIS'' then 10000 else 8000)
                    (3 * (mp_link_time_window p + mp_pingpong_tolerance_ms p))
      | None \<Rightarrow> max (if mp_service_type p = ''PIS'' then 10000 else 8000)
                    (3 * (mp_link_time_window p + mp_pingpong_tolerance_ms p)))"

section \<open>Links\<close>

type_synonym iso_parser = "string \<Rightarrow> (bool \<times> int) option"

definition seconds_between :: "iso_parser \<Rightarrow> string \<Rightarrow> string \<Rightarrow> pyfloat" where
  "seconds_between iso_time previous current =
     (case (iso_time current, iso_time previous) of
        (Some (z1, b), Some (z2, a)) \<Rightarrow> if z1 = z2 then fdiv_int (b - a) 1000000 else Fin 0
      | _ \<Rightarrow> Fin 0)"

definition canonical_mac :: "pyval \<Rightarrow> string" where
  "canonical_mac v = filter (\<lambda>c. c \<in> set ''0123456789abcdef'') (casefold (str_or_empty v))"

type_synonym link_key = "pyval \<times> pyval \<times> string"

definition row_key :: "pydict \<Rightarrow> link_key" where
  "row_key row =
     (dget row ''source_file_id'', dget row ''radio'',
      canonical_mac (py_or (py_or (dget row ''peer_mac_normalized'') (dget row ''peer_mac_raw'')) (dget row ''peer_mac'')))"

definition row_scope :: "pydict \<Rightarrow> pyval \<times> pyval" where
  "row_scope row = (dget row ''source_file_id'', dget row ''radio'')"

definition row_time :: "pydict \<Rightarrow> string" where
  "row_time row = str_or_empty (dget row ''sample_time'')"

type_synonym scope_seconds = "pyval \<times> pyval \<Rightarrow> pyfloat option"

text \<open>The gap a row may have to the row before it: the one of its scope, within the time window.\<close>

definition configured_window :: "MeshAnalysisParams \<Rightarrow> scope_seconds \<Rightarrow> pydict \<Rightarrow> pyfloat" where
  "configured_window p windows row =
     fmax (case windows (row_scope row) of Some w \<Rightarrow> w | None \<Rightarrow> fdiv_int (mp_link_time_window p) 1000) (double (1 / 1000))"

definition gap_seconds :: "MeshAnalysisParams \<Rightarrow> scope_seconds \<Rightarrow> scope_seconds \<Rightarrow> pydict \<Rightarrow> pyfloat" where
  "gap_seconds p gaps windows row =
     fmin (case gaps (row_scope row) of Some g \<Rightarrow> g | None \<Rightarrow> configured_window p windows row) (configured_window p windows row)"

definition breaks :: "iso_parser \<Rightarrow> MeshAnalysisParams \<Rightarrow> scope_seconds \<Rightarrow> scope_seconds \<Rightarrow> link_key option \<Rightarrow> string \<Rightarrow> pydict \<Rightarrow> bool" where
  "breaks iso_time p gaps windows last_key last_time row =
     (Some (row_key row) \<noteq> last_key \<or>
      flt (gap_seconds p gaps windows row) (seconds_between iso_time last_time (row_time row)))"

fun group_loop ::
  "iso_parser \<Rightarrow> MeshAnalysisParams \<Rightarrow> scope_seconds \<Rightarrow> scope_seconds \<Rightarrow> pydict list list \<Rightarrow> pydict list \<Rightarrow> link_key option \<Rightarrow> string \<Rightarrow>
   pydict list \<Rightarrow> pydict list list"
where
  "group_loop iso_time p gaps windows segments current last_key last_time [] =
     (if current = [] then segments else segments @ [current])"
| "group_loop iso_time p gaps windows segments current last_key last_time (row # rows) =
     (if current \<noteq> [] \<and> breaks iso_time p gaps windows last_key last_time row
      then group_loop iso_time p gaps windows (segments @ [current]) [row] (Some (row_key row)) (row_time row) rows
      else group_loop iso_time p gaps windows segments (current @ [row]) (Some (row_key row)) (row_time row) rows)"

definition group_active_points ::
  "iso_parser \<Rightarrow> MeshAnalysisParams \<Rightarrow> scope_seconds \<Rightarrow> scope_seconds \<Rightarrow> pydict list \<Rightarrow> pydict list list" where
  "group_active_points iso_time p gaps windows rows = group_loop iso_time p gaps windows [] [] None [] rows"

section \<open>Establishment\<close>

record LinkDecision =
  ld_accepted :: bool
  ld_signal :: "pyfloat option"
  ld_threshold :: int

fun first_signal :: "pyval list \<Rightarrow> pyfloat option result" where
  "first_signal [] = Inr None"
| "first_signal (v # vs) =
     (case py_float v of
        Inr x \<Rightarrow> Inr (Some x)
      | Inl TypeError \<Rightarrow> first_signal vs
      | Inl (ValueError _) \<Rightarrow> first_signal vs
      | Inl e \<Rightarrow> Inl e)"

definition signal_of :: "pydict \<Rightarrow> pyfloat option result" where
  "signal_of row = first_signal (map (dget row) [''avg_mr_rssi'', ''local_rssi_db'', ''peer_rssi_db''])"

text \<open>Comparing a float with an integer is exact in Python; \<open>previous + threshold\<close> is a float.\<close>

definition evaluate_establishment ::
  "MeshAnalysisParams \<Rightarrow> pydict \<Rightarrow> bool \<Rightarrow> pyfloat option \<Rightarrow> LinkDecision result" where
  "evaluate_establishment p row first_link previous =
     (let threshold = link_establish_rssi p in
      bind_result (signal_of row) (\<lambda>signal.
      Inr (if first_link then \<lparr>ld_accepted = True, ld_signal = signal, ld_threshold = threshold\<rparr>
           else (case signal of
                   None \<Rightarrow> \<lparr>ld_accepted = False, ld_signal = None, ld_threshold = threshold\<rparr>
                 | Some x \<Rightarrow>
                     \<lparr>ld_accepted = (fle (Fin (of_int threshold)) x \<and>
                        (case previous of None \<Rightarrow> True
                         | Some y \<Rightarrow> fle (fadd y (double (of_int (mp_link_switch_threshold p)))) x)),
                      ld_signal = Some x, ld_threshold = threshold\<rparr>))))"

section \<open>Properties\<close>

definition linked :: "iso_parser \<Rightarrow> MeshAnalysisParams \<Rightarrow> scope_seconds \<Rightarrow> scope_seconds \<Rightarrow> pydict \<Rightarrow> pydict \<Rightarrow> bool" where
  "linked iso_time p gaps windows a b =
     (row_key a = row_key b \<and> \<not> flt (gap_seconds p gaps windows b) (seconds_between iso_time (row_time a) (row_time b)))"

lemma breaks_linked:
  "breaks iso_time p gaps windows (Some (row_key a)) (row_time a) b = (\<not> linked iso_time p gaps windows a b)"
  by (auto simp: breaks_def linked_def)

definition links :: "('a \<Rightarrow> 'a \<Rightarrow> bool) \<Rightarrow> 'a list \<Rightarrow> 'a list list \<Rightarrow> bool" where
  "links rel rows gs =
     (concat gs = rows \<and> [] \<notin> set gs \<and> list_all (successively rel) gs \<and> successively (\<lambda>g h. \<not> rel (last g) (hd h)) gs)"

lemma successively_snoc:
  "successively rel (xs @ [y]) = (successively rel xs \<and> (xs = [] \<or> rel (last xs) y))"
  by (auto simp: successively_append_iff)

lemma group_loop_links:
  "current \<noteq> [] \<Longrightarrow> links (linked iso_time p gaps windows) done_rows (segments @ [current]) \<Longrightarrow>
   links (linked iso_time p gaps windows) (done_rows @ rows)
     (group_loop iso_time p gaps windows segments current (Some (row_key (last current))) (row_time (last current)) rows)"
proof (induction rows arbitrary: segments current done_rows)
  case (Cons row rows)
  let ?rel = "linked iso_time p gaps windows"
  show ?case
  proof (cases "?rel (last current) row")
    case True
    have "links ?rel (done_rows @ [row]) (segments @ [current @ [row]])"
      using Cons.prems True by (auto simp: links_def successively_snoc successively_append_iff)
    from Cons.IH [OF _ this] True show ?thesis by (simp add: breaks_linked)
  next
    case False
    have "links ?rel (done_rows @ [row]) ((segments @ [current]) @ [[row]])"
      using Cons.prems False by (auto simp: links_def successively_append_iff)
    from Cons.IH [OF _ this] False Cons.prems(1) show ?thesis by (simp add: breaks_linked)
  qed
qed simp

text \<open>
  C10. Grouping samples into links loses, repeats and reorders no row: the groups joined are the rows,
  no group is empty, neighbours inside a group have the same source, radio and peer and are no further
  apart than their gap, and between two groups one of these fails, so links are as long as possible.
\<close>

theorem group_active_points_links:
  "links (linked iso_time p gaps windows) rows (group_active_points iso_time p gaps windows rows)"
proof (cases rows)
  case (Cons row rest)
  have "links (linked iso_time p gaps windows) ([row] @ rest)
     (group_loop iso_time p gaps windows [] [row] (Some (row_key (last [row]))) (row_time (last [row])) rest)"
    by (rule group_loop_links) (simp_all add: links_def)
  then show ?thesis by (simp add: group_active_points_def Cons)
qed (simp add: group_active_points_def links_def)

definition params_ok :: "MeshAnalysisParams \<Rightarrow> bool" where
  "params_ok p =
     (0 < mp_link_time_window p \<and> 0 \<le> mp_link_switch_threshold p \<and> 0 \<le> mp_link_hold_rssi p \<and> 0 \<le> mp_link_establish_threshold p \<and>
      mp_main_link_switch_time_ms p = mp_link_time_window p \<and> 0 \<le> mp_short_link_tolerance_ms p \<and> 0 \<le> mp_pingpong_tolerance_ms p \<and>
      (case mp_pingpong_return_window_ms p of None \<Rightarrow> True | Some n \<Rightarrow> 0 < n) \<and>
      (case mp_sample_interval_ms p of None \<Rightarrow> True | Some n \<Rightarrow> 0 < n) \<and>
      mp_service_type p \<in> set SERVICE_TYPE_CHOICES \<and> mp_wifi_type p \<in> set WIFI_TYPE_CHOICES)"

lemma bind_result_Inr: "bind_result r f = Inr y \<longleftrightarrow> (\<exists>x. r = Inr x \<and> f x = Inr y)"
  by (cases r) (auto simp: bind_result_def)

lemma number_ranges:
  "positive_int v d = Inr n \<Longrightarrow> 0 < d \<Longrightarrow> 0 < n"
  "non_negative_int v d = Inr n \<Longrightarrow> 0 \<le> d \<Longrightarrow> 0 \<le> n"
  "optional_positive_int v = Inr m \<Longrightarrow> (case m of None \<Rightarrow> True | Some k \<Rightarrow> 0 < k)"
  by (cases "caught_int v"; auto simp: positive_int_def non_negative_int_def optional_positive_int_def split: option.splits if_splits)+

lemma choice_ok: "d \<in> set cs \<Longrightarrow> choice_of v cs d \<in> set cs"
  by (simp add: choice_of_def)

lemma normalize_params_ok:
  assumes "normalize_mesh_analysis_params d = Inr p"
  shows "params_ok p"
proof -
  obtain window switch hold establish short tol ret int where
      n: "positive_int (window_value d) 4000 = Inr window"
        "non_negative_int (value_of d [''link_switch_threshold'', ''link-switch-threshold'']) 10 = Inr switch"
        "non_negative_int (value_of d [''link_hold_rssi'', ''link-hold-rssi'']) 22 = Inr hold"
        "non_negative_int (value_of d [''link_establish_threshold'', ''link-establish-threshold'']) 4 = Inr establish"
        "non_negative_int (dget d ''short_link_tolerance_ms'') 500 = Inr short"
        "non_negative_int (dget d ''pingpong_tolerance_ms'') 500 = Inr tol"
        "optional_positive_int (dget d ''pingpong_return_window_ms'') = Inr ret"
        "optional_positive_int (dget d ''sample_interval_ms'') = Inr int"
      and p: "p = \<lparr>mp_link_time_window = window, mp_link_switch_threshold = switch, mp_link_hold_rssi = hold,
          mp_link_establish_threshold = establish, mp_main_link_switch_time_ms = window,
          mp_short_link_tolerance_ms = short, mp_pingpong_tolerance_ms = tol,
          mp_pingpong_return_window_ms = ret,
          mp_merge_same_physical_ap_dual_radio = bool_of (dget d ''merge_same_physical_ap_dual_radio'') True,
          mp_include_log_boundary_segments = bool_of (dget d ''include_log_boundary_segments'') False,
          mp_sample_interval_ms = int,
          mp_service_type = choice_of (dget d ''service_type'') SERVICE_TYPE_CHOICES ''PIS'',
          mp_wifi_type = choice_of (dget d ''wifi_type'') WIFI_TYPE_CHOICES ''WiFi6''\<rparr>"
    using assms unfolding normalize_mesh_analysis_params_def bind_result_Inr by blast
  have "''PIS'' \<in> set SERVICE_TYPE_CHOICES" "''WiFi6'' \<in> set WIFI_TYPE_CHOICES"
    by (simp_all add: SERVICE_TYPE_CHOICES_def WIFI_TYPE_CHOICES_def)
  then show ?thesis
    using number_ranges(1) [OF n(1)] number_ranges(2) [OF n(2)] number_ranges(2) [OF n(3)] number_ranges(2) [OF n(4)]
      number_ranges(2) [OF n(5)] number_ranges(2) [OF n(6)] number_ranges(3) [OF n(7)] number_ranges(3) [OF n(8)]
    by (simp add: params_ok_def p choice_ok)
qed

lemma choices_stripped: "list_all (\<lambda>c. strip c = c) SERVICE_TYPE_CHOICES" "list_all (\<lambda>c. strip c = c) WIFI_TYPE_CHOICES"
  by code_simp+

lemma choice_of_stripped: "c \<in> set cs \<Longrightarrow> list_all (\<lambda>c. strip c = c) cs \<Longrightarrow> choice_of (PStr c) cs d = c"
  by (auto simp: choice_of_def list_all_iff)

lemma caught_int_PInt: "caught_int (PInt n) = Inr (Some n)" "caught_int PNone = Inr None"
  by (simp_all add: caught_int_def)

lemma optional_value_back:
  "(case m of None \<Rightarrow> True | Some k \<Rightarrow> 0 < k) \<Longrightarrow> optional_positive_int (optional_value m) = Inr m"
  by (auto simp: optional_positive_int_def optional_value_def caught_int_PInt split: option.splits)

lemma normalize_to_dict:
  assumes "params_ok p"
  shows "normalize_mesh_analysis_params (params_to_dict p) = Inr p"
proof -
  have get: "dget (params_to_dict p) ''short_link_tolerance_ms'' = PInt (mp_short_link_tolerance_ms p)"
    "dget (params_to_dict p) ''pingpong_tolerance_ms'' = PInt (mp_pingpong_tolerance_ms p)"
    "dget (params_to_dict p) ''pingpong_return_window_ms'' = optional_value (mp_pingpong_return_window_ms p)"
    "dget (params_to_dict p) ''sample_interval_ms'' = optional_value (mp_sample_interval_ms p)"
    "dget (params_to_dict p) ''merge_same_physical_ap_dual_radio'' = PBool (mp_merge_same_physical_ap_dual_radio p)"
    "dget (params_to_dict p) ''include_log_boundary_segments'' = PBool (mp_include_log_boundary_segments p)"
    "dget (params_to_dict p) ''service_type'' = PStr (mp_service_type p)"
    "dget (params_to_dict p) ''wifi_type'' = PStr (mp_wifi_type p)"
    "window_value (params_to_dict p) = PInt (mp_link_time_window p)"
    "value_of (params_to_dict p) [''link_switch_threshold'', ''link-switch-threshold''] = PInt (mp_link_switch_threshold p)"
    "value_of (params_to_dict p) [''link_hold_rssi'', ''link-hold-rssi''] = PInt (mp_link_hold_rssi p)"
    "value_of (params_to_dict p) [''link_establish_threshold'', ''link-establish-threshold''] = PInt (mp_link_establish_threshold p)"
    using assms by (simp_all add: params_to_dict_def params_ok_def dget_def dhas_def window_value_def)
  have num: "positive_int (PInt n) d = Inr n" if "0 < n" for n d using that by (simp add: positive_int_def caught_int_PInt)
  have num0: "non_negative_int (PInt n) d = Inr n" if "0 \<le> n" for n d using that by (simp add: non_negative_int_def caught_int_PInt)
  have bool: "bool_of (PBool b) d = b" for b d by (simp add: bool_of_def)
  show ?thesis
    using assms unfolding normalize_mesh_analysis_params_def get
    by (simp add: params_ok_def num num0 bool optional_value_back bind_result_def choice_of_stripped choices_stripped)
qed

text \<open>
  Parameters read from any stored dictionary are in range, and writing and reading them again gives
  the same parameters, so normalising is idempotent and a save keeps what an analysis used.
\<close>

theorem mesh_params_roundtrip:
  assumes "normalize_mesh_analysis_params d = Inr p"
  shows "params_ok p \<and> normalize_mesh_analysis_params (params_to_dict p) = Inr p"
  using normalize_params_ok [OF assms] normalize_to_dict by blast

lemma mesh_params_roundtrip_witness:
  "\<exists>p. normalize_mesh_analysis_params [(''main_link_switch_time_ms'', PStr '' 700 ''), (''link_hold_rssi'', PInt (- 3)),
      (''wifi_type'', PStr ''WiFi7'')] = Inr p \<and> params_ok p"
proof -
  define d where "d = [(''main_link_switch_time_ms'', PStr '' 700 ''), (''link_hold_rssi'', PInt (- 3)), (''wifi_type'', PStr ''WiFi7'')]"
  have "\<not> is_error (normalize_mesh_analysis_params d)" unfolding d_def by code_simp
  then obtain p where p: "normalize_mesh_analysis_params d = Inr p" by (auto simp: is_error_def split: sum.splits)
  from mesh_params_roundtrip [OF p] p show ?thesis unfolding d_def by blast
qed

text \<open>An infinite number in a stored dictionary leaves as \<open>OverflowError\<close>.\<close>

lemma mesh_params_overflow: "normalize_mesh_analysis_params [(''link_time_window'', PFloat ''inf'')] = Inl OverflowError"
  by code_simp

end
