(* ===== verification/Task_Sessions.thy ===== *)
theory Task_Sessions
  imports Step_System Py_Numbers Mr_Concurrency "HOL-Library.List_Lexorder" "HOL-Library.Char_ord" "HOL-Library.Product_Lexorder"
begin

text \<open>
  \<^verbatim>\<open>repositories/online_mr_task_session_repository.py\<close> with the types of
  \<^verbatim>\<open>models/online_mr_application.py\<close>: the table that ties the tasks of the task centre to the sessions of
  online MR collection. The table is the list of its rows; SQLite's primary key, unique indexes and
  binary text order are written out, a statement that violates a constraint changes nothing. Every
  operation is one transaction; creating the schema and retrying a locked database are left out.
\<close>

section \<open>Data\<close>

datatype OnlineMrExecutorKind = LOCAL | AGENT

datatype OnlineMrMappingState = PENDING_SESSION | LINKED | TASK_ONLY_FAILED | SESSION_ONLY_RECOVERED | STALE | TERMINAL

record session_mapping =
  sm_controller_task_id :: string
  sm_site_id :: string
  sm_device_id :: string
  sm_device_name :: string
  sm_mr_id :: string
  sm_mr_name :: string
  sm_executor_kind :: OnlineMrExecutorKind
  sm_phase :: OnlineMrPhase
  sm_mapping_state :: OnlineMrMappingState
  sm_created_at :: string
  sm_updated_at :: string
  sm_session_id :: "string option"
  sm_agent_id :: string
  sm_agent_profile_id :: string
  sm_agent_task_id :: string
  sm_remote_session_id :: string
  sm_remote_package_id :: string
  sm_last_remote_status :: string
  sm_last_remote_seen_at :: "string option"
  sm_consecutive_status_failures :: int
  sm_deadline_at :: "string option"
  sm_terminal_at :: "string option"
  sm_started_at :: "string option"
  sm_ended_at :: "string option"
  sm_duration_minutes :: "pyfloat option"
  sm_stop_reason :: string
  sm_force_stopped :: bool
  sm_error_summary :: string
  sm_error_code :: string
  sm_error_message :: string

type_synonym mapping_table = "session_mapping list"

datatype repository_error = IntegrityError | NoSuchMapping string | WrongSite | NoSession

type_synonym 'a reply = "repository_error + 'a"

definition ACTIVE_MAPPING_STATES :: "OnlineMrMappingState list" where
  "ACTIVE_MAPPING_STATES = [PENDING_SESSION, LINKED]"

section \<open>Constraints and rows\<close>

text \<open>
  Two rows clash on the primary key, on a session id that is not \<open>NULL\<close>, or on the task of an agent
  when both parts are there.
\<close>

definition agent_key :: "session_mapping \<Rightarrow> (string \<times> string) option" where
  "agent_key r = (if sm_agent_id r \<noteq> [] \<and> sm_agent_task_id r \<noteq> [] then Some (sm_agent_id r, sm_agent_task_id r) else None)"

definition clash :: "session_mapping \<Rightarrow> session_mapping \<Rightarrow> bool" where
  "clash a b =
     (sm_controller_task_id a = sm_controller_task_id b \<or>
      sm_session_id a \<noteq> None \<and> sm_session_id a = sm_session_id b \<or>
      agent_key a \<noteq> None \<and> agent_key a = agent_key b)"

text \<open>\<open>_from_row\<close>: empty texts of optional columns come back as \<open>None\<close>.\<close>

definition none_if_empty :: "string option \<Rightarrow> string option" where
  "none_if_empty x = (if x = Some [] then None else x)"

definition from_row :: "session_mapping \<Rightarrow> session_mapping" where
  "from_row r = r\<lparr>sm_session_id := none_if_empty (sm_session_id r),
     sm_last_remote_seen_at := none_if_empty (sm_last_remote_seen_at r), sm_deadline_at := none_if_empty (sm_deadline_at r),
     sm_terminal_at := none_if_empty (sm_terminal_at r), sm_started_at := none_if_empty (sm_started_at r),
     sm_ended_at := none_if_empty (sm_ended_at r)\<rparr>"

definition row_of :: "string \<Rightarrow> string \<Rightarrow> session_mapping \<Rightarrow> bool" where
  "row_of site task r = (sm_controller_task_id r = task \<and> sm_site_id r = site)"

section \<open>Operations\<close>

definition create_mapping :: "string \<Rightarrow> session_mapping \<Rightarrow> mapping_table \<Rightarrow> mapping_table reply" where
  "create_mapping site m t =
     (if sm_site_id m \<noteq> site then Inl WrongSite
      else if list_ex (clash m) t then Inl IntegrityError
      else Inr (t @ [m]))"

text \<open>The columns an update leaves alone: key, site and creation time.\<close>

definition updated_row :: "session_mapping \<Rightarrow> session_mapping \<Rightarrow> session_mapping" where
  "updated_row m r = m\<lparr>sm_controller_task_id := sm_controller_task_id r, sm_site_id := sm_site_id r, sm_created_at := sm_created_at r\<rparr>"

definition save_mapping :: "string \<Rightarrow> session_mapping \<Rightarrow> mapping_table \<Rightarrow> mapping_table reply" where
  "save_mapping site m t =
     (let task = sm_controller_task_id m in
      if sm_site_id m \<noteq> site then Inl WrongSite
      else if \<not> list_ex (row_of site task) t then Inl (NoSuchMapping task)
      else if list_ex (\<lambda>r. \<not> row_of site task r \<and> clash m r) t then Inl IntegrityError
      else Inr (map (\<lambda>r. if row_of site task r then updated_row m r else r) t))"

definition get_by_task :: "string \<Rightarrow> string \<Rightarrow> mapping_table \<Rightarrow> session_mapping option" where
  "get_by_task site task t = map_option from_row (find (row_of site task) t)"

definition get_by_session :: "string \<Rightarrow> string \<Rightarrow> mapping_table \<Rightarrow> session_mapping option" where
  "get_by_session site session t =
     map_option from_row (find (\<lambda>r. sm_session_id r = Some session \<and> sm_site_id r = site) t)"

definition find_active_by_session :: "string \<Rightarrow> string \<Rightarrow> mapping_table \<Rightarrow> session_mapping option" where
  "find_active_by_session site session t =
     (case get_by_session site session t of
        Some m \<Rightarrow> if sm_mapping_state m \<in> set ACTIVE_MAPPING_STATES then Some m else None
      | None \<Rightarrow> None)"

definition delete_mapping :: "string \<Rightarrow> string \<Rightarrow> mapping_table \<Rightarrow> mapping_table" where
  "delete_mapping site task t = filter (\<lambda>r. \<not> row_of site task r) t"

text \<open>\<open>ORDER BY updated_at DESC, controller_task_id\<close>; both sorts are stable.\<close>

definition newest_first :: "session_mapping list \<Rightarrow> session_mapping list" where
  "newest_first rows = rev (sort_key sm_updated_at (rev (sort_key sm_controller_task_id rows)))"

definition list_mappings ::
  "string \<Rightarrow> OnlineMrMappingState list \<Rightarrow> string option \<Rightarrow> int \<Rightarrow> mapping_table \<Rightarrow> session_mapping list" where
  "list_mappings site states device limit t =
     map from_row (take (nat (max 1 (min limit 1000)))
       (newest_first (filter (\<lambda>r. sm_site_id r = site \<and> (states = [] \<or> sm_mapping_state r \<in> set states) \<and>
          (case device of None \<Rightarrow> True | Some d \<Rightarrow> d = [] \<or> sm_device_id r = d)) t)))"

definition list_active :: "string \<Rightarrow> int \<Rightarrow> mapping_table \<Rightarrow> session_mapping list" where
  "list_active site limit t = list_mappings site ACTIVE_MAPPING_STATES None limit t"

text \<open>\<open>a or b\<close> on texts and optional texts.\<close>

definition text_or :: "string \<Rightarrow> string \<Rightarrow> string" where
  "text_or a b = (if a = [] then b else a)"

definition or_option :: "string option \<Rightarrow> string option \<Rightarrow> string option" where
  "or_option a b = (if a = None \<or> a = Some [] then b else a)"

definition on_mapping ::
  "string \<Rightarrow> string \<Rightarrow> (session_mapping \<Rightarrow> session_mapping) \<Rightarrow> mapping_table \<Rightarrow> mapping_table reply" where
  "on_mapping site task f t =
     (case get_by_task site task t of
        None \<Rightarrow> Inl (NoSuchMapping task)
      | Some m \<Rightarrow> save_mapping site (f m) t)"

definition mark_stopping ::
  "string \<Rightarrow> string \<Rightarrow> OnlineMrPhase \<Rightarrow> string \<Rightarrow> bool \<Rightarrow> string \<Rightarrow> mapping_table \<Rightarrow> mapping_table reply" where
  "mark_stopping site task phase stop_reason force updated_at t =
     (case get_by_task site task t of
        None \<Rightarrow> Inl (NoSuchMapping task)
      | Some m \<Rightarrow>
          if sm_mapping_state m \<notin> set ACTIVE_MAPPING_STATES then Inr t
          else save_mapping site
            (m\<lparr>sm_phase := phase, sm_stop_reason := text_or stop_reason (sm_stop_reason m),
               sm_force_stopped := (force \<or> sm_force_stopped m), sm_updated_at := updated_at\<rparr>) t)"

record terminal_update =
  tu_started_at :: "string option"
  tu_ended_at :: string
  tu_updated_at :: "string option"
  tu_duration_minutes :: pyfloat
  tu_stop_reason :: string
  tu_force_stopped :: bool
  tu_error_summary :: string
  tu_error_code :: string
  tu_mapping_state :: OnlineMrMappingState

definition terminal_mapping :: "terminal_update \<Rightarrow> session_mapping \<Rightarrow> session_mapping" where
  "terminal_mapping u m =
     (let stamp = (case tu_updated_at u of Some (c # s) \<Rightarrow> c # s | _ \<Rightarrow> tu_ended_at u) in
      m\<lparr>sm_phase := OnlineMrPhase.TERMINAL, sm_mapping_state := tu_mapping_state u, sm_updated_at := stamp, sm_terminal_at := Some stamp,
        sm_started_at := or_option (tu_started_at u) (sm_started_at m), sm_ended_at := Some (tu_ended_at u),
        sm_duration_minutes := Some (fmax (Fin 0) (tu_duration_minutes u)),
        sm_stop_reason := text_or (tu_stop_reason u) (sm_stop_reason m),
        sm_force_stopped := (tu_force_stopped u \<or> sm_force_stopped m),
        sm_error_summary := text_or (tu_error_summary u) (sm_error_summary m),
        sm_error_code := text_or (tu_error_code u) (sm_error_code m),
        sm_error_message := text_or (tu_error_summary u) (sm_error_message m)\<rparr>)"

definition mark_terminal :: "string \<Rightarrow> string \<Rightarrow> terminal_update \<Rightarrow> mapping_table \<Rightarrow> mapping_table reply" where
  "mark_terminal site task u t = on_mapping site task (terminal_mapping u) t"

definition update_duration :: "string \<Rightarrow> string \<Rightarrow> string option \<Rightarrow> string \<Rightarrow> pyfloat \<Rightarrow> mapping_table \<Rightarrow> mapping_table reply" where
  "update_duration site task started ended minutes t =
     on_mapping site task (\<lambda>m. m\<lparr>sm_started_at := or_option started (sm_started_at m), sm_ended_at := Some ended,
       sm_duration_minutes := Some (fmax (Fin 0) minutes), sm_updated_at := ended\<rparr>) t"

definition update_error_summary :: "string \<Rightarrow> string \<Rightarrow> string \<Rightarrow> string \<Rightarrow> mapping_table \<Rightarrow> mapping_table reply" where
  "update_error_summary site task summary updated_at t =
     on_mapping site task (\<lambda>m. m\<lparr>sm_error_summary := summary, sm_error_message := text_or summary (sm_error_message m),
       sm_updated_at := updated_at\<rparr>) t"

section \<open>Durations\<close>

text \<open>The ISO parser answers the zone offset, if any, and the wall time, both in microseconds.\<close>

type_synonym wall_parser = "string \<Rightarrow> (int option \<times> int) option"

fun fround3 :: "pyfloat \<Rightarrow> pyfloat" where
  "fround3 (Fin a) = (let (n, d) = quotient_of a in double_frac (round_div (n * 1000) d) 1000)"
| "fround3 x = x"

text \<open>\<open>str(value or "").replace("Z", "+00:00")\<close>\<close>

definition iso_text :: "string option \<Rightarrow> string" where
  "iso_text v = concat (map (\<lambda>c. if c = CHR ''Z'' then ''+00:00'' else [c]) (case v of None \<Rightarrow> [] | Some s \<Rightarrow> s))"

definition calculate_duration_minutes :: "wall_parser \<Rightarrow> string option \<Rightarrow> string option \<Rightarrow> pyfloat" where
  "calculate_duration_minutes iso_wall started ended =
     (case (iso_wall (iso_text started), iso_wall (iso_text ended)) of
        (Some (z1, a), Some (z2, b)) \<Rightarrow>
          (let us = (case (z1, z2) of (Some o1, Some o2) \<Rightarrow> (b - o2) - (a - o1) | _ \<Rightarrow> b - a) in
           fround3 (fscale (fmax (Fin 0) (fdiv_int us 1000000)) (1 / 60)))
      | _ \<Rightarrow> Fin 0)"

section \<open>Recovery after a restart\<close>

definition recovery_update :: "wall_parser \<Rightarrow> string \<Rightarrow> string \<Rightarrow> session_mapping \<Rightarrow> terminal_update" where
  "recovery_update iso_wall ended_at reason m =
     (let started = or_option (sm_started_at m) (Some (sm_created_at m)) in
      \<lparr>tu_started_at = started, tu_ended_at = ended_at, tu_updated_at = None,
       tu_duration_minutes = calculate_duration_minutes iso_wall started (Some ended_at),
       tu_stop_reason = ''recovered_aborted'', tu_force_stopped = sm_force_stopped m, tu_error_summary = reason,
       tu_error_code = [], tu_mapping_state = STALE\<rparr>)"

fun recover_all :: "wall_parser \<Rightarrow> string \<Rightarrow> string \<Rightarrow> string \<Rightarrow> session_mapping list \<Rightarrow> mapping_table \<Rightarrow> mapping_table reply" where
  "recover_all iso_wall site ended_at reason [] t = Inr t"
| "recover_all iso_wall site ended_at reason (m # ms) t =
     (case mark_terminal site (sm_controller_task_id m) (recovery_update iso_wall ended_at reason m) t of
        Inl e \<Rightarrow> Inl e
      | Inr t' \<Rightarrow> recover_all iso_wall site ended_at reason ms t')"

definition recover_active_as_aborted :: "wall_parser \<Rightarrow> string \<Rightarrow> string \<Rightarrow> string \<Rightarrow> mapping_table \<Rightarrow> mapping_table reply" where
  "recover_active_as_aborted iso_wall site ended_at reason t =
     recover_all iso_wall site ended_at reason (list_active site 1000 t) t"

section \<open>Deleting a session\<close>

text \<open>The rows of \<open>task_snapshots\<close> a deletion looks at.\<close>

record task_row =
  tk_task_id :: string
  tk_site_name :: string

definition delete_session_records ::
  "string \<Rightarrow> string \<Rightarrow> string list \<Rightarrow> string list \<Rightarrow> mapping_table \<times> 'a task_row_scheme list \<Rightarrow>
   ((mapping_table \<times> 'a task_row_scheme list) \<times> nat \<times> nat) reply" where
  "delete_session_records site session task_ids excluded db =
     (if session = [] then Inl NoSession else
      let (t, tasks) = db;
          hit = (\<lambda>r. sm_session_id r = Some session \<and> sm_site_id r = site);
          requested = filter (\<lambda>x. x \<noteq> []) task_ids @ map sm_controller_task_id (filter hit t);
          gone = (\<lambda>k. tk_site_name k = site \<and> tk_task_id k \<in> set requested \<and>
                     tk_task_id k \<notin> set (filter (\<lambda>x. x \<noteq> []) excluded)) in
      Inr ((filter (\<lambda>r. \<not> hit r) t, filter (\<lambda>k. \<not> gone k) tasks), length (filter hit t), length (filter gone tasks)))"

section \<open>The invariant of the table\<close>

definition mappings_ok :: "mapping_table \<Rightarrow> bool" where
  "mappings_ok t = sorted_wrt (\<lambda>a b. \<not> clash a b) t"

lemma clash_sym: "clash a b = clash b a"
  unfolding clash_def by metis

lemma mappings_okD: "mappings_ok t \<Longrightarrow> i < length t \<Longrightarrow> j < length t \<Longrightarrow> i \<noteq> j \<Longrightarrow> \<not> clash (t ! i) (t ! j)"
  unfolding mappings_ok_def sorted_wrt_iff_nth_less by (metis clash_sym linorder_neqE_nat)

lemma mappings_ok_unique: "mappings_ok t \<Longrightarrow> a \<in> set t \<Longrightarrow> b \<in> set t \<Longrightarrow> clash a b \<Longrightarrow> a = b"
  by (metis in_set_conv_nth mappings_okD)

lemma mappings_ok_filter: "mappings_ok t \<Longrightarrow> mappings_ok (filter P t)"
  by (simp add: mappings_ok_def sorted_wrt_filter)

lemma row_of_clash: "row_of site task a \<Longrightarrow> row_of site task b \<Longrightarrow> clash a b"
  by (auto simp: row_of_def clash_def)

text \<open>Replacing the row of a task keeps the table in order when the new row meets no other one.\<close>

lemma mappings_ok_replace:
  assumes ok: "mappings_ok t" and row: "\<And>r. r \<in> set t \<Longrightarrow> row_of site task r \<Longrightarrow> f r = g"
    and new: "\<And>r. r \<in> set t \<Longrightarrow> \<not> row_of site task r \<Longrightarrow> \<not> clash g r"
  shows "mappings_ok (map (\<lambda>r. if row_of site task r then f r else r) t)"
proof -
  define h where "h = (\<lambda>r. if row_of site task r then f r else r)"
  have "\<not> clash (h (t ! i)) (h (t ! j))" if ij: "i < j" "j < length t" for i j
  proof -
    have sets: "t ! i \<in> set t" "t ! j \<in> set t" using ij by auto
    have no: "\<not> clash (t ! i) (t ! j)" using ij by (intro mappings_okD [OF ok]) auto
    then have "\<not> (row_of site task (t ! i) \<and> row_of site task (t ! j))" using row_of_clash by blast
    then show ?thesis
      using no row [OF sets(1)] row [OF sets(2)] new [OF sets(1)] new [OF sets(2)] clash_sym by (auto simp: h_def)
  qed
  then show ?thesis unfolding h_def [symmetric] by (simp add: mappings_ok_def sorted_wrt_map sorted_wrt_iff_nth_less)
qed

lemma create_ok: "mappings_ok t \<Longrightarrow> create_mapping site m t = Inr t' \<Longrightarrow> mappings_ok t'"
  by (auto simp: create_mapping_def mappings_ok_def sorted_wrt_append list_ex_iff clash_sym split: if_splits)

lemma updated_row_same:
  "row_of site task r \<Longrightarrow> sm_controller_task_id m = task \<Longrightarrow> sm_site_id m = site \<Longrightarrow>
   clash (updated_row m r) x = clash m x"
  by (simp add: clash_def updated_row_def row_of_def agent_key_def)

lemma save_ok:
  assumes ok: "mappings_ok t" and save: "save_mapping site m t = Inr t'"
  shows "mappings_ok t'"
proof -
  have m: "sm_site_id m = site" and no: "\<And>r. r \<in> set t \<Longrightarrow> \<not> row_of site (sm_controller_task_id m) r \<Longrightarrow> \<not> clash m r"
    and t': "t' = map (\<lambda>r. if row_of site (sm_controller_task_id m) r then updated_row m r else r) t"
    using save by (auto simp: save_mapping_def Let_def list_ex_iff split: if_splits)
  have "mappings_ok (map (\<lambda>r. if row_of site (sm_controller_task_id m) r then updated_row m r else r) t)"
  proof (cases "\<exists>r \<in> set t. row_of site (sm_controller_task_id m) r")
    case True
    then obtain r0 where r0: "r0 \<in> set t" "row_of site (sm_controller_task_id m) r0" by blast
    show ?thesis
    proof (rule mappings_ok_replace [OF ok, where g = "updated_row m r0"])
      fix r assume "r \<in> set t" "row_of site (sm_controller_task_id m) r"
      then have "r = r0" using mappings_ok_unique [OF ok] r0 row_of_clash by blast
      then show "updated_row m r = updated_row m r0" by simp
    next
      fix r assume "r \<in> set t" "\<not> row_of site (sm_controller_task_id m) r"
      then show "\<not> clash (updated_row m r0) r" using no updated_row_same [OF r0(2) refl m] by simp
    qed
  next
    case False
    then have "map (\<lambda>r. if row_of site (sm_controller_task_id m) r then updated_row m r else r) t = t"
      by (induction t) auto
    then show ?thesis
      using ok by simp
  qed
  then show ?thesis by (simp add: t')
qed

lemma on_mapping_ok: "mappings_ok t \<Longrightarrow> on_mapping site task f t = Inr t' \<Longrightarrow> mappings_ok t'"
  by (auto simp: on_mapping_def save_ok split: option.splits)

lemma mark_stopping_ok: "mappings_ok t \<Longrightarrow> mark_stopping site task ph rs fc at' t = Inr t' \<Longrightarrow> mappings_ok t'"
  by (auto simp: mark_stopping_def save_ok split: option.splits if_splits)

lemma recover_all_ok: "mappings_ok t \<Longrightarrow> recover_all iso_wall site e r ms t = Inr t' \<Longrightarrow> mappings_ok t'"
  by (induction ms arbitrary: t) (auto simp: mark_terminal_def dest: on_mapping_ok split: sum.splits)

text \<open>All operations of a site as actions.\<close>

datatype mapping_action =
    Create session_mapping | Save session_mapping | Delete string | Delete_Session string
  | Stopping string OnlineMrPhase string bool string | Terminal string terminal_update
  | Duration string "string option" string pyfloat | Error_Summary string string string | Recover string string

definition reply_state :: "'a reply \<Rightarrow> 'a option" where
  "reply_state r = (case r of Inl _ \<Rightarrow> None | Inr x \<Rightarrow> Some x)"

fun mapping_step :: "wall_parser \<Rightarrow> string \<times> mapping_action \<Rightarrow> mapping_table \<Rightarrow> mapping_table option" where
  "mapping_step w (site, Create m) t = reply_state (create_mapping site m t)"
| "mapping_step w (site, Save m) t = reply_state (save_mapping site m t)"
| "mapping_step w (site, Delete task) t = Some (delete_mapping site task t)"
| "mapping_step w (site, Delete_Session s) t = map_option (fst \<circ> fst) (reply_state (delete_session_records site s [] [] (t, [] :: task_row list)))"
| "mapping_step w (site, Stopping task ph rs fc upd) t = reply_state (mark_stopping site task ph rs fc upd t)"
| "mapping_step w (site, Terminal task u) t = reply_state (mark_terminal site task u t)"
| "mapping_step w (site, Duration task st e m) t = reply_state (update_duration site task st e m t)"
| "mapping_step w (site, Error_Summary task e upd) t = reply_state (update_error_summary site task e upd t)"
| "mapping_step w (site, Recover e r) t = reply_state (recover_active_as_aborted w site e r t)"

lemma reply_state_Some [simp]: "reply_state r = Some x \<longleftrightarrow> r = Inr x"
  by (cases r) (auto simp: reply_state_def)

lemma delete_session_table:
  "map_option (fst \<circ> fst) (reply_state (delete_session_records site s ids ex (t, k :: 'a task_row_scheme list))) =
     (if s = [] then None else Some (filter (\<lambda>r. \<not> (sm_session_id r = Some s \<and> sm_site_id r = site)) t))"
  by (cases "s = []") (simp_all add: delete_session_records_def reply_state_def Let_def)

lemma mapping_step_ok: "mappings_ok t \<Longrightarrow> mapping_step w a t = Some t' \<Longrightarrow> mappings_ok t'"
proof -
  assume ok: "mappings_ok t" and step: "mapping_step w a t = Some t'"
  obtain site b where a: "a = (site, b)" by (cases a)
  show ?thesis using step unfolding a
    by (cases b) (auto simp: delete_mapping_def delete_session_table mark_terminal_def update_duration_def
        update_error_summary_def recover_active_as_aborted_def simp del: map_option_eq_Some split: if_splits intro: create_ok [OF ok] save_ok [OF ok] on_mapping_ok [OF ok]
        mark_stopping_ok [OF ok] recover_all_ok [OF ok] mappings_ok_filter [OF ok])
qed

interpretation mappings: step_system "mapping_step w" mappings_ok for w
  by unfold_locales (rule mapping_step_ok)

section \<open>Sites do not meet\<close>

definition site_rows :: "string \<Rightarrow> mapping_table \<Rightarrow> mapping_table" where
  "site_rows s t = filter (\<lambda>r. sm_site_id r = s) t"

lemma site_rows_save: "s \<noteq> site \<Longrightarrow> save_mapping site m t = Inr t' \<Longrightarrow> site_rows s t' = site_rows s t"
proof -
  assume s: "s \<noteq> site" and save: "save_mapping site m t = Inr t'"
  have t': "t' = map (\<lambda>r. if row_of site (sm_controller_task_id m) r then updated_row m r else r) t"
    using save by (auto simp: save_mapping_def Let_def split: if_splits)
  show ?thesis unfolding t' site_rows_def using s
    by (induction t) (auto simp: row_of_def updated_row_def)
qed

lemma site_rows_on_mapping: "s \<noteq> site \<Longrightarrow> on_mapping site task f t = Inr t' \<Longrightarrow> site_rows s t' = site_rows s t"
  by (auto simp: on_mapping_def site_rows_save split: option.splits)

lemma site_rows_recover: "s \<noteq> site \<Longrightarrow> recover_all w site e r ms t = Inr t' \<Longrightarrow> site_rows s t' = site_rows s t"
  by (induction ms arbitrary: t) (auto simp: mark_terminal_def site_rows_on_mapping split: sum.splits)

lemma site_rows_step: "s \<noteq> site \<Longrightarrow> mapping_step w (site, b) t = Some t' \<Longrightarrow> site_rows s t' = site_rows s t"
proof -
  assume s: "s \<noteq> site" and step: "mapping_step w (site, b) t = Some t'"
  have filter: "(\<And>r. sm_site_id r = s \<Longrightarrow> P r) \<Longrightarrow> site_rows s (filter P t) = site_rows s t" for P
    unfolding site_rows_def filter_filter by (rule filter_cong) auto
  show ?thesis using s step
    by (cases b) (auto simp: create_mapping_def delete_mapping_def delete_session_table mark_stopping_def
        mark_terminal_def update_duration_def update_error_summary_def recover_active_as_aborted_def row_of_def
        intro: site_rows_save [OF s] site_rows_on_mapping [OF s] site_rows_recover [OF s] intro!: filter
        simp del: map_option_eq_Some split: if_splits option.splits, auto simp: site_rows_def)
qed

lemma mappings_ok_keys:
  assumes "mappings_ok t"
  shows "distinct (map sm_controller_task_id t)" "distinct (List.map_filter sm_session_id t)" "distinct (List.map_filter agent_key t)"
  using assms by (induction t) (auto simp: mappings_ok_def clash_def List.map_filter_def)

text \<open>
  C6. Whatever the operations of the sites in any order, no two rows ever share a task, a session or a
  task of an agent, and the operations of one site leave the rows of every other site as they were.
\<close>

theorem mapping_table_invariant:
  assumes "mappings_ok t0" "run_actions (mapping_step w) as t0 = Some t"
  shows "distinct (map sm_controller_task_id t) \<and> distinct (List.map_filter sm_session_id t) \<and>
    distinct (List.map_filter agent_key t) \<and> (s \<notin> fst ` set as \<longrightarrow> site_rows s t = site_rows s t0)"
proof (intro conjI)
  have "mappings_ok t" by (rule mappings.run_keeps [OF assms])
  then show "distinct (map sm_controller_task_id t)" "distinct (List.map_filter sm_session_id t)" "distinct (List.map_filter agent_key t)"
    by (rule mappings_ok_keys)+
  show "s \<notin> fst ` set as \<longrightarrow> site_rows s t = site_rows s t0" using assms(2)
  proof (induction as arbitrary: t0)
    case (Cons a as)
    then show ?case by (cases a) (auto split: option.splits dest!: site_rows_step [rotated])
  qed simp
qed

text \<open>Two mappings of two sites.\<close>

definition example_mapping :: "string \<Rightarrow> string \<Rightarrow> OnlineMrMappingState \<Rightarrow> session_mapping" where
  "example_mapping site task state =
     \<lparr>sm_controller_task_id = task, sm_site_id = site, sm_device_id = ''1'', sm_device_name = [], sm_mr_id = ''1'', sm_mr_name = [],
      sm_executor_kind = LOCAL, sm_phase = COLLECTING, sm_mapping_state = state, sm_created_at = ''2024'', sm_updated_at = ''2024'',
      sm_session_id = Some (''s-'' @ task), sm_agent_id = [], sm_agent_profile_id = [], sm_agent_task_id = [],
      sm_remote_session_id = [], sm_remote_package_id = [], sm_last_remote_status = [], sm_last_remote_seen_at = None,
      sm_consecutive_status_failures = 0, sm_deadline_at = None, sm_terminal_at = None, sm_started_at = None, sm_ended_at = None,
      sm_duration_minutes = None, sm_stop_reason = [], sm_force_stopped = False, sm_error_summary = [], sm_error_code = [],
      sm_error_message = []\<rparr>"

theorem mapping_table_invariant_witness:
  "distinct (List.map_filter sm_session_id [example_mapping ''a'' ''t1'' LINKED, example_mapping ''b'' ''t2'' LINKED]) \<and>
   site_rows ''a'' [example_mapping ''a'' ''t1'' LINKED] = site_rows ''a'' [example_mapping ''a'' ''t1'' LINKED, example_mapping ''b'' ''t2'' LINKED]"
proof -
  have ok: "mappings_ok [example_mapping ''a'' ''t1'' LINKED]" by (simp add: mappings_ok_def)
  have run: "run_actions (mapping_step (\<lambda>x. None)) [(''b'', Create (example_mapping ''b'' ''t2'' LINKED))] [example_mapping ''a'' ''t1'' LINKED] =
    Some [example_mapping ''a'' ''t1'' LINKED, example_mapping ''b'' ''t2'' LINKED]"
    by (simp add: create_mapping_def example_mapping_def clash_def agent_key_def reply_state_def)
  show ?thesis using mapping_table_invariant [OF ok run, of "''a''"] by simp
qed

section \<open>Recovery\<close>

definition active_tasks :: "string \<Rightarrow> mapping_table \<Rightarrow> string set" where
  "active_tasks site t = sm_controller_task_id ` {r \<in> set t. sm_site_id r = site \<and> sm_mapping_state r \<in> set ACTIVE_MAPPING_STATES}"

lemma active_tasks_iff: "k \<in> active_tasks site t \<longleftrightarrow>
    (\<exists>r \<in> set t. sm_controller_task_id r = k \<and> sm_site_id r = site \<and> sm_mapping_state r \<in> set ACTIVE_MAPPING_STATES)"
  by (auto simp: active_tasks_def)

lemma stale_not_active: "STALE \<notin> set ACTIVE_MAPPING_STATES"
  by (simp add: ACTIVE_MAPPING_STATES_def)

lemma find_unique: "mappings_ok t \<Longrightarrow> r \<in> set t \<Longrightarrow> row_of site task r \<Longrightarrow> find (row_of site task) t = Some r"
proof -
  assume ok: "mappings_ok t" and r: "r \<in> set t" "row_of site task r"
  obtain x where x: "find (row_of site task) t = Some x" using r by (cases "find (row_of site task) t") (auto simp: find_None_iff)
  then have "x \<in> set t" "row_of site task x" by (auto simp: find_Some_iff)
  then show ?thesis using x mappings_ok_unique [OF ok] r row_of_clash by blast
qed

lemma terminal_clash: "clash (terminal_mapping u (from_row r)) x \<Longrightarrow> clash r x"
  by (auto simp: clash_def terminal_mapping_def from_row_def none_if_empty_def agent_key_def Let_def split: if_splits)

lemma terminal_ids: "sm_controller_task_id (terminal_mapping u (from_row r)) = sm_controller_task_id r"
  "sm_site_id (terminal_mapping u (from_row r)) = sm_site_id r" "sm_mapping_state (terminal_mapping u m) = tu_mapping_state u"
  by (simp_all add: terminal_mapping_def from_row_def Let_def)

lemma mark_terminal_row:
  assumes ok: "mappings_ok t" and r: "r \<in> set t" "row_of site task r"
  shows "mark_terminal site task u t =
    Inr (map (\<lambda>x. if row_of site task x then updated_row (terminal_mapping u (from_row r)) x else x) t)"
proof -
  have "\<not> list_ex (\<lambda>x. \<not> row_of site task x \<and> clash (terminal_mapping u (from_row r)) x) t"
  proof
    assume "list_ex (\<lambda>x. \<not> row_of site task x \<and> clash (terminal_mapping u (from_row r)) x) t"
    then obtain x where x: "x \<in> set t" "\<not> row_of site task x" "clash r x" by (auto simp: list_ex_iff dest: terminal_clash)
    then show False using mappings_ok_unique [OF ok r(1) x(1,3)] r(2) by simp
  qed
  moreover have "list_ex (row_of site task) t" using r by (auto simp: list_ex_iff)
  moreover have "sm_controller_task_id r = task" "sm_site_id r = site" using r(2) by (auto simp: row_of_def)
  ultimately show ?thesis
    by (simp add: mark_terminal_def on_mapping_def get_by_task_def find_unique [OF ok r] save_mapping_def terminal_ids Let_def)
qed

definition has_row :: "string \<Rightarrow> string \<Rightarrow> mapping_table \<Rightarrow> bool" where
  "has_row site task t = list_ex (row_of site task) t"

lemma has_rowE: "has_row site task t \<Longrightarrow> (\<And>r. r \<in> set t \<Longrightarrow> row_of site task r \<Longrightarrow> thesis) \<Longrightarrow> thesis"
  by (auto simp: has_row_def list_ex_iff)

lemma updated_row_ids [simp]: "sm_controller_task_id (updated_row m x) = sm_controller_task_id x"
  "sm_site_id (updated_row m x) = sm_site_id x" "sm_mapping_state (updated_row m x) = sm_mapping_state m"
  by (simp_all add: updated_row_def)

lemma mark_terminal_stale:
  assumes ok: "mappings_ok t" and row: "has_row site task t" and u: "tu_mapping_state u = STALE"
  obtains t' where "mark_terminal site task u t = Inr t'" "mappings_ok t'" "active_tasks site t' = active_tasks site t - {task}"
    "\<And>k. has_row site k t' = has_row site k t"
proof -
  obtain r where r: "r \<in> set t" "row_of site task r" using row by (rule has_rowE)
  define h where "h x = (if row_of site task x then updated_row (terminal_mapping u (from_row r)) x else x)" for x
  have step: "mark_terminal site task u t = Inr (map h t)"
    using mark_terminal_row [OF ok r] by (simp add: h_def [abs_def])
  have ids: "sm_controller_task_id (h x) = sm_controller_task_id x" "sm_site_id (h x) = sm_site_id x" for x
    by (simp_all add: h_def)
  have state: "sm_mapping_state (h x) = (if row_of site task x then STALE else sm_mapping_state x)" for x
    by (simp add: h_def terminal_ids u)
  have "mappings_ok (map h t)" using step on_mapping_ok [OF ok] by (simp add: mark_terminal_def)
  moreover have "active_tasks site (map h t) = active_tasks site t - {task}"
  proof (rule set_eqI)
    fix k
    have "k \<in> active_tasks site (map h t) \<longleftrightarrow>
        (\<exists>x \<in> set t. sm_controller_task_id x = k \<and> sm_site_id x = site \<and> sm_mapping_state (h x) \<in> set ACTIVE_MAPPING_STATES)"
      by (auto simp: active_tasks_iff ids)
    also have "\<dots> \<longleftrightarrow> k \<in> active_tasks site t - {task}"
      by (auto simp: active_tasks_iff state row_of_def stale_not_active split: if_splits)
    finally show "k \<in> active_tasks site (map h t) \<longleftrightarrow> k \<in> active_tasks site t - {task}" .
  qed
  moreover have "has_row site k (map h t) = has_row site k t" for k
    by (simp add: has_row_def list_ex_iff row_of_def ids)
  ultimately show ?thesis using that [OF step] by blast
qed

lemma recover_all_clears:
  assumes "mappings_ok t" "list_all (\<lambda>m. has_row site (sm_controller_task_id m) t) ms"
  shows "\<exists>t'. recover_all w site e reason ms t = Inr t' \<and>
    active_tasks site t' = active_tasks site t - set (map sm_controller_task_id ms)"
  using assms
proof (induction ms arbitrary: t)
  case (Cons m ms)
  have row: "has_row site (sm_controller_task_id m) t" using Cons.prems(2) by simp
  have u: "tu_mapping_state (recovery_update w e reason m) = STALE" by (simp add: recovery_update_def Let_def)
  obtain t1 where t1: "mark_terminal site (sm_controller_task_id m) (recovery_update w e reason m) t = Inr t1" "mappings_ok t1"
    "active_tasks site t1 = active_tasks site t - {sm_controller_task_id m}" "\<And>k. has_row site k t1 = has_row site k t"
    by (rule mark_terminal_stale [OF Cons.prems(1) row u]) metis
  have "list_all (\<lambda>m. has_row site (sm_controller_task_id m) t1) ms" using Cons.prems(2) by (simp add: t1(4))
  from Cons.IH [OF t1(2) this] show ?case by (auto simp: t1(1,3))
qed simp

lemma from_row_ids [simp]: "sm_controller_task_id (from_row r) = sm_controller_task_id r"
  by (simp add: from_row_def)

lemma set_newest_first [simp]: "set (newest_first rows) = set rows" and length_newest_first [simp]: "length (newest_first rows) = length rows"
  by (simp_all add: newest_first_def)

definition active_row :: "string \<Rightarrow> session_mapping \<Rightarrow> bool" where
  "active_row site r = (sm_site_id r = site \<and> sm_mapping_state r \<in> set ACTIVE_MAPPING_STATES)"

lemma list_active_all:
  assumes "length (filter (active_row site) t) \<le> 1000"
  shows "set (map sm_controller_task_id (list_active site 1000 t)) = active_tasks site t"
proof -
  have eq: "(\<lambda>r. sm_site_id r = site \<and> (ACTIVE_MAPPING_STATES = [] \<or> sm_mapping_state r \<in> set ACTIVE_MAPPING_STATES) \<and>
      (case None of None \<Rightarrow> True | Some d \<Rightarrow> d = [] \<or> sm_device_id r = d)) = active_row site"
    by (rule ext) (simp add: active_row_def ACTIVE_MAPPING_STATES_def)
  have "list_active site 1000 t = map from_row (newest_first (filter (active_row site) t))"
    unfolding list_active_def list_mappings_def eq using assms by simp
  then show ?thesis by (auto simp: active_tasks_def active_row_def image_iff)
qed

text \<open>
  C11. After a restart the mappings that were still open are closed: as long as a site has at most 1000
  open ones, the recovery succeeds and no mapping of the site is open any more.
\<close>

theorem recovery_closes_all:
  assumes "mappings_ok t" "length (filter (active_row site) t) \<le> 1000"
  shows "\<exists>t'. recover_active_as_aborted w site ended_at reason t = Inr t' \<and> list_active site 1000 t' = []"
proof -
  have rows: "list_all (\<lambda>m. has_row site (sm_controller_task_id m) t) (list_active site 1000 t)"
  proof -
    have "has_row site k t" if "k \<in> active_tasks site t" for k
      using that by (auto simp: active_tasks_def has_row_def list_ex_iff row_of_def)
    then show ?thesis using list_active_all [OF assms(2)] by (auto simp: list_all_iff)
  qed
  obtain t' where t': "recover_active_as_aborted w site ended_at reason t = Inr t'" "active_tasks site t' = {}"
    using recover_all_clears [OF assms(1) rows] list_active_all [OF assms(2)] by (force simp: recover_active_as_aborted_def)
  from t'(2) have "filter (active_row site) t' = []" by (auto simp: active_tasks_def active_row_def filter_empty_conv)
  then have "set (map sm_controller_task_id (list_active site 1000 t')) = {}"
    using list_active_all [of site t'] t'(2) by simp
  then show ?thesis using t'(1) by auto
qed

theorem recovery_closes_all_witness:
  "\<exists>t'. recover_active_as_aborted (\<lambda>x. None) ''a'' ''2025'' ''r'' [example_mapping ''a'' ''t1'' LINKED] = Inr t' \<and>
     list_active ''a'' 1000 t' = []"
  by (rule recovery_closes_all) (simp_all add: mappings_ok_def)
end
