(* ===== verification/Fault_Programs.thy ===== *)
theory Fault_Programs
  imports Main
begin

text \<open>
  Programs whose single effects may fail or be the last thing that happens. A program takes a state
  and ends with a value, with an exception, or because the process died; \<open>except\<close> and \<open>finally\<close>
  blocks run after exceptions only. The \<open>faults\<close> of the state say what becomes of the effects to come:
  each of them is done, fails with an error of the system, or the process dies before it; after the
  last listed fault all effects are done.
\<close>

section \<open>Programs\<close>

datatype fault = Go | Fail | Stop

datatype ('e, 'a) outcome = Done 'a | Raised 'e | Crashed

record machine =
  mc_faults :: "fault list"

type_synonym ('m, 'e, 'a) program = "'m machine_scheme \<Rightarrow> ('e, 'a) outcome \<times> 'm machine_scheme"

definition ret :: "'a \<Rightarrow> ('m, 'e, 'a) program" where
  "ret x w = (Done x, w)"

definition throw :: "'e \<Rightarrow> ('m, 'e, 'a) program" where
  "throw e w = (Raised e, w)"

definition bind_to :: "('m, 'e, 'a) program \<Rightarrow> ('a \<Rightarrow> ('m, 'e, 'b) program) \<Rightarrow> ('m, 'e, 'b) program" where
  "bind_to a f w =
     (case a w of (Done x, w') \<Rightarrow> f x w' | (Raised e, w') \<Rightarrow> (Raised e, w') | (Crashed, w') \<Rightarrow> (Crashed, w'))"

definition and_then :: "('m, 'e, 'a) program \<Rightarrow> ('m, 'e, 'b) program \<Rightarrow> ('m, 'e, 'b) program" where
  "and_then a b = bind_to a (\<lambda>_. b)"

definition gets :: "('m machine_scheme \<Rightarrow> 'a) \<Rightarrow> ('m, 'e, 'a) program" where
  "gets f w = (Done (f w), w)"

definition change :: "('m machine_scheme \<Rightarrow> 'm machine_scheme) \<Rightarrow> ('m, 'e, unit) program" where
  "change f w = (Done (), f w)"

definition only_if :: "bool \<Rightarrow> ('m, 'e, unit) program \<Rightarrow> ('m, 'e, unit) program" where
  "only_if b a = (if b then a else ret ())"

primrec steps :: "('m, 'e, unit) program list \<Rightarrow> ('m, 'e, unit) program" where
  "steps [] = ret ()"
| "steps (a # as) = and_then a (steps as)"

text \<open>\<open>try: a except Exception as e: h(e)\<close> and \<open>try: a finally: f\<close>\<close>

definition except_do :: "('m, 'e, 'a) program \<Rightarrow> ('e \<Rightarrow> ('m, 'e, 'a) program) \<Rightarrow> ('m, 'e, 'a) program" where
  "except_do a h w = (case a w of (Raised e, w') \<Rightarrow> h e w' | r \<Rightarrow> r)"

definition finally_do :: "('m, 'e, 'a) program \<Rightarrow> ('m, 'e, unit) program \<Rightarrow> ('m, 'e, 'a) program" where
  "finally_do a f w =
     (case a w of
        (Done x, w') \<Rightarrow> bind_to f (\<lambda>_. ret x) w'
      | (Raised e, w') \<Rightarrow> bind_to f (\<lambda>_. throw e) w'
      | (Crashed, w') \<Rightarrow> (Crashed, w'))"

text \<open>One effect on the world outside.\<close>

definition effect :: "'e \<Rightarrow> ('m, 'e, 'a) program \<Rightarrow> ('m, 'e, 'a) program" where
  "effect system_error a w =
     (case mc_faults w of
        [] \<Rightarrow> a w
      | Go # fs \<Rightarrow> a (w\<lparr>mc_faults := fs\<rparr>)
      | Fail # fs \<Rightarrow> (Raised system_error, w\<lparr>mc_faults := fs\<rparr>)
      | Stop # fs \<Rightarrow> (Crashed, w\<lparr>mc_faults := fs\<rparr>))"

section \<open>What holds after a program\<close>

text \<open>The condition on the first state that makes \<open>Q\<close>, \<open>E\<close> and \<open>C\<close> hold at the three kinds of end.\<close>

definition wp :: "('m, 'e, 'a) program \<Rightarrow> ('a \<Rightarrow> 'm machine_scheme \<Rightarrow> bool) \<Rightarrow> ('e \<Rightarrow> 'm machine_scheme \<Rightarrow> bool) \<Rightarrow>
  ('m machine_scheme \<Rightarrow> bool) \<Rightarrow> 'm machine_scheme \<Rightarrow> bool" where
  "wp a Q E C w = (case a w of (Done x, w') \<Rightarrow> Q x w' | (Raised e, w') \<Rightarrow> E e w' | (Crashed, w') \<Rightarrow> C w')"

named_theorems wp_simps

lemma wp_ret [wp_simps]: "wp (ret x) Q E C = Q x"
  by (rule ext) (simp add: wp_def ret_def)

lemma wp_throw [wp_simps]: "wp (throw e) Q E C = E e"
  by (rule ext) (simp add: wp_def throw_def)

lemma wp_bind [wp_simps]: "wp (bind_to a f) Q E C = wp a (\<lambda>x. wp (f x) Q E C) E C"
  by (rule ext) (simp add: wp_def bind_to_def split: outcome.splits prod.splits)

lemma wp_and_then [wp_simps]: "wp (and_then a b) Q E C = wp a (\<lambda>_. wp b Q E C) E C"
  by (simp add: and_then_def wp_bind)

lemma wp_gets [wp_simps]: "wp (gets f) Q E C = (\<lambda>w. Q (f w) w)"
  by (rule ext) (simp add: wp_def gets_def)

lemma wp_change [wp_simps]: "wp (change f) Q E C = (\<lambda>w. Q () (f w))"
  by (rule ext) (simp add: wp_def change_def)

lemma wp_only_if [wp_simps]: "wp (only_if b a) Q E C = (if b then wp a Q E C else Q ())"
  by (simp add: only_if_def wp_ret)

lemma wp_if [wp_simps]: "wp (if b then a else c) Q E C = (if b then wp a Q E C else wp c Q E C)"
  by simp

lemma wp_except [wp_simps]: "wp (except_do a h) Q E C = wp a Q (\<lambda>e. wp (h e) Q E C) C"
  by (rule ext) (simp add: wp_def except_do_def split: outcome.splits prod.splits)

lemma wp_finally [wp_simps]:
  "wp (finally_do a f) Q E C = wp a (\<lambda>x. wp f (\<lambda>_. Q x) E C) (\<lambda>e. wp f (\<lambda>_. E e) E C) C"
  by (rule ext) (simp add: wp_def finally_do_def bind_to_def ret_def throw_def split: outcome.splits prod.splits)

lemma wp_mono:
  assumes "wp a Q E C w" "\<And>x w'. Q x w' \<Longrightarrow> Q' x w'" "\<And>e w'. E e w' \<Longrightarrow> E' e w'" "\<And>w'. C w' \<Longrightarrow> C' w'"
  shows "wp a Q' E' C' w"
  using assms by (auto simp: wp_def split: outcome.splits prod.splits)

lemma wp_steps [wp_simps]:
  "wp (steps []) Q E C = Q ()"
  "wp (steps (a # as)) Q E C = wp a (\<lambda>_. wp (steps as) Q E C) E C"
  by (simp_all add: wp_ret wp_and_then)

text \<open>With \<open>s\<close> no effect fails; the process may still die.\<close>

definition may :: "bool \<Rightarrow> fault list \<Rightarrow> bool" where
  "may s fs = (s \<longrightarrow> Fail \<notin> set fs)"

lemma may_False [simp]: "may False fs" and may_Nil [simp]: "may s []"
  by (simp_all add: may_def)

lemma wp_effect:
  assumes "may s (mc_faults w)"
    and "\<And>fs. may s fs \<Longrightarrow> wp a Q E C (w\<lparr>mc_faults := fs\<rparr>)"
    and "\<And>fs. may s fs \<Longrightarrow> \<not> s \<Longrightarrow> E system_error (w\<lparr>mc_faults := fs\<rparr>)"
    and "\<And>fs. may s fs \<Longrightarrow> C (w\<lparr>mc_faults := fs\<rparr>)"
  shows "wp (effect system_error a) Q E C w"
proof (cases "mc_faults w")
  case Nil
  have same: "w\<lparr>mc_faults := []\<rparr> = w" using Nil by (cases w) simp
  have "wp a Q E C w" by (rule assms(2) [of "[]", unfolded same, OF may_Nil])
  then show ?thesis using Nil by (simp add: wp_def effect_def)
next
  case (Cons f fs)
  have f: "s \<Longrightarrow> f \<noteq> Fail" and ok: "may s fs" using assms(1) Cons by (auto simp: may_def)
  show ?thesis
    using assms(2) [OF ok] assms(3) [OF ok] assms(4) [OF ok] f by (cases f) (auto simp: wp_def effect_def Cons)
qed

text \<open>A run is a fact about the three kinds of end.\<close>

lemma wpD: "wp a Q E C w \<Longrightarrow> a w = (Done x, w') \<Longrightarrow> Q x w'"
  "wp a Q E C w \<Longrightarrow> a w = (Raised e, w') \<Longrightarrow> E e w'"
  "wp a Q E C w \<Longrightarrow> a w = (Crashed, w') \<Longrightarrow> C w'"
  by (simp_all add: wp_def)

end
