(* ===== verification/Database_Upgrade.thy ===== *)
theory Database_Upgrade
  imports Fault_Programs
begin

text \<open>
  \<^verbatim>\<open>services/database_upgrade\<close>: upgrading a database behind a shadow copy (\<^verbatim>\<open>coordinator.py\<close>), its journal
  and the recovery at the next start (\<^verbatim>\<open>journal.py\<close>), the backup (\<^verbatim>\<open>backup_store.py\<close>, creation), and the adapters
  that restore a backup (\<^verbatim>\<open>management_service.py\<close>) and rebuild MESH data (\<^verbatim>\<open>mesh_parsed_rebuild_service.py\<close>).

  The files of one operation are the places below; a database has a main file and two side files. Every
  rename, copy, directory, journal or hook is one effect that may fail or be the point where the
  process dies; a rename and the replacement of the journal file are atomic. A file is its text, empty
  for no bytes; what a database holds is the text of its main file with its log, the function
  \<open>sq_text\<close>, and a copy by the backup interface holds the same. The authority checks of the journal,
  hashes, sizes and messages are left out.
\<close>

section \<open>Files\<close>

text \<open>\<open>Backup_Folder\<close> is the folder \<open>create\<close> answered, new or reused.\<close>

datatype folder = Backup_Folder | Failed_Folder | Recovery_Folder

datatype place = Active | Shadow | Rollback | Source | Active_Parsed | Shadow_Parsed | Rollback_Parsed
  | Stored folder string nat

datatype part = Main | Wal | Shm

text \<open>SQLite itself: what a main file holds with a log beside it, and the integrity check.\<close>

record sqlite =
  sq_merge :: "string \<Rightarrow> string \<Rightarrow> string"
  sq_intact :: "string \<Rightarrow> bool"

definition sq_text :: "sqlite \<Rightarrow> string \<Rightarrow> string option \<Rightarrow> string" where
  "sq_text D c l = (case l of None \<Rightarrow> c | Some x \<Rightarrow> sq_merge D c x)"

lemma text_alone [simp]: "sq_text D c None = c"
  by (simp add: sq_text_def)

section \<open>State\<close>

datatype stage = Created | Pause_Writes | Checkpoint | Backup_Failed | Backup_Validated | Shadow_Building
  | Shadow_Validated | Switched | Smoke_Failed | Smoke_Validated | Completed | Failed | Failed_Rolled_Back
  | Failed_Before_Switch | Diagnostic_Retention_Failed | Rollback_Failed | Recovery_Failed
  | Recovered_No_Switch | Recovered_Rollback | Recovered_From_Backup | Recovered_New_Database
  | Recovered_No_Existing_Database | Production_Rolled_Back | Recovered_Production_Rollback

text \<open>The fields of the journal that recovery reads: which paths it has and the mark of the switch.\<close>

record journal =
  jn_stage :: stage
  jn_active :: bool
  jn_switched :: bool
  jn_backup :: bool
  jn_parsed :: bool

definition new_journal :: journal where
  "new_journal = \<lparr>jn_stage = Created, jn_active = False, jn_switched = False, jn_backup = False, jn_parsed = False\<rparr>"

text \<open>
  The world: the files, the journal on disk and in memory, the variables of \<open>_upgrade_locked\<close> and of
  the adapter that the handler of exceptions reads, whether writers are paused, the clock of the time
  stamps and the answers of the cancel callback.
\<close>

record world = machine +
  wd_files :: "place \<times> part \<Rightarrow> string option"
  wd_journal :: "journal option"
  wd_memory :: journal
  wd_switch_started :: bool
  wd_switched :: bool
  wd_reopened :: bool
  wd_closed :: bool
  wd_backup :: bool
  wd_existed :: bool
  wd_shadow_parsed :: bool
  wd_rollback_parsed :: bool
  wd_paused :: bool
  wd_stamp :: nat
  wd_cancels :: "bool list"

datatype upgrade_error = OSError | Cancelled | Manual_Required | Backup_Invalid | Shadow_Busy | Rollback_Busy | Shadow_Invalid
  | Version_Mismatch | Smoke_Test_Failed | Kept_Exists | Empty_Source | No_Database_Left | Rollback_Raised | No_Backup
  | Recovery_Invalid

type_synonym 'a upgrade = "(unit world_ext, upgrade_error, 'a) program"

section \<open>Operations on files\<close>

definition os_effect :: "'a upgrade \<Rightarrow> 'a upgrade" where
  "os_effect a = effect OSError a"

definition present :: "place \<Rightarrow> world \<Rightarrow> bool" where
  "present p w = (wd_files w (p, Main) \<noteq> None)"

definition put_file :: "place \<times> part \<Rightarrow> string option \<Rightarrow> world \<Rightarrow> world" where
  "put_file f c w = w\<lparr>wd_files := (wd_files w)(f := c)\<rparr>"

text \<open>\<open>path.replace(target)\<close> of one file, \<open>_move_sidecars\<close> and \<open>_move_with_sidecars\<close>\<close>

definition rename_part :: "part \<Rightarrow> place \<Rightarrow> place \<Rightarrow> unit upgrade" where
  "rename_part k p q = os_effect (\<lambda>w.
     case wd_files w (p, k) of
       None \<Rightarrow> throw OSError w
     | Some c \<Rightarrow> change (put_file (p, k) None \<circ> put_file (q, k) (Some c)) w)"

definition rename_to :: "place \<Rightarrow> place \<Rightarrow> unit upgrade" where
  "rename_to p q = rename_part Main p q"

definition move_sidecars :: "place \<Rightarrow> place \<Rightarrow> unit upgrade" where
  "move_sidecars p q =
     and_then (bind_to (gets (\<lambda>w. wd_files w (p, Wal) \<noteq> None)) (\<lambda>b. only_if b (rename_part Wal p q)))
       (bind_to (gets (\<lambda>w. wd_files w (p, Shm) \<noteq> None)) (\<lambda>b. only_if b (rename_part Shm p q)))"

definition move_with_sidecars :: "place \<Rightarrow> place \<Rightarrow> unit upgrade" where
  "move_with_sidecars p q = and_then (rename_to p q) (move_sidecars p q)"

text \<open>\<open>_unique_target\<close>, \<open>_unique_path\<close>: a taken name gets a time stamp or a random suffix.\<close>

definition unique_path :: "place \<Rightarrow> place upgrade" where
  "unique_path p w =
     (case p of
        Stored d name n \<Rightarrow>
          if present p w then (Done (Stored d name (Suc (wd_stamp w))), w\<lparr>wd_stamp := Suc (wd_stamp w)\<rparr>) else (Done p, w)
      | _ \<Rightarrow> (Done p, w))"

definition unique_target :: "folder \<Rightarrow> string \<Rightarrow> place upgrade" where
  "unique_target d name = unique_path (Stored d name 0)"

definition when_present :: "place \<Rightarrow> unit upgrade \<Rightarrow> unit upgrade" where
  "when_present p a = bind_to (gets (present p)) (\<lambda>b. only_if b a)"

text \<open>What a database holds, \<open>validate_sqlite\<close> and \<open>sqlite_backup\<close>\<close>

definition database :: "sqlite \<Rightarrow> place \<Rightarrow> world \<Rightarrow> string option" where
  "database D p w = map_option (\<lambda>c. sq_text D c (wd_files w (p, Wal))) (wd_files w (p, Main))"

definition valid_at :: "sqlite \<Rightarrow> place \<Rightarrow> world \<Rightarrow> bool" where
  "valid_at D p w =
     (case wd_files w (p, Main) of
        None \<Rightarrow> False
      | Some c \<Rightarrow> c \<noteq> [] \<and> sq_intact D (sq_text D c (wd_files w (p, Wal))))"

definition sqlite_backup :: "sqlite \<Rightarrow> place \<Rightarrow> place \<Rightarrow> unit upgrade" where
  "sqlite_backup D p q = os_effect (\<lambda>w.
     case wd_files w (p, Main) of
       None \<Rightarrow> throw Empty_Source w
     | Some c \<Rightarrow>
         if c = [] then throw Empty_Source w
         else change (put_file (q, Main) (Some (sq_text D c (wd_files w (p, Wal))))) w)"

text \<open>\<open>checkpoint_wal\<close>: the log goes into the main file and the side files go away.\<close>

definition checkpoint_wal :: "sqlite \<Rightarrow> place \<Rightarrow> unit upgrade" where
  "checkpoint_wal D p w =
     (case wd_files w (p, Main) of
        None \<Rightarrow> ret () w
      | Some c \<Rightarrow>
          if c = [] then ret () w
          else os_effect (change (put_file (p, Wal) None \<circ> put_file (p, Shm) None \<circ>
                 put_file (p, Main) (Some (sq_text D c (wd_files w (p, Wal)))))) w)"

text \<open>An effect that leaves no trace in the model, such as making a folder.\<close>

definition touch :: "unit upgrade" where
  "touch = os_effect (ret ())"

section \<open>The journal\<close>

text \<open>\<open>update\<close> changes the fields in memory first and then replaces the file.\<close>

definition journal_update :: "stage \<Rightarrow> (journal \<Rightarrow> journal) \<Rightarrow> unit upgrade" where
  "journal_update st f =
     and_then (change (\<lambda>w. w\<lparr>wd_memory := (f (wd_memory w))\<lparr>jn_stage := st\<rparr>\<rparr>))
       (os_effect (change (\<lambda>w. w\<lparr>wd_journal := Some (wd_memory w)\<rparr>)))"

section \<open>Adapters\<close>

record adapter =
  ad_build :: "unit upgrade"
  ad_validate :: "bool upgrade"
  ad_switch :: "unit upgrade"
  ad_rollback :: "folder \<Rightarrow> unit upgrade"
  ad_discard :: "folder \<Rightarrow> unit upgrade"
  ad_finalize :: "unit upgrade"
  ad_parsed :: bool

definition check_cancel :: "unit upgrade" where
  "check_cancel w =
     (case wd_cancels w of
        [] \<Rightarrow> ret () w
      | c # cs \<Rightarrow> (if c then throw Cancelled else ret ()) (w\<lparr>wd_cancels := cs\<rparr>))"

text \<open>\<open>_BackupRestoreAdapter\<close>\<close>

definition failed_restored :: "folder \<Rightarrow> place" where
  "failed_restored d = Stored d ''failed_restored_database.sqlite'' 0"

definition kept_rollback :: "folder \<Rightarrow> place" where
  "kept_rollback d = Stored d ''rollback.sqlite'' 0"

definition restore_switch :: "unit upgrade" where
  "restore_switch =
     bind_to (gets (present Rollback)) (\<lambda>b.
     if b then throw Rollback_Busy
     else and_then (when_present Active (rename_to Active Rollback)) (rename_to Shadow Active))"

definition restore_rollback :: "folder \<Rightarrow> unit upgrade" where
  "restore_rollback d =
     and_then touch
     (and_then
       (bind_to (gets (present Active)) (\<lambda>a.
        if a then rename_to Active (failed_restored d)
        else when_present Shadow (rename_to Shadow (failed_restored d))))
       (bind_to (gets (present Rollback)) (\<lambda>r.
        let retained = (if r then Rollback else kept_rollback d) in
        when_present retained (rename_to retained Active))))"

definition restore_discard :: "folder \<Rightarrow> unit upgrade" where
  "restore_discard d = when_present Shadow (and_then touch (rename_to Shadow (failed_restored d)))"

definition restore_finalize :: "unit upgrade" where
  "restore_finalize =
     when_present Rollback
       (bind_to (gets (present (kept_rollback Backup_Folder))) (\<lambda>b.
        if b then throw Kept_Exists else rename_to Rollback (kept_rollback Backup_Folder)))"

definition restore_adapter :: "sqlite \<Rightarrow> adapter" where
  "restore_adapter D =
     \<lparr>ad_build = and_then check_cancel (sqlite_backup D Source Shadow), ad_validate = gets (valid_at D Shadow),
      ad_switch = restore_switch, ad_rollback = restore_rollback, ad_discard = restore_discard,
      ad_finalize = restore_finalize, ad_parsed = False\<rparr>"

text \<open>
  \<open>_MeshUpgradeAdapter\<close>: importing the raw logs is a parameter, the database and the parsed data it
  makes, with the schema test and the correction of the paths in the index.
\<close>

record mesh_import =
  mi_database :: string
  mi_parsed :: string
  mi_schema_ok :: "string option \<Rightarrow> bool"
  mi_rewrite :: "string \<Rightarrow> string"

definition mesh_build :: "mesh_import \<Rightarrow> unit upgrade" where
  "mesh_build M = steps
     [check_cancel,
      change (\<lambda>w. w\<lparr>wd_shadow_parsed := True\<rparr>),
      bind_to (gets (\<lambda>w. (\<exists>k \<in> {Main, Wal, Shm}. wd_files w (Shadow, k) \<noteq> None) \<or> present Shadow_Parsed w)) (\<lambda>b.
        only_if b (throw Shadow_Busy)),
      os_effect (change (put_file (Shadow_Parsed, Main) (Some []))),
      os_effect (change (put_file (Shadow, Main) (Some (mi_database M)))),
      os_effect (change (put_file (Shadow_Parsed, Main) (Some (mi_parsed M)))),
      touch]"

definition mesh_validate :: "sqlite \<Rightarrow> mesh_import \<Rightarrow> bool upgrade" where
  "mesh_validate D M =
     and_then (checkpoint_wal D Shadow) (gets (\<lambda>w. valid_at D Shadow w \<and> mi_schema_ok M (database D Shadow w)))"

definition mesh_switch :: "mesh_import \<Rightarrow> unit upgrade" where
  "mesh_switch M = steps
     [when_present Rollback (throw Rollback_Busy),
      move_sidecars Active Rollback,
      when_present Active (rename_to Active Rollback),
      when_present Active_Parsed (steps
        [change (\<lambda>w. w\<lparr>wd_rollback_parsed := True\<rparr>),
         when_present Rollback_Parsed (throw Rollback_Busy),
         rename_to Active_Parsed Rollback_Parsed]),
      move_sidecars Shadow Active,
      rename_to Shadow Active,
      bind_to (gets wd_shadow_parsed) (\<lambda>b. only_if b (when_present Shadow_Parsed (steps
        [rename_to Shadow_Parsed Active_Parsed,
         when_present Active (os_effect (change (\<lambda>w. put_file (Active, Main) (map_option (mi_rewrite M) (wd_files w (Active, Main))) w)))])))]"

definition mesh_rollback :: "folder \<Rightarrow> unit upgrade" where
  "mesh_rollback d =
     and_then touch
     (bind_to (unique_target d ''failed_new_database.sqlite'') (\<lambda>failed. steps
       [when_present Active (move_with_sidecars Active failed),
        when_present Shadow (bind_to (unique_path failed) (rename_to Shadow)),
        when_present Active_Parsed (bind_to (unique_target d ''failed_new_parsed'') (rename_to Active_Parsed)),
        bind_to (gets (present Rollback)) (\<lambda>r.
          let retained = (if r then Rollback else kept_rollback d) in
          when_present retained (move_with_sidecars retained Active)),
        bind_to (gets (\<lambda>w. wd_rollback_parsed w \<and> present Rollback_Parsed w)) (\<lambda>r.
          let retained = (if r then Rollback_Parsed else Stored d ''rollback_parsed'' 0) in
          when_present retained (rename_to retained Active_Parsed))]))"

definition mesh_discard :: "folder \<Rightarrow> unit upgrade" where
  "mesh_discard d = steps
     [touch,
      when_present Shadow (bind_to (unique_target d ''failed_new_database.sqlite'') (rename_to Shadow)),
      bind_to (gets wd_shadow_parsed) (\<lambda>b. only_if b (when_present Shadow_Parsed
        (bind_to (unique_target d ''failed_new_parsed'') (rename_to Shadow_Parsed))))]"

definition mesh_finalize :: "unit upgrade" where
  "mesh_finalize =
     (let parsed = Stored Backup_Folder ''rollback_parsed'' 0 in steps
     [when_present Rollback
        (and_then (when_present (kept_rollback Backup_Folder) (throw Kept_Exists)) (rename_to Rollback (kept_rollback Backup_Folder))),
      bind_to (gets wd_rollback_parsed) (\<lambda>b. only_if b (when_present Rollback_Parsed
        (and_then (when_present parsed (throw Kept_Exists)) (rename_to Rollback_Parsed parsed))))])"

definition mesh_adapter :: "sqlite \<Rightarrow> mesh_import \<Rightarrow> adapter" where
  "mesh_adapter D M =
     \<lparr>ad_build = mesh_build M, ad_validate = mesh_validate D M, ad_switch = mesh_switch M, ad_rollback = mesh_rollback,
      ad_discard = mesh_discard, ad_finalize = mesh_finalize, ad_parsed = True\<rparr>"

section \<open>Creating the backup\<close>

text \<open>\<open>DatabaseBackupStore.create\<close> answers whether there was a file and whether it is valid.\<close>

definition backup_database :: "folder \<Rightarrow> place" where
  "backup_database d = Stored d ''database.sqlite'' 0"

definition create_backup :: "sqlite \<Rightarrow> (bool \<times> bool) upgrade" where
  "create_backup D =
     and_then touch (and_then touch (and_then touch
     (bind_to
       (except_do
         (bind_to (gets (\<lambda>w. wd_files w (Active, Main))) (\<lambda>c.
          case c of
            None \<Rightarrow> ret (False, True)
          | Some [] \<Rightarrow> bind_to (gets (valid_at D Active)) (\<lambda>v. ret (True, v))
          | Some _ \<Rightarrow>
              and_then (sqlite_backup D Active (backup_database Backup_Folder))
                (bind_to (gets (valid_at D (backup_database Backup_Folder))) (\<lambda>v. ret (True, v)))))
         (\<lambda>e. and_then touch (and_then touch (throw e))))
       (\<lambda>r. and_then touch (and_then touch (and_then touch (ret r)))))))"

section \<open>The upgrade\<close>

record descriptor =
  ds_manual :: bool
  ds_hooks :: bool
  ds_version :: "string option \<Rightarrow> bool"
  ds_smoke :: "string option \<Rightarrow> bool"

text \<open>The hooks that pause and resume the writers.\<close>

definition close_hook :: "unit upgrade" where
  "close_hook = os_effect (change (\<lambda>w. w\<lparr>wd_paused := True\<rparr>))"

definition reopen_hook :: "unit upgrade" where
  "reopen_hook = os_effect (change (\<lambda>w. w\<lparr>wd_paused := False\<rparr>))"

definition safe_prepare_shadow :: "unit upgrade" where
  "safe_prepare_shadow =
     bind_to (gets (\<lambda>w. \<exists>k \<in> {Main, Wal, Shm}. wd_files w (Shadow, k) \<noteq> None)) (\<lambda>b.
     if b then throw Shadow_Busy else ret ())"

definition make_backup :: "sqlite \<Rightarrow> unit upgrade" where
  "make_backup D =
     bind_to (create_backup D) (\<lambda>(existed, ok).
     steps [change (\<lambda>w. w\<lparr>wd_backup := True, wd_existed := existed\<rparr>),
       when_present Active (only_if (\<not> ok)
         (and_then (journal_update Backup_Failed (\<lambda>j. j\<lparr>jn_backup := True\<rparr>)) (throw Backup_Invalid)))])"

text \<open>The \<open>try\<close> block of \<open>_upgrade_locked\<close>, one line per step of the source.\<close>

definition upgrade_body :: "sqlite \<Rightarrow> descriptor \<Rightarrow> adapter \<Rightarrow> unit upgrade" where
  "upgrade_body D ds ad = steps
     [check_cancel,
      only_if (ds_manual ds) (throw Manual_Required),
      only_if (ds_hooks ds) (and_then (change (\<lambda>w. w\<lparr>wd_closed := True\<rparr>)) close_hook),
      journal_update Pause_Writes id,
      checkpoint_wal D Active,
      journal_update Checkpoint id,
      make_backup D,
      journal_update Backup_Validated (\<lambda>j. j\<lparr>jn_backup := True\<rparr>),
      safe_prepare_shadow,
      when_present Rollback (throw Rollback_Busy),
      check_cancel,
      journal_update Shadow_Building id,
      ad_build ad,
      check_cancel,
      bind_to (ad_validate ad) (\<lambda>v. only_if (\<not> v) (throw Shadow_Invalid)),
      touch,
      bind_to (gets (database D Shadow)) (\<lambda>c. only_if (\<not> ds_version ds c) (throw Version_Mismatch)),
      journal_update Shadow_Validated (\<lambda>j. j\<lparr>jn_parsed := ad_parsed ad\<rparr>),
      check_cancel,
      change (\<lambda>w. w\<lparr>wd_switch_started := True\<rparr>),
      ad_switch ad,
      change (\<lambda>w. w\<lparr>wd_switched := True\<rparr>),
      journal_update Switched (\<lambda>j. j\<lparr>jn_switched := True\<rparr>),
      only_if (ds_hooks ds) reopen_hook,
      change (\<lambda>w. w\<lparr>wd_reopened := True\<rparr>),
      touch,
      bind_to (gets (database D Active)) (\<lambda>c. only_if (\<not> ds_smoke ds c)
        (and_then (journal_update Smoke_Failed id) (throw Smoke_Test_Failed))),
      journal_update Smoke_Validated id,
      ad_finalize ad,
      touch,
      journal_update Completed id]"

text \<open>\<open>_restore_active_from_backup_if_needed\<close>\<close>

definition restore_active_if_needed :: "sqlite \<Rightarrow> folder \<Rightarrow> bool upgrade" where
  "restore_active_if_needed D d =
     bind_to (gets id) (\<lambda>w.
     if \<not> wd_existed w then ret (\<not> present Active w)
     else if valid_at D Active w then ret True
     else if \<not> present (backup_database d) w then ret False
     else except_do (and_then (sqlite_backup D (backup_database d) Active) (gets (valid_at D Active))) (\<lambda>_. ret False))"

definition caught :: "unit upgrade \<Rightarrow> upgrade_error option upgrade" where
  "caught a = except_do (and_then a (ret None)) (\<lambda>e. ret (Some e))"

definition undo_switch :: "sqlite \<Rightarrow> descriptor \<Rightarrow> adapter \<Rightarrow> folder \<Rightarrow> unit upgrade" where
  "undo_switch D ds ad d =
     bind_to (gets (\<lambda>w. wd_switch_started w \<or> wd_switched w \<or> present Rollback w \<or>
                       wd_rollback_parsed w \<and> present Rollback_Parsed w)) (\<lambda>b.
     if b
     then and_then (only_if (ds_hooks ds) close_hook)
       (bind_to (caught (ad_rollback ad d)) (\<lambda>err.
        bind_to (restore_active_if_needed D d) (\<lambda>ok.
        if ok then journal_update Failed_Rolled_Back id
        else throw (case err of Some e \<Rightarrow> e | None \<Rightarrow> No_Database_Left))))
     else bind_to (gets (\<lambda>w. present Shadow w \<or> wd_shadow_parsed w)) (\<lambda>s.
       if s
       then except_do (and_then (ad_discard ad d) (journal_update Failed_Before_Switch id))
              (\<lambda>_. journal_update Diagnostic_Retention_Failed id)
       else journal_update Failed_Before_Switch id))"

text \<open>The \<open>except\<close> block\<close>

definition upgrade_failed :: "sqlite \<Rightarrow> descriptor \<Rightarrow> adapter \<Rightarrow> upgrade_error \<Rightarrow> unit upgrade" where
  "upgrade_failed D ds ad e =
     bind_to (gets wd_backup) (\<lambda>b. steps
     [journal_update Failed id,
      finally_do
        (except_do (undo_switch D ds ad (if b then Backup_Folder else Failed_Folder))
          (\<lambda>_. and_then (journal_update Rollback_Failed id) (throw Rollback_Raised)))
        (bind_to (gets (\<lambda>w. ds_hooks ds \<and> wd_closed w \<and> (\<not> wd_reopened w \<or> wd_switched w))) (\<lambda>b.
         only_if b reopen_hook)),
      throw e])"

definition fresh_variables :: "world \<Rightarrow> world" where
  "fresh_variables w = w\<lparr>wd_memory := new_journal, wd_switch_started := False, wd_switched := False, wd_reopened := False,
     wd_closed := False, wd_backup := False, wd_existed := False, wd_shadow_parsed := False, wd_rollback_parsed := False\<rparr>"

definition upgrade_locked :: "sqlite \<Rightarrow> descriptor \<Rightarrow> adapter \<Rightarrow> unit upgrade" where
  "upgrade_locked D ds ad = steps
     [change fresh_variables,
      journal_update Created (\<lambda>j. j\<lparr>jn_active := True\<rparr>),
      except_do (upgrade_body D ds ad) (upgrade_failed D ds ad)]"

section \<open>Recovery at the next start\<close>

definition TERMINAL_STAGES :: "stage list" where
  "TERMINAL_STAGES = [Completed, Production_Rolled_Back, Failed_Before_Switch, Failed_Rolled_Back, Diagnostic_Retention_Failed, Recovered_No_Switch,
     Recovered_Rollback, Recovered_From_Backup, Recovered_New_Database, Recovered_No_Existing_Database, Recovered_Production_Rollback]"

definition set_aside :: "place \<Rightarrow> folder \<Rightarrow> string \<Rightarrow> unit upgrade" where
  "set_aside p d name = when_present p (bind_to (unique_target d name) (move_with_sidecars p))"

definition set_aside_folder :: "bool \<Rightarrow> place \<Rightarrow> folder \<Rightarrow> string \<Rightarrow> unit upgrade" where
  "set_aside_folder known p d name = only_if known (when_present p (bind_to (unique_target d name) (rename_to p)))"

text \<open>The branch for a database that passed its smoke test.\<close>

definition keep_new_database :: "bool \<Rightarrow> folder \<Rightarrow> unit upgrade" where
  "keep_new_database parsed d = steps
     [set_aside Rollback d ''rollback_recovered.sqlite'',
      set_aside_folder parsed Rollback_Parsed d ''rollback_recovered_parsed'',
      set_aside Shadow d ''failed_recovered_shadow.sqlite'',
      set_aside_folder parsed Shadow_Parsed d ''failed_recovered_shadow_parsed'']"

text \<open>The branch for an interrupted switch without a rollback file; \<open>False\<close> when there is no backup.\<close>

definition recover_from_backup :: "sqlite \<Rightarrow> bool \<Rightarrow> folder \<Rightarrow> bool upgrade" where
  "recover_from_backup D parsed d =
     and_then (steps
       [set_aside Active d ''failed_recovered_database.sqlite'',
        set_aside_folder parsed Active_Parsed d ''failed_recovered_parsed'',
        when_present (Stored d ''rollback_parsed'' 0) (only_if parsed (rename_to (Stored d ''rollback_parsed'' 0) Active_Parsed))])
     (bind_to (gets (present (backup_database d))) (\<lambda>b.
      if b then and_then (sqlite_backup D (backup_database d) Active) (ret True) else ret False))"

definition recover_rollback :: "sqlite \<Rightarrow> folder \<Rightarrow> stage \<Rightarrow> stage upgrade" where
  "recover_rollback D d st =
     bind_to (gets id) (\<lambda>w.
     if st \<noteq> Recovered_From_Backup \<and> present Rollback w
     then and_then (steps [set_aside Active d ''failed_recovered_database.sqlite'', move_with_sidecars Rollback Active])
            (ret Recovered_Rollback)
     else if st \<noteq> Recovered_From_Backup \<and> \<not> present Active w
     then if present (backup_database d) w
          then and_then (sqlite_backup D (backup_database d) Active) (ret Recovered_From_Backup) else throw No_Backup
     else ret st)"

definition recover_rest :: "sqlite \<Rightarrow> bool \<Rightarrow> folder \<Rightarrow> stage \<Rightarrow> stage upgrade" where
  "recover_rest D parsed d st =
     and_then (steps
       [only_if parsed (when_present Rollback_Parsed
          (and_then (set_aside_folder True Active_Parsed d ''failed_recovered_parsed'') (rename_to Rollback_Parsed Active_Parsed))),
        set_aside Shadow d ''failed_recovered_shadow.sqlite'',
        set_aside_folder parsed Shadow_Parsed d ''failed_recovered_shadow_parsed''])
     (bind_to (gets (valid_at D Active)) (\<lambda>v. if v then ret st else throw Recovery_Invalid))"

text \<open>\<open>_recover_journal\<close> answers the last stage.\<close>

definition recover_journal :: "sqlite \<Rightarrow> journal \<Rightarrow> stage upgrade" where
  "recover_journal D j =
     (let d = (if jn_backup j then Backup_Folder else Recovery_Folder); parsed = jn_parsed j in
      if jn_stage j = Created \<and> \<not> jn_active j then ret Recovered_No_Switch
      else and_then touch (and_then touch
        (bind_to (gets id) (\<lambda>w.
         if jn_stage j = Smoke_Validated \<and> valid_at D Active w
         then and_then (keep_new_database parsed d) (ret Recovered_New_Database)
         else if jn_switched j \<and> jn_stage j \<in> {Switched, Smoke_Failed, Failed} \<and> \<not> present Rollback w
         then bind_to (recover_from_backup D parsed d) (\<lambda>ok.
              if ok then bind_to (recover_rollback D d Recovered_From_Backup) (recover_rest D parsed d)
              else ret Recovered_No_Existing_Database)
         else bind_to (recover_rollback D d Recovered_No_Switch) (recover_rest D parsed d)))))"

definition write_journal :: "journal \<Rightarrow> unit upgrade" where
  "write_journal j = os_effect (change (\<lambda>w. w\<lparr>wd_journal := Some j\<rparr>))"

datatype recovery = Skipped | Recovered stage | Recovery_Error

text \<open>
  \<open>recover_incomplete_upgrades\<close> for the journal of the operation, whose authority is confirmed. An error
  is written to the journal; an error of that is only recorded elsewhere.
\<close>

definition recover_upgrade :: "sqlite \<Rightarrow> recovery upgrade" where
  "recover_upgrade D =
     bind_to (gets wd_journal) (\<lambda>found.
     case found of
       None \<Rightarrow> ret Skipped
     | Some j \<Rightarrow>
         if jn_stage j \<in> set TERMINAL_STAGES then ret Skipped
         else except_do
           (bind_to (recover_journal D j) (\<lambda>st. and_then (write_journal (j\<lparr>jn_stage := st\<rparr>)) (ret (Recovered st))))
           (\<lambda>_. except_do (and_then (write_journal (j\<lparr>jn_stage := Recovery_Failed\<rparr>)) (ret Recovery_Error))
                  (\<lambda>_. ret Recovery_Error)))"

section \<open>Runs\<close>

definition example_sqlite :: sqlite where
  "example_sqlite = \<lparr>sq_merge = (\<lambda>c l. c), sq_intact = (\<lambda>t. t \<noteq> ''bad'')\<rparr>"

definition example_descriptor :: "(string option \<Rightarrow> bool) \<Rightarrow> descriptor" where
  "example_descriptor smoke = \<lparr>ds_manual = False, ds_hooks = True, ds_version = (\<lambda>_. True), ds_smoke = smoke\<rparr>"

definition example_world :: "((place \<times> part) \<times> string) list \<Rightarrow> fault list \<Rightarrow> world" where
  "example_world files faults =
     \<lparr>mc_faults = faults, wd_files = map_of files, wd_journal = None, wd_memory = new_journal, wd_switch_started = False,
      wd_switched = False, wd_reopened = False, wd_closed = False, wd_backup = False, wd_existed = False, wd_shadow_parsed = False,
      wd_rollback_parsed = False, wd_paused = False, wd_stamp = 0, wd_cancels = []\<rparr>"


end
