(* ===== verification/Upgrade_Undo.thy ===== *)
theory Upgrade_Undo
  imports Database_Upgrade
begin

text \<open>
  The upgrade of a database is safe: however it ends, and wherever the process dies, the next start
  finds a state from which it can go on. The conditions on the files are stated once; what the
  coordinator needs of an adapter is the locale \<open>upgrade_adapter\<close>.
\<close>

section \<open>Conditions on the files\<close>

type_synonym files = "place \<times> part \<Rightarrow> string option"

definition sound :: "sqlite \<Rightarrow> string \<Rightarrow> bool" where
  "sound D c = (c \<noteq> [] \<and> sq_intact D c)"

definition kept_ok :: "string \<Rightarrow> files \<Rightarrow> bool" where
  "kept_ok old F = (F (kept_rollback Backup_Folder, Main) \<in> {None, Some old})"

definition no_sidecars :: "files \<Rightarrow> bool" where
  "no_sidecars F = (\<forall>p. F (p, Wal) = None \<and> F (p, Shm) = None)"

text \<open>Before the backup: the database is where it was, its log may be beside it.\<close>

definition untouched :: "sqlite \<Rightarrow> string \<Rightarrow> files \<Rightarrow> bool" where
  "untouched D old F =
     (sound D old \<and> kept_ok old F \<and> (\<forall>p. p \<noteq> Active \<longrightarrow> F (p, Wal) = None \<and> F (p, Shm) = None) \<and> F (Rollback, Main) = None \<and>
      (\<exists>c. F (Active, Main) = Some c \<and> c \<noteq> [] \<and> sq_text D c (F (Active, Wal)) = old))"

text \<open>
  From the backup on: the old database is in the backup, the rollback file is the old database, and the
  active one is missing, the old one or a sound new one; in a world where only the process dies, a new
  one without a rollback file passed the smoke test.
\<close>

definition core :: "sqlite \<Rightarrow> (string option \<Rightarrow> bool) \<Rightarrow> string \<Rightarrow> bool \<Rightarrow> files \<Rightarrow> bool" where
  "core D sm old s F =
     (sound D old \<and> kept_ok old F \<and> no_sidecars F \<and> F (backup_database Backup_Folder, Main) = Some old \<and> F (Rollback, Main) \<in> {None, Some old} \<and>
      (\<forall>c. F (Active, Main) = Some c \<longrightarrow> c = old \<or> sound D c \<and> (s \<and> F (Rollback, Main) = None \<longrightarrow> sm (Some c))))"

definition prepared :: "sqlite \<Rightarrow> (string option \<Rightarrow> bool) \<Rightarrow> string \<Rightarrow> bool \<Rightarrow> files \<Rightarrow> bool" where
  "prepared D sm old s F = (core D sm old s F \<and> F (Active, Main) = Some old \<and> F (Rollback, Main) = None)"

text \<open>What the journal promises about the files.\<close>

definition plain_stage :: "stage \<Rightarrow> bool" where
  "plain_stage st = (st \<notin> set (Created # Smoke_Validated # TERMINAL_STAGES))"

definition plain_journal :: "journal \<Rightarrow> bool" where
  "plain_journal j = (plain_stage (jn_stage j) \<or> jn_stage j = Created \<and> \<not> jn_backup j)"

lemma plain_journal [simp]: "plain_stage (jn_stage j) \<Longrightarrow> plain_journal j"
  by (simp add: plain_journal_def)

definition fine :: "sqlite \<Rightarrow> (string option \<Rightarrow> bool) \<Rightarrow> string \<Rightarrow> bool \<Rightarrow> journal \<Rightarrow> files \<Rightarrow> bool" where
  "fine D sm old s j F =
     (if jn_backup j
      then core D sm old s F \<and> jn_stage j \<noteq> Created \<and> (jn_stage j \<in> set TERMINAL_STAGES \<longrightarrow> F (Active, Main) \<noteq> None) \<and>
        (s \<and> \<not> plain_stage (jn_stage j) \<longrightarrow>
           (\<forall>c. F (Active, Main) = Some c \<longrightarrow> c = old \<or> sm (Some c)))
      else untouched D old F \<and> \<not> jn_switched j)"

definition safe :: "sqlite \<Rightarrow> (string option \<Rightarrow> bool) \<Rightarrow> string \<Rightarrow> bool \<Rightarrow> world \<Rightarrow> bool" where
  "safe D sm old s w =
     (case wd_journal w of None \<Rightarrow> untouched D old (wd_files w) | Some j \<Rightarrow> fine D sm old s j (wd_files w))"

section \<open>What an adapter has to keep\<close>

text \<open>The variables of the coordinator; the adapter's own mark changes during the switch only.\<close>

definition same_vars :: "world \<Rightarrow> world \<Rightarrow> bool" where
  "same_vars w w' =
     (wd_journal w' = wd_journal w \<and> wd_memory w' = wd_memory w \<and> wd_switch_started w' = wd_switch_started w \<and>
      wd_switched w' = wd_switched w \<and> wd_reopened w' = wd_reopened w \<and> wd_closed w' = wd_closed w \<and> wd_backup w' = wd_backup w \<and>
      wd_existed w' = wd_existed w \<and> wd_paused w' = wd_paused w \<and>
      (wd_switch_started w \<or> wd_rollback_parsed w' = wd_rollback_parsed w))"

definition keeps_when :: "(world \<Rightarrow> bool) \<Rightarrow> bool \<Rightarrow> (files \<Rightarrow> bool) \<Rightarrow> 'a upgrade \<Rightarrow> ('a \<Rightarrow> files \<Rightarrow> bool) \<Rightarrow>
  (files \<Rightarrow> bool) \<Rightarrow> (files \<Rightarrow> bool) \<Rightarrow> bool" where
  "keeps_when g s P a Q E C =
     (\<forall>w. g w \<longrightarrow> may s (mc_faults w) \<longrightarrow> P (wd_files w) \<longrightarrow>
        wp a (\<lambda>x w'. may s (mc_faults w') \<and> same_vars w w' \<and> Q x (wd_files w'))
             (\<lambda>e w'. may s (mc_faults w') \<and> same_vars w w' \<and> E (wd_files w'))
             (\<lambda>w'. same_vars w w' \<and> C (wd_files w')) w)"

abbreviation keeps :: "bool \<Rightarrow> (files \<Rightarrow> bool) \<Rightarrow> 'a upgrade \<Rightarrow> ('a \<Rightarrow> files \<Rightarrow> bool) \<Rightarrow> (files \<Rightarrow> bool) \<Rightarrow> (files \<Rightarrow> bool) \<Rightarrow> bool" where
  "keeps \<equiv> keeps_when (\<lambda>_. True)"

definition new_active :: "sqlite \<Rightarrow> files \<Rightarrow> bool" where
  "new_active D F = (\<exists>c. F (Active, Main) = Some c \<and> sound D c)"

definition new_shadow :: "sqlite \<Rightarrow> files \<Rightarrow> bool" where
  "new_shadow D F = (\<exists>c. F (Shadow, Main) = Some c \<and> sound D c)"

definition passed :: "(string option \<Rightarrow> bool) \<Rightarrow> files \<Rightarrow> bool" where
  "passed sm F = (F (Active, Main) \<noteq> None \<and> sm (F (Active, Main)))"

text \<open>The handler of exceptions can take over.\<close>

definition handler_ok :: "sqlite \<Rightarrow> (string option \<Rightarrow> bool) \<Rightarrow> string \<Rightarrow> bool \<Rightarrow> descriptor \<Rightarrow> world \<Rightarrow> bool" where
  "handler_ok D sm old s ds w =
     (may s (mc_faults w) \<and> wd_journal w \<noteq> None \<and> safe D sm old s w \<and>
      fine D sm old s ((wd_memory w)\<lparr>jn_stage := Failed\<rparr>) (wd_files w) \<and>
      (wd_switch_started w \<longrightarrow> wd_backup w \<and> jn_backup (wd_memory w)) \<and>
      (\<not> wd_switch_started w \<longrightarrow> untouched D old (wd_files w) \<and> \<not> wd_switched w \<and> \<not> wd_rollback_parsed w) \<and>
      (wd_backup w \<longrightarrow> wd_existed w) \<and>
      (ds_hooks ds \<and> wd_switch_started w \<longrightarrow> wd_closed w) \<and> (wd_reopened w \<longrightarrow> wd_switched w) \<and>
      (wd_paused w \<longrightarrow> ds_hooks ds \<and> wd_closed w \<and> \<not> wd_reopened w))"

text \<open>What the undoing blocks leave: the writers can be resumed and the journal may be written.\<close>

definition undo_ok :: "sqlite \<Rightarrow> (string option \<Rightarrow> bool) \<Rightarrow> string \<Rightarrow> bool \<Rightarrow> descriptor \<Rightarrow> world \<Rightarrow> bool" where
  "undo_ok D sm old s ds w =
     (may s (mc_faults w) \<and> safe D sm old s w \<and> fine D sm old s ((wd_memory w)\<lparr>jn_stage := Rollback_Failed\<rparr>) (wd_files w) \<and>
      (wd_paused w \<longrightarrow> ds_hooks ds \<and> wd_closed w \<and> (\<not> wd_reopened w \<or> wd_switched w)))"

text \<open>What the caller gets when the upgrade raises.\<close>

definition raised_ok :: "sqlite \<Rightarrow> (string option \<Rightarrow> bool) \<Rightarrow> string \<Rightarrow> bool \<Rightarrow> world \<Rightarrow> bool" where
  "raised_ok D sm old s w =
     (safe D sm old s w \<and> (s \<longrightarrow> database D Active w = Some old \<and> \<not> wd_paused w))"

definition resume :: "descriptor \<Rightarrow> unit upgrade" where
  "resume ds = bind_to (gets (\<lambda>w. ds_hooks ds \<and> wd_closed w \<and> (\<not> wd_reopened w \<or> wd_switched w))) (\<lambda>b. only_if b reopen_hook)"

text \<open>The other variables do not matter to the files.\<close>

lemma database_other [simp]:
  "database D p (w\<lparr>mc_faults := a\<rparr>) = database D p w" "database D p (w\<lparr>wd_memory := b\<rparr>) = database D p w"
  "database D p (w\<lparr>wd_journal := c\<rparr>) = database D p w" "database D p (w\<lparr>wd_paused := d\<rparr>) = database D p w"
  "database D p (w\<lparr>wd_reopened := e\<rparr>) = database D p w" "database D p (w\<lparr>wd_switched := e\<rparr>) = database D p w"
  "database D p (w\<lparr>wd_switch_started := e\<rparr>) = database D p w" "database D p (w\<lparr>wd_cancels := f\<rparr>) = database D p w"
  by (simp_all add: database_def)

lemma safe_other [simp]:
  "safe D sm old s (w\<lparr>mc_faults := a\<rparr>) = safe D sm old s w" "safe D sm old s (w\<lparr>wd_memory := b\<rparr>) = safe D sm old s w"
  "safe D sm old s (w\<lparr>wd_paused := d\<rparr>) = safe D sm old s w" "safe D sm old s (w\<lparr>wd_reopened := e\<rparr>) = safe D sm old s w"
  "safe D sm old s (w\<lparr>wd_switched := e\<rparr>) = safe D sm old s w" "safe D sm old s (w\<lparr>wd_switch_started := e\<rparr>) = safe D sm old s w"
  "safe D sm old s (w\<lparr>wd_closed := e\<rparr>) = safe D sm old s w" "safe D sm old s (w\<lparr>wd_cancels := f\<rparr>) = safe D sm old s w"
  "safe D sm old s (w\<lparr>wd_backup := e\<rparr>) = safe D sm old s w" "safe D sm old s (w\<lparr>wd_existed := e\<rparr>) = safe D sm old s w"
  by (simp_all add: safe_def split: option.split)

lemma safe_journal [simp]: "safe D sm old s (w\<lparr>wd_journal := Some j\<rparr>) = fine D sm old s j (wd_files w)"
  by (simp add: safe_def)

lemma fine_plain: "plain_journal j \<Longrightarrow>
    fine D sm old s j F = (if jn_backup j then core D sm old s F else untouched D old F \<and> \<not> jn_switched j)"
  by (auto simp: fine_def plain_journal_def plain_stage_def)

lemma plain_stages [simp]: "plain_stage Failed" "plain_stage Rollback_Failed" "plain_stage Pause_Writes"
  "plain_stage Checkpoint" "plain_stage Backup_Failed" "plain_stage Backup_Validated" "plain_stage Shadow_Building"
  "plain_stage Shadow_Validated" "plain_stage Switched" "plain_stage Smoke_Failed" "plain_stage Recovery_Failed"
  by (simp_all add: plain_stage_def TERMINAL_STAGES_def)

locale upgrade_adapter =
  fixes D :: sqlite and sm :: "string option \<Rightarrow> bool" and old :: string and s :: bool and ad :: adapter
  assumes build_keeps: "keeps s (prepared D sm old s) (ad_build ad) (\<lambda>_. prepared D sm old s) (prepared D sm old s) (prepared D sm old s)"
    and validate_keeps: "keeps s (prepared D sm old s) (ad_validate ad) (\<lambda>v F. prepared D sm old s F \<and> (v \<longrightarrow> new_shadow D F))
      (prepared D sm old s) (prepared D sm old s)"
    and switch_keeps: "keeps_when wd_switch_started s (\<lambda>F. prepared D sm old s F \<and> new_shadow D F) (ad_switch ad)
      (\<lambda>_ F. core D sm old s F \<and> F (Rollback, Main) = Some old \<and> new_active D F) (core D sm old s) (core D sm old s)"
    and rollback_keeps: "keeps s (core D sm old s) (ad_rollback ad Backup_Folder)
      (\<lambda>_ F. core D sm old s F \<and> (s \<longrightarrow> F (Active, Main) \<in> {None, Some old})) (\<lambda>F. core D sm old s F \<and> \<not> s) (core D sm old s)"
    and discard_keeps: "keeps s (untouched D old) (ad_discard ad d) (\<lambda>_. untouched D old) (untouched D old) (untouched D old)"
    and discard_prepared: "keeps s (prepared D sm old s) (ad_discard ad d) (\<lambda>_. prepared D sm old s) (prepared D sm old s) (prepared D sm old s)"
    and finalize_keeps: "keeps s (\<lambda>F. core D sm old s F \<and> new_active D F \<and> passed sm F) (ad_finalize ad)
      (\<lambda>_ F. core D sm old s F \<and> new_active D F \<and> passed sm F) (\<lambda>F. core D sm old s F \<and> passed sm F) (\<lambda>F. core D sm old s F \<and> passed sm F)"
begin

lemma prepared_untouched: "prepared D sm old s F \<Longrightarrow> untouched D old F"
  by (auto simp: prepared_def core_def untouched_def no_sidecars_def sound_def)

lemma wp_keeps:
  assumes "keeps_when g s P a Q E C" "g w" "may s (mc_faults w)" "P (wd_files w)"
    and "\<And>x w'. may s (mc_faults w') \<Longrightarrow> same_vars w w' \<Longrightarrow> Q x (wd_files w') \<Longrightarrow> Q' x w'"
    and "\<And>e w'. may s (mc_faults w') \<Longrightarrow> same_vars w w' \<Longrightarrow> E (wd_files w') \<Longrightarrow> E' e w'"
    and "\<And>w'. same_vars w w' \<Longrightarrow> C (wd_files w') \<Longrightarrow> C' w'"
  shows "wp a Q' E' C' w"
  using assms(1-4) by (auto simp: keeps_when_def intro: wp_mono [OF _ assms(5-7)])

lemma wp_journal:
  assumes "may s (mc_faults w)"
    and "m = (f (wd_memory w))\<lparr>jn_stage := st\<rparr>"
    and "\<And>fs. may s fs \<Longrightarrow> Q () (w\<lparr>wd_memory := m, mc_faults := fs, wd_journal := Some m\<rparr>)"
    and "\<And>fs. may s fs \<Longrightarrow> \<not> s \<Longrightarrow> E OSError (w\<lparr>wd_memory := m, mc_faults := fs\<rparr>)"
    and "\<And>fs. may s fs \<Longrightarrow> C (w\<lparr>wd_memory := m, mc_faults := fs\<rparr>)"
  shows "wp (journal_update st f) Q E C w"
  unfolding journal_update_def os_effect_def wp_and_then wp_change
  by (rule wp_effect [where s = s]) (use assms in \<open>auto simp: wp_change\<close>)

lemma wp_caught: "wp (caught a) Q E C = wp a (\<lambda>_. Q None) (\<lambda>e. Q (Some e)) C"
  by (simp add: caught_def wp_simps)

text \<open>The undoing of a switch that was started.\<close>

lemma core_backed: "core D sm old s F \<Longrightarrow> F (Active, Main) \<noteq> None \<Longrightarrow> \<exists>c. F (Active, Main) = Some c \<and> sound D c"
  by (auto simp: core_def)

lemma core_valid: "core D sm old s (wd_files w) \<Longrightarrow> valid_at D Active w = present Active w"
  using core_backed [of "wd_files w"] 
  by (auto simp: valid_at_def present_def core_def no_sidecars_def sound_def split: option.splits)

lemma core_restored:
  "core D sm old s F \<Longrightarrow> core D sm old s (F((Active, Main) := Some old))"
  by (auto simp: core_def kept_ok_def no_sidecars_def kept_rollback_def backup_database_def)

lemma wp_restore_active:
  assumes w: "may s (mc_faults w)" "core D sm old s (wd_files w)" "wd_existed w"
    and old_active: "s \<Longrightarrow> wd_files w (Active, Main) \<in> {None, Some old}"
    and Q: "\<And>ok w'. may s (mc_faults w') \<Longrightarrow> same_vars w w' \<Longrightarrow> core D sm old s (wd_files w') \<Longrightarrow> (ok \<or> s \<Longrightarrow> ok \<and> present Active w') \<Longrightarrow>
       (s \<Longrightarrow> wd_files w' (Active, Main) = Some old) \<Longrightarrow> Q ok w'"
    and C: "\<And>w'. same_vars w w' \<Longrightarrow> core D sm old s (wd_files w') \<Longrightarrow> C w'"
  shows "wp (restore_active_if_needed D Backup_Folder) Q E C w"
proof -
  have copy: "wp (sqlite_backup D (backup_database Backup_Folder) Active)
      (\<lambda>_ w'. Q (valid_at D Active w') w') (\<lambda>_ w'. Q False w') C w"
    unfolding sqlite_backup_def os_effect_def
  proof (rule wp_effect [OF w(1)])
    fix fs assume fs: "may s fs"
    let ?w = "w\<lparr>mc_faults := fs\<rparr>" let ?v = "w\<lparr>mc_faults := fs, wd_files := (wd_files w)((Active, Main) := Some old)\<rparr>"
    have core: "core D sm old s (wd_files ?v)" using core_restored [OF w(2)] by simp
    have "Q (valid_at D Active ?v) ?v"
      by (rule Q) (use fs core core_valid [OF core] in \<open>auto simp: same_vars_def present_def\<close>)
    moreover have "wd_files w (backup_database Backup_Folder, Main) = Some old" "wd_files w (backup_database Backup_Folder, Wal) = None"
      using w(2) by (auto simp: core_def no_sidecars_def)
    ultimately show "wp (\<lambda>w. case wd_files w (backup_database Backup_Folder, Main) of None \<Rightarrow> throw Empty_Source w
        | Some c \<Rightarrow> if c = [] then throw Empty_Source w
          else change (put_file (Active, Main) (Some (sq_text D c (wd_files w (backup_database Backup_Folder, Wal))))) w)
        (\<lambda>_ w'. Q (valid_at D Active w') w') (\<lambda>_ w'. Q False w') C ?w"
      using w(2) by (simp add: wp_def change_def put_file_def core_def sound_def)
  next
    fix fs assume fs: "may s fs" "\<not> s"
    show "Q False (w\<lparr>mc_faults := fs\<rparr>)" by (rule Q) (use fs w in \<open>auto simp: same_vars_def\<close>)
  next
    fix fs show "C (w\<lparr>mc_faults := fs\<rparr>)" by (rule C) (use w in \<open>auto simp: same_vars_def\<close>)
  qed
  have there: "present (backup_database Backup_Folder) w" using w(2) by (auto simp: core_def present_def)
  have ready: "Q True w" if "present Active w"
    by (rule Q) (use w old_active that in \<open>auto simp: same_vars_def present_def\<close>)
  show ?thesis
    using ready copy by (simp add: restore_active_if_needed_def wp_simps w(3) core_valid [OF w(2)] there)
qed

lemma fine_terminal: "core D sm old s F \<Longrightarrow> F (Active, Main) = Some old \<Longrightarrow> jn_backup j \<Longrightarrow> jn_stage j \<noteq> Created \<Longrightarrow> fine D sm old s j F"
  by (simp add: fine_def)

lemma database_old: "core D sm old s (wd_files w) \<Longrightarrow> wd_files w (Active, Main) = Some old \<Longrightarrow> database D Active w = Some old"
  by (simp add: database_def core_def no_sidecars_def)

lemma database_untouched: "untouched D old (wd_files w) \<Longrightarrow> database D Active w = Some old"
  by (auto simp: untouched_def database_def)

lemma wp_undo_started:
  assumes w: "may s (mc_faults w)" "core D sm old s (wd_files w)" "wd_existed w" "jn_backup (wd_memory w)"
      "wd_journal w = Some (wd_memory w)" "jn_stage (wd_memory w) = Failed"
      "wd_paused w \<Longrightarrow> ds_hooks ds \<and> wd_closed w \<and> (\<not> wd_reopened w \<or> wd_switched w)"
  shows "wp (bind_to (caught (ad_rollback ad Backup_Folder)) (\<lambda>err. bind_to (restore_active_if_needed D Backup_Folder) (\<lambda>ok.
      if ok then journal_update Failed_Rolled_Back id else throw (case err of Some e \<Rightarrow> e | None \<Rightarrow> No_Database_Left))))
    (\<lambda>_ w'. undo_ok D sm old s ds w' \<and> (s \<longrightarrow> database D Active w' = Some old)) (\<lambda>_ w'. undo_ok D sm old s ds w' \<and> \<not> s) (safe D sm old s) w"
    (is "wp _ ?Q ?E ?C w")
proof -
  have rest: "wp (bind_to (restore_active_if_needed D Backup_Folder) (\<lambda>ok.
      if ok then journal_update Failed_Rolled_Back id else throw (e :: upgrade_error))) ?Q ?E ?C w1"
    if w1: "may s (mc_faults w1)" "same_vars w w1" "core D sm old s (wd_files w1)" "s \<Longrightarrow> wd_files w1 (Active, Main) \<in> {None, Some old}" for w1 e
    unfolding wp_bind
  proof (rule wp_restore_active)
    show "may s (mc_faults w1)" "core D sm old s (wd_files w1)" "s \<Longrightarrow> wd_files w1 (Active, Main) \<in> {None, Some old}" by (fact w1)+
    show "wd_existed w1" using w1(2) w(3) by (simp add: same_vars_def)
  next
    fix w' assume "same_vars w1 w'" "core D sm old s (wd_files w')"
    then show "safe D sm old s w'"
      using w w1(2) by (simp add: safe_def same_vars_def fine_plain)
  next
    fix ok w' assume w': "may s (mc_faults w')" "same_vars w1 w'" "core D sm old s (wd_files w')" "ok \<or> s \<Longrightarrow> ok \<and> present Active w'"
      "s \<Longrightarrow> wd_files w' (Active, Main) = Some old"
    have vars: "wd_memory w' = wd_memory w" "wd_journal w' = Some (wd_memory w)" "wd_paused w' = wd_paused w" "wd_closed w' = wd_closed w"
      "wd_reopened w' = wd_reopened w" "wd_switched w' = wd_switched w"
      using w1(2) w'(2) w(5) by (auto simp: same_vars_def)
    have plain: "fine D sm old s j (wd_files w')" if "plain_journal j" "jn_backup j" for j
      using that w'(3) by (simp add: fine_plain)
    have final: "fine D sm old s ((wd_memory w)\<lparr>jn_stage := Failed_Rolled_Back\<rparr>) (wd_files w')" if "ok"
      using w'(3-5) w(4) that by (auto simp: fine_def present_def)
    show "wp (if ok then journal_update Failed_Rolled_Back id else throw e) ?Q ?E ?C w'"
    proof (cases ok)
      case True
      have paused: "wd_paused w \<longrightarrow> ds_hooks ds \<and> wd_closed w \<and> (\<not> wd_reopened w \<or> wd_switched w)" using w(7) by blast
      have old_db: "s \<Longrightarrow> database D Active w' = Some old" by (rule database_old [OF w'(3) w'(5)])
      have "wp (journal_update Failed_Rolled_Back id) ?Q ?E ?C w'"
      proof (rule wp_journal [OF w'(1) refl])
        fix fs assume fs: "may s fs"
        show "?Q () (w'\<lparr>wd_memory := (id (wd_memory w'))\<lparr>jn_stage := Failed_Rolled_Back\<rparr>, mc_faults := fs,
            wd_journal := Some ((id (wd_memory w'))\<lparr>jn_stage := Failed_Rolled_Back\<rparr>)\<rparr>)"
          using fs final [OF True] paused old_db by (simp add: undo_ok_def safe_def vars plain w(4))
      next
        fix fs assume fs: "may s fs" "\<not> s"
        show "?E OSError (w'\<lparr>wd_memory := (id (wd_memory w'))\<lparr>jn_stage := Failed_Rolled_Back\<rparr>, mc_faults := fs\<rparr>)"
          using fs(1) paused by (intro conjI fs(2)) (simp add: undo_ok_def safe_def vars plain w(4,6))
      next
        fix fs
        show "?C (w'\<lparr>wd_memory := (id (wd_memory w'))\<lparr>jn_stage := Failed_Rolled_Back\<rparr>, mc_faults := fs\<rparr>)"
          by (simp add: safe_def vars plain w(4,6))
      qed
      then show ?thesis using True by simp
    next
      case False
      have paused: "wd_paused w \<longrightarrow> ds_hooks ds \<and> wd_closed w \<and> (\<not> wd_reopened w \<or> wd_switched w)" using w(7) by blast
      have "\<not> s" using w'(4) False by blast
      moreover have "undo_ok D sm old s ds w'" using w'(1) paused by (simp add: undo_ok_def safe_def vars plain w(4,6))
      ultimately show ?thesis using False by (simp add: wp_simps)
    qed
  qed
  show ?thesis
    unfolding wp_bind [of "caught _"] wp_caught
  proof (rule wp_keeps [OF rollback_keeps TrueI w(1,2)], goal_cases)
    case (1 x w')
    show ?case by (rule rest) (use 1 in auto)
  next
    case (2 e w')
    show ?case by (rule rest) (use 2 in auto)
  next
    case (3 w')
    then show ?case using w by (simp add: safe_def same_vars_def fine_plain)
  qed
qed

lemma wp_os_change:
  assumes "may s (mc_faults w)"
    and "\<And>fs. may s fs \<Longrightarrow> Q () (f (w\<lparr>mc_faults := fs\<rparr>))"
    and "\<And>fs. may s fs \<Longrightarrow> \<not> s \<Longrightarrow> E OSError (w\<lparr>mc_faults := fs\<rparr>)"
    and "\<And>fs. may s fs \<Longrightarrow> C (w\<lparr>mc_faults := fs\<rparr>)"
  shows "wp (os_effect (change f)) Q E C w"
  unfolding os_effect_def by (rule wp_effect [where s = s]) (use assms in \<open>auto simp: wp_change\<close>)

lemma untouched_core: "untouched D old F \<Longrightarrow> core D sm old s F \<Longrightarrow> prepared D sm old s F"
  by (auto simp: untouched_def core_def prepared_def no_sidecars_def)

text \<open>Discarding the shadow of an upgrade that did not reach the switch.\<close>

lemma wp_undo_unstarted:
  assumes w: "may s (mc_faults w)" "untouched D old (wd_files w)" "fine D sm old s (wd_memory w) (wd_files w)"
      "wd_journal w = Some (wd_memory w)" "jn_stage (wd_memory w) = Failed"
      "wd_paused w \<longrightarrow> ds_hooks ds \<and> wd_closed w \<and> (\<not> wd_reopened w \<or> wd_switched w)"
  shows "wp (bind_to (gets (\<lambda>w. present Shadow w \<or> wd_shadow_parsed w)) (\<lambda>p.
       if p then except_do (and_then (ad_discard ad d) (journal_update Failed_Before_Switch id))
              (\<lambda>_. journal_update Diagnostic_Retention_Failed id)
       else journal_update Failed_Before_Switch id))
    (\<lambda>_ w'. undo_ok D sm old s ds w' \<and> (s \<longrightarrow> database D Active w' = Some old)) (\<lambda>_ w'. undo_ok D sm old s ds w' \<and> \<not> s) (safe D sm old s) w"
    (is "wp _ ?Q ?E ?C w")
proof -
  define P where "P F = (if jn_backup (wd_memory w) then prepared D sm old s F else untouched D old F)" for F
  have switched: "jn_backup (wd_memory w) \<or> \<not> jn_switched (wd_memory w)" using w(3) by (auto simp: fine_def)
  have P_fine: "fine D sm old s ((wd_memory w)\<lparr>jn_stage := st\<rparr>) F" if "P F" "st \<noteq> Created" for st F
    using that switched by (auto simp: P_def fine_def prepared_def split: if_splits)
  have P_db: "database D Active w' = Some old" if "P (wd_files w')" for w'
    using that by (auto simp: P_def prepared_def dest: database_untouched database_old split: if_splits)
  have P: "P (wd_files w)" using w(2,3) untouched_core by (auto simp: P_def fine_plain w(5))
  have discard: "keeps s P (ad_discard ad d) (\<lambda>_. P) P P"
    using discard_keeps [of d] discard_prepared [of d] by (cases "jn_backup (wd_memory w)") (simp_all add: P_def [abs_def])
  have memory: "wd_memory w = (wd_memory w)\<lparr>jn_stage := Failed\<rparr>" using w(5) by simp
  define R where "R w' = (may s (mc_faults w') \<and> P (wd_files w') \<and> wd_journal w' = Some (wd_memory w) \<and>
      (\<exists>st. wd_memory w' = (wd_memory w)\<lparr>jn_stage := st\<rparr>) \<and>
      (wd_paused w' \<longrightarrow> ds_hooks ds \<and> wd_closed w' \<and> (\<not> wd_reopened w' \<or> wd_switched w')))" for w' :: world
  have R_safe: "safe D sm old s w'" if "R w'" for w'
    using that P_fine [of _ Failed] by (simp add: R_def safe_def memory [symmetric])
  have R_undo: "undo_ok D sm old s ds w'" if "R w'" for w'
    using that R_safe [OF that] P_fine by (auto simp: R_def undo_ok_def)
  have R_step: "R (w'\<lparr>wd_memory := (wd_memory w')\<lparr>jn_stage := st\<rparr>, mc_faults := fs\<rparr>)" if "R w'" "may s fs" for w' st fs
    using that by (auto simp: R_def)
  have wr: "wp (journal_update st id) ?Q (\<lambda>_ w'. R w' \<and> \<not> s) ?C w'" if R: "R w'" and st: "st \<noteq> Created" for st w'
  proof (rule wp_journal [OF _ refl])
    show "may s (mc_faults w')" using R by (simp add: R_def)
  next
    fix fs assume "may s fs"
    then show "?Q () (w'\<lparr>wd_memory := (id (wd_memory w'))\<lparr>jn_stage := st\<rparr>, mc_faults := fs,
        wd_journal := Some ((id (wd_memory w'))\<lparr>jn_stage := st\<rparr>)\<rparr>)"
      using R st P_fine P_db by (auto simp: R_def undo_ok_def safe_def)
  next
    fix fs assume "may s fs" "\<not> s"
    then show "R (w'\<lparr>wd_memory := (id (wd_memory w'))\<lparr>jn_stage := st\<rparr>, mc_faults := fs\<rparr>) \<and> \<not> s" using R_step [OF R] by simp
  next
    fix fs assume "may s fs"
    then show "?C (w'\<lparr>wd_memory := (id (wd_memory w'))\<lparr>jn_stage := st\<rparr>, mc_faults := fs\<rparr>)" using R_safe [OF R_step [OF R]] by simp
  qed
  have last: "wp (journal_update st id) ?Q ?E ?C w'" if "R w'" "st \<noteq> Created" for st w'
    by (rule wp_mono [OF wr [OF that]]) (use R_undo in blast)+
  have stage: "\<exists>st. wd_memory w = (wd_memory w)\<lparr>jn_stage := st\<rparr>" by (rule exI [of _ Failed]) (rule memory)
  have kept: "R w'" if "may s (mc_faults w')" "same_vars w w'" "P (wd_files w')" for w'
    using that w(4,6) stage by (simp add: R_def same_vars_def)
  have R: "R w" by (rule kept) (use w(1) P in \<open>simp_all add: same_vars_def\<close>)
  have crashed: "safe D sm old s w'" if "same_vars w w'" "P (wd_files w')" for w'
    using that w(4) P_fine [of _ Failed] by (simp add: safe_def same_vars_def memory [symmetric])
  have "wp (except_do (and_then (ad_discard ad d) (journal_update Failed_Before_Switch id)) (\<lambda>_. journal_update Diagnostic_Retention_Failed id)) ?Q ?E ?C w"
    unfolding wp_except wp_and_then
  proof (rule wp_keeps [OF discard TrueI w(1) P], goal_cases)
    case (1 x w')
    show ?case by (rule wp_mono [OF wr [OF kept [OF 1]]]) (use last in blast)+
  next
    case (2 e w')
    show ?case by (rule last [OF kept [OF 2]]) simp
  next
    case (3 w')
    then show ?case by (rule crashed)
  qed
  then show ?thesis using last [OF R] by (simp add: wp_bind wp_gets)
qed

lemma wp_undo:
  assumes w: "handler_ok D sm old s ds w" "wd_journal w = Some (wd_memory w)" "jn_stage (wd_memory w) = Failed"
  shows "wp (undo_switch D ds ad (if wd_backup w then Backup_Folder else Failed_Folder))
    (\<lambda>_ w'. undo_ok D sm old s ds w' \<and> (s \<longrightarrow> database D Active w' = Some old)) (\<lambda>_ w'. undo_ok D sm old s ds w' \<and> \<not> s) (safe D sm old s) w"
    (is "wp _ ?Q ?E ?C w")
proof (cases "wd_switch_started w")
  case True
  have facts: "may s (mc_faults w)" "core D sm old s (wd_files w)" "wd_existed w" "jn_backup (wd_memory w)" "wd_backup w"
      "ds_hooks ds \<longrightarrow> wd_closed w" "wd_reopened w \<longrightarrow> wd_switched w" "wd_paused w \<longrightarrow> ds_hooks ds \<and> wd_closed w \<and> \<not> wd_reopened w"
    using w True by (auto simp: handler_ok_def fine_plain)
  have "wp (only_if (ds_hooks ds) close_hook) (\<lambda>_. wp (bind_to (caught (ad_rollback ad Backup_Folder)) (\<lambda>err.
       bind_to (restore_active_if_needed D Backup_Folder) (\<lambda>ok.
       if ok then journal_update Failed_Rolled_Back id else throw (case err of Some e \<Rightarrow> e | None \<Rightarrow> No_Database_Left)))) ?Q ?E ?C) ?E ?C w"
  proof (cases "ds_hooks ds")
    case True
    have "wp close_hook (\<lambda>_. wp (bind_to (caught (ad_rollback ad Backup_Folder)) (\<lambda>err.
       bind_to (restore_active_if_needed D Backup_Folder) (\<lambda>ok.
       if ok then journal_update Failed_Rolled_Back id else throw (case err of Some e \<Rightarrow> e | None \<Rightarrow> No_Database_Left)))) ?Q ?E ?C) ?E ?C w"
      unfolding close_hook_def
    proof (rule wp_os_change [OF facts(1)], goal_cases)
      case (1 fs)
      show ?case by (rule wp_undo_started) (use 1 facts w True in auto)
    next
      case (2 fs)
      have "undo_ok D sm old s ds (w\<lparr>mc_faults := fs\<rparr>)"
        using 2(1) facts w(2,3) True by (simp add: undo_ok_def safe_def fine_plain)
      with 2(2) show ?case by blast
    next
      case (3 fs)
      then show ?case using facts w by (simp add: safe_def fine_plain)
    qed
    then show ?thesis using True by (simp add: wp_only_if)
  next
    case False
    have "wp (bind_to (caught (ad_rollback ad Backup_Folder)) (\<lambda>err.
       bind_to (restore_active_if_needed D Backup_Folder) (\<lambda>ok.
       if ok then journal_update Failed_Rolled_Back id else throw (case err of Some e \<Rightarrow> e | None \<Rightarrow> No_Database_Left)))) ?Q ?E ?C w"
      by (rule wp_undo_started) (use facts w False in auto)
    then show ?thesis using False by (simp add: wp_only_if)
  qed
  then show ?thesis using True facts(5) by (simp add: undo_switch_def wp_bind wp_gets wp_and_then)
next
  case False
  have facts: "may s (mc_faults w)" "untouched D old (wd_files w)" "fine D sm old s (wd_memory w) (wd_files w)"
      "wd_paused w \<longrightarrow> ds_hooks ds \<and> wd_closed w \<and> (\<not> wd_reopened w \<or> wd_switched w)" "\<not> wd_switched w" "\<not> wd_rollback_parsed w"
      "\<not> present Rollback w"
    using w False by (auto simp: handler_ok_def safe_def untouched_def present_def)
  show ?thesis
    using wp_undo_unstarted [OF facts(1-3) w(2,3) facts(4)] False facts(5-7) by (simp add: undo_switch_def wp_bind wp_gets)
qed

lemma wp_resume:
  assumes w: "undo_ok D sm old s ds w" "s \<Longrightarrow> database D Active w = Some old"
  shows "wp (resume ds) (\<lambda>_. raised_ok D sm old s) (\<lambda>_. raised_ok D sm old s) (safe D sm old s) w"
proof (cases "ds_hooks ds \<and> wd_closed w \<and> (\<not> wd_reopened w \<or> wd_switched w)")
  case True
  have "wp reopen_hook (\<lambda>_. raised_ok D sm old s) (\<lambda>_. raised_ok D sm old s) (safe D sm old s) w"
    unfolding reopen_hook_def
    by (rule wp_os_change) (use w in \<open>auto simp: undo_ok_def raised_ok_def\<close>)
  then show ?thesis using True by (simp add: resume_def wp_bind wp_gets wp_only_if)
next
  case False
  have "raised_ok D sm old s w" using False w by (auto simp: undo_ok_def raised_ok_def)
  then show ?thesis unfolding resume_def wp_bind wp_gets wp_only_if by (simp only: False if_False)
qed

lemma undo_other [simp]: "wd_backup (w\<lparr>wd_memory := m, mc_faults := fs, wd_journal := j\<rparr>) = wd_backup w"
  by simp

lemma wp_upgrade_failed:
  assumes w: "handler_ok D sm old s ds w"
  shows "wp (upgrade_failed D ds ad e) Q (\<lambda>_. raised_ok D sm old s) (safe D sm old s) w"
proof -
  let ?d = "if wd_backup w then Backup_Folder else Failed_Folder"
  let ?E = "\<lambda>_ :: upgrade_error. raised_ok D sm old s" and ?C = "safe D sm old s"
  have blocks: "wp (finally_do (except_do (undo_switch D ds ad ?d) (\<lambda>_. and_then (journal_update Rollback_Failed id) (throw Rollback_Raised)))
      (resume ds)) (\<lambda>_. raised_ok D sm old s) ?E ?C w1"
    if w1: "handler_ok D sm old s ds w1" "wd_journal w1 = Some (wd_memory w1)" "jn_stage (wd_memory w1) = Failed" "wd_backup w1 = wd_backup w"
    for w1
    unfolding wp_finally wp_except wp_and_then wp_throw
  proof (rule wp_mono [OF wp_undo [OF w1(1-3), unfolded w1(4)]])
    fix x w' assume "undo_ok D sm old s ds w' \<and> (s \<longrightarrow> database D Active w' = Some old)"
    then show "wp (resume ds) (\<lambda>_. raised_ok D sm old s) ?E ?C w'" by (auto intro: wp_resume)
  next
    fix x :: upgrade_error and w' assume w': "undo_ok D sm old s ds w' \<and> \<not> s"
    show "wp (journal_update Rollback_Failed id) (\<lambda>_. wp (resume ds) (\<lambda>_. ?E Rollback_Raised) ?E ?C) (\<lambda>e. wp (resume ds) (\<lambda>_. ?E e) ?E ?C) ?C w'"
    proof (rule wp_journal [OF _ refl])
      show "may s (mc_faults w')" using w' by (simp add: undo_ok_def)
    next
      fix fs assume "may s fs"
      then show "wp (resume ds) (\<lambda>_. ?E Rollback_Raised) ?E ?C (w'\<lparr>wd_memory := (id (wd_memory w'))\<lparr>jn_stage := Rollback_Failed\<rparr>,
          mc_faults := fs, wd_journal := Some ((id (wd_memory w'))\<lparr>jn_stage := Rollback_Failed\<rparr>)\<rparr>)"
        using w' by (intro wp_resume) (auto simp: undo_ok_def)
    next
      fix fs assume "may s fs"
      then show "wp (resume ds) (\<lambda>_. ?E OSError) ?E ?C (w'\<lparr>wd_memory := (id (wd_memory w'))\<lparr>jn_stage := Rollback_Failed\<rparr>, mc_faults := fs\<rparr>)"
        using w' by (intro wp_resume) (auto simp: undo_ok_def)
    next
      fix fs
      show "?C (w'\<lparr>wd_memory := (id (wd_memory w'))\<lparr>jn_stage := Rollback_Failed\<rparr>, mc_faults := fs\<rparr>)"
        using w' [THEN conjunct1] by (simp add: undo_ok_def)
    qed
  qed
  have "wp (journal_update Failed id) (\<lambda>_. wp (steps [finally_do (except_do (undo_switch D ds ad ?d)
        (\<lambda>_. and_then (journal_update Rollback_Failed id) (throw Rollback_Raised))) (resume ds), throw e]) Q ?E ?C) ?E ?C w"
  proof (rule wp_journal [OF _ refl])
    show "may s (mc_faults w)" using w by (simp add: handler_ok_def)
  next
    fix fs assume "may s fs"
    then show "wp (steps [finally_do (except_do (undo_switch D ds ad ?d)
        (\<lambda>_. and_then (journal_update Rollback_Failed id) (throw Rollback_Raised))) (resume ds), throw e]) Q ?E ?C
       (w\<lparr>wd_memory := (id (wd_memory w))\<lparr>jn_stage := Failed\<rparr>, mc_faults := fs, wd_journal := Some ((id (wd_memory w))\<lparr>jn_stage := Failed\<rparr>)\<rparr>)"
      using w unfolding wp_steps wp_throw
      by (intro wp_mono [OF blocks]) (auto simp: handler_ok_def fine_plain)
  next
    fix fs assume "may s fs" "\<not> s"
    then show "raised_ok D sm old s (w\<lparr>wd_memory := (id (wd_memory w))\<lparr>jn_stage := Failed\<rparr>, mc_faults := fs\<rparr>)"
      using w by (auto simp: handler_ok_def raised_ok_def)
  next
    fix fs
    show "?C (w\<lparr>wd_memory := (id (wd_memory w))\<lparr>jn_stage := Failed\<rparr>, mc_faults := fs\<rparr>)"
      using w by (auto simp: handler_ok_def)
  qed
  then show ?thesis
    unfolding upgrade_failed_def resume_def wp_bind [of "gets wd_backup"] wp_gets wp_steps .
qed

end

end
