(* ===== verification/Upgrade_Steps.thy ===== *)
theory Upgrade_Steps
  imports Upgrade_Undo
begin

text \<open>
  The steps of \<open>_upgrade_locked\<close> with any adapter: after every step the handler of exceptions can take
  over, and before every effect the files and the journal are safe.
\<close>

section \<open>Between two steps\<close>

text \<open>
  \<open>b\<close>: the journal has the backup; \<open>wb\<close>: the variable has it; \<open>st\<close>, \<open>sw\<close>, \<open>ro\<close>: the switch was started,
  was done, the writers were resumed; \<open>hk\<close>: the step of the hooks is past.
\<close>

definition running :: "bool \<Rightarrow> descriptor \<Rightarrow> bool \<Rightarrow> (files \<Rightarrow> bool) \<Rightarrow> bool \<Rightarrow> bool \<Rightarrow> bool \<Rightarrow> bool \<Rightarrow> bool \<Rightarrow> world \<Rightarrow> bool" where
  "running s ds hk F0 b wb st sw ro w =
     (may s (mc_faults w) \<and> F0 (wd_files w) \<and>
      (\<exists>j. wd_journal w = Some j \<and> jn_backup j = b \<and> (jn_switched j \<longrightarrow> b) \<and> plain_journal j) \<and>
      jn_backup (wd_memory w) = b \<and> (jn_switched (wd_memory w) \<longrightarrow> b) \<and> wd_backup w = wb \<and> (wb \<longrightarrow> wd_existed w) \<and>
      wd_switch_started w = st \<and> wd_switched w = sw \<and> wd_reopened w = ro \<and> (\<not> st \<longrightarrow> \<not> wd_rollback_parsed w) \<and>
      (hk \<longrightarrow> ds_hooks ds \<longrightarrow> wd_closed w) \<and> (wd_paused w \<longrightarrow> ds_hooks ds \<and> wd_closed w \<and> \<not> ro))"

text \<open>What the files have to be for this, and the order in which the marks are set.\<close>

definition good :: "sqlite \<Rightarrow> (string option \<Rightarrow> bool) \<Rightarrow> string \<Rightarrow> bool \<Rightarrow> (files \<Rightarrow> bool) \<Rightarrow> bool \<Rightarrow> bool \<Rightarrow> bool" where
  "good D sm old s F0 b st =
     (\<forall>F. F0 F \<longrightarrow> (if b then core D sm old s F else untouched D old F) \<and> (\<not> st \<longrightarrow> untouched D old F))"

definition order :: "bool \<Rightarrow> bool \<Rightarrow> bool \<Rightarrow> bool \<Rightarrow> bool \<Rightarrow> bool \<Rightarrow> bool" where
  "order hk b wb st sw ro = ((b \<longrightarrow> wb) \<and> (st \<longrightarrow> b \<and> hk) \<and> (sw \<longrightarrow> st) \<and> (ro \<longrightarrow> sw))"

lemma runningD:
  assumes "running s ds hk F0 b wb st sw ro w"
  shows "may s (mc_faults w)" "F0 (wd_files w)" "jn_backup (wd_memory w) = b" "jn_switched (wd_memory w) \<longrightarrow> b"
    "wd_backup w = wb" "wb \<longrightarrow> wd_existed w" "wd_switch_started w = st" "wd_switched w = sw" "wd_reopened w = ro"
    "\<not> st \<longrightarrow> \<not> wd_rollback_parsed w" "hk \<longrightarrow> ds_hooks ds \<longrightarrow> wd_closed w"
    "wd_paused w \<longrightarrow> ds_hooks ds \<and> wd_closed w \<and> \<not> ro"
  using assms unfolding running_def by blast+

lemma running_journal:
  assumes "running s ds hk F0 b wb st sw ro w"
  obtains j where "wd_journal w = Some j" "jn_backup j = b" "jn_switched j \<longrightarrow> b" "plain_journal j"
  using assms unfolding running_def by blast

lemma goodD: "good D sm old s F0 b st \<Longrightarrow> F0 F \<Longrightarrow> b \<Longrightarrow> core D sm old s F"
  "good D sm old s F0 b st \<Longrightarrow> F0 F \<Longrightarrow> \<not> b \<Longrightarrow> untouched D old F"
  "good D sm old s F0 b st \<Longrightarrow> F0 F \<Longrightarrow> \<not> st \<Longrightarrow> untouched D old F"
  unfolding good_def by auto

lemma fine_good:
  "good D sm old s F0 b st \<Longrightarrow> F0 F \<Longrightarrow> plain_journal j \<Longrightarrow> jn_backup j = b \<Longrightarrow> jn_switched j \<longrightarrow> b \<Longrightarrow> fine D sm old s j F"
  by (cases b) (auto simp: fine_plain good_def)

lemma running_safe: "running s ds hk F0 b wb st sw ro w \<Longrightarrow> good D sm old s F0 b st \<Longrightarrow> safe D sm old s w"
proof -
  assume r: "running s ds hk F0 b wb st sw ro w" and g: "good D sm old s F0 b st"
  obtain j where j: "wd_journal w = Some j" "jn_backup j = b" "jn_switched j \<longrightarrow> b" "plain_journal j"
    by (rule running_journal [OF r])
  show ?thesis using fine_good [OF g runningD(2) [OF r] j(4,2,3)] by (simp add: safe_def j(1))
qed

lemma running_handler:
  assumes r: "running s ds hk F0 b wb st sw ro w" "good D sm old s F0 b st" "order hk b wb st sw ro"
  shows "handler_ok D sm old s ds w"
proof -
  note f = runningD [OF r(1)]
  have "fine D sm old s ((wd_memory w)\<lparr>jn_stage := Failed\<rparr>) (wd_files w)"
    by (rule fine_good [OF r(2) f(2)]) (use f(3,4) in simp_all)
  moreover have "safe D sm old s w" "wd_journal w \<noteq> None" using r(1,2) running_safe by (auto elim: running_journal)
  moreover have "\<not> st \<Longrightarrow> untouched D old (wd_files w)" by (rule goodD(3) [OF r(2) f(2)])
  ultimately show ?thesis using f(1,3,5-12) r(3) by (simp add: handler_ok_def order_def) blast
qed

context upgrade_adapter
begin

lemma running_faults: "running s ds hk F0 b wb st sw ro w \<Longrightarrow> may s fs \<Longrightarrow> running s ds hk F0 b wb st sw ro (w\<lparr>mc_faults := fs\<rparr>)"
  by (simp add: running_def)

lemma wp_run_cancel:
  assumes "running s ds hk F0 b wb st sw ro w" "good D sm old s F0 b st" "order hk b wb st sw ro"
  shows "wp check_cancel (\<lambda>_. running s ds hk F0 b wb st sw ro) (\<lambda>_. handler_ok D sm old s ds) (safe D sm old s) w"
proof -
  have "running s ds hk F0 b wb st sw ro (w\<lparr>wd_cancels := cs\<rparr>)" for cs using assms(1) by (simp add: running_def)
  then show ?thesis
    using running_handler [OF _ assms(2,3)] assms(1)
    by (auto simp: wp_def check_cancel_def ret_def throw_def split: list.split)
qed

lemma wp_run_touch:
  assumes "running s ds hk F0 b wb st sw ro w" "good D sm old s F0 b st" "order hk b wb st sw ro"
  shows "wp touch (\<lambda>_. running s ds hk F0 b wb st sw ro) (\<lambda>_. handler_ok D sm old s ds) (safe D sm old s) w"
  unfolding touch_def os_effect_def
proof (rule wp_effect [of s], goal_cases)
  case 1
  show ?case using assms(1) by (simp add: running_def)
next
  case (2 fs)
  then show ?case by (simp add: wp_ret running_faults [OF assms(1)])
next
  case (3 fs)
  then show ?case by (intro running_handler [OF running_faults [OF assms(1)] assms(2,3)])
next
  case (4 fs)
  then show ?case by (intro running_safe [OF running_faults [OF assms(1)] assms(2)])
qed

lemma wp_run_journal:
  assumes r: "running s ds hk F0 b wb st sw ro w" "good D sm old s F0 b st" "order hk b wb st sw ro"
    and stage: "plain_stage stg" "jn_backup (f (wd_memory w)) = jn_backup (wd_memory w)"
      "jn_switched (f (wd_memory w)) \<longrightarrow> jn_switched (wd_memory w) \<or> jn_backup (wd_memory w)"
  shows "wp (journal_update stg f) (\<lambda>_. running s ds hk F0 b wb st sw ro) (\<lambda>_. handler_ok D sm old s ds) (safe D sm old s) w"
proof -
  have mem: "running s ds hk F0 b wb st sw ro (w\<lparr>wd_memory := (f (wd_memory w))\<lparr>jn_stage := stg\<rparr>, mc_faults := fs\<rparr>)" if "may s fs" for fs
    using r(1) that stage(2,3) by (auto simp: running_def)
  show ?thesis
  proof (rule wp_journal [OF _ refl], goal_cases)
    case 1
    show ?case using r(1) by (simp add: running_def)
  next
    case (2 fs)
    then show ?case using r(1) stage by (auto simp: running_def)
  next
    case (3 fs)
    then show ?case by (intro running_handler [OF mem r(2,3)])
  next
    case (4 fs)
    then show ?case by (intro running_safe [OF mem r(2)])
  qed
qed

text \<open>The journal gets the backup.\<close>

lemma wp_run_backed:
  assumes r: "running s ds hk F0 False True False False False w" "good D sm old s F0 True False" "order hk False True False False False"
  shows "wp (journal_update Backup_Validated (\<lambda>j. j\<lparr>jn_backup := True\<rparr>)) (\<lambda>_. running s ds hk F0 True True False False False)
    (\<lambda>_. handler_ok D sm old s ds) (safe D sm old s) w"
proof (rule wp_journal [OF _ refl], goal_cases)
  case 1
  show ?case using r(1) by (simp add: running_def)
next
  case (2 fs)
  then show ?case using r(1) by (auto simp: running_def)
next
  case (3 fs)
  have F: "core D sm old s (wd_files w)" "untouched D old (wd_files w)" using r(2) runningD(2) [OF r(1)] by (auto simp: good_def)
  have "fine D sm old s j (wd_files w)" if "jn_backup j = False" "jn_switched j \<longrightarrow> False" "plain_journal j" for j
    using that F by (simp add: fine_plain)
  then have "safe D sm old s w" using running_journal [OF r(1)] by (metis option.simps(5) safe_def)
  moreover have "wd_journal w \<noteq> None" using running_journal [OF r(1)] by blast
  ultimately show ?case using 3(1) F runningD [OF r(1)] by (simp add: handler_ok_def fine_plain)
next
  case (4 fs)
  have F: "untouched D old (wd_files w)" using r(2) runningD(2) [OF r(1)] by (auto simp: good_def)
  then have "fine D sm old s j (wd_files w)" if "jn_backup j = False" "jn_switched j \<longrightarrow> False" "plain_journal j" for j
    using that by (simp add: fine_plain)
  then have "safe D sm old s w" using running_journal [OF r(1)] by (metis option.simps(5) safe_def)
  then show ?case by simp
qed

text \<open>A step of the adapter.\<close>

lemma wp_run_keeps:
  assumes r: "running s ds hk F0 b wb st sw ro w" "order hk b wb st sw ro"
    and a: "keeps_when g s P a Q E C" "g w" "\<And>F. F0 F \<Longrightarrow> P F" "good D sm old s E b st" "good D sm old s C b st"
    and Q: "\<And>x w'. running s ds hk (Q x) b wb st sw ro w' \<Longrightarrow> wd_journal w' = wd_journal w \<Longrightarrow> Q' x w'"
  shows "wp a Q' (\<lambda>_. handler_ok D sm old s ds) (safe D sm old s) w"
proof -
  have same: "running s ds hk F1 b wb st sw ro w'" if "same_vars w w'" "may s (mc_faults w')" "F1 (wd_files w')" for w' F1
    using that r(1) unfolding running_def same_vars_def by auto
  show ?thesis
proof (rule wp_keeps [OF a(1,2)], goal_cases)
  case 1
  show ?case using r(1) by (simp add: running_def)
next
  case 2
  show ?case using r(1) a(3) by (simp add: running_def)
next
  case (3 x w')
  then show ?case using same [of w' "Q x"] by (intro Q) (auto simp: same_vars_def)
next
  case (4 e w')
  then show ?case using same [of w' E] by (intro running_handler [OF _ a(4) r(2)]) auto
next
  case (5 w')
  obtain j where j: "wd_journal w = Some j" "jn_backup j = b" "jn_switched j \<longrightarrow> b" "plain_journal j"
    by (rule running_journal [OF r(1)])
  have "fine D sm old s j (wd_files w')" by (rule fine_good [OF a(5) 5(2) j(4,2,3)])
  then show ?case using 5(1) j(1) by (simp add: safe_def same_vars_def)
qed
qed

end

lemma wp_next: "wp a (\<lambda>_. P) E C w \<Longrightarrow> (\<And>w'. P w' \<Longrightarrow> wp (steps as) Q E C w') \<Longrightarrow> wp (steps (a # as)) Q E C w"
  unfolding wp_steps by (rule wp_mono)

section \<open>The steps up to the backup\<close>

definition settled :: "sqlite \<Rightarrow> string \<Rightarrow> files \<Rightarrow> bool" where
  "settled D old F = (sound D old \<and> kept_ok old F \<and> no_sidecars F \<and> F (Rollback, Main) = None \<and> F (Active, Main) = Some old)"

text \<open>What is known once the new database passed.\<close>

definition finishing :: "sqlite \<Rightarrow> (string option \<Rightarrow> bool) \<Rightarrow> string \<Rightarrow> bool \<Rightarrow> descriptor \<Rightarrow> world \<Rightarrow> bool" where
  "finishing D sm old s ds w =
     (may s (mc_faults w) \<and> core D sm old s (wd_files w) \<and> new_active D (wd_files w) \<and> passed sm (wd_files w) \<and>
      (\<exists>j. wd_journal w = Some j \<and> jn_backup j \<and> jn_stage j = Smoke_Validated) \<and> jn_backup (wd_memory w) \<and>
      wd_backup w \<and> wd_existed w \<and> wd_switch_started w \<and> wd_switched w \<and> wd_reopened w \<and> (ds_hooks ds \<longrightarrow> wd_closed w) \<and> \<not> wd_paused w)"

definition done_ok :: "sqlite \<Rightarrow> (string option \<Rightarrow> bool) \<Rightarrow> string \<Rightarrow> bool \<Rightarrow> world \<Rightarrow> bool" where
  "done_ok D sm old s w =
     (safe D sm old s w \<and> core D sm old s (wd_files w) \<and> map_option jn_stage (wd_journal w) = Some Completed \<and> new_active D (wd_files w) \<and> passed sm (wd_files w) \<and>
      \<not> wd_paused w)"

context upgrade_adapter
begin

lemma good_untouched [simp]: "good D sm old s (untouched D old) False False"
  by (simp add: good_def)

lemma settled_untouched: "settled D old F \<Longrightarrow> untouched D old F"
  by (auto simp: settled_def untouched_def no_sidecars_def sound_def)

lemma good_settled [simp]: "good D sm old s (settled D old) False False"
  by (simp add: good_def settled_untouched)

lemma good_prepared [simp]: "good D sm old s (prepared D sm old s) b False"
  by (auto simp: good_def prepared_untouched) (simp add: prepared_def)

lemma wp_run_hooks:
  assumes r: "running s ds False (untouched D old) False False False False False w"
  shows "wp (only_if (ds_hooks ds) (and_then (change (\<lambda>w. w\<lparr>wd_closed := True\<rparr>)) close_hook))
    (\<lambda>_. running s ds True (untouched D old) False False False False False) (\<lambda>_. handler_ok D sm old s ds) (safe D sm old s) w"
proof -
  let ?w = "w\<lparr>wd_closed := True\<rparr>"
  have o: "order hk False False False False False" for hk by (simp add: order_def)
  have r': "running s ds True (untouched D old) False False False False False (?w\<lparr>mc_faults := fs\<rparr>)" if "ds_hooks ds" "may s fs" for fs
    using r that unfolding running_def by simp
  have p: "running s ds True (untouched D old) False False False False False (?w\<lparr>mc_faults := fs, wd_paused := True\<rparr>)"
    if "ds_hooks ds" "may s fs" for fs
    using r that unfolding running_def by simp
  have hook: "wp close_hook (\<lambda>_. running s ds True (untouched D old) False False False False False) (\<lambda>_. handler_ok D sm old s ds)
      (safe D sm old s) ?w" if h: "ds_hooks ds"
    unfolding close_hook_def
  proof (rule wp_os_change, goal_cases)
    case 1
    show ?case using runningD(1) [OF r] by simp
  next
    case (2 fs)
    show ?case using p [OF h 2] by simp
  next
    case (3 fs)
    show ?case by (rule running_handler [OF r' [OF h 3(1)] good_untouched o])
  next
    case (4 fs)
    show ?case by (rule running_safe [OF r' [OF h 4] good_untouched])
  qed
  have "running s ds True (untouched D old) False False False False False w" if "\<not> ds_hooks ds"
    using r that unfolding running_def by simp
  then show ?thesis using hook by (simp add: wp_only_if wp_and_then wp_change)
qed

lemma wp_run_checkpoint:
  assumes r: "running s ds True (untouched D old) False False False False False w"
  shows "wp (checkpoint_wal D Active) (\<lambda>_. running s ds True (settled D old) False False False False False)
    (\<lambda>_. handler_ok D sm old s ds) (safe D sm old s) w"
proof -
  have o: "order True False False False False False" by (simp add: order_def)
  obtain c where c: "wd_files w (Active, Main) = Some c" "c \<noteq> []" "sq_text D c (wd_files w (Active, Wal)) = old"
    using runningD(2) [OF r] by (auto simp: untouched_def)
  have run: "wp (checkpoint_wal D Active) Q E C w = wp (os_effect (change (put_file (Active, Wal) None \<circ> put_file (Active, Shm) None \<circ>
      put_file (Active, Main) (Some old)))) Q E C w" for Q E C
    by (simp add: wp_def checkpoint_wal_def c)
  show ?thesis unfolding run
  proof (rule wp_os_change, goal_cases)
    case 1
    show ?case using runningD(1) [OF r] .
  next
    case (2 fs)
    then show ?case using r unfolding running_def
      by (auto simp: put_file_def settled_def untouched_def kept_ok_def kept_rollback_def no_sidecars_def)
  next
    case (3 fs)
    show ?case by (rule running_handler [OF running_faults [OF r 3(1)] good_untouched o])
  next
    case (4 fs)
    show ?case by (rule running_safe [OF running_faults [OF r 4] good_untouched])
  qed
qed

lemma wp_seq: "wp a (\<lambda>_. P) E C w \<Longrightarrow> (\<And>w'. P w' \<Longrightarrow> wp b Q E C w') \<Longrightarrow> wp (and_then a b) Q E C w"
  unfolding wp_and_then by (rule wp_mono)

lemma settled_prepared: "settled D old F \<Longrightarrow> F (backup_database Backup_Folder, Main) = Some old \<Longrightarrow> prepared D sm old s F"
  by (simp add: settled_def prepared_def core_def)

lemma wp_run_copy:
  assumes r: "running s ds True (settled D old) False False False False False w"
  shows "wp (sqlite_backup D Active (backup_database Backup_Folder)) (\<lambda>_. running s ds True (prepared D sm old s) False False False False False)
    (\<lambda>_. running s ds True (settled D old) False False False False False) (safe D sm old s) w"
proof -
  have F: "wd_files w (Active, Main) = Some old" "wd_files w (Active, Wal) = None" "old \<noteq> []"
    using runningD(2) [OF r] by (auto simp: settled_def no_sidecars_def sound_def)
  show ?thesis unfolding sqlite_backup_def os_effect_def
  proof (rule wp_effect [of s], goal_cases)
    case 1
    show ?case using runningD(1) [OF r] .
  next
    case (2 fs)
    have "prepared D sm old s ((wd_files w)((backup_database Backup_Folder, Main) := Some old))"
      by (rule settled_prepared)
        (use runningD(2) [OF r] in \<open>auto simp: settled_def kept_ok_def kept_rollback_def backup_database_def no_sidecars_def\<close>)
    then have "running s ds True (prepared D sm old s) False False False False False
        (w\<lparr>mc_faults := fs, wd_files := (wd_files w)((backup_database Backup_Folder, Main) := Some old)\<rparr>)"
      using r 2 unfolding running_def by simp
    then show ?case by (simp add: wp_def change_def put_file_def F)
  next
    case (3 fs)
    show ?case by (rule running_faults [OF r 3(1)])
  next
    case (4 fs)
    show ?case by (rule running_safe [OF running_faults [OF r 4] good_settled])
  qed
qed

lemma order_start [simp]: "order hk False wb False False False"
  by (simp add: order_def)

lemma wp_create_backup:
  assumes r: "running s ds True (settled D old) False False False False False w"
  shows "wp (create_backup D) (\<lambda>x w'. x = (True, True) \<and> running s ds True (prepared D sm old s) False False False False False w')
    (\<lambda>_. handler_ok D sm old s ds) (safe D sm old s) w"
    (is "wp _ ?Q ?E ?C w")
proof -
  note touch_settled = wp_run_touch [OF _ good_settled order_start]
  note touch_prepared = wp_run_touch [OF _ good_prepared order_start]
  let ?S = "running s ds True (settled D old) False False False False False"
  let ?P = "running s ds True (prepared D sm old s) False False False False False"
  have ends: "wp (and_then touch (and_then touch (and_then touch (ret (True, True))))) ?Q ?E ?C w'" if "?P w'" for w'
    by (intro wp_seq [OF touch_prepared [OF that]] wp_seq [OF touch_prepared]) (auto simp: wp_ret)
  have caught: "wp (and_then touch (and_then touch (throw e))) Q ?E ?C w'" if "?S w'" for w' and e :: upgrade_error and Q :: "bool \<times> bool \<Rightarrow> _"
    by (intro wp_seq [OF touch_settled [OF that]] wp_seq [OF touch_settled]) (auto simp: wp_throw intro: running_handler)
  have valid: "valid_at D (backup_database Backup_Folder) w'" if "?P w'" for w'
    using runningD(2) [OF that] by (auto simp: prepared_def core_def no_sidecars_def valid_at_def sound_def)
  have copy: "wp (bind_to (except_do
      (bind_to (gets (\<lambda>w. wd_files w (Active, Main))) (\<lambda>c.
       case c of
         None \<Rightarrow> ret (False, True)
       | Some [] \<Rightarrow> bind_to (gets (valid_at D Active)) (\<lambda>v. ret (True, v))
       | Some _ \<Rightarrow> and_then (sqlite_backup D Active (backup_database Backup_Folder))
             (bind_to (gets (valid_at D (backup_database Backup_Folder))) (\<lambda>v. ret (True, v)))))
      (\<lambda>e. and_then touch (and_then touch (throw e))))
     (\<lambda>r. and_then touch (and_then touch (and_then touch (ret r))))) ?Q ?E ?C w'" if S: "?S w'" for w'
  proof -
    obtain x xs where old: "old = x # xs" using runningD(2) [OF S] by (cases old) (auto simp: settled_def sound_def)
    have A: "wd_files w' (Active, Main) = Some (x # xs)" using runningD(2) [OF S] by (simp add: settled_def old)
    show ?thesis unfolding wp_bind wp_except wp_gets A
      by (simp add: wp_and_then [of "sqlite_backup _ _ _"] wp_bind wp_gets wp_ret)
        (rule wp_mono [OF wp_run_copy [OF S]], use ends valid caught in auto)
  qed
  show ?thesis unfolding create_backup_def
    by (intro wp_seq [OF touch_settled [OF r]] wp_seq [OF touch_settled] copy)
qed

lemma wp_run_backup:
  assumes r: "running s ds True (settled D old) False False False False False w"
  shows "wp (make_backup D) (\<lambda>_. running s ds True (prepared D sm old s) False True False False False)
    (\<lambda>_. handler_ok D sm old s ds) (safe D sm old s) w"
  unfolding make_backup_def wp_bind
proof (rule wp_mono [OF wp_create_backup [OF r]], goal_cases)
  case (1 x w')
  then have "running s ds True (prepared D sm old s) False True False False False (w'\<lparr>wd_backup := True, wd_existed := True\<rparr>)"
    unfolding running_def by auto
  then show ?case using 1 by (simp add: wp_simps when_present_def)
qed

text \<open>A test that may end the upgrade.\<close>

lemma wp_run_test:
  assumes "running s ds hk F0 b wb st sw ro w" "good D sm old s F0 b st" "order hk b wb st sw ro"
  shows "wp (bind_to (gets c) (\<lambda>x. only_if x (throw e))) (\<lambda>_ w'. running s ds hk F0 b wb st sw ro w' \<and> \<not> c w') (\<lambda>_. handler_ok D sm old s ds) C w"
  using assms running_handler [OF assms] by (simp add: wp_simps)

section \<open>The switch\<close>

definition switched_files :: "files \<Rightarrow> bool" where
  "switched_files F = (core D sm old s F \<and> F (Rollback, Main) = Some old \<and> new_active D F)"

lemma good_core: "(\<And>F. F0 F \<Longrightarrow> core D sm old s F) \<Longrightarrow> good D sm old s F0 True True"
  by (simp add: good_def)

lemma good_switched: "good D sm old s switched_files True True"
  by (rule good_core) (simp add: switched_files_def)

lemma order_switch [simp]: "order True True True True sw False" "order True True True True True True" "order True True True False False False"
  by (simp_all add: order_def)

lemma wp_run_switch:
  assumes r: "running s ds True (\<lambda>F. prepared D sm old s F \<and> new_shadow D F) True True False False False w"
  shows "wp (steps [change (\<lambda>w. w\<lparr>wd_switch_started := True\<rparr>), ad_switch ad, change (\<lambda>w. w\<lparr>wd_switched := True\<rparr>),
      journal_update Switched (\<lambda>j. j\<lparr>jn_switched := True\<rparr>), only_if (ds_hooks ds) reopen_hook, change (\<lambda>w. w\<lparr>wd_reopened := True\<rparr>)])
    (\<lambda>_. running s ds True switched_files True True True True True) (\<lambda>_. handler_ok D sm old s ds) (safe D sm old s) w"
    (is "wp _ ?Q ?E ?C w")
proof -
  let ?P = "\<lambda>F. prepared D sm old s F \<and> new_shadow D F"
  have start: "running s ds True ?P True True True False False (w\<lparr>wd_switch_started := True\<rparr>)"
    using r unfolding running_def by simp
  have core: "good D sm old s (core D sm old s) True True" by (rule good_core)
  have switch: "wp (ad_switch ad) (\<lambda>_. running s ds True switched_files True True True False False) ?E ?C (w\<lparr>wd_switch_started := True\<rparr>)"
    by (rule wp_run_keeps [OF start order_switch(1) switch_keeps _ _ core core]) (auto simp: switched_files_def [abs_def])
  have mark: "running s ds True switched_files True True True True False (w'\<lparr>wd_switched := True\<rparr>)"
    if "running s ds True switched_files True True True False False w'" for w'
    using that unfolding running_def by simp
  have journal: "wp (journal_update Switched (\<lambda>j. j\<lparr>jn_switched := True\<rparr>)) (\<lambda>_. running s ds True switched_files True True True True False) ?E ?C w'"
    if "running s ds True switched_files True True True True False w'" for w'
    by (rule wp_run_journal [OF that good_switched order_switch(1)]) (use runningD(3) [OF that] in simp_all)
  have reopen: "wp (only_if (ds_hooks ds) reopen_hook) (\<lambda>_ w'. running s ds True switched_files True True True True False w' \<and> \<not> wd_paused w') ?E ?C w'"
    if r: "running s ds True switched_files True True True True False w'" for w'
  proof (cases "ds_hooks ds")
    case True
    have "wp reopen_hook (\<lambda>_ w'. running s ds True switched_files True True True True False w' \<and> \<not> wd_paused w') ?E ?C w'"
      unfolding reopen_hook_def
    proof (rule wp_os_change, goal_cases)
      case 1
      show ?case using runningD(1) [OF r] .
    next
      case (2 fs)
      then show ?case using r unfolding running_def by simp
    next
      case (3 fs)
      show ?case by (rule running_handler [OF running_faults [OF r 3(1)] good_switched order_switch(1)])
    next
      case (4 fs)
      show ?case by (rule running_safe [OF running_faults [OF r 4] good_switched])
    qed
    then show ?thesis using True by (simp add: wp_only_if)
  next
    case False
    then show ?thesis using r runningD(12) [OF r] by (simp add: wp_only_if)
  qed
  have last: "running s ds True switched_files True True True True True (w'\<lparr>wd_reopened := True\<rparr>)"
    if "running s ds True switched_files True True True True False w'" "\<not> wd_paused w'" for w'
    using that unfolding running_def by simp
  show ?thesis unfolding wp_steps wp_change
    by (rule wp_mono [OF switch] wp_mono [OF journal] wp_mono [OF reopen] mark last | assumption | simp)+
qed

section \<open>The end of the upgrade\<close>

lemma wp_run_smoke:
  assumes sm: "ds_smoke ds = sm" and r: "running s ds True switched_files True True True True True w"
  shows "wp (bind_to (gets (database D Active)) (\<lambda>c. only_if (\<not> ds_smoke ds c) (and_then (journal_update Smoke_Failed id) (throw Smoke_Test_Failed))))
    (\<lambda>_. running s ds True (\<lambda>F. switched_files F \<and> passed sm F) True True True True True) (\<lambda>_. handler_ok D sm old s ds) (safe D sm old s) w"
proof (cases "ds_smoke ds (database D Active w)")
  case True
  have "database D Active w = wd_files w (Active, Main)"
    using runningD(2) [OF r] by (auto simp: switched_files_def new_active_def core_def no_sidecars_def database_def)
  then have "passed sm (wd_files w)"
    using True sm runningD(2) [OF r] by (auto simp: passed_def switched_files_def new_active_def)
  then have "running s ds True (\<lambda>F. switched_files F \<and> passed sm F) True True True True True w" using r unfolding running_def by simp
  then show ?thesis using True by (simp add: wp_bind wp_gets wp_only_if)
next
  case False
  have "wp (and_then (journal_update Smoke_Failed id) (throw Smoke_Test_Failed))
    (\<lambda>_. running s ds True (\<lambda>F. switched_files F \<and> passed sm F) True True True True True) (\<lambda>_. handler_ok D sm old s ds) (safe D sm old s) w"
    by (rule wp_seq [OF wp_run_journal [OF r good_switched order_switch(2)]])
      (use runningD(4) [OF r] in \<open>auto simp: wp_throw intro: running_handler [OF _ good_switched order_switch(2)]\<close>)
  then show ?thesis using False by (simp add: wp_bind wp_gets wp_only_if)
qed

lemma wp_run_validated:
  assumes r: "running s ds True (\<lambda>F. switched_files F \<and> passed sm F) True True True True True w"
  shows "wp (journal_update Smoke_Validated id) (\<lambda>_. finishing D sm old s ds) (\<lambda>_. handler_ok D sm old s ds) (safe D sm old s) w"
proof (rule wp_journal [OF _ refl], goal_cases)
  case 1
  show ?case using runningD(1) [OF r] .
next
  case (2 fs)
  then show ?case using runningD [OF r] by (simp add: finishing_def switched_files_def)
next
  case (3 fs)
  have "running s ds True (\<lambda>F. switched_files F \<and> passed sm F) True True True True True
      (w\<lparr>wd_memory := (id (wd_memory w))\<lparr>jn_stage := Smoke_Validated\<rparr>, mc_faults := fs\<rparr>)"
    using r 3(1) unfolding running_def by simp
  then show ?case by (rule running_handler [OF _ good_core order_switch(2)]) (simp add: switched_files_def)
next
  case (4 fs)
  have "safe D sm old s w" by (rule running_safe [OF r good_core]) (simp add: switched_files_def)
  then show ?case by simp
qed

lemma finishing_safe: "finishing D sm old s ds w \<Longrightarrow> safe D sm old s w"
  by (auto simp: finishing_def safe_def fine_def passed_def TERMINAL_STAGES_def)

lemma finishing_handler:
  assumes f: "finishing D sm old s ds w"
  shows "handler_ok D sm old s ds w"
proof -
  have "fine D sm old s ((wd_memory w)\<lparr>jn_stage := Failed\<rparr>) (wd_files w)" using f by (simp add: finishing_def fine_plain)
  moreover have "wd_journal w \<noteq> None" using f by (auto simp: finishing_def)
  ultimately show ?thesis using finishing_safe [OF f] f unfolding handler_ok_def finishing_def by blast
qed

lemma finishing_faults: "finishing D sm old s ds w \<Longrightarrow> may s fs \<Longrightarrow> finishing D sm old s ds (w\<lparr>mc_faults := fs\<rparr>)"
  by (simp add: finishing_def)

lemma wp_finish_adapter:
  assumes f: "finishing D sm old s ds w"
  shows "wp (ad_finalize ad) (\<lambda>_. finishing D sm old s ds) (\<lambda>_. handler_ok D sm old s ds) (safe D sm old s) w"
proof (rule wp_keeps [OF finalize_keeps TrueI], goal_cases)
  case 1
  show ?case using f by (simp add: finishing_def)
next
  case 2
  show ?case using f by (simp add: finishing_def)
next
  case (3 x w')
  then show ?case using f unfolding finishing_def same_vars_def by auto
next
  case (4 e w')
  have core: "core D sm old s (wd_files w')" "passed sm (wd_files w')" using 4(3) by auto
  have "new_active D (wd_files w')" using core core_backed by (auto simp: passed_def new_active_def)
  then have "finishing D sm old s ds w'" using 4 f core unfolding finishing_def same_vars_def by auto
  then show ?case by (rule finishing_handler)
next
  case (5 w')
  obtain j where j: "wd_journal w = Some j" "jn_backup j" "jn_stage j = Smoke_Validated" using f by (auto simp: finishing_def)
  show ?case using 5 j by (auto simp: safe_def same_vars_def fine_def passed_def TERMINAL_STAGES_def)
qed

lemma wp_finish_touch:
  assumes f: "finishing D sm old s ds w"
  shows "wp touch (\<lambda>_. finishing D sm old s ds) (\<lambda>_. handler_ok D sm old s ds) (safe D sm old s) w"
  unfolding touch_def os_effect_def
proof (rule wp_effect [of s], goal_cases)
  case 1
  show ?case using f by (simp add: finishing_def)
next
  case (2 fs)
  then show ?case by (simp add: wp_ret finishing_faults [OF f])
next
  case (3 fs)
  then show ?case by (intro finishing_handler finishing_faults [OF f])
next
  case (4 fs)
  show ?case by (rule finishing_safe [OF finishing_faults [OF f 4]])
qed

lemma wp_finish_journal:
  assumes f: "finishing D sm old s ds w"
  shows "wp (journal_update Completed id) (\<lambda>_. done_ok D sm old s) (\<lambda>_. handler_ok D sm old s ds) (safe D sm old s) w"
proof (rule wp_journal [OF _ refl], goal_cases)
  case 1
  show ?case using f by (simp add: finishing_def)
next
  case (2 fs)
  then show ?case using f by (auto simp: finishing_def done_ok_def fine_def passed_def)
next
  case (3 fs)
  have "finishing D sm old s ds (w\<lparr>wd_memory := (id (wd_memory w))\<lparr>jn_stage := Completed\<rparr>, mc_faults := fs\<rparr>)"
    using f 3(1) by (simp add: finishing_def)
  then show ?case by (rule finishing_handler)
next
  case (4 fs)
  then show ?case using finishing_safe [OF f] by simp
qed

section \<open>The whole upgrade\<close>

lemma steps_append: "wp (steps (as @ bs)) Q E C = wp (steps as) (\<lambda>_. wp (steps bs) Q E C) E C"
  by (induction as) (simp_all add: wp_and_then wp_ret)

lemma wp_shadow_busy:
  assumes "running s ds hk F0 b wb st sw ro w" "good D sm old s F0 b st" "order hk b wb st sw ro"
  shows "wp safe_prepare_shadow (\<lambda>_. running s ds hk F0 b wb st sw ro) (\<lambda>_. handler_ok D sm old s ds) C w"
  using assms running_handler [OF assms] by (simp add: safe_prepare_shadow_def wp_simps)

lemma wp_upgrade_body:
  assumes sm: "ds_smoke ds = sm" and r: "running s ds False (untouched D old) False False False False False w"
  shows "wp (upgrade_body D ds ad) (\<lambda>_. done_ok D sm old s) (\<lambda>_. handler_ok D sm old s ds) (safe D sm old s) w"
proof -
  let ?C = "safe D sm old s" and ?E = "\<lambda>_ :: upgrade_error. handler_ok D sm old s ds"
  note p = good_prepared order_switch(3)
  let ?P = "running s ds True (prepared D sm old s) True True False False False"
  let ?N = "running s ds True (\<lambda>F. prepared D sm old s F \<and> new_shadow D F) True True False False False"
  have gN: "good D sm old s (\<lambda>F. prepared D sm old s F \<and> new_shadow D F) True False"
    using good_prepared [of True] by (simp add: good_def)
  note n = gN order_switch(3)
  have cancel_first: "wp (steps [check_cancel, only_if (ds_manual ds) (throw Manual_Required)])
      (\<lambda>_. running s ds False (untouched D old) False False False False False) ?E ?C w"
    unfolding wp_steps
    by (rule wp_mono [OF wp_run_cancel [OF r good_untouched order_start]])
      (use running_handler [OF _ good_untouched order_start] in \<open>auto simp: wp_only_if wp_throw\<close>)
  have start: "wp (steps [journal_update Pause_Writes id, checkpoint_wal D Active, journal_update Checkpoint id, make_backup D,
      journal_update Backup_Validated (\<lambda>j. j\<lparr>jn_backup := True\<rparr>), safe_prepare_shadow, when_present Rollback (throw Rollback_Busy),
      check_cancel, journal_update Shadow_Building id]) (\<lambda>_. ?P) ?E ?C w'"
    if u: "running s ds True (untouched D old) False False False False False w'" for w'
  proof -
    have busy: "wp (when_present Rollback (throw Rollback_Busy)) (\<lambda>_. ?P) ?E ?C w'" if "?P w'" for w'
      unfolding when_present_def by (rule wp_mono [OF wp_run_test [OF that p]]) auto
    show ?thesis
      by (rule wp_next [OF wp_run_journal [OF u good_untouched order_start]], simp, simp, simp,
          rule wp_next [OF wp_run_checkpoint], assumption,
          rule wp_next [OF wp_run_journal [OF _ good_settled order_start]], assumption, simp, simp, simp,
          rule wp_next [OF wp_run_backup], assumption,
          rule wp_next [OF wp_run_backed [OF _ good_prepared order_start]], assumption,
          rule wp_next [OF wp_shadow_busy [OF _ p]], assumption,
          rule wp_next [OF busy], assumption,
          rule wp_next [OF wp_run_cancel [OF _ p]], assumption,
          rule wp_next [OF wp_run_journal [OF _ p]], assumption, simp, simp, simp, simp add: wp_ret)
  qed
  have build: "wp (ad_build ad) (\<lambda>_. ?P) ?E ?C w'" if "?P w'" for w'
    by (rule wp_run_keeps [OF that order_switch(3) build_keeps TrueI _ good_prepared good_prepared])
  have validate: "wp (bind_to (ad_validate ad) (\<lambda>v. only_if (\<not> v) (throw Shadow_Invalid))) (\<lambda>_. ?N) ?E ?C w'" if "?P w'" for w'
    unfolding wp_bind
  proof (rule wp_run_keeps [OF that order_switch(3) validate_keeps TrueI _ good_prepared good_prepared])
    fix v w'' assume v: "running s ds True (\<lambda>F. prepared D sm old s F \<and> (v \<longrightarrow> new_shadow D F)) True True False False False w''"
    have "good D sm old s (\<lambda>F. prepared D sm old s F \<and> (v \<longrightarrow> new_shadow D F)) True False"
      using good_prepared [of True] by (simp add: good_def)
    then show "wp (only_if (\<not> v) (throw Shadow_Invalid)) (\<lambda>_. ?N) ?E ?C w''"
      using v running_handler [OF v _ order_switch(3)] by (cases v) (simp_all add: wp_only_if wp_throw)
  qed
  have version: "wp (bind_to (gets (database D Shadow)) (\<lambda>c. only_if (\<not> ds_version ds c) (throw Version_Mismatch))) (\<lambda>_. ?N) ?E ?C w'"
    if "?N w'" for w'
    using that running_handler [OF that n] by (simp add: wp_simps)
  have shadow: "wp (steps [ad_build ad, check_cancel, bind_to (ad_validate ad) (\<lambda>v. only_if (\<not> v) (throw Shadow_Invalid)), touch,
      bind_to (gets (database D Shadow)) (\<lambda>c. only_if (\<not> ds_version ds c) (throw Version_Mismatch)),
      journal_update Shadow_Validated (\<lambda>j. j\<lparr>jn_parsed := ad_parsed ad\<rparr>), check_cancel]) (\<lambda>_. ?N) ?E ?C w'" if "?P w'" for w'
    by (rule wp_next [OF build [OF that]],
        rule wp_next [OF wp_run_cancel [OF _ p]], assumption,
        rule wp_next [OF validate], assumption,
        rule wp_next [OF wp_run_touch [OF _ n]], assumption,
        rule wp_next [OF version], assumption,
        rule wp_next [OF wp_run_journal [OF _ n]], assumption, simp, simp, simp,
        rule wp_next [OF wp_run_cancel [OF _ n]], assumption, simp add: wp_ret)
  have finish: "wp (steps [touch, bind_to (gets (database D Active)) (\<lambda>c. only_if (\<not> ds_smoke ds c)
        (and_then (journal_update Smoke_Failed id) (throw Smoke_Test_Failed))), journal_update Smoke_Validated id, ad_finalize ad, touch,
      journal_update Completed id]) (\<lambda>_. done_ok D sm old s) ?E ?C w'"
    if "running s ds True switched_files True True True True True w'" for w'
    by (rule wp_next [OF wp_run_touch [OF that good_switched order_switch(2)]],
        rule wp_next [OF wp_run_smoke [OF sm]], assumption,
        rule wp_next [OF wp_run_validated], assumption,
        rule wp_next [OF wp_finish_adapter], assumption,
        rule wp_next [OF wp_finish_touch], assumption,
        rule wp_next [OF wp_finish_journal], assumption, simp add: wp_ret)
  have body: "upgrade_body D ds ad = steps ([check_cancel, only_if (ds_manual ds) (throw Manual_Required)] @
      only_if (ds_hooks ds) (and_then (change (\<lambda>w. w\<lparr>wd_closed := True\<rparr>)) close_hook) #
      ([journal_update Pause_Writes id, checkpoint_wal D Active, journal_update Checkpoint id, make_backup D,
       journal_update Backup_Validated (\<lambda>j. j\<lparr>jn_backup := True\<rparr>), safe_prepare_shadow, when_present Rollback (throw Rollback_Busy),
       check_cancel, journal_update Shadow_Building id] @
      ([ad_build ad, check_cancel, bind_to (ad_validate ad) (\<lambda>v. only_if (\<not> v) (throw Shadow_Invalid)), touch,
       bind_to (gets (database D Shadow)) (\<lambda>c. only_if (\<not> ds_version ds c) (throw Version_Mismatch)),
       journal_update Shadow_Validated (\<lambda>j. j\<lparr>jn_parsed := ad_parsed ad\<rparr>), check_cancel] @
      ([change (\<lambda>w. w\<lparr>wd_switch_started := True\<rparr>), ad_switch ad, change (\<lambda>w. w\<lparr>wd_switched := True\<rparr>),
       journal_update Switched (\<lambda>j. j\<lparr>jn_switched := True\<rparr>), only_if (ds_hooks ds) reopen_hook, change (\<lambda>w. w\<lparr>wd_reopened := True\<rparr>)] @
      [touch, bind_to (gets (database D Active)) (\<lambda>c. only_if (\<not> ds_smoke ds c)
        (and_then (journal_update Smoke_Failed id) (throw Smoke_Test_Failed))), journal_update Smoke_Validated id, ad_finalize ad, touch,
       journal_update Completed id]))))"
    by (simp add: upgrade_body_def)
  show ?thesis unfolding body steps_append
    by (rule wp_mono [OF cancel_first] wp_next [OF wp_run_hooks] wp_mono [OF start] wp_mono [OF shadow] wp_mono [OF wp_run_switch] wp_mono [OF finish]
        | assumption | subst steps_append)+
qed

lemma wp_upgrade_locked:
  assumes w: "may s (mc_faults w)" "untouched D old (wd_files w)" "wd_journal w = None" "\<not> wd_paused w" "ds_smoke ds = sm"
  shows "wp (upgrade_locked D ds ad) (\<lambda>_. done_ok D sm old s) (\<lambda>_. raised_ok D sm old s) (safe D sm old s) w"
proof -
  let ?w = "fresh_variables w"
  have start: "may s (mc_faults ?w)" "untouched D old (wd_files ?w)" "wd_journal ?w = None" "\<not> wd_paused ?w"
    "wd_memory ?w = new_journal" "\<not> wd_switch_started ?w" "\<not> wd_switched ?w" "\<not> wd_reopened ?w" "\<not> wd_backup ?w" "\<not> wd_rollback_parsed ?w"
    using w by (simp_all add: fresh_variables_def)
  have body: "wp (except_do (upgrade_body D ds ad) (upgrade_failed D ds ad)) (\<lambda>_. done_ok D sm old s) (\<lambda>_. raised_ok D sm old s)
      (safe D sm old s) w'"
    if "running s ds False (untouched D old) False False False False False w'" for w'
    unfolding wp_except by (rule wp_mono [OF wp_upgrade_body [OF w(5) that]]) (auto intro: wp_upgrade_failed)
  have "wp (journal_update Created (\<lambda>j. j\<lparr>jn_active := True\<rparr>))
      (\<lambda>_. running s ds False (untouched D old) False False False False False) (\<lambda>_. raised_ok D sm old s) (safe D sm old s) ?w"
  proof (rule wp_journal [OF start(1) refl], goal_cases)
    case (1 fs)
    then show ?case using start by (simp add: running_def new_journal_def plain_journal_def)
  next
    case (2 fs)
    then show ?case using start by (auto simp: raised_ok_def safe_def)
  next
    case (3 fs)
    then show ?case using start by (simp add: safe_def)
  qed
  then show ?thesis
    unfolding upgrade_locked_def wp_steps wp_change wp_ret by (rule wp_mono) (use body in auto)
qed

end

end
