(* ===== verification/Upgrade_Adapters.thy ===== *)
theory Upgrade_Adapters
  imports Upgrade_Steps
begin

text \<open>
  What the two adapters of the upgrade do to the files: rules for their steps, and the adapters as
  instances of \<open>upgrade_adapter\<close>.
\<close>

section \<open>Rules for adapters\<close>

lemma same_vars_trans: "same_vars w w1 \<Longrightarrow> same_vars w1 w2 \<Longrightarrow> same_vars w w2"
  by (auto simp: same_vars_def)

lemma same_vars_started: "same_vars w w' \<Longrightarrow> wd_switch_started w' = wd_switch_started w"
  by (simp add: same_vars_def)

lemma keeps_bind:
  assumes a: "keeps_when g s P a R E C" and f: "\<And>x. keeps_when g s (R x) (f x) Q E C" and g: "g \<in> {\<lambda>_. True, wd_switch_started}"
  shows "keeps_when g s P (bind_to a f) Q E C"
  unfolding keeps_when_def wp_bind
proof (intro allI impI)
  fix w assume w: "g w" "may s (mc_faults w)" "P (wd_files w)"
  have stays: "same_vars w w' \<Longrightarrow> g w'" for w' using g w(1) same_vars_started by auto
  from a w have "wp a (\<lambda>x w'. may s (mc_faults w') \<and> same_vars w w' \<and> R x (wd_files w'))
     (\<lambda>e w'. may s (mc_faults w') \<and> same_vars w w' \<and> E (wd_files w')) (\<lambda>w'. same_vars w w' \<and> C (wd_files w')) w"
    by (simp add: keeps_when_def)
  then show "wp a (\<lambda>x. wp (f x) (\<lambda>x w'. may s (mc_faults w') \<and> same_vars w w' \<and> Q x (wd_files w'))
        (\<lambda>e w'. may s (mc_faults w') \<and> same_vars w w' \<and> E (wd_files w')) (\<lambda>w'. same_vars w w' \<and> C (wd_files w')))
     (\<lambda>e w'. may s (mc_faults w') \<and> same_vars w w' \<and> E (wd_files w')) (\<lambda>w'. same_vars w w' \<and> C (wd_files w')) w"
  proof (rule wp_mono, goal_cases)
    case (1 x w')
    then have "wp (f x) (\<lambda>x w''. may s (mc_faults w'') \<and> same_vars w' w'' \<and> Q x (wd_files w''))
        (\<lambda>e w''. may s (mc_faults w'') \<and> same_vars w' w'' \<and> E (wd_files w'')) (\<lambda>w''. same_vars w' w'' \<and> C (wd_files w'')) w'"
      using f stays by (simp add: keeps_when_def)
    then show ?case by (rule wp_mono) (use 1 same_vars_trans in blast)+
  qed auto
qed

lemma keeps_then:
  "keeps s P a (\<lambda>_. R) E C \<Longrightarrow> keeps s R b Q E C \<Longrightarrow> keeps s P (and_then a b) Q E C"
  "keeps_when wd_switch_started s P a (\<lambda>_. R) E C \<Longrightarrow> keeps_when wd_switch_started s R b Q E C \<Longrightarrow>
    keeps_when wd_switch_started s P (and_then a b) Q E C"
  unfolding and_then_def by (rule keeps_bind; simp)+

lemma keeps_started: "keeps s P a Q E C \<Longrightarrow> keeps_when wd_switch_started s P a Q E C"
  by (simp add: keeps_when_def)

lemma keeps_mono:
  assumes "keeps_when g s P a Q E C" "\<And>F. P' F \<Longrightarrow> P F" "\<And>x F. Q x F \<Longrightarrow> Q' x F" "\<And>F. E F \<Longrightarrow> E' F" "\<And>F. C F \<Longrightarrow> C' F"
  shows "keeps_when g s P' a Q' E' C'"
  unfolding keeps_when_def
proof (intro allI impI)
  fix w assume "g w" "may s (mc_faults w)" "P' (wd_files w)"
  then show "wp a (\<lambda>x w'. may s (mc_faults w') \<and> same_vars w w' \<and> Q' x (wd_files w'))
     (\<lambda>e w'. may s (mc_faults w') \<and> same_vars w w' \<and> E' (wd_files w')) (\<lambda>w'. same_vars w w' \<and> C' (wd_files w')) w"
    using assms(1) [unfolded keeps_when_def, rule_format, of w] assms(2-5) by (auto elim!: wp_mono)
qed

lemma keeps_ret: "(\<And>F. P F \<Longrightarrow> Q x F) \<Longrightarrow> keeps_when g s P (ret x) Q E C"
  by (simp add: keeps_when_def wp_ret same_vars_def)

lemma keeps_throw: "(\<And>F. P F \<Longrightarrow> E F) \<Longrightarrow> keeps_when g s P (throw e) Q E C"
  by (simp add: keeps_when_def wp_throw same_vars_def)

text \<open>A test of the state: \<open>V\<close> says what its answer means for the files.\<close>

lemma keeps_test:
  assumes "\<And>w. P (wd_files w) \<Longrightarrow> V (h w) (wd_files w)" "\<And>x. keeps_when g s (\<lambda>F. P F \<and> V x F) (f x) Q E C"
  shows "keeps_when g s P (bind_to (gets h) f) Q E C"
  unfolding keeps_when_def wp_bind wp_gets
proof (intro allI impI)
  fix w assume "g w" "may s (mc_faults w)" "P (wd_files w)"
  then show "wp (f (h w)) (\<lambda>x w'. may s (mc_faults w') \<and> same_vars w w' \<and> Q x (wd_files w'))
     (\<lambda>e w'. may s (mc_faults w') \<and> same_vars w w' \<and> E (wd_files w')) (\<lambda>w'. same_vars w w' \<and> C (wd_files w')) w"
    using assms(1) assms(2) [of "h w"] by (simp add: keeps_when_def)
qed

lemma keeps_when_present:
  assumes "keeps_when g s (\<lambda>F. P F \<and> F (p, Main) \<noteq> None) a Q E C" "\<And>F. P F \<Longrightarrow> F (p, Main) = None \<Longrightarrow> Q () F"
  shows "keeps_when g s P (when_present p a) Q E C"
  unfolding when_present_def
proof (rule keeps_test [where V = "\<lambda>x F. x = (F (p, Main) \<noteq> None)"])
  show "keeps_when g s (\<lambda>F. P F \<and> x = (F (p, Main) \<noteq> None)) (only_if x a) Q E C" for x
    using assms by (cases x) (auto simp: only_if_def intro: keeps_ret elim!: keeps_mono)
qed (simp add: present_def)

lemma keeps_os_change:
  assumes "\<And>w. same_vars w (f w)" "\<And>w. mc_faults (f w) = mc_faults w"
    and "\<And>w. P (wd_files w) \<Longrightarrow> Q () (wd_files (f w))" "\<And>F. P F \<Longrightarrow> \<not> s \<Longrightarrow> E F" "\<And>F. P F \<Longrightarrow> C F"
  shows "keeps_when g s P (os_effect (change f)) Q E C"
  unfolding keeps_when_def os_effect_def
proof (intro allI impI)
  fix w assume w: "g w" "may s (mc_faults w)" "P (wd_files w)"
  have same: "same_vars w (f (w\<lparr>mc_faults := fs\<rparr>))" "same_vars w (w\<lparr>mc_faults := fs\<rparr>)" for fs
    using assms(1) [of "w\<lparr>mc_faults := fs\<rparr>"] by (simp_all add: same_vars_def)
  show "wp (effect OSError (change f)) (\<lambda>x w'. may s (mc_faults w') \<and> same_vars w w' \<and> Q x (wd_files w'))
     (\<lambda>e w'. may s (mc_faults w') \<and> same_vars w w' \<and> E (wd_files w')) (\<lambda>w'. same_vars w w' \<and> C (wd_files w')) w"
    by (rule wp_effect [OF w(2)]) (use w(3) assms(2-5) same in \<open>auto simp: wp_change\<close>)
qed

lemma ret_change: "ret () = change (\<lambda>w. w)"
  by (rule ext) (simp add: ret_def change_def)

lemma keeps_touch: "(\<And>F. P F \<Longrightarrow> \<not> s \<Longrightarrow> E F) \<Longrightarrow> (\<And>F. P F \<Longrightarrow> C F) \<Longrightarrow> keeps_when g s P touch (\<lambda>_. P) E C"
  unfolding touch_def ret_change by (rule keeps_os_change) (simp_all add: same_vars_def)

lemma keeps_rename:
  assumes "\<And>F. P F \<Longrightarrow> \<exists>c. F (p, k) = Some c \<and> Q () (F((q, k) := Some c, (p, k) := None))"
    and "\<And>F. P F \<Longrightarrow> \<not> s \<Longrightarrow> E F" "\<And>F. P F \<Longrightarrow> C F"
  shows "keeps_when g s P (rename_part k p q) Q E C"
  unfolding keeps_when_def rename_part_def os_effect_def
proof (intro allI impI)
  fix w assume w: "g w" "may s (mc_faults w)" "P (wd_files w)"
  show "wp (effect OSError (\<lambda>w. case wd_files w (p, k) of None \<Rightarrow> throw OSError w
        | Some c \<Rightarrow> change (put_file (p, k) None \<circ> put_file (q, k) (Some c)) w))
     (\<lambda>x w'. may s (mc_faults w') \<and> same_vars w w' \<and> Q x (wd_files w'))
     (\<lambda>e w'. may s (mc_faults w') \<and> same_vars w w' \<and> E (wd_files w')) (\<lambda>w'. same_vars w w' \<and> C (wd_files w')) w"
    by (rule wp_effect [OF w(2)])
      (use assms w(3) in \<open>fastforce simp: wp_def change_def put_file_def same_vars_def split: option.splits\<close>)+
qed

lemma keeps_copy:
  assumes "\<And>F. P F \<Longrightarrow> \<exists>c. F (p, Main) = Some c \<and> c \<noteq> [] \<and> F (p, Wal) = None \<and> Q () (F((q, Main) := Some c))"
    and "\<And>F. P F \<Longrightarrow> \<not> s \<Longrightarrow> E F" "\<And>F. P F \<Longrightarrow> C F"
  shows "keeps_when g s P (sqlite_backup D p q) Q E C"
  unfolding keeps_when_def sqlite_backup_def os_effect_def
proof (intro allI impI)
  fix w assume w: "g w" "may s (mc_faults w)" "P (wd_files w)"
  show "wp (effect OSError (\<lambda>w. case wd_files w (p, Main) of None \<Rightarrow> throw Empty_Source w
        | Some c \<Rightarrow> if c = [] then throw Empty_Source w else change (put_file (q, Main) (Some (sq_text D c (wd_files w (p, Wal))))) w))
     (\<lambda>x w'. may s (mc_faults w') \<and> same_vars w w' \<and> Q x (wd_files w'))
     (\<lambda>e w'. may s (mc_faults w') \<and> same_vars w w' \<and> E (wd_files w')) (\<lambda>w'. same_vars w w' \<and> C (wd_files w')) w"
    by (rule wp_effect [OF w(2)])
      (use assms w(3) in \<open>fastforce simp: wp_def change_def put_file_def same_vars_def split: option.splits\<close>)+
qed

lemma keeps_cancel: "(\<And>F. P F \<Longrightarrow> E F) \<Longrightarrow> keeps_when g s P check_cancel (\<lambda>_. P) E C"
  by (auto simp: keeps_when_def wp_def check_cancel_def ret_def throw_def same_vars_def split: list.split)

lemma keeps_unique:
  assumes "\<And>m. keeps_when g s P (f (Stored d name m)) Q E C" "\<And>w n. g (w\<lparr>wd_stamp := n\<rparr>) = g w"
  shows "keeps_when g s P (bind_to (unique_path (Stored d name k)) f) Q E C"
proof -
  have target: "wp (unique_path (Stored d name k)) (\<lambda>x w'. (\<exists>m n. x = Stored d name m \<and> w' = w\<lparr>wd_stamp := n\<rparr>)) (\<lambda>_ _. False) (\<lambda>_. False) w" for w
  proof -
    have same: "\<exists>n. w = w\<lparr>wd_stamp := n\<rparr>" by (rule exI [of _ "wd_stamp w"]) simp
    show ?thesis
    proof (cases "present (Stored d name k) w")
      case False
      then show ?thesis using same by (simp add: wp_def unique_path_def)
    qed (auto simp: wp_def unique_path_def)
  qed
  have rest: "wp (f (Stored d name m)) (\<lambda>x w'. may s (mc_faults w') \<and> same_vars w w' \<and> Q x (wd_files w'))
     (\<lambda>e w'. may s (mc_faults w') \<and> same_vars w w' \<and> E (wd_files w')) (\<lambda>w'. same_vars w w' \<and> C (wd_files w')) (w\<lparr>wd_stamp := n\<rparr>)"
    if "g w" "may s (mc_faults w)" "P (wd_files w)" for w m n
    using assms(1) [of m, unfolded keeps_when_def, rule_format, of "w\<lparr>wd_stamp := n\<rparr>"] that assms(2) by (simp add: same_vars_def)
  show ?thesis unfolding keeps_when_def wp_bind
    by (intro allI impI, rule wp_mono [OF target]) (use rest in auto)
qed


section \<open>The adapter that restores a backup\<close>

lemmas place_names = failed_restored_def kept_rollback_def backup_database_def

lemma aside [simp]:
  assumes "q = Stored d name n" "n = 0 \<longrightarrow> name \<notin> {''rollback.sqlite'', ''database.sqlite''}"
  shows "core D sm old s (F((q, Main) := c)) = core D sm old s F"
    and "untouched D old (F((q, Main) := c)) = untouched D old F" 
  using assms by (auto simp: core_def untouched_def kept_ok_def no_sidecars_def place_names)

lemma core_active_gone: "core D sm old s F \<Longrightarrow> core D sm old s (F((Active, Main) := None))"
  by (auto simp: core_def kept_ok_def no_sidecars_def place_names)

lemma core_shadow [simp]: "core D sm old s (F((Shadow, Main) := c)) = core D sm old s F"
  "untouched D old (F((Shadow, Main) := c)) = untouched D old F"
  "prepared D sm old s (F((Shadow, Main) := c)) = prepared D sm old s F"
  by (auto simp: core_def prepared_def untouched_def kept_ok_def no_sidecars_def place_names)

lemma restore_switch_keeps:
  "keeps s (\<lambda>F. prepared D sm old s F \<and> new_shadow D F) restore_switch
      (\<lambda>_ F. core D sm old s F \<and> F (Rollback, Main) = Some old \<and> new_active D F) (core D sm old s) (core D sm old s)"
proof -
  let ?M = "\<lambda>F. core D sm old s F \<and> F (Rollback, Main) = Some old \<and> F (Active, Main) = None \<and> new_shadow D F"
  have away: "keeps s (\<lambda>F. prepared D sm old s F \<and> new_shadow D F) (when_present Active (rename_to Active Rollback)) (\<lambda>_. ?M)
      (core D sm old s) (core D sm old s)"
    unfolding rename_to_def
    by (rule keeps_when_present, rule keeps_rename)
      (auto simp: prepared_def core_def kept_ok_def no_sidecars_def new_shadow_def place_names)
  have new: "keeps s ?M (rename_to Shadow Active) (\<lambda>_ F. core D sm old s F \<and> F (Rollback, Main) = Some old \<and> new_active D F)
      (core D sm old s) (core D sm old s)"
    unfolding rename_to_def
    by (rule keeps_rename) (auto simp: core_def kept_ok_def no_sidecars_def new_shadow_def new_active_def place_names)
  have both: "keeps s (\<lambda>F. prepared D sm old s F \<and> new_shadow D F) (and_then (when_present Active (rename_to Active Rollback)) (rename_to Shadow Active))
      (\<lambda>_ F. core D sm old s F \<and> F (Rollback, Main) = Some old \<and> new_active D F) (core D sm old s) (core D sm old s)"
    by (rule keeps_then(1) [OF away new])
  show ?thesis unfolding restore_switch_def
  proof (rule keeps_test [where V = "\<lambda>_ _. True"])
    show "keeps s (\<lambda>F. (prepared D sm old s F \<and> new_shadow D F) \<and> True) (if b then throw Rollback_Busy else
       and_then (when_present Active (rename_to Active Rollback)) (rename_to Shadow Active))
      (\<lambda>_ F. core D sm old s F \<and> F (Rollback, Main) = Some old \<and> new_active D F) (core D sm old s) (core D sm old s)" for b
      using both by (cases b) (auto simp: prepared_def intro: keeps_throw)
  qed simp
qed

lemma core_rolled_back:
  "core D sm old s F \<Longrightarrow> core D sm old s (F((Active, Main) := Some old, (Rollback, Main) := None))"
  "core D sm old s F \<Longrightarrow> core D sm old s (F((Active, Main) := Some old, (kept_rollback d, Main) := None))"
  by (auto simp: core_def kept_ok_def no_sidecars_def place_names)

lemma restore_rollback_keeps:
  "keeps s (core D sm old s) (restore_rollback Backup_Folder)
      (\<lambda>_ F. core D sm old s F \<and> (s \<longrightarrow> F (Active, Main) \<in> {None, Some old})) (\<lambda>F. core D sm old s F \<and> \<not> s) (core D sm old s)"
proof -
  let ?E = "\<lambda>F. core D sm old s F \<and> \<not> s" and ?C = "core D sm old s"
  let ?A = "\<lambda>F. core D sm old s F \<and> F (Active, Main) = None"
  have first: "keeps s (core D sm old s) (bind_to (gets (present Active)) (\<lambda>a.
        if a then rename_to Active (failed_restored Backup_Folder)
        else when_present Shadow (rename_to Shadow (failed_restored Backup_Folder)))) (\<lambda>_. ?A) ?E ?C"
  proof (rule keeps_test [where V = "\<lambda>x F. x = (F (Active, Main) \<noteq> None)"])
    show "keeps s (\<lambda>F. core D sm old s F \<and> a = (F (Active, Main) \<noteq> None)) (if a then rename_to Active (failed_restored Backup_Folder)
        else when_present Shadow (rename_to Shadow (failed_restored Backup_Folder))) (\<lambda>_. ?A) ?E ?C" for a
    proof (cases a)
      case True
      then show ?thesis unfolding rename_to_def
        by (simp, intro keeps_rename) (auto simp: failed_restored_def core_active_gone)
    next
      case False
      then show ?thesis unfolding rename_to_def
        by (simp, intro keeps_when_present keeps_rename) (auto simp: failed_restored_def)
    qed
  qed (simp add: present_def)
  have second: "keeps s ?A (bind_to (gets (present Rollback)) (\<lambda>r.
        let retained = (if r then Rollback else kept_rollback Backup_Folder) in when_present retained (rename_to retained Active)))
     (\<lambda>_ F. core D sm old s F \<and> (s \<longrightarrow> F (Active, Main) \<in> {None, Some old})) ?E ?C"
  proof (rule keeps_test [where V = "\<lambda>_ _. True"])
    show "keeps s (\<lambda>F. ?A F \<and> True) (let retained = (if r then Rollback else kept_rollback Backup_Folder) in
       when_present retained (rename_to retained Active))
     (\<lambda>_ F. core D sm old s F \<and> (s \<longrightarrow> F (Active, Main) \<in> {None, Some old})) ?E ?C" for r
      unfolding rename_to_def
      by (cases r; simp add: Let_def, intro keeps_when_present keeps_rename)
        (auto simp: core_def kept_ok_def no_sidecars_def place_names)
  qed simp
  show ?thesis unfolding restore_rollback_def
    by (rule keeps_then(1) [OF keeps_touch keeps_then(1) [OF first second]]) auto
qed


lemma restored_aside [simp]: "prepared D sm old s (F((failed_restored d, Main) := c)) = prepared D sm old s F"
  "untouched D old (F((failed_restored d, Main) := c)) = untouched D old F"
  by (auto simp: prepared_def failed_restored_def)

lemma restore_discard_keeps:
  assumes "\<And>F c. P (F((failed_restored d, Main) := c)) = P F" "\<And>F c. P (F((Shadow, Main) := c)) = P F"
  shows "keeps s P (restore_discard d) (\<lambda>_. P) P P"
proof -
  have "keeps s (\<lambda>F. P F \<and> F (Shadow, Main) \<noteq> None) (rename_to Shadow (failed_restored d)) (\<lambda>_. P) P P"
    unfolding rename_to_def by (rule keeps_rename) (auto simp: assms)
  then show ?thesis unfolding restore_discard_def
    by (intro keeps_when_present keeps_then(1) [OF keeps_touch]) auto
qed

lemma restore_finalize_keeps:
  "keeps s (\<lambda>F. core D sm old s F \<and> new_active D F \<and> passed sm F) restore_finalize
      (\<lambda>_ F. core D sm old s F \<and> new_active D F \<and> passed sm F) (\<lambda>F. core D sm old s F \<and> passed sm F) (\<lambda>F. core D sm old s F \<and> passed sm F)"
  unfolding restore_finalize_def rename_to_def
proof (rule keeps_when_present, rule keeps_test [where V = "\<lambda>_ _. True"])
  let ?P = "\<lambda>F. core D sm old s F \<and> new_active D F \<and> passed sm F" and ?E = "\<lambda>F. core D sm old s F \<and> passed sm F"
  show "keeps s (\<lambda>F. (?P F \<and> F (Rollback, Main) \<noteq> None) \<and> True) (if b then throw Kept_Exists else
     rename_part Main Rollback (kept_rollback Backup_Folder)) (\<lambda>_. ?P) ?E ?E" for b
    by (cases b; simp, rule keeps_throw keeps_rename)
      (auto simp: core_def kept_ok_def no_sidecars_def place_names new_active_def passed_def)
qed simp_all

lemma restore_build_keeps:
  "keeps s (prepared D sm old s) (and_then check_cancel (sqlite_backup D Source Shadow)) (\<lambda>_. prepared D sm old s)
     (prepared D sm old s) (prepared D sm old s)"
proof (rule keeps_then(1) [OF keeps_cancel])
  show "keeps s (prepared D sm old s) (sqlite_backup D Source Shadow) (\<lambda>_. prepared D sm old s) (prepared D sm old s) (prepared D sm old s)"
    unfolding keeps_when_def sqlite_backup_def os_effect_def
    by (intro allI impI, rule wp_effect)
      (auto simp: wp_def change_def throw_def put_file_def same_vars_def split: option.split)
qed simp

lemma restore_validate_keeps:
  "keeps s (prepared D sm old s) (gets (valid_at D Shadow)) (\<lambda>v F. prepared D sm old s F \<and> (v \<longrightarrow> new_shadow D F))
     (prepared D sm old s) (prepared D sm old s)"
  by (auto simp: keeps_when_def wp_gets same_vars_def valid_at_def new_shadow_def prepared_def core_def no_sidecars_def sound_def
      split: option.splits)

interpretation restore: upgrade_adapter D sm old s "restore_adapter D" for D sm old s
proof
  show "keeps s (prepared D sm old s) (ad_discard (restore_adapter D) d) (\<lambda>_. prepared D sm old s) (prepared D sm old s) (prepared D sm old s)"
    "keeps s (untouched D old) (ad_discard (restore_adapter D) d) (\<lambda>_. untouched D old) (untouched D old) (untouched D old)" for d
    by (simp_all add: restore_adapter_def restore_discard_keeps)
qed (simp_all add: restore_adapter_def restore_build_keeps restore_validate_keeps keeps_started restore_switch_keeps restore_rollback_keeps [simplified]
    restore_finalize_keeps)

section \<open>Steps and places\<close>

lemma keeps_steps:
  "(\<And>F. P F \<Longrightarrow> Q () F) \<Longrightarrow> keeps_when g s P (steps []) Q E C"
  "keeps_when g s P a (\<lambda>_. R) E C \<Longrightarrow> keeps_when g s R (steps as) Q E C \<Longrightarrow> g \<in> {\<lambda>_. True, wd_switch_started} \<Longrightarrow>
    keeps_when g s P (steps (a # as)) Q E C"
  by (auto simp: and_then_def intro: keeps_ret keeps_bind)

lemma keeps_change:
  assumes "\<And>w. g w \<Longrightarrow> same_vars w (f w) \<and> mc_faults (f w) = mc_faults w \<and> wd_files (f w) = wd_files w"
  shows "keeps_when g s P (change f) (\<lambda>_. P) E C"
  using assms by (simp add: keeps_when_def wp_change)

lemma keeps_only_if: "keeps_when g s P a (\<lambda>_. P) E C \<Longrightarrow> keeps_when g s P (only_if b a) (\<lambda>_. P) E C"
  by (simp add: only_if_def keeps_ret)

lemma keeps_any: "(\<And>x. keeps_when g s P (f x) Q E C) \<Longrightarrow> keeps_when g s P (bind_to (gets h) f) Q E C"
  by (rule keeps_test [where V = "\<lambda>_ _. True"]) simp_all

lemma keeps_present: "keeps_when g s P a (\<lambda>_. P) E C \<Longrightarrow> keeps_when g s P (when_present p a) (\<lambda>_. P) E C"
  unfolding when_present_def by (intro keeps_any keeps_only_if)

lemma keeps_no_sidecars:
  assumes "\<And>F. P F \<Longrightarrow> no_sidecars F"
  shows "keeps_when g s P (move_sidecars p q) (\<lambda>_. P) E C"
  unfolding keeps_when_def
proof (intro allI impI)
  fix w assume w: "g w" "may s (mc_faults w)" "P (wd_files w)"
  then have "wd_files w (p, Wal) = None" "wd_files w (p, Shm) = None" using assms by (auto simp: no_sidecars_def)
  then show "wp (move_sidecars p q) (\<lambda>x w'. may s (mc_faults w') \<and> same_vars w w' \<and> P (wd_files w'))
     (\<lambda>e w'. may s (mc_faults w') \<and> same_vars w w' \<and> E (wd_files w')) (\<lambda>w'. same_vars w w' \<and> C (wd_files w')) w"
    using w by (simp add: move_sidecars_def wp_simps same_vars_def)
qed

text \<open>Places that the conditions on the files do not mention.\<close>

definition aside_place :: "place \<Rightarrow> bool" where
  "aside_place p = (p \<notin> {Active, Rollback, backup_database Backup_Folder, kept_rollback Backup_Folder})"

definition aside_free :: "(files \<Rightarrow> bool) \<Rightarrow> bool" where
  "aside_free P = (\<forall>F p c. aside_place p \<longrightarrow> P (F((p, Main) := c)) = P F)"

lemma aside_places [simp]: "\<not> aside_place Active" "\<not> aside_place Rollback" "aside_place Shadow" "aside_place Source" "aside_place Active_Parsed" "aside_place Shadow_Parsed"
  "aside_place Rollback_Parsed" "name \<notin> {''rollback.sqlite'', ''database.sqlite''} \<Longrightarrow> aside_place (Stored d name n)"
  by (auto simp: aside_place_def place_names)

lemma aside_conditions:
  assumes "aside_place p"
  shows "core D sm old s (F((p, Main) := c)) = core D sm old s F" "prepared D sm old s (F((p, Main) := c)) = prepared D sm old s F"
    "untouched D old (F((p, Main) := c)) = untouched D old F" 
    "(F((p, Main) := c)) (Active, Main) = F (Active, Main)" "(F((p, Main) := c)) (Rollback, Main) = F (Rollback, Main)"
    "new_active D (F((p, Main) := c)) = new_active D F" "passed sm (F((p, Main) := c)) = passed sm F"
  using assms by (auto simp: aside_place_def core_def prepared_def untouched_def kept_ok_def no_sidecars_def new_active_def passed_def)

lemma keeps_rename_aside:
  assumes "aside_free P" "aside_place p" "aside_place q" "\<And>F. P F \<Longrightarrow> \<not> s \<Longrightarrow> E F" "\<And>F. P F \<Longrightarrow> C F"
  shows "keeps_when g s (\<lambda>F. P F \<and> F (p, Main) \<noteq> None) (rename_to p q) (\<lambda>_. P) E C"
  unfolding rename_to_def
  by (rule keeps_rename) (use assms in \<open>auto simp: aside_free_def\<close>)

text \<open>Moving a file out of the way, under a name that is free.\<close>

lemma keeps_set_aside:
  assumes "aside_free P" "aside_place p" "name \<notin> {''rollback.sqlite'', ''database.sqlite''}" "\<And>F. P F \<Longrightarrow> \<not> s \<Longrightarrow> E F" "\<And>F. P F \<Longrightarrow> C F"
    "\<And>w n. g (w\<lparr>wd_stamp := n\<rparr>) = g w"
  shows "keeps_when g s P (when_present p (bind_to (unique_path (Stored d name k)) (rename_to p))) (\<lambda>_. P) E C"
  by (rule keeps_when_present, rule keeps_unique, rule keeps_rename_aside) (use assms in auto)

end
