(* ===== verification/Upgrade_Mesh.thy ===== *)
theory Upgrade_Mesh
  imports Upgrade_Adapters
begin

text \<open>
  The adapter that rebuilds MESH data keeps the conditions on the files: its parsed folders and side
  files move with the databases.
\<close>

section \<open>The adapter that rebuilds MESH data\<close>

lemma free_core [simp]: "aside_free (core D sm old s)" "aside_free (prepared D sm old s)" "aside_free (untouched D old)"
  "aside_free (\<lambda>F. core D sm old s F \<and> F (Active, Main) = None)"
  by (simp_all add: aside_free_def aside_conditions)

lemma core_sidecars: "core D sm old s F \<Longrightarrow> no_sidecars F"
  by (simp add: core_def)

lemma keeps_move:
  assumes "keeps_when g s P (rename_to p q) (\<lambda>_. R) E C" "\<And>F. R F \<Longrightarrow> no_sidecars F" "g \<in> {\<lambda>_. True, wd_switch_started}"
  shows "keeps_when g s P (move_with_sidecars p q) (\<lambda>_. R) E C"
  unfolding move_with_sidecars_def and_then_def
  by (rule keeps_bind [OF assms(1) keeps_no_sidecars assms(3)]) (rule assms(2))

lemma mesh_rollback_keeps:
  "keeps s (core D sm old s) (mesh_rollback Backup_Folder)
      (\<lambda>_ F. core D sm old s F \<and> (s \<longrightarrow> F (Active, Main) \<in> {None, Some old})) (\<lambda>F. core D sm old s F \<and> \<not> s) (core D sm old s)"
proof -
  let ?E = "\<lambda>F. core D sm old s F \<and> \<not> s" and ?C = "core D sm old s"
  let ?A = "\<lambda>F. core D sm old s F \<and> F (Active, Main) = None"
  let ?R = "\<lambda>F. core D sm old s F \<and> (s \<longrightarrow> F (Active, Main) \<in> {None, Some old})"
  have free: "aside_free ?R" by (simp add: aside_free_def aside_conditions)
  have active: "keeps s ?C (when_present Active (move_with_sidecars Active (Stored d n m))) (\<lambda>_. ?A) ?E ?C"
    if "n \<notin> {''rollback.sqlite'', ''database.sqlite''}" for d n m
  proof (rule keeps_when_present, rule keeps_move)
    show "keeps s (\<lambda>F. ?C F \<and> F (Active, Main) \<noteq> None) (rename_to Active (Stored d n m)) (\<lambda>_. ?A) ?E ?C"
      unfolding rename_to_def by (rule keeps_rename) (use that in \<open>auto simp: aside_conditions core_active_gone\<close>)
  qed (auto simp: core_sidecars)
  have restored: "keeps s ?A (when_present p (move_with_sidecars p Active)) (\<lambda>_. ?R) ?E ?C"
    if "p \<in> {Rollback, kept_rollback Backup_Folder}" for p
  proof (rule keeps_when_present, rule keeps_move)
    show "keeps s (\<lambda>F. ?A F \<and> F (p, Main) \<noteq> None) (rename_to p Active) (\<lambda>_. ?R) ?E ?C"
      unfolding rename_to_def
      by (rule keeps_rename) (use that in \<open>auto simp: core_def kept_ok_def no_sidecars_def place_names\<close>)
  qed (auto simp: core_sidecars)
  have moved: "keeps s ?A (when_present p (bind_to (unique_path (Stored d n k)) (rename_to p))) (\<lambda>_. ?A) ?E ?C"
    if "aside_place p" "n \<notin> {''rollback.sqlite'', ''database.sqlite''}" for p d n k
    by (rule keeps_set_aside [OF _ that]) auto
  have database_back: "keeps s ?A (bind_to (gets (present Rollback)) (\<lambda>r.
      let retained = (if r then Rollback else kept_rollback Backup_Folder) in when_present retained (move_with_sidecars retained Active)))
      (\<lambda>_. ?R) ?E ?C"
    unfolding Let_def by (rule keeps_any, rule restored) simp
  have parsed_back: "keeps s ?R (bind_to (gets (\<lambda>w. wd_rollback_parsed w \<and> present Rollback_Parsed w)) (\<lambda>r.
      let retained = (if r then Rollback_Parsed else Stored Backup_Folder ''rollback_parsed'' 0) in
      when_present retained (rename_to retained Active_Parsed))) (\<lambda>_. ?R) ?E ?C"
    unfolding Let_def by (rule keeps_any, rule keeps_when_present, rule keeps_rename_aside [OF free]) auto
  have rest: "keeps s ?C (steps
       [when_present Active (move_with_sidecars Active failed),
        when_present Shadow (bind_to (unique_path failed) (rename_to Shadow)),
        when_present Active_Parsed (bind_to (unique_target Backup_Folder ''failed_new_parsed'') (rename_to Active_Parsed)),
        bind_to (gets (present Rollback)) (\<lambda>r.
          let retained = (if r then Rollback else kept_rollback Backup_Folder) in
          when_present retained (move_with_sidecars retained Active)),
        bind_to (gets (\<lambda>w. wd_rollback_parsed w \<and> present Rollback_Parsed w)) (\<lambda>r.
          let retained = (if r then Rollback_Parsed else Stored Backup_Folder ''rollback_parsed'' 0) in
          when_present retained (rename_to retained Active_Parsed))]) (\<lambda>_. ?R) ?E ?C"
    if failed: "failed = Stored Backup_Folder ''failed_new_database.sqlite'' m" for failed m
    unfolding failed unique_target_def
    by (rule keeps_steps(2) [OF active] keeps_steps(2) [OF moved] keeps_steps(2) [OF database_back] keeps_steps(2) [OF parsed_back] keeps_steps(1) | simp)+
  show ?thesis unfolding mesh_rollback_def unique_target_def
    by (rule keeps_then(1) [OF keeps_touch], simp, simp, rule keeps_unique, rule rest [unfolded unique_target_def]) simp_all
qed


lemma mesh_switch_keeps:
  assumes rewrite: "\<And>c. sound D c \<Longrightarrow> sound D (mi_rewrite M c)"
  shows "keeps_when wd_switch_started s (\<lambda>F. prepared D sm old s F \<and> new_shadow D F) (mesh_switch M)
      (\<lambda>_ F. core D sm old s F \<and> F (Rollback, Main) = Some old \<and> new_active D F) (core D sm old s) (core D sm old s)"
proof -
  let ?g = wd_switch_started and ?E = "core D sm old s"
  let ?P = "\<lambda>F. prepared D sm old s F \<and> new_shadow D F"
  let ?M = "\<lambda>F. core D sm old s F \<and> F (Rollback, Main) = Some old \<and> F (Active, Main) = None \<and> new_shadow D F"
  let ?N = "\<lambda>F. core D sm old s F \<and> F (Rollback, Main) = Some old \<and> new_active D F"
  have busy: "keeps_when ?g s ?P (when_present Rollback (throw Rollback_Busy)) (\<lambda>_. ?P) ?E ?E"
    by (rule keeps_when_present, rule keeps_throw) (auto simp: prepared_def)
  have sidecars: "keeps_when ?g s ?P (move_sidecars p q) (\<lambda>_. ?P) ?E ?E" "keeps_when ?g s ?M (move_sidecars p q) (\<lambda>_. ?M) ?E ?E" for p q
    by (rule keeps_no_sidecars; simp add: prepared_def core_def)+
  have away: "keeps_when ?g s ?P (when_present Active (rename_to Active Rollback)) (\<lambda>_. ?M) ?E ?E"
    unfolding rename_to_def
    by (rule keeps_when_present, rule keeps_rename)
      (auto simp: prepared_def core_def kept_ok_def no_sidecars_def new_shadow_def place_names)
  let ?A = "\<lambda>F. ?M F \<and> F (Active_Parsed, Main) \<noteq> None"
  have mark: "keeps_when ?g s ?A (change (\<lambda>w. w\<lparr>wd_rollback_parsed := True\<rparr>)) (\<lambda>_. ?A) ?E ?E"
    by (rule keeps_change) (simp add: same_vars_def)
  have parsed_busy: "keeps_when ?g s ?A (when_present Rollback_Parsed (throw Rollback_Busy)) (\<lambda>_. ?A) ?E ?E"
    by (rule keeps_when_present, rule keeps_throw) auto
  have parsed_away: "keeps_when ?g s ?A (rename_to Active_Parsed Rollback_Parsed) (\<lambda>_. ?M) ?E ?E"
    unfolding rename_to_def by (rule keeps_rename) (auto simp: aside_conditions new_shadow_def)
  have parsed: "keeps_when ?g s ?M (when_present Active_Parsed (steps [change (\<lambda>w. w\<lparr>wd_rollback_parsed := True\<rparr>),
      when_present Rollback_Parsed (throw Rollback_Busy), rename_to Active_Parsed Rollback_Parsed])) (\<lambda>_. ?M) ?E ?E"
    by (rule keeps_when_present)
      (rule keeps_steps(2) [OF mark] keeps_steps(2) [OF parsed_busy] keeps_steps(2) [OF parsed_away] keeps_steps(1) | simp)+
  have new: "keeps_when ?g s ?M (rename_to Shadow Active) (\<lambda>_. ?N) ?E ?E"
    unfolding rename_to_def
    by (rule keeps_rename) (auto simp: core_def kept_ok_def no_sidecars_def new_shadow_def new_active_def place_names)
  have N: "aside_free ?N"
    by (auto simp: aside_free_def aside_conditions)
  have index: "keeps_when ?g s ?N (when_present Active (os_effect (change (\<lambda>w. put_file (Active, Main)
       (map_option (mi_rewrite M) (wd_files w (Active, Main))) w)))) (\<lambda>_. ?N) ?E ?E"
    by (rule keeps_when_present, rule keeps_os_change)
      (auto simp: same_vars_def put_file_def core_def kept_ok_def no_sidecars_def new_active_def place_names rewrite)
  have new_parsed: "keeps_when ?g s (\<lambda>F. ?N F \<and> F (Shadow_Parsed, Main) \<noteq> None) (rename_to Shadow_Parsed Active_Parsed) (\<lambda>_. ?N) ?E ?E"
    by (rule keeps_rename_aside [OF N]) auto
  have last: "keeps_when ?g s ?N (bind_to (gets wd_shadow_parsed) (\<lambda>b. only_if b (when_present Shadow_Parsed (steps
        [rename_to Shadow_Parsed Active_Parsed,
         when_present Active (os_effect (change (\<lambda>w. put_file (Active, Main) (map_option (mi_rewrite M) (wd_files w (Active, Main))) w)))]))))
      (\<lambda>_. ?N) ?E ?E"
    by (rule keeps_any, rule keeps_only_if, rule keeps_when_present)
      (rule keeps_steps(2) [OF new_parsed] keeps_steps(2) [OF index] keeps_steps(1) | simp)+
  show ?thesis unfolding mesh_switch_def
    by (rule keeps_steps(2) [OF busy] keeps_steps(2) [OF sidecars(1)] keeps_steps(2) [OF away] keeps_steps(2) [OF parsed]
        keeps_steps(2) [OF sidecars(2)] keeps_steps(2) [OF new] keeps_steps(2) [OF last] keeps_steps(1) | simp)+
qed

lemma mesh_discard_keeps:
  assumes P: "aside_free P"
  shows "keeps s P (mesh_discard d) (\<lambda>_. P) P P"
proof -
  have moved: "keeps s P (when_present p (bind_to (unique_path (Stored d n k)) (rename_to p))) (\<lambda>_. P) P P"
    if "aside_place p" "n \<notin> {''rollback.sqlite'', ''database.sqlite''}" for p n k
    by (rule keeps_set_aside [OF P that]) auto
  have parsed: "keeps s P (bind_to (gets wd_shadow_parsed) (\<lambda>b. only_if b (when_present Shadow_Parsed
        (bind_to (unique_path (Stored d ''failed_new_parsed'' 0)) (rename_to Shadow_Parsed))))) (\<lambda>_. P) P P"
    by (rule keeps_any, rule keeps_only_if, rule moved) simp_all
  have "keeps s P touch (\<lambda>_. P) P P" by (rule keeps_touch)
  then show ?thesis unfolding mesh_discard_def unique_target_def
    by (intro keeps_steps(2) [OF _ keeps_steps(2) [OF moved keeps_steps(2) [OF parsed keeps_steps(1)]]]) simp_all
qed

lemma mesh_finalize_keeps:
  "keeps s (\<lambda>F. core D sm old s F \<and> new_active D F \<and> passed sm F) mesh_finalize
      (\<lambda>_ F. core D sm old s F \<and> new_active D F \<and> passed sm F) (\<lambda>F. core D sm old s F \<and> passed sm F) (\<lambda>F. core D sm old s F \<and> passed sm F)"
proof -
  let ?P = "\<lambda>F. core D sm old s F \<and> new_active D F \<and> passed sm F" and ?E = "\<lambda>F. core D sm old s F \<and> passed sm F"
  have P: "aside_free ?P" by (auto simp: aside_free_def aside_conditions)
  have busy: "keeps s (\<lambda>F. ?P F \<and> F (q, Main) \<noteq> None) (when_present p (throw Kept_Exists)) (\<lambda>_ F. ?P F \<and> F (q, Main) \<noteq> None) ?E ?E" for p q
    by (rule keeps_when_present, rule keeps_throw) auto
  have kept: "keeps s (\<lambda>F. ?P F \<and> F (Rollback, Main) \<noteq> None) (rename_to Rollback (kept_rollback Backup_Folder)) (\<lambda>_. ?P) ?E ?E"
    unfolding rename_to_def
    by (rule keeps_rename) (auto simp: core_def kept_ok_def no_sidecars_def place_names new_active_def passed_def)
  have parsed: "keeps s (\<lambda>F. ?P F \<and> F (Rollback_Parsed, Main) \<noteq> None) (rename_to Rollback_Parsed (Stored Backup_Folder ''rollback_parsed'' 0)) (\<lambda>_. ?P) ?E ?E"
    by (rule keeps_rename_aside [OF P]) auto
  have first: "keeps s ?P (when_present Rollback (and_then (when_present (kept_rollback Backup_Folder) (throw Kept_Exists))
      (rename_to Rollback (kept_rollback Backup_Folder)))) (\<lambda>_. ?P) ?E ?E"
    by (rule keeps_when_present, rule keeps_then(1) [OF busy kept])
  have last: "keeps s ?P (bind_to (gets wd_rollback_parsed) (\<lambda>b. only_if b (when_present Rollback_Parsed
      (and_then (when_present (Stored Backup_Folder ''rollback_parsed'' 0) (throw Kept_Exists))
        (rename_to Rollback_Parsed (Stored Backup_Folder ''rollback_parsed'' 0)))))) (\<lambda>_. ?P) ?E ?E"
    by (rule keeps_any, rule keeps_only_if, rule keeps_when_present, rule keeps_then(1) [OF busy parsed])
  show ?thesis unfolding mesh_finalize_def Let_def
    by (intro keeps_steps(2) [OF first keeps_steps(2) [OF last keeps_steps(1)]]) simp_all
qed


lemma mesh_build_keeps:
  "keeps s (prepared D sm old s) (mesh_build M) (\<lambda>_. prepared D sm old s) (prepared D sm old s) (prepared D sm old s)"
proof -
  let ?P = "prepared D sm old s"
  have cancel: "keeps s ?P check_cancel (\<lambda>_. ?P) ?P ?P" by (rule keeps_cancel)
  have mark: "keeps s ?P (change (\<lambda>w. w\<lparr>wd_shadow_parsed := True\<rparr>)) (\<lambda>_. ?P) ?P ?P"
    by (rule keeps_change) (simp add: same_vars_def)
  have busy: "keeps s ?P (bind_to (gets h) (\<lambda>b. only_if b (throw Shadow_Busy))) (\<lambda>_. ?P) ?P ?P" for h
    by (rule keeps_any, rule keeps_only_if, rule keeps_throw)
  have put: "keeps s ?P (os_effect (change (put_file (p, Main) c))) (\<lambda>_. ?P) ?P ?P" if "aside_place p" for p c
    by (rule keeps_os_change) (use that in \<open>auto simp: same_vars_def put_file_def aside_conditions\<close>)
  have touch: "keeps s ?P touch (\<lambda>_. ?P) ?P ?P" by (rule keeps_touch)
  show ?thesis unfolding mesh_build_def
    by (rule keeps_steps(2) [OF cancel] keeps_steps(2) [OF mark] keeps_steps(2) [OF busy] keeps_steps(2) [OF put] keeps_steps(2) [OF touch]
        keeps_steps(1) | simp)+
qed

lemma mesh_validate_keeps:
  "keeps s (prepared D sm old s) (mesh_validate D M) (\<lambda>v F. prepared D sm old s F \<and> (v \<longrightarrow> new_shadow D F))
     (prepared D sm old s) (prepared D sm old s)"
  unfolding mesh_validate_def
proof (rule keeps_then(1))
  let ?P = "prepared D sm old s"
  show "keeps s ?P (checkpoint_wal D Shadow) (\<lambda>_. ?P) ?P ?P"
    unfolding keeps_when_def
  proof (intro allI impI)
    fix w :: world assume w: "may s (mc_faults w)" "?P (wd_files w)"
    have checkpointed: "?P ((wd_files w)((Shadow, Main) := c, (Shadow, Shm) := None, (Shadow, Wal) := None))" for c
      using w(2) by (auto simp: prepared_def core_def kept_ok_def no_sidecars_def place_names)
    show "wp (checkpoint_wal D Shadow) (\<lambda>x w'. may s (mc_faults w') \<and> same_vars w w' \<and> ?P (wd_files w'))
     (\<lambda>e w'. may s (mc_faults w') \<and> same_vars w w' \<and> ?P (wd_files w')) (\<lambda>w'. same_vars w w' \<and> ?P (wd_files w')) w"
    proof (cases "wd_files w (Shadow, Main) \<in> {None, Some []}")
      case True
      then show ?thesis using w by (auto simp: wp_def checkpoint_wal_def ret_def same_vars_def)
    next
      case False
      then obtain x xs where c: "wd_files w (Shadow, Main) = Some (x # xs)" by (metis insert_iff list.exhaust option.exhaust)
      have "wp (os_effect (change (put_file (Shadow, Wal) None \<circ> put_file (Shadow, Shm) None \<circ> put_file (Shadow, Main)
          (Some (sq_text D (x # xs) (wd_files w (Shadow, Wal)))))))
          (\<lambda>x w'. may s (mc_faults w') \<and> same_vars w w' \<and> ?P (wd_files w'))
          (\<lambda>e w'. may s (mc_faults w') \<and> same_vars w w' \<and> ?P (wd_files w')) (\<lambda>w'. same_vars w w' \<and> ?P (wd_files w')) w"
        unfolding os_effect_def
        by (rule wp_effect [OF w(1)]) (use w(2) checkpointed in \<open>auto simp: wp_change same_vars_def put_file_def\<close>)
      then show ?thesis by (simp add: wp_def checkpoint_wal_def c)
    qed
  qed
  show "keeps s ?P (gets (\<lambda>w. valid_at D Shadow w \<and> mi_schema_ok M (database D Shadow w))) (\<lambda>v F. ?P F \<and> (v \<longrightarrow> new_shadow D F)) ?P ?P"
    by (auto simp: keeps_when_def wp_gets same_vars_def valid_at_def new_shadow_def prepared_def core_def no_sidecars_def sound_def
        split: option.splits)
qed

text \<open>The statements that correct the index leave an intact database.\<close>

lemma mesh_upgrade_adapter:
  assumes "\<And>c. sound D c \<Longrightarrow> sound D (mi_rewrite M c)"
  shows "upgrade_adapter D sm old s (mesh_adapter D M)"
  by unfold_locales (simp_all add: mesh_adapter_def mesh_build_keeps mesh_validate_keeps mesh_discard_keeps mesh_finalize_keeps
      mesh_switch_keeps [OF assms] mesh_rollback_keeps [simplified])

end
