(* ===== verification/Upgrade_Recovery.thy ===== *)
theory Upgrade_Recovery
  imports Upgrade_Adapters
begin

text \<open>
  \<open>recover_incomplete_upgrades\<close>: from any state that an upgrade or an earlier recovery leaves, whatever
  fails, the files and the journal stay safe; if nothing fails the recovery ends the operation.
\<close>

section \<open>Steps of the recovery\<close>

text \<open>Before and after: the files are what the journal promises.\<close>

definition recovered_files :: "sqlite \<Rightarrow> (string option \<Rightarrow> bool) \<Rightarrow> string \<Rightarrow> bool \<Rightarrow> journal \<Rightarrow> stage \<Rightarrow> files \<Rightarrow> bool" where
  "recovered_files D sm old s j st F = (st \<in> set TERMINAL_STAGES \<and> fine D sm old s j F \<and> fine D sm old s (j\<lparr>jn_stage := st\<rparr>) F)"

lemma fine_backed:
  "jn_backup j \<Longrightarrow> jn_stage j \<notin> set TERMINAL_STAGES \<Longrightarrow> fine D sm old s j F =
     (core D sm old s F \<and> jn_stage j \<noteq> Created \<and> (s \<and> jn_stage j = Smoke_Validated \<longrightarrow> (\<forall>c. F (Active, Main) = Some c \<longrightarrow> c = old \<or> sm (Some c))))"
  by (auto simp: fine_def plain_stage_def)

lemma fine_unbacked: "\<not> jn_backup j \<Longrightarrow> fine D sm old s j F = (untouched D old F \<and> \<not> jn_switched j)"
  by (simp add: fine_def)

lemma free_fine [simp]: "aside_free (fine D sm old s j)"
  by (simp add: aside_free_def fine_def aside_conditions)

definition plain_at :: "place \<Rightarrow> (files \<Rightarrow> bool) \<Rightarrow> bool" where
  "plain_at p P = (\<forall>F. P F \<longrightarrow> F (p, Wal) = None \<and> F (p, Shm) = None)"

lemma fine_plain_at [simp]: "p \<noteq> Active \<Longrightarrow> plain_at p (fine D sm old s j)"
  by (auto simp: plain_at_def fine_def core_def no_sidecars_def untouched_def)

lemma keeps_move_sidecars:
  assumes "plain_at p P"
  shows "keeps_when g s P (move_sidecars p q) (\<lambda>_. P) E C"
  unfolding keeps_when_def
proof (intro allI impI)
  fix w :: world assume w: "g w" "may s (mc_faults w)" "P (wd_files w)"
  then have "wd_files w (p, Wal) = None" "wd_files w (p, Shm) = None" using assms by (auto simp: plain_at_def)
  then show "wp (move_sidecars p q) (\<lambda>x w'. may s (mc_faults w') \<and> same_vars w w' \<and> P (wd_files w'))
     (\<lambda>e w'. may s (mc_faults w') \<and> same_vars w w' \<and> E (wd_files w')) (\<lambda>w'. same_vars w w' \<and> C (wd_files w')) w"
    using w by (simp add: move_sidecars_def wp_simps same_vars_def)
qed

lemma keeps_aside_all:
  assumes "aside_free P" "plain_at p P" "aside_place p" "name \<notin> {''rollback.sqlite'', ''database.sqlite''}"
    "\<And>F. P F \<Longrightarrow> \<not> s \<Longrightarrow> E F" "\<And>F. P F \<Longrightarrow> C F"
  shows "keeps s P (set_aside p d name) (\<lambda>_. P) E C"
  unfolding set_aside_def unique_target_def move_with_sidecars_def
  by (rule keeps_when_present, rule keeps_unique, rule keeps_then(1) [OF keeps_rename_aside keeps_move_sidecars]) (use assms in auto)

lemma keeps_aside_folder:
  assumes "aside_free P" "aside_place p" "name \<notin> {''rollback.sqlite'', ''database.sqlite''}"
    "\<And>F. P F \<Longrightarrow> \<not> s \<Longrightarrow> E F" "\<And>F. P F \<Longrightarrow> C F"
  shows "keeps s P (set_aside_folder b p d name) (\<lambda>_. P) E C"
  unfolding set_aside_folder_def unique_target_def
  by (rule keeps_only_if, rule keeps_set_aside) (use assms in auto)

lemma recover_rest_keeps:
  assumes free: "aside_free P" "plain_at Shadow P" and fine: "\<And>F. P F \<Longrightarrow> fine D sm old s j F"
    and valid: "\<And>w. P (wd_files w) \<Longrightarrow> valid_at D Active w"
    and final: "\<And>F. P F \<Longrightarrow> recovered_files D sm old s j st F"
  shows "keeps s P (recover_rest D parsed d st) (recovered_files D sm old s j) (\<lambda>F. fine D sm old s j F \<and> \<not> s) (fine D sm old s j)"
proof -
  let ?E = "\<lambda>F. fine D sm old s j F \<and> \<not> s" and ?C = "fine D sm old s j"
  have fails: "P F \<Longrightarrow> \<not> s \<Longrightarrow> ?E F" for F using fine by blast
  have parsed_away: "keeps s (\<lambda>F. P F \<and> F (Rollback_Parsed, Main) \<noteq> None) (set_aside_folder True Active_Parsed d ''failed_recovered_parsed'')
       (\<lambda>_ F. P F \<and> F (Rollback_Parsed, Main) \<noteq> None) ?E ?C"
    unfolding set_aside_folder_def unique_target_def rename_to_def
    by (rule keeps_only_if, rule keeps_when_present, rule keeps_unique, rule keeps_rename)
      (use free(1) fails fine in \<open>auto simp: aside_free_def simp del: not_None_eq\<close>)
  have parsed_back: "keeps s (\<lambda>F. P F \<and> F (Rollback_Parsed, Main) \<noteq> None) (rename_to Rollback_Parsed Active_Parsed) (\<lambda>_. P) ?E ?C"
    by (rule keeps_rename_aside [OF free(1)]) (use fails fine in simp_all)
  have first: "keeps s P (only_if parsed (when_present Rollback_Parsed
          (and_then (set_aside_folder True Active_Parsed d ''failed_recovered_parsed'') (rename_to Rollback_Parsed Active_Parsed)))) (\<lambda>_. P) ?E ?C"
    by (rule keeps_only_if, rule keeps_when_present, rule keeps_then(1) [OF parsed_away parsed_back])
  have shadow: "keeps s P (set_aside Shadow d ''failed_recovered_shadow.sqlite'') (\<lambda>_. P) ?E ?C"
    by (rule keeps_aside_all [OF free]) (use fails fine in simp_all)
  have shadow_parsed: "keeps s P (set_aside_folder parsed Shadow_Parsed d ''failed_recovered_shadow_parsed'') (\<lambda>_. P) ?E ?C"
    by (rule keeps_aside_folder [OF free(1)]) (use fails fine in simp_all)
  have steps: "keeps s P (steps
       [only_if parsed (when_present Rollback_Parsed
          (and_then (set_aside_folder True Active_Parsed d ''failed_recovered_parsed'') (rename_to Rollback_Parsed Active_Parsed))),
        set_aside Shadow d ''failed_recovered_shadow.sqlite'',
        set_aside_folder parsed Shadow_Parsed d ''failed_recovered_shadow_parsed'']) (\<lambda>_. P) ?E ?C"
    by (intro keeps_steps(2) [OF first keeps_steps(2) [OF shadow keeps_steps(2) [OF shadow_parsed keeps_steps(1)]]]) simp_all
  have answer: "keeps s P (bind_to (gets (valid_at D Active)) (\<lambda>v. if v then ret st else throw Recovery_Invalid))
      (recovered_files D sm old s j) ?E ?C"
    by (rule keeps_test [where V = "\<lambda>x F. x"]) (use valid final in \<open>auto simp: keeps_when_def wp_ret same_vars_def\<close>)
  show ?thesis unfolding recover_rest_def by (rule keeps_then(1) [OF steps answer])
qed

lemma keep_new_keeps:
  assumes "\<And>F. P F \<Longrightarrow> fine D sm old s j F" "aside_free P" "\<And>p. p \<noteq> Active \<Longrightarrow> plain_at p P"
    and "\<And>F. P F \<Longrightarrow> P (F((Rollback, Main) := None))" and kept: "\<And>F. P F \<Longrightarrow> recovered_files D sm old s j Recovered_New_Database F"
  shows "keeps s P (and_then (keep_new_database parsed d) (ret Recovered_New_Database)) (recovered_files D sm old s j)
    (\<lambda>F. fine D sm old s j F \<and> \<not> s) (fine D sm old s j)"
proof -
  let ?E = "\<lambda>F. fine D sm old s j F \<and> \<not> s" and ?C = "fine D sm old s j"
  have fails: "P F \<Longrightarrow> \<not> s \<Longrightarrow> ?E F" for F using assms(1) by blast
  have rollback: "keeps s P (set_aside Rollback d ''rollback_recovered.sqlite'') (\<lambda>_. P) ?E ?C"
    unfolding set_aside_def unique_target_def move_with_sidecars_def rename_to_def
  proof (rule keeps_when_present, rule keeps_unique, rule keeps_then(1))
    show "keeps s (\<lambda>F. P F \<and> F (Rollback, Main) \<noteq> None) (rename_part Main Rollback (Stored d ''rollback_recovered.sqlite'' m)) (\<lambda>_. P) ?E ?C" for m
    proof (rule keeps_rename)
      fix F assume F: "P F \<and> F (Rollback, Main) \<noteq> None"
      then have "P (F((Stored d ''rollback_recovered.sqlite'' m, Main) := F (Rollback, Main)))"
        using assms(2) by (simp add: aside_free_def)
      then show "\<exists>c. F (Rollback, Main) = Some c \<and> P (F((Stored d ''rollback_recovered.sqlite'' m, Main) \<mapsto> c, (Rollback, Main) := None))"
        using F assms(4) by fastforce
    qed (use fails assms(1) in simp_all)
    show "keeps s P (move_sidecars Rollback (Stored d ''rollback_recovered.sqlite'' m)) (\<lambda>_. P) ?E ?C" for m
      by (rule keeps_move_sidecars) (simp add: assms(3))
  qed auto
  have shadow: "keeps s P (set_aside Shadow d ''failed_recovered_shadow.sqlite'') (\<lambda>_. P) ?E ?C"
    by (rule keeps_aside_all) (use assms fails in simp_all)
  have folder: "keeps s P (set_aside_folder b p d n) (\<lambda>_. P) ?E ?C"
    if "aside_place p" "n \<notin> {''rollback.sqlite'', ''database.sqlite''}" for b p n
    by (rule keeps_aside_folder [OF assms(2) that]) (use assms fails in simp_all)
  have "keeps s P (keep_new_database parsed d) (\<lambda>_. P) ?E ?C"
    unfolding keep_new_database_def
    by (rule keeps_steps(2) [OF rollback] keeps_steps(2) [OF folder] keeps_steps(2) [OF shadow] keeps_steps(1) | simp)+
  then show ?thesis by (rule keeps_then(1)) (rule keeps_ret, rule kept)
qed


section \<open>The database after the recovery\<close>

definition ended :: "sqlite \<Rightarrow> (string option \<Rightarrow> bool) \<Rightarrow> string \<Rightarrow> bool \<Rightarrow> journal \<Rightarrow> stage \<Rightarrow> files \<Rightarrow> bool" where
  "ended D sm old s j st F = (recovered_files D sm old s j st F \<and> F (Active, Main) \<noteq> None)"

lemma fine_valid: "fine D sm old s j (wd_files w) \<Longrightarrow> wd_files w (Active, Main) \<noteq> None \<Longrightarrow> valid_at D Active w"
  by (auto simp: fine_def valid_at_def core_def untouched_def no_sidecars_def sound_def split: if_splits)

lemma free_ended: "aside_free (ended D sm old s j st)"
  using free_fine unfolding aside_free_def ended_def recovered_files_def by (metis aside_conditions(4))

lemma ended_rest:
  "keeps s (ended D sm old s j st) (recover_rest D parsed d st) (recovered_files D sm old s j)
     (\<lambda>F. fine D sm old s j F \<and> \<not> s) (fine D sm old s j)"
proof (rule recover_rest_keeps [OF free_ended])
  have "plain_at Shadow (fine D sm old s j)" by simp
  then show "plain_at Shadow (ended D sm old s j st)" by (simp add: plain_at_def ended_def recovered_files_def)
qed (auto simp: ended_def recovered_files_def fine_valid)

lemma old_ended:
  assumes "jn_backup j" "jn_stage j \<notin> set TERMINAL_STAGES" "jn_stage j \<noteq> Created" "st \<in> set TERMINAL_STAGES" "core D sm old s F" "F (Active, Main) = Some old"
  shows "ended D sm old s j st F"
proof -
  have "fine D sm old s (j\<lparr>jn_stage := st\<rparr>) F" by (rule restore.fine_terminal) (use assms in \<open>auto simp: TERMINAL_STAGES_def\<close>)
  then show ?thesis using assms by (simp add: ended_def recovered_files_def fine_backed)
qed

text \<open>A database without a rollback file was not replaced, or it was replaced for good.\<close>

lemma kept_ended:
  assumes "fine D sm old s j F" "jn_stage j \<notin> set TERMINAL_STAGES" "F (Active, Main) \<noteq> None" "F (Rollback, Main) = None"
  shows "ended D sm old s j Recovered_No_Switch F"
proof (cases "jn_backup j")
  case True
  then have "fine D sm old s (j\<lparr>jn_stage := Recovered_No_Switch\<rparr>) F"
    using assms by (auto simp: fine_def core_def plain_stage_def TERMINAL_STAGES_def)
  then show ?thesis using assms by (simp add: ended_def recovered_files_def TERMINAL_STAGES_def)
next
  case False
  then show ?thesis using assms by (simp add: ended_def recovered_files_def TERMINAL_STAGES_def fine_def)
qed

lemma copy_back:
  assumes "jn_backup j" "jn_stage j \<notin> set TERMINAL_STAGES" "st \<in> set TERMINAL_STAGES"
  shows "keeps s (fine D sm old s j) (and_then (sqlite_backup D (backup_database Backup_Folder) Active) (ret st))
     (\<lambda>st'. \<lambda>F. st' = st \<and> ended D sm old s j st F) (\<lambda>F. fine D sm old s j F \<and> \<not> s) (fine D sm old s j)"
proof (rule keeps_then(1) [OF keeps_copy keeps_ret])
  fix F assume F: "fine D sm old s j F"
  then have core: "core D sm old s F" "jn_stage j \<noteq> Created" using assms by (auto simp: fine_backed)
  have "ended D sm old s j st (F((Active, Main) := Some old))"
    by (rule old_ended [OF assms(1,2) core(2) assms(3) restore.core_restored [OF core(1)]]) simp
  then show "\<exists>c. F (backup_database Backup_Folder, Main) = Some c \<and> c \<noteq> [] \<and> F (backup_database Backup_Folder, Wal) = None \<and>
      ended D sm old s j st (F((Active, Main) := Some c))"
    using core(1) by (auto simp: core_def no_sidecars_def sound_def)
qed auto


text \<open>A database that is replaced goes out of the way first.\<close>

lemma fine_active_gone:
  assumes "jn_backup j" "jn_stage j \<notin> set TERMINAL_STAGES" "fine D sm old s j F" "aside_place q"
  shows "fine D sm old s j (F((q, Main) := c, (Active, Main) := None))"
  using assms by (auto simp: fine_backed core_active_gone aside_conditions)

lemma active_aside:
  assumes "jn_backup j" "jn_stage j \<notin> set TERMINAL_STAGES"
  shows "keeps s (\<lambda>F. fine D sm old s j F \<and> F (Rollback, Main) = r) (set_aside Active d ''failed_recovered_database.sqlite'')
     (\<lambda>_ F. fine D sm old s j F \<and> F (Rollback, Main) = r \<and> F (Active, Main) = None)
     (\<lambda>F. fine D sm old s j F \<and> \<not> s) (fine D sm old s j)"
  unfolding set_aside_def unique_target_def move_with_sidecars_def rename_to_def
proof (rule keeps_when_present, rule keeps_unique, rule keeps_then(1))
  let ?Q = "\<lambda>F. fine D sm old s j F \<and> F (Rollback, Main) = r \<and> F (Active, Main) = None"
  show "keeps s (\<lambda>F. (fine D sm old s j F \<and> F (Rollback, Main) = r) \<and> F (Active, Main) \<noteq> None)
     (rename_part Main Active (Stored d ''failed_recovered_database.sqlite'' m)) (\<lambda>_. ?Q) (\<lambda>F. fine D sm old s j F \<and> \<not> s) (fine D sm old s j)" for m
    by (rule keeps_rename) (use assms in \<open>auto simp: fine_active_gone\<close>)
  show "keeps s ?Q (move_sidecars Active (Stored d ''failed_recovered_database.sqlite'' m)) (\<lambda>_. ?Q)
     (\<lambda>F. fine D sm old s j F \<and> \<not> s) (fine D sm old s j)" for m
    by (rule keeps_move_sidecars) (use assms in \<open>auto simp: plain_at_def fine_backed core_def no_sidecars_def\<close>)
qed auto

lemma rollback_back:
  assumes "jn_backup j" "jn_stage j \<notin> set TERMINAL_STAGES"
  shows "keeps s (\<lambda>F. fine D sm old s j F \<and> F (Rollback, Main) = Some old \<and> F (Active, Main) = None) (move_with_sidecars Rollback Active)
     (\<lambda>_. ended D sm old s j Recovered_Rollback) (\<lambda>F. fine D sm old s j F \<and> \<not> s) (fine D sm old s j)"
  unfolding move_with_sidecars_def rename_to_def
proof (rule keeps_then(1) [OF keeps_rename keeps_move_sidecars])
  fix F assume F: "fine D sm old s j F \<and> F (Rollback, Main) = Some old \<and> F (Active, Main) = None"
  then have core: "core D sm old s F" "jn_stage j \<noteq> Created" using assms by (auto simp: fine_backed)
  have "ended D sm old s j Recovered_Rollback (F((Active, Main) := Some old, (Rollback, Main) := None))"
    by (rule old_ended [OF assms core(2) _ core_rolled_back(1) [OF core(1)]]) (auto simp: TERMINAL_STAGES_def)
  then show "\<exists>c. F (Rollback, Main) = Some c \<and> ended D sm old s j Recovered_Rollback (F((Active, Main) := Some c, (Rollback, Main) := None))"
    using F by simp
next
  show "plain_at Rollback (ended D sm old s j Recovered_Rollback)"
    using fine_plain_at [of Rollback D sm old s j] by (simp add: plain_at_def ended_def recovered_files_def)
qed auto

lemma keeps_vacuous: "(\<And>F. \<not> P F) \<Longrightarrow> keeps_when g s P a Q E C"
  by (simp add: keeps_when_def)

lemma recover_rollback_keeps:
  assumes "jn_stage j \<notin> set TERMINAL_STAGES" and d: "jn_backup j \<Longrightarrow> d = Backup_Folder"
  shows "keeps s (fine D sm old s j) (recover_rollback D d Recovered_No_Switch) (\<lambda>st. ended D sm old s j st)
     (\<lambda>F. fine D sm old s j F \<and> \<not> s) (fine D sm old s j)"
  unfolding recover_rollback_def
proof (rule keeps_test [where V = "\<lambda>w F. wd_files w = F"], simp)
  let ?E = "\<lambda>F. fine D sm old s j F \<and> \<not> s" and ?C = "fine D sm old s j"
  fix w :: world
  let ?P = "\<lambda>F. fine D sm old s j F \<and> wd_files w = F"
  show "keeps s ?P (if Recovered_No_Switch \<noteq> Recovered_From_Backup \<and> present Rollback w
     then and_then (steps [set_aside Active d ''failed_recovered_database.sqlite'', move_with_sidecars Rollback Active]) (ret Recovered_Rollback)
     else if Recovered_No_Switch \<noteq> Recovered_From_Backup \<and> \<not> present Active w
     then if present (backup_database d) w
          then and_then (sqlite_backup D (backup_database d) Active) (ret Recovered_From_Backup) else throw No_Backup
     else ret Recovered_No_Switch) (\<lambda>st. ended D sm old s j st) ?E ?C"
  proof (cases "fine D sm old s j (wd_files w)")
    case True
    consider (rollback) "present Rollback w" "jn_backup j" | (none) "\<not> present Rollback w" "\<not> present Active w" "jn_backup j"
      | (active) "\<not> present Rollback w" "present Active w"
      using True by (cases "jn_backup j") (auto simp: fine_unbacked untouched_def present_def)
    then show ?thesis
    proof cases
      case rollback
      have old: "wd_files w (Rollback, Main) = Some old"
        using rollback True assms(1) by (auto simp: present_def fine_backed core_def)
      have both: "keeps s (\<lambda>F. fine D sm old s j F \<and> F (Rollback, Main) = Some old)
          (steps [set_aside Active d ''failed_recovered_database.sqlite'', move_with_sidecars Rollback Active])
          (\<lambda>_. ended D sm old s j Recovered_Rollback) ?E ?C"
        by (rule keeps_steps(2) [OF active_aside [OF rollback(2) assms(1)]]
            keeps_steps(2) [OF rollback_back [OF rollback(2) assms(1)]] keeps_steps(1) | simp)+
      have "keeps s (\<lambda>F. fine D sm old s j F \<and> F (Rollback, Main) = Some old)
          (and_then (steps [set_aside Active d ''failed_recovered_database.sqlite'', move_with_sidecars Rollback Active]) (ret Recovered_Rollback))
          (\<lambda>st. ended D sm old s j st) ?E ?C"
        by (rule keeps_then(1) [OF both]) (rule keeps_ret)
      then show ?thesis using rollback(1) by (simp, elim keeps_mono) (use old in auto)
    next
      case none
      have "present (backup_database d) w" using True none d assms(1) by (auto simp: present_def fine_backed core_def)
      moreover have "keeps s ?P (and_then (sqlite_backup D (backup_database d) Active) (ret Recovered_From_Backup)) (\<lambda>st. ended D sm old s j st) ?E ?C"
        unfolding d [OF none(3)]
        by (rule keeps_mono [OF copy_back [OF none(3) assms(1)]]) (auto simp: TERMINAL_STAGES_def)
      ultimately show ?thesis using none by simp
    next
      case active
      have "ended D sm old s j Recovered_No_Switch (wd_files w)"
        using kept_ended [OF True assms(1)] active by (simp add: present_def)
      then show ?thesis using active by (auto intro: keeps_ret)
    qed
  next
    case False
    then show ?thesis by (intro keeps_vacuous) auto
  qed
qed


text \<open>An interrupted switch without a rollback file.\<close>

lemma from_backup_keeps:
  assumes j: "jn_backup j" "jn_stage j \<notin> set TERMINAL_STAGES"
  shows "keeps s (fine D sm old s j) (recover_from_backup D parsed Backup_Folder)
     (\<lambda>ok F. ok \<and> ended D sm old s j Recovered_From_Backup F) (\<lambda>F. fine D sm old s j F \<and> \<not> s) (fine D sm old s j)"
  unfolding recover_from_backup_def
proof (rule keeps_then(1))
  let ?E = "\<lambda>F. fine D sm old s j F \<and> \<not> s" and ?C = "fine D sm old s j"
  have away: "keeps s ?C (set_aside Active Backup_Folder ''failed_recovered_database.sqlite'') (\<lambda>_. ?C) ?E ?C"
  proof -
    have "keeps s (\<lambda>F. ?C F \<and> F (Rollback, Main) = r) (set_aside Active Backup_Folder ''failed_recovered_database.sqlite'') (\<lambda>_. ?C) ?E ?C" for r
      by (rule keeps_mono [OF active_aside [OF j]]) auto
    then show ?thesis by (simp add: keeps_when_def)
  qed
  have folder: "keeps s ?C (set_aside_folder parsed Active_Parsed Backup_Folder ''failed_recovered_parsed'') (\<lambda>_. ?C) ?E ?C"
    by (rule keeps_aside_folder) auto
  have parsed: "keeps s ?C (when_present (Stored Backup_Folder ''rollback_parsed'' 0)
      (only_if parsed (rename_to (Stored Backup_Folder ''rollback_parsed'' 0) Active_Parsed))) (\<lambda>_. ?C) ?E ?C"
  proof (rule keeps_when_present)
    have "keeps s (\<lambda>F. ?C F \<and> F (Stored Backup_Folder ''rollback_parsed'' 0, Main) \<noteq> None)
        (rename_to (Stored Backup_Folder ''rollback_parsed'' 0) Active_Parsed) (\<lambda>_. ?C) ?E ?C"
      by (rule keeps_rename_aside) auto
    then show "keeps s (\<lambda>F. ?C F \<and> F (Stored Backup_Folder ''rollback_parsed'' 0, Main) \<noteq> None)
        (only_if parsed (rename_to (Stored Backup_Folder ''rollback_parsed'' 0) Active_Parsed)) (\<lambda>_. ?C) ?E ?C"
      by (cases parsed) (auto simp: only_if_def intro: keeps_ret)
  qed
  show "keeps s ?C (steps
       [set_aside Active Backup_Folder ''failed_recovered_database.sqlite'',
        set_aside_folder parsed Active_Parsed Backup_Folder ''failed_recovered_parsed'',
        when_present (Stored Backup_Folder ''rollback_parsed'' 0) (only_if parsed (rename_to (Stored Backup_Folder ''rollback_parsed'' 0) Active_Parsed))])
      (\<lambda>_. ?C) ?E ?C"
    by (intro keeps_steps(2) [OF away keeps_steps(2) [OF folder keeps_steps(2) [OF parsed keeps_steps(1)]]]) simp_all
  have copy: "keeps s ?C (and_then (sqlite_backup D (backup_database Backup_Folder) Active) (ret True))
      (\<lambda>ok F. ok \<and> ended D sm old s j Recovered_From_Backup F) ?E ?C"
    unfolding and_then_def
  proof (rule keeps_bind [OF keeps_copy keeps_ret])
    fix F assume F: "?C F"
    then have core: "core D sm old s F" "jn_stage j \<noteq> Created" using j by (auto simp: fine_backed)
    have "ended D sm old s j Recovered_From_Backup (F((Active, Main) := Some old))"
      by (rule old_ended [OF j core(2) _ restore.core_restored [OF core(1)]]) (simp_all add: TERMINAL_STAGES_def)
    then show "\<exists>c. F (backup_database Backup_Folder, Main) = Some c \<and> c \<noteq> [] \<and> F (backup_database Backup_Folder, Wal) = None \<and>
        ended D sm old s j Recovered_From_Backup (F((Active, Main) := Some c))"
      using core(1) by (auto simp: core_def no_sidecars_def sound_def)
  qed auto
  show "keeps s ?C (bind_to (gets (present (backup_database Backup_Folder))) (\<lambda>b.
      if b then and_then (sqlite_backup D (backup_database Backup_Folder) Active) (ret True) else ret False))
      (\<lambda>ok F. ok \<and> ended D sm old s j Recovered_From_Backup F) ?E ?C"
  proof (rule keeps_test [where V = "\<lambda>x F. x"])
    show "?C (wd_files w) \<Longrightarrow> present (backup_database Backup_Folder) w" for w :: world
      using j by (auto simp: fine_backed core_def present_def)
    show "keeps s (\<lambda>F. ?C F \<and> b) (if b then and_then (sqlite_backup D (backup_database Backup_Folder) Active) (ret True) else ret False)
      (\<lambda>ok F. ok \<and> ended D sm old s j Recovered_From_Backup F) ?E ?C" for b
      using copy by (cases b) (auto intro: keeps_vacuous)
  qed
qed

lemma keep_new_fine:
  assumes "jn_stage j = Smoke_Validated"
  shows "keeps s (\<lambda>F. fine D sm old s j F \<and> F (Active, Main) \<noteq> None) (and_then (keep_new_database parsed d) (ret Recovered_New_Database))
     (recovered_files D sm old s j) (\<lambda>F. fine D sm old s j F \<and> \<not> s) (fine D sm old s j)"
proof (rule keep_new_keeps)
  let ?P = "\<lambda>F. fine D sm old s j F \<and> F (Active, Main) \<noteq> None"
  show "aside_free ?P" using free_fine unfolding aside_free_def by (metis aside_conditions(4))
  show "p \<noteq> Active \<Longrightarrow> plain_at p ?P" for p using fine_plain_at [of p D sm old s j] by (simp add: plain_at_def)
  fix F assume P: "?P F"
  have nt: "jn_stage j \<notin> set TERMINAL_STAGES" using assms by (simp add: TERMINAL_STAGES_def)
  show "fine D sm old s j F" using P by simp
  show "?P (F((Rollback, Main) := None))"
    using P assms nt by (cases "jn_backup j")
      (auto simp: fine_backed fine_unbacked core_def untouched_def kept_ok_def no_sidecars_def place_names)
  show "recovered_files D sm old s j Recovered_New_Database F"
    using P assms nt by (cases "jn_backup j")
      (auto simp: recovered_files_def fine_def plain_stage_def TERMINAL_STAGES_def)
qed


section \<open>The whole recovery\<close>

lemma recovered_stays: "recover_rollback D d Recovered_From_Backup = ret Recovered_From_Backup"
  by (rule ext) (simp add: recover_rollback_def bind_to_def gets_def)

lemma bind_ret: "bind_to (ret x) f = f x"
  by (rule ext) (simp add: bind_to_def ret_def)

lemma recover_journal_keeps:
  assumes nt: "jn_stage j \<notin> set TERMINAL_STAGES"
  shows "keeps s (fine D sm old s j) (recover_journal D j) (recovered_files D sm old s j)
     (\<lambda>F. fine D sm old s j F \<and> \<not> s) (fine D sm old s j)"
proof -
  let ?E = "\<lambda>F. fine D sm old s j F \<and> \<not> s" and ?C = "fine D sm old s j" and ?R = "recovered_files D sm old s j"
  let ?d = "if jn_backup j then Backup_Folder else Recovery_Folder" and ?p = "jn_parsed j"
  have created: "keeps s ?C (ret Recovered_No_Switch) ?R ?E ?C" if "jn_stage j = Created"
    by (rule keeps_ret) (use that in \<open>auto simp: recovered_files_def fine_def TERMINAL_STAGES_def split: if_splits\<close>)
  have touch: "keeps s ?C touch (\<lambda>_. ?C) ?E ?C" by (rule keeps_touch) auto
  have plain: "keeps s ?C (bind_to (recover_rollback D ?d Recovered_No_Switch) (recover_rest D ?p ?d)) ?R ?E ?C"
    by (rule keeps_bind [OF recover_rollback_keeps [OF nt] ended_rest]) simp_all
  have backed: "keeps s ?C (bind_to (recover_from_backup D ?p ?d) (\<lambda>ok.
      if ok then bind_to (recover_rollback D ?d Recovered_From_Backup) (recover_rest D ?p ?d) else ret Recovered_No_Existing_Database)) ?R ?E ?C"
    if b: "jn_backup j"
  proof (rule keeps_bind)
    show "keeps s ?C (recover_from_backup D ?p ?d) (\<lambda>ok F. ok \<and> ended D sm old s j Recovered_From_Backup F) ?E ?C"
      using from_backup_keeps [OF b nt] b by simp
    have "keeps s (ended D sm old s j Recovered_From_Backup)
        (bind_to (recover_rollback D ?d Recovered_From_Backup) (recover_rest D ?p ?d)) ?R ?E ?C"
      unfolding recovered_stays bind_ret by (rule ended_rest)
    then show "keeps s (\<lambda>F. ok \<and> ended D sm old s j Recovered_From_Backup F) (if ok
        then bind_to (recover_rollback D ?d Recovered_From_Backup) (recover_rest D ?p ?d) else ret Recovered_No_Existing_Database) ?R ?E ?C" for ok
      by (cases ok) (auto intro: keeps_vacuous)
  qed simp
  have choice: "keeps s ?C (bind_to (gets id) (\<lambda>w.
         if jn_stage j = Smoke_Validated \<and> valid_at D Active w
         then and_then (keep_new_database ?p ?d) (ret Recovered_New_Database)
         else if jn_switched j \<and> jn_stage j \<in> {Switched, Smoke_Failed, Failed} \<and> \<not> present Rollback w
         then bind_to (recover_from_backup D ?p ?d) (\<lambda>ok.
              if ok then bind_to (recover_rollback D ?d Recovered_From_Backup) (recover_rest D ?p ?d)
              else ret Recovered_No_Existing_Database)
         else bind_to (recover_rollback D ?d Recovered_No_Switch) (recover_rest D ?p ?d))) ?R ?E ?C"
  proof (rule keeps_test [where V = "\<lambda>w F. wd_files w = F"], simp)
    fix w :: world
    consider (new) "jn_stage j = Smoke_Validated" "valid_at D Active w"
      | (backup) "\<not> (jn_stage j = Smoke_Validated \<and> valid_at D Active w)"
          "jn_switched j \<and> jn_stage j \<in> {Switched, Smoke_Failed, Failed} \<and> \<not> present Rollback w"
      | (else) "\<not> (jn_stage j = Smoke_Validated \<and> valid_at D Active w)"
          "\<not> (jn_switched j \<and> jn_stage j \<in> {Switched, Smoke_Failed, Failed} \<and> \<not> present Rollback w)"
      by blast
    then show "keeps s (\<lambda>F. ?C F \<and> wd_files w = F) (if jn_stage j = Smoke_Validated \<and> valid_at D Active w
         then and_then (keep_new_database ?p ?d) (ret Recovered_New_Database)
         else if jn_switched j \<and> jn_stage j \<in> {Switched, Smoke_Failed, Failed} \<and> \<not> present Rollback w
         then bind_to (recover_from_backup D ?p ?d) (\<lambda>ok.
              if ok then bind_to (recover_rollback D ?d Recovered_From_Backup) (recover_rest D ?p ?d)
              else ret Recovered_No_Existing_Database)
         else bind_to (recover_rollback D ?d Recovered_No_Switch) (recover_rest D ?p ?d)) ?R ?E ?C"
    proof cases
      case new
      then have "wd_files w (Active, Main) \<noteq> None" by (auto simp: valid_at_def split: option.splits)
      with new show ?thesis by (simp only: if_True simp_thms) (rule keeps_mono [OF keep_new_fine], auto)
    next
      case backup
      show ?thesis
      proof (cases "jn_backup j")
        case True
        from backup show ?thesis by (simp only: if_False if_True simp_thms) (rule keeps_mono [OF backed [OF True]], auto)
      next
        case False
        with backup(2) show ?thesis by (intro keeps_vacuous) (auto simp: fine_unbacked)
      qed
    next
      case else
      then show ?thesis by (simp only: if_False if_True simp_thms) (rule keeps_mono [OF plain], auto)
    qed
  qed
  show ?thesis unfolding recover_journal_def Let_def
    by (cases "jn_stage j = Created \<and> \<not> jn_active j") (simp_all only: if_False if_True simp_thms created keeps_then(1) [OF touch keeps_then(1) [OF touch choice]])
qed

text \<open>What a start finds after the recovery: an operation that has ended.\<close>

definition settled_end :: "sqlite \<Rightarrow> (string option \<Rightarrow> bool) \<Rightarrow> string \<Rightarrow> bool \<Rightarrow> world \<Rightarrow> bool" where
  "settled_end D sm old s w =
     (safe D sm old s w \<and> (case wd_journal w of None \<Rightarrow> True | Some j \<Rightarrow> jn_stage j \<in> set TERMINAL_STAGES))"

lemma wp_recover_upgrade:
  assumes w: "may s (mc_faults w)" "safe D sm old s w"
  shows "wp (recover_upgrade D)
    (\<lambda>r w'. safe D sm old s w' \<and> (r = Recovery_Error \<longrightarrow> \<not> s) \<and> (r \<noteq> Recovery_Error \<longrightarrow> settled_end D sm old s w'))
    (\<lambda>_ _. False) (safe D sm old s) w"
    (is "wp _ ?Q ?E ?C w")
proof (cases "wd_journal w")
  case None
  then show ?thesis using w by (simp add: recover_upgrade_def wp_simps settled_end_def)
next
  case (Some j)
  have fine: "fine D sm old s j (wd_files w)" using w Some by (simp add: safe_def)
  show ?thesis
  proof (cases "jn_stage j \<in> set TERMINAL_STAGES")
    case True
    then show ?thesis using w Some by (simp add: recover_upgrade_def wp_simps settled_end_def)
  next
    case False
    have error: "wp (except_do (and_then (write_journal (j\<lparr>jn_stage := Recovery_Failed\<rparr>)) (ret Recovery_Error)) (\<lambda>_. ret Recovery_Error))
        ?Q ?E ?C w'" if w': "may s (mc_faults w')" "wd_journal w' = Some j" "fine D sm old s j (wd_files w')" "\<not> s" for w'
    proof -
      have "fine D sm old s (j\<lparr>jn_stage := Recovery_Failed\<rparr>) (wd_files w')"
        using w'(3) False by (auto simp: fine_def plain_stage_def TERMINAL_STAGES_def)
      then show ?thesis
        unfolding wp_except wp_and_then wp_ret write_journal_def
        by (intro restore.wp_os_change [where s = s]) (use w' in \<open>auto simp: safe_def\<close>)
    qed
    have run: "wp (recover_journal D j) (\<lambda>st w'. may s (mc_faults w') \<and> same_vars w w' \<and> recovered_files D sm old s j st (wd_files w'))
        (\<lambda>e w'. may s (mc_faults w') \<and> same_vars w w' \<and> fine D sm old s j (wd_files w') \<and> \<not> s)
        (\<lambda>w'. same_vars w w' \<and> fine D sm old s j (wd_files w')) w"
      using recover_journal_keeps [OF False, of s D sm old] w(1) fine by (simp add: keeps_when_def)
    have "wp (except_do (bind_to (recover_journal D j) (\<lambda>st. and_then (write_journal (j\<lparr>jn_stage := st\<rparr>)) (ret (Recovered st))))
           (\<lambda>_. except_do (and_then (write_journal (j\<lparr>jn_stage := Recovery_Failed\<rparr>)) (ret Recovery_Error)) (\<lambda>_. ret Recovery_Error))) ?Q ?E ?C w"
      unfolding wp_except [of "bind_to _ _"] wp_bind
    proof (rule wp_mono [OF run], goal_cases)
      case (1 st w')
      have vars: "wd_journal w' = Some j" using 1 Some by (simp add: same_vars_def)
      then have j': "wd_journal w' = Some j" "fine D sm old s j (wd_files w')" "fine D sm old s (j\<lparr>jn_stage := st\<rparr>) (wd_files w')"
        "st \<in> set TERMINAL_STAGES"
        using 1 by (simp_all add: recovered_files_def)
      have written: "wp (write_journal (j\<lparr>jn_stage := st\<rparr>)) (\<lambda>_. ?Q (Recovered st)) (\<lambda>_ w''. \<exists>fs. may s fs \<and> \<not> s \<and> w'' = w'\<lparr>mc_faults := fs\<rparr>) ?C w'"
        unfolding write_journal_def
        by (rule restore.wp_os_change [where s = s]) (use 1 j' in \<open>auto simp: settled_end_def safe_def\<close>)
      show ?case unfolding wp_and_then wp_ret
        by (rule wp_mono [OF written]) (use j' error in auto)
    next
      case (2 e w')
      then show ?case using error Some by (auto simp: same_vars_def)
    next
      case (3 w')
      then show ?case using Some by (simp add: safe_def same_vars_def)
    qed
    then show ?thesis using Some False by (simp add: recover_upgrade_def wp_bind wp_gets)
  qed
qed

end
