(* ===== verification/Upgrade_Safety.thy ===== *)
theory Upgrade_Safety
  imports Upgrade_Mesh Upgrade_Recovery
begin

text \<open>
  Upgrade and recovery together: what a start finds, however often and wherever the upgrade and the
  recoveries before it were cut off. Concrete runs show where the outcome falls short of the intent.
\<close>

section \<open>Programs end\<close>

text \<open>With no fault left a program ends with a value or an exception.\<close>

definition calm :: "'a upgrade \<Rightarrow> bool" where
  "calm a = (\<forall>w. mc_faults w = [] \<longrightarrow> wp a (\<lambda>_ w'. mc_faults w' = []) (\<lambda>_ w'. mc_faults w' = []) (\<lambda>_. False) w)"

named_theorems calm

lemma calm_basic [calm]: "calm (ret x)" "calm (throw e)" "calm (gets f)"
  by (simp_all add: calm_def wp_simps)

lemma calm_bind [calm]: "calm a \<Longrightarrow> (\<And>x. calm (f x)) \<Longrightarrow> calm (bind_to a f)"
  unfolding calm_def wp_bind by (intro allI impI) (erule allE, erule impE, assumption, erule wp_mono, auto)

lemma calm_then [calm]: "calm a \<Longrightarrow> calm b \<Longrightarrow> calm (and_then a b)"
  unfolding and_then_def by (rule calm_bind)

lemma calm_if [calm]: "calm a \<Longrightarrow> calm b \<Longrightarrow> calm (if c then a else b)"
  by simp

lemma calm_only_if [calm]: "calm a \<Longrightarrow> calm (only_if c a)"
  by (simp add: only_if_def calm_basic)

lemma calm_steps [calm]: "calm (steps [])" "calm a \<Longrightarrow> calm (steps as) \<Longrightarrow> calm (steps (a # as))"
  by (simp_all add: calm_basic calm_then)

lemma calm_except [calm]: "calm a \<Longrightarrow> (\<And>e. calm (h e)) \<Longrightarrow> calm (except_do a h)"
  unfolding calm_def wp_except by (intro allI impI) (erule allE, erule impE, assumption, erule wp_mono, auto)

lemma calm_effect: "(\<And>w. mc_faults w = [] \<Longrightarrow> wp a (\<lambda>_ w'. mc_faults w' = []) (\<lambda>_ w'. mc_faults w' = []) (\<lambda>_. False) w) \<Longrightarrow> calm (os_effect a)"
  by (simp add: calm_def os_effect_def wp_def effect_def)

lemma calm_files [calm]: "calm (rename_part k p q)" "calm (sqlite_backup D p q)" "calm touch" "calm (write_journal j)"
  unfolding rename_part_def sqlite_backup_def touch_def write_journal_def
  by (rule calm_effect; simp add: wp_def change_def throw_def ret_def put_file_def split: option.split)+

lemma calm_unique [calm]: "calm (unique_path p)" "calm (unique_target d name)"
  by (auto simp: calm_def wp_def unique_target_def unique_path_def split: place.split)

lemma calm_moves [calm]: "calm (rename_to p q)" "calm (move_with_sidecars p q)"
  unfolding rename_to_def move_with_sidecars_def move_sidecars_def by (intro calm)+

lemma calm_aside [calm]: "calm (set_aside p d name)" "calm (set_aside_folder b p d name)" "calm a \<Longrightarrow> calm (when_present p a)"
  unfolding set_aside_def set_aside_folder_def when_present_def by (intro calm | assumption)+

lemma calm_recover [calm]: "calm (recover_rollback D d st)" "calm (recover_rest D parsed d st)" "calm (recover_from_backup D parsed d)"
  "calm (keep_new_database parsed d)"
  unfolding recover_rollback_def recover_rest_def recover_from_backup_def keep_new_database_def by (intro calm)+

lemma calm_recover_journal [calm]: "calm (recover_journal D j)"
  unfolding recover_journal_def Let_def by (intro calm)

lemma calm_recovery: "calm (recover_upgrade D)"
proof -
  have "calm (case found of None \<Rightarrow> ret Skipped | Some j \<Rightarrow>
         if jn_stage j \<in> set TERMINAL_STAGES then ret Skipped
         else except_do
           (bind_to (recover_journal D j) (\<lambda>st. and_then (write_journal (j\<lparr>jn_stage := st\<rparr>)) (ret (Recovered st))))
           (\<lambda>_. except_do (and_then (write_journal (j\<lparr>jn_stage := Recovery_Failed\<rparr>)) (ret Recovery_Error))
                  (\<lambda>_. ret Recovery_Error)))" for found
    by (cases found) (simp_all only: option.case, (intro calm)+)
  then show ?thesis unfolding recover_upgrade_def by (intro calm)
qed

section \<open>Runs of the program\<close>

text \<open>The starts after an upgrade, each with faults of its own.\<close>

fun restarts :: "sqlite \<Rightarrow> fault list list \<Rightarrow> world \<Rightarrow> world" where
  "restarts D [] w = w"
| "restarts D (fs # fss) w = restarts D fss (snd (recover_upgrade D (w\<lparr>mc_faults := fs\<rparr>)))"

definition supported :: "sqlite \<Rightarrow> adapter \<Rightarrow> bool" where
  "supported D ad = (ad = restore_adapter D \<or> (\<exists>M. (\<forall>c. sound D c \<longrightarrow> sound D (mi_rewrite M c)) \<and> ad = mesh_adapter D M))"

lemma supported_adapter: "supported D ad \<Longrightarrow> upgrade_adapter D sm old s ad"
  using restore.upgrade_adapter_axioms mesh_upgrade_adapter unfolding supported_def by blast

lemma wp_snd: "wp a Q E C w \<Longrightarrow> (\<And>x w'. Q x w' \<Longrightarrow> P w') \<Longrightarrow> (\<And>e w'. E e w' \<Longrightarrow> P w') \<Longrightarrow> (\<And>w'. C w' \<Longrightarrow> P w') \<Longrightarrow> P (snd (a w))"
  using wpD [of a Q E C w] by (metis outcome.exhaust prod.collapse)

lemma restarts_safe: "\<forall>fs \<in> set fss. may s fs \<Longrightarrow> safe D sm old s w \<Longrightarrow> safe D sm old s (restarts D fss w)"
proof (induction fss arbitrary: w)
  case (Cons fs fss)
  have "safe D sm old s (snd (recover_upgrade D (w\<lparr>mc_faults := fs\<rparr>)))"
    by (rule wp_snd [OF wp_recover_upgrade]) (use Cons.prems in auto)
  then show ?case using Cons by simp
qed simp

definition ready_to_upgrade :: "sqlite \<Rightarrow> string \<Rightarrow> world \<Rightarrow> bool" where
  "ready_to_upgrade D old w = (untouched D old (wd_files w) \<and> wd_journal w = None \<and> \<not> wd_paused w)"

lemma upgrade_safe:
  assumes "supported D ad" "ready_to_upgrade D old w" "may s (mc_faults w)"
  shows "wp (upgrade_locked D ds ad) (\<lambda>_. done_ok D (ds_smoke ds) old s) (\<lambda>_. raised_ok D (ds_smoke ds) old s) (safe D (ds_smoke ds) old s) w"
  by (rule upgrade_adapter.wp_upgrade_locked [OF supported_adapter [OF assms(1)]]) (use assms in \<open>auto simp: ready_to_upgrade_def\<close>)

text \<open>Whoever finds an operation that has ended finds a database, and the old one is kept.\<close>

lemma settled_database:
  assumes "settled_end D sm old s w"
  shows "\<exists>c. database D Active w = Some c \<and> (c = old \<or> sound D c \<and> (s \<longrightarrow> sm (Some c)) \<and> database D (backup_database Backup_Folder) w = Some old)"
proof (cases "wd_journal w")
  case None
  then show ?thesis using assms by (auto simp: settled_end_def safe_def untouched_def database_def)
next
  case (Some j)
  then show ?thesis using assms
    by (cases "jn_backup j")
      (auto simp: settled_end_def safe_def fine_def core_def untouched_def database_def no_sidecars_def plain_stage_def)
qed

text \<open>What the smoke test says does not matter when effects may fail.\<close>

lemma safe_any_test: "safe D sm old False w \<Longrightarrow> safe D (\<lambda>_. True) old True w"
  by (auto simp: safe_def fine_def core_def split: option.splits if_splits)

lemma quiet_recovery:
  assumes "safe D sm old s w"
  obtains r w' where "recover_upgrade D (w\<lparr>mc_faults := []\<rparr>) = (Done r, w')" "r \<noteq> Recovery_Error"
    "\<exists>c. database D Active w' = Some c \<and> (c = old \<or> sound D c \<and> (s \<longrightarrow> sm (Some c)) \<and> database D (backup_database Backup_Folder) w' = Some old)"
proof -
  let ?w = "w\<lparr>mc_faults := []\<rparr>"
  define t where "t = (if s then sm else (\<lambda>_. True))"
  have "safe D t old True ?w" using assms safe_any_test by (cases s) (auto simp: t_def)
  then have run: "wp (recover_upgrade D) (\<lambda>r w'. safe D t old True w' \<and> (r = Recovery_Error \<longrightarrow> \<not> True) \<and>
      (r \<noteq> Recovery_Error \<longrightarrow> settled_end D t old True w')) (\<lambda>_ _. False) (safe D t old True) ?w"
    by (intro wp_recover_upgrade) simp_all
  have ends: "wp (recover_upgrade D) (\<lambda>_ w'. mc_faults w' = []) (\<lambda>_ w'. mc_faults w' = []) (\<lambda>_. False) ?w"
    using calm_recovery by (simp add: calm_def)
  obtain x w' where x: "recover_upgrade D ?w = (x, w')" by fastforce
  then obtain r where r: "x = Done r" using ends run by (cases x) (auto simp: wp_def)
  then have r': "r \<noteq> Recovery_Error" "settled_end D t old True w'" using wpD(1) [OF run, of r w'] x by auto
  show thesis by (rule that [OF x [unfolded r] r'(1)]) (use settled_database [OF r'(2)] in \<open>auto simp: t_def split: if_splits\<close>)
qed

text \<open>
  C1. Whatever effects of the upgrade fail or wherever the process dies, and however many recoveries
  after it are cut off, one start without faults ends the operation without an error; the active
  database is then the old one or a sound new one with the old one in the backup.
\<close>

lemma upgrade_recovers:
  assumes "supported D ad" "ready_to_upgrade D old w"
  shows "\<exists>r w'. recover_upgrade D ((restarts D fss (snd (upgrade_locked D ds ad w)))\<lparr>mc_faults := []\<rparr>) = (Done r, w') \<and>
    r \<noteq> Recovery_Error \<and>
    (\<exists>c. database D Active w' = Some c \<and> (c = old \<or> sound D c \<and> database D (backup_database Backup_Folder) w' = Some old))"
proof -
  have "safe D (ds_smoke ds) old False (snd (upgrade_locked D ds ad w))"
    by (rule wp_snd [OF upgrade_safe [OF assms]]) (auto simp: done_ok_def raised_ok_def)
  then have "safe D (ds_smoke ds) old False (restarts D fss (snd (upgrade_locked D ds ad w)))"
    by (intro restarts_safe) simp_all
  then show ?thesis by (rule quiet_recovery) blast
qed

text \<open>
  C5. Where the process only dies and no effect fails, the start without faults finds the old database or
  one that passes the smoke test.
\<close>

lemma crashed_upgrade_checked:
  assumes "supported D ad" "ready_to_upgrade D old w" "\<forall>fs \<in> set (mc_faults w # fss). Fail \<notin> set fs"
  shows "\<exists>r w' c. recover_upgrade D ((restarts D fss (snd (upgrade_locked D ds ad w)))\<lparr>mc_faults := []\<rparr>) = (Done r, w') \<and>
    database D Active w' = Some c \<and> (c = old \<or> ds_smoke ds (Some c))"
proof -
  have "safe D (ds_smoke ds) old True (snd (upgrade_locked D ds ad w))"
    by (rule wp_snd [OF upgrade_safe [OF assms(1,2)]]) (use assms(3) in \<open>auto simp: done_ok_def raised_ok_def may_def\<close>)
  then have "safe D (ds_smoke ds) old True (restarts D fss (snd (upgrade_locked D ds ad w)))"
    by (intro restarts_safe) (use assms(3) in \<open>simp_all add: may_def\<close>)
  then show ?thesis by (rule quiet_recovery) blast
qed

text \<open>
  C3. An upgrade that returns is completed in the journal, its new database is sound and passes the smoke
  test, the old one is in the backup and the writers are resumed; one that raises without a failing
  effect has the old database active and the writers resumed.
\<close>

lemma upgrade_outcome:
  assumes "supported D ad" "ready_to_upgrade D old w"
  shows "case upgrade_locked D ds ad w of
      (Done _, w') \<Rightarrow> map_option jn_stage (wd_journal w') = Some Completed \<and> \<not> wd_paused w' \<and>
        (\<exists>c. database D Active w' = Some c \<and> sound D c \<and> ds_smoke ds (Some c)) \<and> database D (backup_database Backup_Folder) w' = Some old
    | (Raised e, w') \<Rightarrow> Fail \<in> set (mc_faults w) \<or> database D Active w' = Some old \<and> \<not> wd_paused w'
    | (Crashed, w') \<Rightarrow> True"
proof -
  have run: "wp (upgrade_locked D ds ad) (\<lambda>_. done_ok D (ds_smoke ds) old s) (\<lambda>_. raised_ok D (ds_smoke ds) old s) (safe D (ds_smoke ds) old s) w"
    if "may s (mc_faults w)" for s
    by (rule upgrade_safe [OF assms that])
  have completed: "map_option jn_stage (wd_journal w') = Some Completed \<and> \<not> wd_paused w' \<and>
      (\<exists>c. database D Active w' = Some c \<and> sound D c \<and> ds_smoke ds (Some c)) \<and> database D (backup_database Backup_Folder) w' = Some old"
    if "upgrade_locked D ds ad w = (Done x, w')" for x w'
    using wpD(1) [OF run [of False] that] by (auto simp: done_ok_def new_active_def passed_def core_def no_sidecars_def database_def)
  have raised: "Fail \<in> set (mc_faults w) \<or> database D Active w' = Some old \<and> \<not> wd_paused w'"
    if "upgrade_locked D ds ad w = (Raised e, w')" for e w'
    using wpD(2) [OF run [of True] that] by (auto simp: raised_ok_def may_def)
  show ?thesis using completed raised by (auto split: prod.split outcome.split)
qed

section \<open>Concrete runs\<close>

text \<open>The old database is active, a backup is to be restored.\<close>

definition example_files :: "((place \<times> part) \<times> string) list" where
  "example_files = [((Active, Main), ''old''), ((Source, Main), ''new'')]"

lemma example_ready: "ready_to_upgrade example_sqlite ''old'' (example_world example_files fs)"
  by (auto simp: ready_to_upgrade_def example_world_def example_files_def untouched_def sound_def kept_ok_def kept_rollback_def
      example_sqlite_def sq_text_def)

lemma example_supported: "supported D (restore_adapter D)"
  by (simp add: supported_def)

definition run_example :: "bool \<Rightarrow> ((place \<times> part) \<times> string) list \<Rightarrow> fault list \<Rightarrow> (upgrade_error, unit) outcome \<times> world" where
  "run_example smoke files faults =
     upgrade_locked example_sqlite (example_descriptor (\<lambda>_. smoke)) (restore_adapter example_sqlite) (example_world files faults)"

text \<open>
  The smoke test fails and the first rename of the rollback fails too: the new database stays active and
  the journal says that the upgrade was rolled back.
\<close>

lemma failed_rollback_keeps_new:
  "wd_files (snd (run_example False example_files (replicate 25 Go @ [Fail]))) (Active, Main) = Some ''new'' \<and>
   map_option jn_stage (wd_journal (snd (run_example False example_files (replicate 25 Go @ [Fail])))) = Some Failed_Rolled_Back"
  by code_simp

text \<open>With no database to upgrade and a death before the switch, recovery fails at every start.\<close>

lemma no_database_blocks_start:
  "fst (recover_upgrade example_sqlite ((snd (run_example True [((Source, Main), ''new'')] (replicate 5 Go @ [Stop])))\<lparr>mc_faults := []\<rparr>)) =
     Done Recovery_Error"
  by code_simp


definition example_import :: mesh_import where
  "example_import = \<lparr>mi_database = ''new'', mi_parsed = ''p-new'', mi_schema_ok = (\<lambda>_. True), mi_rewrite = id\<rparr>"

definition mesh_example :: world where
  "mesh_example = snd (upgrade_locked example_sqlite (example_descriptor (\<lambda>_. False)) (mesh_adapter example_sqlite example_import)
     (example_world [((Active, Main), ''old''), ((Active_Parsed, Main), ''p-old'')] (replicate 37 Go @ [Stop])))"

text \<open>
  Death after the rollback of a MESH upgrade, before the journal is written: the rollback put the parsed
  data back, and the recovery of that journal moves them away.
\<close>

lemma mesh_undone: "wd_files mesh_example (Active_Parsed, Main) = Some ''p-old''"
  by code_simp

lemma recovery_drops_parsed:
  "(let r = recover_upgrade example_sqlite
        ((example_world [((Active, Main), ''old''), ((Active_Parsed, Main), ''p-old''), ((backup_database Backup_Folder, Main), ''old'')] [])
          \<lparr>wd_journal := Some \<lparr>jn_stage = Failed, jn_active = True, jn_switched = True, jn_backup = True, jn_parsed = True\<rparr>\<rparr>)
    in (fst r, wd_files (snd r) (Active, Main), wd_files (snd r) (Active_Parsed, Main))) =
   (Done (Recovered Recovered_From_Backup), Some ''old'', None)"
  by code_simp

lemma upgrade_recovers_witness:
  "\<exists>r w'. recover_upgrade example_sqlite ((restarts example_sqlite [[Fail], [Go, Go, Stop]]
      (snd (run_example False example_files (replicate 24 Go @ [Stop]))))\<lparr>mc_faults := []\<rparr>) = (Done r, w') \<and>
    r \<noteq> Recovery_Error \<and>
    (\<exists>c. database example_sqlite Active w' = Some c \<and> (c = ''old'' \<or> sound example_sqlite c \<and>
      database example_sqlite (backup_database Backup_Folder) w' = Some ''old''))"
  unfolding run_example_def by (rule upgrade_recovers [OF example_supported example_ready])

lemma crashed_upgrade_checked_witness:
  "\<exists>r w' c. recover_upgrade example_sqlite ((restarts example_sqlite [[Go, Go, Stop]]
      (snd (run_example False example_files (replicate 24 Go @ [Stop]))))\<lparr>mc_faults := []\<rparr>) = (Done r, w') \<and>
    database example_sqlite Active w' = Some c \<and> (c = ''old'' \<or> False)"
  using crashed_upgrade_checked [OF example_supported example_ready, of "replicate 24 Go @ [Stop]" "[[Go, Go, Stop]]"
      "example_descriptor (\<lambda>_. False)"]
  by (simp add: run_example_def example_descriptor_def example_world_def)

lemma upgrade_outcome_witness:
  "map_option jn_stage (wd_journal (snd (run_example True example_files []))) = Some Completed \<and>
   database example_sqlite (backup_database Backup_Folder) (snd (run_example True example_files [])) = Some ''old''"
proof -
  have "fst (run_example True example_files []) = Done ()" by code_simp
  then obtain w' where "run_example True example_files [] = (Done (), w')" by (metis prod.collapse)
  then show ?thesis
    using upgrade_outcome [OF example_supported example_ready, of "example_descriptor (\<lambda>_. True)" "[]"]
    by (simp add: run_example_def)
qed

end
