(* ===== verification/Ip_Networks.thy ===== *)
theory Ip_Networks
  imports NC_Texts "HOL-Library.Word"
begin

unbundle bit_operations_syntax

text \<open>
  The IPv4 networks of \<^verbatim>\<open>services/network_tools/toolbox/ip_calc.py\<close>: the texts the program reads and writes,
  with the \<open>ipaddress\<close> module of the standard library as far as the program uses it. An address is
  a 32-bit word.
\<close>

section \<open>Networks\<close>

record ip_network =
  nw_addr :: "32 word"
  nw_plen :: nat

definition hostmask :: "nat \<Rightarrow> 32 word" where
  "hostmask p = mask (32 - p)"

definition netmask :: "nat \<Rightarrow> 32 word" where
  "netmask p = NOT (hostmask p)"

definition broadcast_address :: "ip_network \<Rightarrow> 32 word" where
  "broadcast_address n = nw_addr n OR hostmask (nw_plen n)"

definition num_addresses :: "ip_network \<Rightarrow> int" where
  "num_addresses n = 2 ^ (32 - nw_plen n)"

text \<open>The network of an address, host bits cleared.\<close>

definition network_of :: "32 word \<Rightarrow> nat \<Rightarrow> ip_network" where
  "network_of a p = \<lparr>nw_addr = a AND netmask p, nw_plen = p\<rparr>"

definition network_ok :: "ip_network \<Rightarrow> bool" where
  "network_ok n = (nw_plen n \<le> 32 \<and> nw_addr n AND hostmask (nw_plen n) = 0)"

section \<open>Texts\<close>

definition octet :: "nat \<Rightarrow> 32 word \<Rightarrow> nat" where
  "octet i a = unat (drop_bit (8 * i) a) mod 256"

definition address_text :: "32 word \<Rightarrow> string" where
  "address_text a = join ''.'' [show_nat (octet 3 a), show_nat (octet 2 a), show_nat (octet 1 a), show_nat (octet 0 a)]"

definition cidr :: "ip_network \<Rightarrow> string" where
  "cidr n = address_text (nw_addr n) @ ''/'' @ show_nat (nw_plen n)"

text \<open>An octet has at most three digits and no leading zero.\<close>

definition parse_octet :: "string \<Rightarrow> nat option" where
  "parse_octet s =
     (if isdigit s \<and> length s \<le> 3 \<and> (s = ''0'' \<or> hd s \<noteq> CHR ''0'') \<and> nat_of_digits s \<le> 255
      then Some (nat_of_digits s) else None)"

definition parse_address :: "string \<Rightarrow> (32 word) option" where
  "parse_address s =
     (case map parse_octet (split_on (CHR ''.'') s) of
        [Some a, Some b, Some c, Some d] \<Rightarrow> Some (word_of_nat (((a * 256 + b) * 256 + c) * 256 + d))
      | _ \<Rightarrow> None)"

text \<open>A mask is a prefix length, a netmask or, when it is no netmask, a hostmask.\<close>

definition parse_mask :: "string \<Rightarrow> nat option" where
  "parse_mask s =
     (if isdigit s \<and> nat_of_digits s \<le> 32 then Some (nat_of_digits s)
      else case parse_address s of
             None \<Rightarrow> None
           | Some w \<Rightarrow>
               (case find (\<lambda>p. netmask p = w) [0..<33] of
                  Some p \<Rightarrow> Some p
                | None \<Rightarrow> find (\<lambda>p. hostmask p = w) [0..<33]))"

definition parse_network :: "string \<Rightarrow> ip_network option" where
  "parse_network s =
     (case split_on (CHR ''/'') s of
        [a] \<Rightarrow> map_option (\<lambda>w. network_of w 32) (parse_address a)
      | [a, m] \<Rightarrow> (case (parse_address a, parse_mask m) of (Some w, Some p) \<Rightarrow> Some (network_of w p) | _ \<Rightarrow> None)
      | _ \<Rightarrow> None)"

text \<open>\<open>s.split()\<close>\<close>

function split_words :: "string \<Rightarrow> string list" where
  "split_words s =
     (let t = dropWhile is_space s in
      if t = [] then []
      else takeWhile (\<lambda>c. \<not> is_space c) t # split_words (dropWhile (\<lambda>c. \<not> is_space c) t))"
  by pat_completeness auto
termination
proof (relation "measure length", goal_cases)
  case (2 s t)
  obtain c u where t: "t = c # u" using 2(2) by (meson neq_Nil_conv)
  then have "\<not> is_space c" using 2(1) hd_dropWhile [of is_space s] 2(2) by auto
  then have "length (dropWhile (\<lambda>c. \<not> is_space c) t) < length t"
    using length_dropWhile_le [of "\<lambda>c. \<not> is_space c" u] by (simp add: t)
  then show ?case using 2(1) length_dropWhile_le [of is_space s] by simp
qed simp

declare split_words.simps [simp del]

text \<open>\<open>_parse_ipv4_network\<close>; \<open>v6\<close> says which texts are IPv6 networks.\<close>

definition parse_ipv4_network :: "(string \<Rightarrow> bool) \<Rightarrow> string \<Rightarrow> ip_network result" where
  "parse_ipv4_network v6 s =
     (let cleaned = join '' '' (split_words (strip s)) in
      if cleaned = [] then Inl (ValueError msg_ipv4_required)
      else let t = (if CHR '' '' \<in> set cleaned \<and> CHR ''/'' \<notin> set cleaned
                    then takeWhile (\<lambda>c. c \<noteq> CHR '' '') cleaned @ ''/'' @ tl (dropWhile (\<lambda>c. c \<noteq> CHR '' '') cleaned)
                    else cleaned) in
           case parse_network t of
             Some n \<Rightarrow> Inr n
           | None \<Rightarrow> Inl (ValueError (if v6 t then msg_ipv4_required
               else repr_str t @ '' does not appear to be an IPv4 or IPv6 network'')))"

definition looks_like_netmask :: "string \<Rightarrow> bool" where
  "looks_like_netmask s = (parse_network (''0.0.0.0/'' @ s) \<noteq> None \<and> length (filter (\<lambda>c. c = CHR ''.'') s) = 3)"

definition wildcard_network :: "(string \<Rightarrow> bool) \<Rightarrow> string \<Rightarrow> ip_network result" where
  "wildcard_network v6 s =
     (let cleaned = join '' '' (split_words (strip s)) in
      if startswith cleaned ''/'' then parse_ipv4_network v6 (''0.0.0.0'' @ cleaned)
      else if looks_like_netmask cleaned then parse_ipv4_network v6 (''0.0.0.0/'' @ cleaned)
      else parse_ipv4_network v6 cleaned)"

section \<open>Reading what was written\<close>

lemma uint_hostmask: "p \<le> 32 \<Longrightarrow> uint (hostmask p) = 2 ^ (32 - p) - 1"
proof -
  assume "p \<le> 32"
  then have "uint (hostmask p) = mask (32 - p)"
    by (intro bit_eqI) (auto simp: hostmask_def bit_uint_iff bit_mask_iff)
  then show ?thesis by (simp add: mask_eq_exp_minus_1)
qed

lemma bit_hostmask [simp]: "bit (hostmask p) i = (i < 32 - p)"
  by (auto simp: hostmask_def bit_mask_iff)

lemma bit_netmask [simp]: "bit (netmask p) i = (i < 32 \<and> 32 - p \<le> i)"
  by (auto simp: netmask_def bit_not_iff)

lemma netmask_inject: "p \<le> 32 \<Longrightarrow> q \<le> 32 \<Longrightarrow> netmask p = netmask q \<longleftrightarrow> p = q"
proof
  assume "p \<le> 32" "q \<le> 32" "netmask p = netmask q"
  then have "hostmask p = hostmask q" by (simp add: netmask_def)
  then have "(2 :: int) ^ (32 - p) = 2 ^ (32 - q)" using \<open>p \<le> 32\<close> \<open>q \<le> 32\<close> uint_hostmask by (metis diff_add_cancel)
  then show "p = q" using \<open>p \<le> 32\<close> \<open>q \<le> 32\<close> by simp
qed simp

lemma hostmask_inject: "p \<le> 32 \<Longrightarrow> q \<le> 32 \<Longrightarrow> hostmask p = hostmask q \<longleftrightarrow> p = q"
  using netmask_inject by (simp add: netmask_def)

lemma hostmask_not_netmask: "0 < q \<Longrightarrow> q < 32 \<Longrightarrow> netmask p \<noteq> hostmask q"
proof
  assume q: "0 < q" "q < 32" and eq: "netmask p = hostmask q"
  have "bit (netmask p) 31 = bit (hostmask q) 31" "bit (netmask p) 0 = bit (hostmask q) 0" using eq by simp_all
  with q show False by simp
qed

lemma find_only: "q \<in> set xs \<Longrightarrow> (\<And>p. p \<in> set xs \<Longrightarrow> P p \<longleftrightarrow> p = q) \<Longrightarrow> find P xs = Some q"
  by (induction xs) auto

lemma base_256: "n = 256 * k + r \<Longrightarrow> k = 256 * l + r' \<Longrightarrow> l = 256 * m + r'' \<Longrightarrow> ((m * 256 + r'') * 256 + r') * 256 + r = n"
  for n :: nat
  by simp

lemma octets_word:
  "word_of_nat (((octet 3 a * 256 + octet 2 a) * 256 + octet 1 a) * 256 + octet 0 a) = a"
proof -
  let ?n = "unat a"
  have "?n < 2 ^ 32" using unsigned_less [of a, where ?'a = nat] by simp
  then have "?n div 2 ^ 24 < 256" by (simp add: div_less_iff_less_mult)
  then have top: "?n div 2 ^ 24 mod 256 = ?n div 2 ^ 24" by simp
  have o: "octet i a = ?n div 2 ^ (8 * i) mod 256" for i
    by (simp only: octet_def unat_drop_bit_eq) (simp add: drop_bit_eq_div)
  have "octet 3 a = ?n div 256 div 256 div 256" "octet 2 a = ?n div 256 div 256 mod 256" "octet 1 a = ?n div 256 mod 256" "octet 0 a = ?n mod 256"
    using top by (simp_all add: o div_mult2_eq [symmetric])
  then have "((octet 3 a * 256 + octet 2 a) * 256 + octet 1 a) * 256 + octet 0 a = ?n"
    by (intro base_256 [of ?n "?n div 256" _ "?n div 256 div 256"]) simp_all
  then show ?thesis by simp
qed

lemma octet_less: "octet i a \<le> 255"
proof -
  have "octet i a < 256" by (simp add: octet_def)
  then show ?thesis by simp
qed

lemma first_digits: "list_all (\<lambda>d. digit_char d \<noteq> CHR ''0'') [1..<10] \<and> digit_char 0 = CHR ''0''"
  by code_simp

lemma first_digit: "0 < d \<Longrightarrow> d < 10 \<Longrightarrow> digit_char d \<noteq> CHR ''0''" "digit_char 0 = CHR ''0''"
  using first_digits by (auto simp: list_all_iff)

lemma parse_octet_show:
  assumes "k \<le> 255"
  shows "parse_octet (show_nat k) = Some k"
proof -
  have "length (show_nat k) \<le> 3 \<and> (show_nat k = ''0'' \<or> hd (show_nat k) \<noteq> CHR ''0'')"
  proof (cases "k < 10")
    case True
    then show ?thesis using first_digit(1) [of k] first_digit(2) by (cases "k = 0") (auto simp: show_nat.simps [of k] show_nat.simps [of 0])
  next
    case k: False
    show ?thesis
    proof (cases "k div 10 < 10")
      case True
      then show ?thesis using k first_digit(1) [of "k div 10"] by (auto simp: show_nat.simps [of k] show_nat.simps [of "k div 10"])
    next
      case False
      have "k div 10 div 10 < 10" "0 < k div 10 div 10" using assms False by auto
      then show ?thesis using k False first_digit(1) [of "k div 10 div 10"]
        by (auto simp: show_nat.simps [of k] show_nat.simps [of "k div 10"] show_nat.simps [of "k div 10 div 10"])
    qed
  qed
  then show ?thesis using assms by (auto simp: parse_octet_def)
qed

lemma digits_free: "\<not> is_digit c \<Longrightarrow> c \<notin> set (show_nat n)"
  using show_nat_digits [of n] by (auto simp: list_all_iff)

lemma separators [simp]: "\<not> is_digit (CHR ''.'')" "\<not> is_digit (CHR ''/'')" "\<not> is_digit (CHR '' '')"
  by code_simp+

lemma split_on_sep: "d \<notin> set x \<Longrightarrow> split_on d (x @ d # y) = x # split_on d y"
  by (induction x) auto

lemma parse_address_text: "parse_address (address_text a) = Some a"
  using octets_word [of a]
  by (simp add: parse_address_def address_text_def split_on_sep split_on_no_sep digits_free parse_octet_show octet_less)

lemma parse_mask_netmask: "p \<le> 32 \<Longrightarrow> parse_mask (address_text (netmask p)) = Some p"
proof -
  assume p: "p \<le> 32"
  have "\<not> isdigit (address_text (netmask p))" by (auto simp: isdigit_def address_text_def)
  moreover have "find (\<lambda>q. netmask q = netmask p) [0..<33] = Some p"
    by (rule find_only) (use p netmask_inject in auto)
  ultimately show ?thesis by (simp add: parse_mask_def parse_address_text)
qed

lemma parse_mask_hostmask: "0 < p \<Longrightarrow> p < 32 \<Longrightarrow> parse_mask (address_text (hostmask p)) = Some p"
proof -
  assume p: "0 < p" "p < 32"
  have "\<not> isdigit (address_text (hostmask p))" by (auto simp: isdigit_def address_text_def)
  moreover have "find (\<lambda>q. netmask q = hostmask p) [0..<33] = None"
    using hostmask_not_netmask [OF p] by (auto simp: find_None_iff)
  moreover have "find (\<lambda>q. hostmask q = hostmask p) [0..<33] = Some p"
    by (rule find_only) (use p hostmask_inject in auto)
  ultimately show ?thesis by (simp add: parse_mask_def parse_address_text)
qed

lemma parse_mask_show: "p \<le> 32 \<Longrightarrow> parse_mask (show_nat p) = Some p"
  by (simp add: parse_mask_def)

lemma network_of_ok: "network_ok n \<Longrightarrow> network_of (nw_addr n) (nw_plen n) = n"
proof -
  assume "network_ok n"
  then have "nw_addr n AND netmask (nw_plen n) = nw_addr n"
    by (intro bit_eqI) (auto simp: network_ok_def netmask_def bit_and_iff bit_not_iff dest: arg_cong [where f = "\<lambda>w. bit w _"])
  then show ?thesis by (simp add: network_of_def)
qed

lemma no_slash: "CHR ''/'' \<notin> set (address_text a)" "CHR '' '' \<notin> set (address_text a)"
  by (simp_all add: address_text_def digits_free)

lemma parse_network_cidr: "network_ok n \<Longrightarrow> parse_network (cidr n) = Some n"
  by (simp add: parse_network_def cidr_def split_on_sep split_on_no_sep digits_free no_slash parse_address_text parse_mask_show network_of_ok network_ok_def)

lemma parse_network_mask: "parse_mask m = Some p \<Longrightarrow> CHR ''/'' \<notin> set m \<Longrightarrow> parse_network (address_text a @ ''/'' @ m) = Some (network_of a p)"
  by (simp add: parse_network_def split_on_sep split_on_no_sep no_slash parse_address_text)

text \<open>Texts of digits, dots and slashes are words.\<close>

definition word_text :: "string \<Rightarrow> bool" where
  "word_text s = (s \<noteq> [] \<and> list_all (\<lambda>c. \<not> is_space c) s)"

lemma digit_no_space: "is_digit c \<Longrightarrow> \<not> is_space c"
  by (auto simp: is_digit_def is_space_def Let_def)

lemma word_texts: "word_text (address_text a)" "word_text (cidr n)"
  using show_nat_digits digit_no_space
  by (auto simp: word_text_def address_text_def cidr_def list_all_iff is_space_def is_digit_def)

lemma dropWhile_space: "word_text s \<Longrightarrow> dropWhile is_space (s @ t) = s @ t"
  by (cases s) (auto simp: word_text_def)

lemma split_words_step:
  assumes "word_text s" "u = [] \<or> is_space (hd u)"
  shows "split_words (s @ u) = s # split_words u"
proof -
  have "takeWhile (\<lambda>c. \<not> is_space c) (s @ u) = s" "dropWhile (\<lambda>c. \<not> is_space c) (s @ u) = u" "s @ u \<noteq> []"
    using assms by (cases u; auto simp: word_text_def list_all_iff)+
  note w = this dropWhile_space [OF assms(1), of u]
  show ?thesis by (subst split_words.simps) (simp only: Let_def w if_False)
qed

lemma split_words_Nil: "split_words [] = []"
  by (simp add: split_words.simps)

lemma split_words_word: "word_text s \<Longrightarrow> split_words s = [s]"
  using split_words_step [of s "[]"] by (simp add: split_words_Nil)

lemma space_char: "is_space (CHR '' '')"
  by code_simp

lemma split_words_two: "word_text s \<Longrightarrow> word_text t \<Longrightarrow> split_words (s @ '' '' @ t) = [s, t]"
proof -
  assume s: "word_text s" and t: "word_text t"
  have "split_words ('' '' @ t) = split_words t" using space_char by (subst (1 2) split_words.simps) simp
  then show ?thesis using split_words_step [OF s, of "'' '' @ t"] split_words_word [OF t] space_char by simp
qed

lemma strip_words: "word_text s \<Longrightarrow> word_text t \<Longrightarrow> strip (s @ u @ t) = s @ u @ t"
proof -
  assume s: "word_text s" and t: "word_text t"
  obtain t' c where c: "t = t' @ [c]" "\<not> is_space c" using t by (cases t rule: rev_cases) (auto simp: word_text_def)
  then show ?thesis using dropWhile_space [OF s, of "u @ t"] rstrip_by_append_last [of is_space c "s @ u @ t'"]
    by (simp add: strip_def lstrip_def)
qed

lemma strip_word: "word_text s \<Longrightarrow> strip s = s"
proof -
  assume s: "word_text s"
  obtain t' c where c: "s = t' @ [c]" "\<not> is_space c" using s by (cases s rule: rev_cases) (auto simp: word_text_def)
  then show ?thesis using dropWhile_space [OF s, of "[]"] rstrip_by_append_last [of is_space c t']
    by (simp add: strip_def lstrip_def)
qed

section \<open>The round trip\<close>

lemma parse_ipv4_cidr:
  assumes "network_ok n"
  shows "parse_ipv4_network v6 (cidr n) = Inr n"
proof -
  have "cidr n \<noteq> []" "CHR '' '' \<notin> set (cidr n)" using no_slash(2) digits_free by (auto simp: cidr_def)
  then show ?thesis
    by (simp add: parse_ipv4_network_def strip_word split_words_word word_texts parse_network_cidr [OF assms])
qed

text \<open>
  What the program writes for a network it reads back as that network: the text with the prefix
  length, the address with the netmask, and the address with the wildcard unless the prefix length is 0
  or 32.
\<close>

lemma network_text_roundtrip:
  assumes "network_ok n"
  shows "parse_ipv4_network v6 (cidr n) = Inr n \<and>
    parse_ipv4_network v6 (address_text (nw_addr n) @ '' '' @ address_text (netmask (nw_plen n))) = Inr n \<and>
    (nw_plen n \<in> {0, 32} \<or>
     parse_ipv4_network v6 (address_text (nw_addr n) @ '' '' @ address_text (hostmask (nw_plen n))) = Inr n)"
proof -
  have two: "parse_ipv4_network v6 (address_text (nw_addr n) @ '' '' @ address_text m) = Inr n"
    if m: "parse_mask (address_text m) = Some (nw_plen n)" for m
  proof -
    have "parse_network (address_text (nw_addr n) @ ''/'' @ address_text m) = Some n"
      using parse_network_mask [OF m no_slash(1)] network_of_ok [OF assms] by simp
    moreover have "address_text (nw_addr n) \<noteq> []" by (simp add: address_text_def)
    moreover have "strip (address_text (nw_addr n) @ CHR '' '' # address_text m) = address_text (nw_addr n) @ CHR '' '' # address_text m"
      "split_words (address_text (nw_addr n) @ CHR '' '' # address_text m) = [address_text (nw_addr n), address_text m]"
      using strip_words [OF word_texts(1) word_texts(1), of "nw_addr n" "'' ''" m] split_words_two [OF word_texts(1) word_texts(1), of "nw_addr n" m]
      by simp_all
    moreover have "takeWhile (\<lambda>c. c \<noteq> CHR '' '') (address_text (nw_addr n) @ CHR '' '' # u) = address_text (nw_addr n)"
      "dropWhile (\<lambda>c. c \<noteq> CHR '' '') (address_text (nw_addr n) @ CHR '' '' # u) = CHR '' '' # u" for u
      using no_slash(2) [of "nw_addr n"] by (auto simp: takeWhile_append dropWhile_append)
    ultimately show ?thesis
      using no_slash by (simp add: parse_ipv4_network_def)
  qed
  have "parse_ipv4_network v6 (cidr n) = Inr n" using assms by (rule parse_ipv4_cidr)
  moreover have "nw_plen n \<le> 32" using assms by (simp add: network_ok_def)
  moreover have "nw_plen n \<in> {0, 32} \<or> parse_ipv4_network v6 (address_text (nw_addr n) @ '' '' @ address_text (hostmask (nw_plen n))) = Inr n"
    using two [OF parse_mask_hostmask] \<open>nw_plen n \<le> 32\<close> by (cases "nw_plen n \<in> {0, 32}") auto
  ultimately show ?thesis using two [OF parse_mask_netmask] by blast
qed

text \<open>The hostmask of a single address reads as the netmask of the whole address space.\<close>

lemma single_host_wildcard: "parse_mask (address_text (hostmask 32)) = Some 0"
proof -
  have "hostmask 32 = netmask 0" by (simp add: hostmask_def netmask_def mask_eq_exp_minus_1)
  then show ?thesis using parse_mask_netmask [of 0] by simp
qed


lemma network_text_roundtrip_witness:
  "parse_ipv4_network (\<lambda>_. False) (cidr \<lparr>nw_addr = 0x0A010000, nw_plen = 16\<rparr>) = Inr \<lparr>nw_addr = 0x0A010000, nw_plen = 16\<rparr>"
  using network_text_roundtrip [of "\<lparr>nw_addr = 0x0A010000, nw_plen = 16\<rparr>" "\<lambda>_. False"]
  by (simp add: network_ok_def hostmask_def mask_eq_exp_minus_1)

end
