(* ===== verification/Ip_Planning.thy ===== *)
theory Ip_Planning
  imports Ip_Networks Text_Decoder Track_Mileage "HOL-Library.Multiset"
begin

unbundle bit_operations_syntax

text \<open>
  \<^verbatim>\<open>services/network_tools/toolbox/ip_calc.py\<close>: planning subnets of a network for requested numbers of
  hosts and splitting a network into pages of subnets.
\<close>

section \<open>Tables\<close>

record ('r, 's) table_result =
  tb_rows :: "'r list"
  tb_summary :: "'s option"
  tb_errors :: "string list"

definition failed_table :: "string list \<Rightarrow> ('r, 's) table_result" where
  "failed_table errors = \<lparr>tb_rows = [], tb_summary = None, tb_errors = errors\<rparr>"

text \<open>\<open>_ipv4_usable_bounds\<close>: the number of usable hosts with the first and the last.\<close>

definition ipv4_usable_bounds :: "ip_network \<Rightarrow> int \<times> (32 word \<times> 32 word) option" where
  "ipv4_usable_bounds n =
     (if 31 \<le> nw_plen n then (num_addresses n, Some (nw_addr n, broadcast_address n))
      else if num_addresses n \<le> 2 then (0, None)
      else (num_addresses n - 2, Some (nw_addr n + 1, broadcast_address n - 1)))"

definition bound_texts :: "ip_network \<Rightarrow> pydict" where
  "bound_texts n =
     (case snd (ipv4_usable_bounds n) of
        None \<Rightarrow> [(''first_usable'', PStr ''-''), (''last_usable'', PStr ''-'')]
      | Some (a, b) \<Rightarrow> [(''first_usable'', PStr (address_text a)), (''last_usable'', PStr (address_text b))])"

definition mask_texts :: "ip_network \<Rightarrow> pydict" where
  "mask_texts n = [(''netmask'', PStr (address_text (netmask (nw_plen n)))), (''wildcard'', PStr (address_text (hostmask (nw_plen n))))]"

definition ipv4_subnet_row :: "string \<Rightarrow> int \<Rightarrow> ip_network \<Rightarrow> pydict" where
  "ipv4_subnet_row name requested n =
     [(''name'', PStr name), (''requested_hosts'', PInt requested), (''prefix'', PInt (int (nw_plen n))),
      (''network'', PStr (address_text (nw_addr n))), (''cidr'', PStr (cidr n))] @ mask_texts n @ bound_texts n @
     [(''broadcast'', PStr (address_text (broadcast_address n))), (''usable_hosts'', PInt (fst (ipv4_usable_bounds n))),
      (''wasted_hosts'', PInt (max (fst (ipv4_usable_bounds n) - requested) 0))]"

definition ipv4_split_row :: "int \<Rightarrow> ip_network \<Rightarrow> pydict" where
  "ipv4_split_row index n =
     [(''index'', PInt index), (''network'', PStr (address_text (nw_addr n))), (''cidr'', PStr (cidr n)),
      (''prefix'', PInt (int (nw_plen n)))] @ mask_texts n @ bound_texts n @
     [(''broadcast'', PStr (address_text (broadcast_address n))), (''usable_hosts'', PInt (fst (ipv4_usable_bounds n)))]"

text \<open>\<open>IPv4Network((address, prefix))\<close>\<close>

definition strict_network :: "int \<Rightarrow> nat \<Rightarrow> ip_network result" where
  "strict_network c p =
     (if c < 0 \<or> 2 ^ 32 \<le> c then Inl (ValueError (show_int c @ '' (>= 2**32) is not permitted as an IPv4 address''))
      else let n = \<lparr>nw_addr = word_of_int c, nw_plen = p\<rparr> in
           if network_ok n then Inr n else Inl (ValueError (cidr n @ '' has host bits set'')))"

section \<open>Texts in lines\<close>

text \<open>\<open>s.splitlines()\<close> with the ASCII line ends.\<close>

definition is_line_end :: "char \<Rightarrow> bool" where
  "is_line_end c = (let n = of_char c :: nat in 10 \<le> n \<and> n \<le> 13 \<or> 28 \<le> n \<and> n \<le> 30)"

function splitlines :: "string \<Rightarrow> string list" where
  "splitlines s =
     (if s = [] then []
      else let line = takeWhile (\<lambda>c. \<not> is_line_end c) s; rest = dropWhile (\<lambda>c. \<not> is_line_end c) s in
           line # splitlines (if take 2 rest = [CHR 0x0D, CHR 0x0A] then drop 2 rest else drop 1 rest))"
  by pat_completeness auto
termination
proof (relation "measure length", goal_cases)
  case (2 s line rest)
  have "length rest \<le> length s" using 2(3) by (simp add: length_dropWhile_le)
  moreover have "0 < length s" using 2(1) by simp
  ultimately have "length rest - 1 < length s" "length rest - 2 < length s" by linarith+
  then show ?case by simp
qed simp

declare splitlines.simps [simp del]

definition numbered :: "'a list \<Rightarrow> (nat \<times> 'a) list" where
  "numbered xs = enumerate 1 xs"

section \<open>Requests\<close>

text \<open>
  \<^verbatim>\<open>([^,\s]+)\s*,?\s*(\d+)\<close> at the beginning of a text: the name is as long as possible, so without digits
  after it its last digit that is not its first character is the number. The answer is the name, the
  number, the matched text and the rest.
\<close>

definition item_char :: "char \<Rightarrow> bool" where
  "item_char c = (c \<noteq> CHR '','' \<and> \<not> is_space c)"

definition after_comma :: "string \<Rightarrow> string" where
  "after_comma s =
     (let t = dropWhile is_space s in
      case t of c # u \<Rightarrow> if c = CHR '','' then dropWhile is_space u else t | [] \<Rightarrow> [])"

definition match_item :: "string \<Rightarrow> (string \<times> string \<times> string \<times> string) option" where
  "match_item s =
     (let run = takeWhile item_char s; t = after_comma (dropWhile item_char s); ds = takeWhile is_digit t in
      if run = [] then None
      else if ds \<noteq> []
      then let rest = dropWhile is_digit t in Some (run, ds, take (length s - length rest) s, rest)
      else case find (\<lambda>k. is_digit (run ! k)) (rev [1..<length run]) of
             None \<Rightarrow> None
           | Some k \<Rightarrow> Some (take k run, [run ! k], take (Suc k) s, drop (Suc k) s))"

fun search_item :: "string \<Rightarrow> (string \<times> string \<times> string \<times> string) option" where
  "search_item [] = None"
| "search_item (c # cs) = (case match_item (c # cs) of Some r \<Rightarrow> Some r | None \<Rightarrow> search_item cs)"

lemma after_comma_length: "length (after_comma s) \<le> length s"
proof -
  have d: "length (dropWhile is_space x) \<le> length x" for x by (rule length_dropWhile_le)
  show ?thesis
  proof (cases "dropWhile is_space s")
    case (Cons c u)
    then show ?thesis using d [of s] d [of u] by (auto simp: after_comma_def)
  next
    case Nil
    show ?thesis unfolding after_comma_def Let_def Nil by simp
  qed
qed

lemma match_item_shorter: "match_item s = Some (n, ds, m, rest) \<Longrightarrow> length rest < length s"
proof -
  assume m: "match_item s = Some (n, ds, m, rest)"
  define t where "t = after_comma (dropWhile item_char s)"
  have "length t \<le> length (dropWhile item_char s)" unfolding t_def by (rule after_comma_length)
  moreover have "takeWhile item_char s \<noteq> []" using m by (auto simp: match_item_def Let_def)
  then have "0 < length (takeWhile item_char s)" by simp
  moreover have "length (takeWhile item_char s) + length (dropWhile item_char s) = length s"
    by (metis length_append takeWhile_dropWhile_id)
  moreover have "length (dropWhile is_digit t) \<le> length t" by (rule length_dropWhile_le)
  ultimately have "length (dropWhile is_digit t) < length s" "\<And>k. length s - Suc k < length s" by linarith+
  then show ?thesis using m
    by (auto simp: match_item_def Let_def t_def [symmetric] split: if_splits option.splits)
qed

lemma search_item_shorter: "search_item s = Some (n, ds, m, rest) \<Longrightarrow> length rest < length s"
proof (induction s)
  case (Cons c cs)
  show ?case
  proof (cases "match_item (c # cs)")
    case None
    then show ?thesis using Cons by (auto simp: less_SucI)
  next
    case (Some r)
    then show ?thesis using Cons.prems match_item_shorter [of "c # cs"] by auto
  qed
qed simp

text \<open>\<open>item_pattern.finditer(line)\<close>: the name, the number and the text of every match.\<close>

function items :: "string \<Rightarrow> (string \<times> string \<times> string) list" where
  "items s = (case search_item s of None \<Rightarrow> [] | Some (n, ds, m, rest) \<Rightarrow> (n, ds, m) # items rest)"
  by pat_completeness auto
termination by (relation "measure length") (auto simp: search_item_shorter)

declare items.simps [simp del]

text \<open>\<open>_compact\<close>\<close>

definition compact :: "string \<Rightarrow> string" where
  "compact s = filter (\<lambda>c. c \<notin> {CHR '','', CHR '' '', CHR 0x09}) s"

type_synonym request = "nat \<times> string \<times> int"

definition line_error :: "nat \<Rightarrow> string \<Rightarrow> string" where
  "line_error line_no message = msg_line @ show_nat line_no @ message"

text \<open>The matches of one line; a number with too many digits raises.\<close>

fun read_items :: "nat \<Rightarrow> (string \<times> string \<times> string) list \<Rightarrow> (request list \<times> string list) result" where
  "read_items line_no [] = Inr ([], [])"
| "read_items line_no ((n, ds, m) # ms) =
     (case int_of_digits ds of
        Inl e \<Rightarrow> Inl e
      | Inr hosts \<Rightarrow>
          (case read_items line_no ms of
             Inl e \<Rightarrow> Inl e
           | Inr (rs, es) \<Rightarrow>
               Inr (if hosts \<le> 0 then (rs, line_error line_no msg_line_positive # es)
                    else ((line_no, strip n, hosts) # rs, es))))"

definition read_line :: "nat \<Rightarrow> string \<Rightarrow> (request list \<times> string list) result" where
  "read_line line_no raw =
     (let line = strip raw; ms = items line in
      if line = [] then Inr ([], [])
      else if ms = [] \<or> compact (concat (map (\<lambda>(_, _, m). m) ms)) \<noteq> compact line
      then Inr ([], [line_error line_no msg_line_format])
      else read_items line_no ms)"

fun read_lines :: "(nat \<times> string) list \<Rightarrow> (request list \<times> string list) result" where
  "read_lines [] = Inr ([], [])"
| "read_lines ((line_no, raw) # ls) =
     (case read_line line_no raw of
        Inl e \<Rightarrow> Inl e
      | Inr (rs, es) \<Rightarrow>
          (case read_lines ls of Inl e \<Rightarrow> Inl e | Inr (rs', es') \<Rightarrow> Inr (rs @ rs', es @ es')))"

definition parse_vlsm_requests :: "string \<Rightarrow> (request list \<times> string list) result" where
  "parse_vlsm_requests t = read_lines (numbered (splitlines (replace_all list_comma '','' (replace_all full_comma '','' t))))"

section \<open>Planning\<close>

text \<open>\<open>math.ceil(math.log2(n))\<close>\<close>

fun ceil_log2 :: "nat \<Rightarrow> nat" where
  "ceil_log2 n = (if n \<le> 1 then 0 else Suc (ceil_log2 ((n + 1) div 2)))"

declare ceil_log2.simps [simp del]

definition block_bits :: "int \<Rightarrow> nat" where
  "block_bits hosts = ceil_log2 (nat (hosts + 2))"

definition block_size :: "int \<Rightarrow> int" where
  "block_size hosts = 2 ^ block_bits hosts"

definition aligned_cursor :: "int \<Rightarrow> int \<Rightarrow> int" where
  "aligned_cursor cursor b = (if cursor mod b \<noteq> 0 then cursor + (b - cursor mod b) else cursor)"

fun allocate :: "int \<Rightarrow> int \<Rightarrow> request list \<Rightarrow> (string + (string \<times> int \<times> ip_network) list) result" where
  "allocate cursor limit [] = Inr (Inr [])"
| "allocate cursor limit ((_, name, hosts) # rs) =
     (let c = aligned_cursor cursor (block_size hosts) in
      if c + block_size hosts - 1 > limit
      then Inr (Inl (msg_capacity @ name @ msg_capacity_needs @ show_int hosts @ msg_capacity_hosts))
      else case strict_network c (32 - block_bits hosts) of
             Inl e \<Rightarrow> Inl e
           | Inr n \<Rightarrow>
               (case allocate (c + block_size hosts) limit rs of
                  Inr (Inr rows) \<Rightarrow> Inr (Inr ((name, hosts, n) # rows))
                | r \<Rightarrow> r))"

definition by_hosts :: "request list \<Rightarrow> request list" where
  "by_hosts rs = sort_key (\<lambda>(_, _, hosts). - hosts) rs"

definition plan_table :: "ip_network \<Rightarrow> request list \<Rightarrow> (pydict, string \<times> nat) table_result result" where
  "plan_table parent rs =
     (case allocate (uint (nw_addr parent)) (uint (broadcast_address parent)) (by_hosts rs) of
        Inl e \<Rightarrow> Inl e
      | Inr r \<Rightarrow>
          Inr (case r of
                 Inl message \<Rightarrow> failed_table [message]
               | Inr rows \<Rightarrow>
                   \<lparr>tb_rows = map (\<lambda>(name, hosts, n). ipv4_subnet_row name hosts n) rows,
                    tb_summary = Some (cidr parent, length rows), tb_errors = []\<rparr>))"

definition plan_vlsm :: "(string \<Rightarrow> bool) \<Rightarrow> string \<Rightarrow> string \<Rightarrow> (pydict, string \<times> nat) table_result result" where
  "plan_vlsm v6 parent_text requests_text =
     (case parse_ipv4_network v6 parent_text of
        Inl e \<Rightarrow> Inl e
      | Inr parent \<Rightarrow>
          (case parse_vlsm_requests requests_text of
             Inl e \<Rightarrow> Inl e
           | Inr (rs, errors) \<Rightarrow> (if errors \<noteq> [] then Inr (failed_table errors) else plan_table parent rs)))"

section \<open>Splitting\<close>

record split_summary =
  sp_total :: int
  sp_page :: int
  sp_page_size :: int
  sp_pages :: int

text \<open>\<open>math.ceil(a / b)\<close> for numbers far below the precision of a double.\<close>

definition ceil_div :: "int \<Rightarrow> int \<Rightarrow> int" where
  "ceil_div a b = - ((- a) div b)"

fun strict_networks :: "int list \<Rightarrow> nat \<Rightarrow> ip_network list result" where
  "strict_networks [] p = Inr []"
| "strict_networks (c # cs) p =
     (case strict_network c p of
        Inl e \<Rightarrow> Inl e
      | Inr n \<Rightarrow> (case strict_networks cs p of Inl e \<Rightarrow> Inl e | Inr ns \<Rightarrow> Inr (n # ns)))"

definition page_start :: "int \<Rightarrow> int \<Rightarrow> int" where
  "page_start page page_size = (page - 1) * page_size"

definition split_page :: "ip_network \<Rightarrow> nat \<Rightarrow> int \<Rightarrow> int \<Rightarrow> (pydict, split_summary) table_result result" where
  "split_page parent tp page page_size =
     (let total_nets = (2 :: int) ^ (tp - nw_plen parent); start = page_start page page_size;
          selected_count = max 0 (min page_size (total_nets - start)) in
      case strict_networks (map (\<lambda>offset. uint (nw_addr parent) + (start + int offset) * 2 ^ (32 - tp)) [0..<nat selected_count]) tp of
        Inl e \<Rightarrow> Inl e
      | Inr selected \<Rightarrow>
          Inr \<lparr>tb_rows = map (\<lambda>(i, n). ipv4_split_row (int i + start + 1) n) (enumerate 0 selected),
               tb_summary = Some \<lparr>sp_total = total_nets, sp_page = page, sp_page_size = page_size, sp_pages = ceil_div total_nets page_size\<rparr>,
               tb_errors = []\<rparr>)"

definition split_subnets :: "(string \<Rightarrow> bool) \<Rightarrow> string \<Rightarrow> int \<Rightarrow> int \<Rightarrow> int \<Rightarrow> (pydict, split_summary) table_result result" where
  "split_subnets v6 parent_text target_prefix page page_size =
     (case parse_ipv4_network v6 parent_text of
        Inl e \<Rightarrow> Inl e
      | Inr parent \<Rightarrow>
          (if target_prefix \<le> int (nw_plen parent) \<or> 32 < target_prefix then Inr (failed_table [msg_target_prefix])
           else split_page parent (nat target_prefix) (max 1 page) (max 1 (min page_size 500))))"

section \<open>The addresses of a network\<close>

definition low :: "ip_network \<Rightarrow> int" where
  "low n = uint (nw_addr n)"

definition addresses :: "ip_network \<Rightarrow> int set" where
  "addresses n = {low n..<low n + num_addresses n}"

lemma num_addresses_pos [simp]: "0 < num_addresses n"
  by (simp add: num_addresses_def)

lemma addresses_nonempty [simp]: "addresses n \<noteq> {}"
  by (simp add: addresses_def)

lemma low_range: "0 \<le> low n" "low n < 2 ^ 32"
  using uint_bounded [of "nw_addr n"] by (simp_all add: low_def)

lemma network_ok_dvd: "network_ok n \<longleftrightarrow> nw_plen n \<le> 32 \<and> num_addresses n dvd low n"
proof -
  have "(nw_addr n AND hostmask (nw_plen n) = 0) \<longleftrightarrow> take_bit (32 - nw_plen n) (nw_addr n) = 0"
    by (simp add: hostmask_def take_bit_eq_mask)
  also have "\<dots> \<longleftrightarrow> take_bit (32 - nw_plen n) (low n) = 0"
    unfolding low_def by (metis uint_0_iff unsigned_take_bit_eq)
  finally show ?thesis by (simp add: network_ok_def num_addresses_def take_bit_eq_mod dvd_eq_mod_eq_0)
qed

lemma block_fits:
  assumes "network_ok n"
  shows "low n + num_addresses n \<le> 2 ^ 32"
proof -
  have "num_addresses n dvd 2 ^ 32" unfolding num_addresses_def by (rule le_imp_power_dvd) simp
  moreover have "num_addresses n dvd low n" using assms by (simp add: network_ok_dvd)
  ultimately obtain a b where "2 ^ 32 = num_addresses n * a" "low n = num_addresses n * b" by (auto simp: dvd_def)
  moreover have "low n < 2 ^ 32" by (rule low_range)
  ultimately have "num_addresses n * b < num_addresses n * a" by simp
  then have "b + 1 \<le> a" using num_addresses_pos [of n] by (simp add: mult_less_cancel_left_pos)
  then have "num_addresses n * (b + 1) \<le> num_addresses n * a" by (intro mult_left_mono) (simp_all add: less_imp_le)
  with \<open>2 ^ 32 = _\<close> \<open>low n = _\<close> show ?thesis by (simp add: algebra_simps)
qed

lemma uint_broadcast:
  assumes "network_ok n"
  shows "uint (broadcast_address n) = low n + num_addresses n - 1"
proof -
  have p: "nw_plen n \<le> 32" and z: "nw_addr n AND hostmask (nw_plen n) = 0" using assms by (auto simp: network_ok_def)
  have "nw_addr n OR hostmask (nw_plen n) = nw_addr n + hostmask (nw_plen n)"
    using disjunctive_add_eq_or [OF z] by simp
  moreover have "uint (nw_addr n) + uint (hostmask (nw_plen n)) < 2 ^ 32"
    using block_fits [OF assms] uint_hostmask [OF p] by (simp add: low_def num_addresses_def)
  ultimately show ?thesis
    using uint_add_lem [of "nw_addr n" "hostmask (nw_plen n)"] uint_hostmask [OF p]
    by (simp add: broadcast_address_def low_def num_addresses_def)
qed

lemma strict_network_ok:
  assumes "p \<le> 32" "0 \<le> c" "c < 2 ^ 32" "2 ^ (32 - p) dvd c"
  shows "\<exists>n. strict_network c p = Inr n \<and> network_ok n \<and> low n = c \<and> nw_plen n = p"
proof -
  let ?n = "\<lparr>nw_addr = word_of_int c, nw_plen = p\<rparr>"
  have "low ?n = c" using assms by (simp add: low_def uint_word_of_int)
  moreover from this have "network_ok ?n" using assms by (simp add: network_ok_dvd num_addresses_def)
  ultimately show ?thesis using assms by (simp add: strict_network_def Let_def)
qed

lemma network_eqI: "low m = low n \<Longrightarrow> nw_plen m = nw_plen n \<Longrightarrow> m = n"
  by (cases m, cases n) (simp add: low_def word_uint_eq_iff)

lemma network_of_is_ok: "p \<le> 32 \<Longrightarrow> network_ok (network_of a p)"
  by (simp add: network_ok_def network_of_def netmask_def bit_eq_iff bit_and_iff bit_not_iff)

lemma parse_mask_le: "parse_mask s = Some p \<Longrightarrow> p \<le> 32"
  by (auto simp: parse_mask_def find_Some_iff simp del: upt.simps split: if_splits option.splits)

lemma parse_network_ok: "parse_network s = Some n \<Longrightarrow> network_ok n"
  by (auto simp: parse_network_def network_of_is_ok parse_mask_le split: list.splits option.splits)

lemma parsed_network_ok: "parse_ipv4_network v6 s = Inr n \<Longrightarrow> network_ok n"
  by (auto simp: parse_ipv4_network_def Let_def parse_network_ok split: if_splits option.splits)

section \<open>Requests are positive\<close>

lemma read_items_positive: "read_items k ms = Inr (rs, es) \<Longrightarrow> (l, n, h) \<in> set rs \<Longrightarrow> 0 < h"
  by (induction k ms arbitrary: rs es rule: read_items.induct) (auto split: sum.splits if_splits)

lemma read_lines_positive: "read_lines ls = Inr (rs, es) \<Longrightarrow> (l, n, h) \<in> set rs \<Longrightarrow> 0 < h"
proof (induction ls arbitrary: rs es rule: read_lines.induct)
  case (2 k raw ls)
  have "(l, n, h) \<in> set rs' \<Longrightarrow> 0 < h" if "read_line k raw = Inr (rs', es')" for rs' es'
    using that by (auto simp: read_line_def Let_def split: if_splits dest: read_items_positive)
  with 2 show ?case by (auto split: sum.splits)
qed simp

lemma requests_positive: "parse_vlsm_requests t = Inr (rs, es) \<Longrightarrow> (l, n, h) \<in> set rs \<Longrightarrow> 0 < h"
  unfolding parse_vlsm_requests_def by (rule read_lines_positive)

section \<open>Block sizes\<close>

lemma ceil_log2_bound: "n \<le> 2 ^ ceil_log2 n"
proof (induction n rule: ceil_log2.induct)
  case (1 n)
  show ?case
  proof (cases "n \<le> 1")
    case False
    with 1 have "(n + 1) div 2 \<le> 2 ^ ceil_log2 ((n + 1) div 2)" by simp
    then show ?thesis using False by (simp add: ceil_log2.simps [of n])
  qed (simp add: ceil_log2.simps [of n])
qed

lemma ceil_log2_least: "n \<le> 2 ^ k \<Longrightarrow> ceil_log2 n \<le> k"
proof (induction n arbitrary: k rule: ceil_log2.induct)
  case (1 n)
  show ?case
  proof (cases "n \<le> 1")
    case False
    with 1(2) obtain j where j: "k = Suc j" by (cases k) auto
    then have "(n + 1) div 2 \<le> 2 ^ j" using 1(2) by simp
    then show ?thesis using 1(1) False j by (simp add: ceil_log2.simps [of n])
  qed (simp add: ceil_log2.simps [of n])
qed

lemma ceil_log2_mono: "m \<le> n \<Longrightarrow> ceil_log2 m \<le> ceil_log2 n"
  by (meson ceil_log2_bound ceil_log2_least le_trans)

lemma block_size_bounds:
  assumes "0 < h"
  shows "h + 2 \<le> block_size h" "block_size h < 2 * (h + 2)" "2 \<le> block_bits h"
proof -
  let ?n = "nat (h + 2)"
  have "?n \<le> 2 ^ ceil_log2 ?n" by (rule ceil_log2_bound)
  then have "int ?n \<le> 2 ^ ceil_log2 ?n" by (metis of_nat_le_numeral_power_cancel_iff)
  then show b: "h + 2 \<le> block_size h" using assms by (simp add: block_size_def block_bits_def)
  then show bits: "2 \<le> block_bits h" using assms power_increasing [of "block_bits h" 1 "2 :: int"]
    by (cases "2 \<le> block_bits h") (auto simp: block_size_def)
  obtain k where k: "ceil_log2 ?n = Suc k" using bits by (cases "ceil_log2 ?n") (auto simp: block_bits_def)
  have "\<not> ?n \<le> 2 ^ k" using ceil_log2_least [of ?n k] k by auto
  then have "2 ^ k < int ?n" by (metis not_le of_nat_le_numeral_power_cancel_iff)
  then show "block_size h < 2 * (h + 2)" using assms k by (simp add: block_size_def block_bits_def)
qed

lemma block_size_dvd: "h \<le> h' \<Longrightarrow> block_size h dvd block_size h'"
  unfolding block_size_def block_bits_def by (intro le_imp_power_dvd ceil_log2_mono) simp

lemma power_two_dvd: "2 ^ a \<le> (2 :: int) ^ b \<Longrightarrow> 2 ^ a dvd (2 :: int) ^ b"
  by (simp add: le_imp_power_dvd)

lemma aligned_cursor: "0 < b \<Longrightarrow> cursor \<le> aligned_cursor cursor b" "b dvd cursor \<Longrightarrow> aligned_cursor cursor b = cursor"
  using pos_mod_bound [of b cursor] by (auto simp: aligned_cursor_def mod_0_imp_dvd intro: less_imp_le)

section \<open>Plans\<close>

text \<open>The subnets stand for the requests from an address on without a gap.\<close>

fun placed :: "int \<Rightarrow> request list \<Rightarrow> ip_network list \<Rightarrow> bool" where
  "placed c [] [] = True"
| "placed c ((_, _, h) # rs) (n # ns) =
     (low n = c \<and> network_ok n \<and> num_addresses n = block_size h \<and> placed (c + block_size h) rs ns)"
| "placed c _ _ = False"

abbreviation request_hosts :: "request \<Rightarrow> int" where
  "request_hosts r \<equiv> snd (snd r)"

definition needs :: "request list \<Rightarrow> int" where
  "needs rs = (\<Sum>r\<leftarrow>rs. block_size (request_hosts r))"

lemma block_size_pos [simp]: "0 < block_size h"
  by (simp add: block_size_def)

lemma needs_nonneg: "0 \<le> needs rs"
  unfolding needs_def by (intro sum_list_nonneg) (auto simp: less_imp_le)

lemma allocate_exact:
  assumes "sorted_wrt (\<lambda>r r'. request_hosts r' \<le> request_hosts r) rs" "0 \<le> cursor" "cursor \<le> limit + 1" "limit < 2 ^ 32"
    and "\<forall>r\<in>set rs. block_size (request_hosts r) \<le> limit + 1 - cursor \<longrightarrow> block_size (request_hosts r) dvd cursor"
  shows "if needs rs \<le> limit + 1 - cursor
     then \<exists>ns. placed cursor rs ns \<and> allocate cursor limit rs = Inr (Inr (map2 (\<lambda>(_, name, hosts) n. (name, hosts, n)) rs ns))
     else \<exists>m. allocate cursor limit rs = Inr (Inl m)"
  using assms
proof (induction rs arbitrary: cursor)
  case (Cons r rs)
  obtain l name h where r: "r = (l, name, h)" by (cases r)
  let ?b = "block_size h"
  show ?case
  proof (cases "?b \<le> limit + 1 - cursor")
    case fits: True
    then have dvd: "?b dvd cursor" using Cons.prems(5) by (simp add: r)
    have "?b \<le> 2 ^ 32" using fits Cons.prems by simp
    have "cursor < 2 ^ 32" using fits Cons.prems(4) block_size_pos [of h] by linarith
    from \<open>?b \<le> 2 ^ 32\<close> have bits: "block_bits h \<le> 32" unfolding block_size_def by (rule power_le_imp_le_exp [rotated]) simp
    obtain n where n: "strict_network cursor (32 - block_bits h) = Inr n" "network_ok n" "low n = cursor" "nw_plen n = 32 - block_bits h"
      using strict_network_ok [of "32 - block_bits h" cursor] \<open>cursor < 2 ^ 32\<close> Cons.prems(2) dvd bits by (auto simp: block_size_def)
    have size: "num_addresses n = ?b" using n(4) bits by (simp add: num_addresses_def block_size_def)
    have step: "block_size (request_hosts r') dvd cursor + ?b"
      if "r' \<in> set rs" "block_size (request_hosts r') \<le> limit + 1 - (cursor + ?b)" for r'
    proof -
      have "block_size (request_hosts r') dvd ?b" using Cons.prems(1) that(1) by (intro block_size_dvd) (simp add: r)
      moreover have "block_size (request_hosts r') dvd cursor"
        using Cons.prems(5) [rule_format, of r'] that block_size_pos [of h] by (auto simp del: block_size_pos)
      ultimately show ?thesis by simp
    qed
    have iff: "needs (r # rs) \<le> limit + 1 - cursor \<longleftrightarrow> needs rs \<le> limit + 1 - (cursor + ?b)" by (auto simp: needs_def r)
    have IH: "if needs rs \<le> limit + 1 - (cursor + ?b)
      then \<exists>ns. placed (cursor + ?b) rs ns \<and> allocate (cursor + ?b) limit rs = Inr (Inr (map2 (\<lambda>(_, name, hosts) n. (name, hosts, n)) rs ns))
      else \<exists>m. allocate (cursor + ?b) limit rs = Inr (Inl m)"
      using Cons.prems fits step by (intro Cons.IH) (simp_all add: less_imp_le)
    have alloc: "allocate cursor limit (r # rs) =
      (case allocate (cursor + ?b) limit rs of Inr (Inr rows) \<Rightarrow> Inr (Inr ((name, h, n) # rows)) | x \<Rightarrow> x)"
      using fits n(1) by (simp add: r aligned_cursor(2) [OF dvd] Let_def)
    show ?thesis
    proof (cases "needs rs \<le> limit + 1 - (cursor + ?b)")
      case True
      then obtain ns where ns: "placed (cursor + ?b) rs ns"
        "allocate (cursor + ?b) limit rs = Inr (Inr (map2 (\<lambda>(_, name, hosts) n. (name, hosts, n)) rs ns))" using IH by auto
      then have "placed cursor (r # rs) (n # ns)" using n size by (simp add: r)
      moreover have "allocate cursor limit (r # rs) = Inr (Inr (map2 (\<lambda>(_, name, hosts) n. (name, hosts, n)) (r # rs) (n # ns)))"
        using alloc ns(2) by (simp add: r)
      ultimately show ?thesis using True iff by metis
    next
      case False
      then obtain m where "allocate (cursor + ?b) limit rs = Inr (Inl m)" using IH by auto
      then show ?thesis using alloc False iff by simp
    qed
  next
    case False
    then have "limit < aligned_cursor cursor ?b + ?b - 1" using aligned_cursor(1) [of ?b cursor] by simp
    then have "\<exists>m. allocate cursor limit (r # rs) = Inr (Inl m)" by (simp add: r Let_def)
    moreover have "\<not> needs (r # rs) \<le> limit + 1 - cursor" using False needs_nonneg [of rs] by (simp add: needs_def r)
    ultimately show ?thesis by simp
  qed
next
  case Nil
  have "\<exists>ns. placed cursor [] ns" by (rule exI [of _ "[]"]) simp
  then show ?case using Nil by (simp add: needs_def)
qed

lemma placed_length: "placed c rs ns \<Longrightarrow> length ns = length rs"
  by (induction c rs ns rule: placed.induct) auto

lemma placed_within: "placed c rs ns \<Longrightarrow> n \<in> set ns \<Longrightarrow> addresses n \<subseteq> {c..<c + needs rs}"
proof (induction c rs ns rule: placed.induct)
  case (2 c l nm h rs m ns)
  have all: "needs ((l, nm, h) # rs) = block_size h + needs rs" by (simp add: needs_def)
  have m: "addresses m = {c..<c + block_size h}" using 2(2) by (simp add: addresses_def)
  show ?case
  proof (cases "n = m")
    case True
    then show ?thesis using m all needs_nonneg [of rs] by auto
  next
    case False
    then have "addresses n \<subseteq> {c + block_size h..<c + block_size h + needs rs}" using 2 by simp
    moreover have "{c + block_size h..<c + block_size h + needs rs} \<subseteq> {c..<c + needs ((l, nm, h) # rs)}"
      using all less_imp_le [OF block_size_pos [of h]] by simp
    ultimately show ?thesis by (rule subset_trans)
  qed
qed simp_all

lemma placed_disjoint: "placed c rs ns \<Longrightarrow> sorted_wrt (\<lambda>m n. addresses m \<inter> addresses n = {}) ns"
proof (induction c rs ns rule: placed.induct)
  case (2 c l nm h rs m ns)
  have "addresses m \<inter> addresses n = {}" if "n \<in> set ns" for n
    using placed_within [of "c + block_size h" rs ns n] 2(2) that by (fastforce simp: addresses_def)
  with 2 show ?case by simp
qed auto

lemma placed_enough:
  "placed c rs ns \<Longrightarrow> \<forall>r\<in>set rs. 0 < request_hosts r \<Longrightarrow>
   list_all2 (\<lambda>r n. network_ok n \<and> request_hosts r \<le> fst (ipv4_usable_bounds n) \<and> num_addresses n < 2 * (request_hosts r + 2)) rs ns"
proof (induction c rs ns rule: placed.induct)
  case (2 c l nm h rs m ns)
  then have h: "0 < h" and m: "num_addresses m = block_size h" "network_ok m" by auto
  have "h + 2 \<le> num_addresses m" "num_addresses m < 2 * (h + 2)" using block_size_bounds [OF h] m by simp_all
  moreover have "nw_plen m < 31"
  proof (rule ccontr)
    assume "\<not> nw_plen m < 31"
    then have "num_addresses m \<le> 2 ^ 1" unfolding num_addresses_def by (intro power_increasing) auto
    with \<open>h + 2 \<le> _\<close> h show False by simp
  qed
  ultimately have "h \<le> fst (ipv4_usable_bounds m)" "num_addresses m < 2 * (h + 2)"
    using h by (simp_all add: ipv4_usable_bounds_def)
  then show ?case using 2 by simp
qed auto

lemma by_hosts_sorted: "sorted_wrt (\<lambda>r r'. request_hosts r' \<le> request_hosts r) (by_hosts rs)"
proof -
  have "sorted (map (\<lambda>(_, _, hosts). - hosts) (by_hosts rs))" unfolding by_hosts_def by (rule sorted_sort_key)
  then show ?thesis unfolding sorted_map by (rule sorted_wrt_mono_rel [rotated]) auto
qed

lemma by_hosts_same: "mset (by_hosts rs) = mset rs" "set (by_hosts rs) = set rs" "needs (by_hosts rs) = needs rs"
proof -
  show m: "mset (by_hosts rs) = mset rs" unfolding by_hosts_def by (rule mset_sort)
  show "set (by_hosts rs) = set rs" unfolding by_hosts_def by (rule set_sort)
  have "mset (map (\<lambda>r. block_size (request_hosts r)) (by_hosts rs)) = mset (map (\<lambda>r. block_size (request_hosts r)) rs)"
    using m by simp
  then show "needs (by_hosts rs) = needs rs" unfolding needs_def sum_mset_sum_list [symmetric] by (rule arg_cong)
qed

lemma allocate_in_parent:
  assumes "network_ok parent"
  shows "if needs (by_hosts rs) \<le> num_addresses parent
     then \<exists>ns. placed (low parent) (by_hosts rs) ns \<and> allocate (low parent) (uint (broadcast_address parent)) (by_hosts rs) =
         Inr (Inr (map2 (\<lambda>(_, name, hosts) n. (name, hosts, n)) (by_hosts rs) ns))
     else \<exists>m. allocate (low parent) (uint (broadcast_address parent)) (by_hosts rs) = Inr (Inl m)"
proof -
  have limit: "uint (broadcast_address parent) + 1 - low parent = num_addresses parent" using uint_broadcast [OF assms] by simp
  have dvd: "block_size h dvd low parent" if "block_size h \<le> num_addresses parent" for h
  proof -
    have "block_size h dvd num_addresses parent" using that unfolding block_size_def num_addresses_def by (rule power_two_dvd)
    then show ?thesis using assms by (auto simp: network_ok_dvd)
  qed
  show ?thesis
    using allocate_exact [of "by_hosts rs" "low parent" "uint (broadcast_address parent)"] by_hosts_sorted low_range [of parent] limit dvd
      uint_bounded [of "broadcast_address parent"] num_addresses_pos [of parent] by (simp add: less_imp_le)
qed

text \<open>
  C15. Planning subnets for requested numbers of hosts fails exactly when the blocks of the requests do not
  fit into the network. Otherwise every request, the largest first, gets a network of its own inside the parent
  with enough usable addresses and less than twice the needed size, and no two of them overlap.
\<close>

theorem plan_vlsm_exact:
  assumes "parse_ipv4_network v6 parent_text = Inr parent" "parse_vlsm_requests requests_text = Inr (rs, [])"
  shows "if (\<Sum>(_, _, hosts)\<leftarrow>rs. block_size hosts) \<le> num_addresses parent
     then \<exists>ns. plan_vlsm v6 parent_text requests_text =
            Inr \<lparr>tb_rows = map2 (\<lambda>(_, name, hosts) n. ipv4_subnet_row name hosts n) (by_hosts rs) ns,
                 tb_summary = Some (cidr parent, length rs), tb_errors = []\<rparr> \<and>
          list_all2 (\<lambda>(_, _, hosts) n. network_ok n \<and> addresses n \<subseteq> addresses parent \<and>
            hosts \<le> fst (ipv4_usable_bounds n) \<and> num_addresses n < 2 * (hosts + 2)) (by_hosts rs) ns \<and>
          sorted_wrt (\<lambda>m n. addresses m \<inter> addresses n = {}) ns
     else \<exists>m. plan_vlsm v6 parent_text requests_text = Inr (failed_table [m])"
proof -
  let ?bs = "by_hosts rs"
  have ok: "network_ok parent" using assms(1) by (rule parsed_network_ok)
  have sum: "(\<Sum>(_, _, hosts)\<leftarrow>rs. block_size hosts) = needs ?bs"
    by (simp only: by_hosts_same(3)) (simp add: needs_def split_def)
  have plan: "plan_vlsm v6 parent_text requests_text = plan_table parent rs" using assms by (simp add: plan_vlsm_def)
  note alloc = allocate_in_parent [OF ok, of rs]
  show ?thesis
  proof (cases "needs ?bs \<le> num_addresses parent")
    case True
    then obtain ns where ns: "placed (low parent) ?bs ns"
      and a: "allocate (low parent) (uint (broadcast_address parent)) ?bs = Inr (Inr (map2 (\<lambda>(_, name, hosts) n. (name, hosts, n)) ?bs ns))"
      using alloc by auto
    have len: "length ns = length rs" using placed_length [OF ns] by (metis by_hosts_same(1) size_mset)
    have "list_all2 (\<lambda>r n. network_ok n \<and> request_hosts r \<le> fst (ipv4_usable_bounds n) \<and> num_addresses n < 2 * (request_hosts r + 2)) ?bs ns"
      using ns requests_positive [OF assms(2)] by (intro placed_enough) (auto simp: by_hosts_same)
    moreover have "addresses n \<subseteq> addresses parent" if "n \<in> set ns" for n
      using placed_within [OF ns that] True by (force simp: addresses_def)
    ultimately have "list_all2 (\<lambda>(_, _, hosts) n. network_ok n \<and> addresses n \<subseteq> addresses parent \<and>
            hosts \<le> fst (ipv4_usable_bounds n) \<and> num_addresses n < 2 * (hosts + 2)) ?bs ns"
      by (auto simp: list_all2_conv_all_nth split_def)
    moreover have "plan_vlsm v6 parent_text requests_text =
            Inr \<lparr>tb_rows = map2 (\<lambda>(_, name, hosts) n. ipv4_subnet_row name hosts n) ?bs ns,
                 tb_summary = Some (cidr parent, length rs), tb_errors = []\<rparr>"
      using a len plan by (simp add: plan_table_def low_def split_def comp_def placed_length [OF ns])
    ultimately show ?thesis using True sum placed_disjoint [OF ns] by auto
  next
    case False
    then obtain m where "allocate (low parent) (uint (broadcast_address parent)) ?bs = Inr (Inl m)" using alloc by auto
    then have "plan_vlsm v6 parent_text requests_text = Inr (failed_table [m])" using plan by (simp add: plan_table_def low_def)
    then show ?thesis using False sum by auto
  qed
qed

definition lan :: ip_network where
  "lan = \<lparr>nw_addr = 0x0A000000, nw_plen = 24\<rparr>"

lemma lan_ok: "network_ok lan"
  by (simp add: lan_def network_ok_def hostmask_def mask_eq_exp_minus_1)

lemma lan_parsed: "parse_ipv4_network v6 (cidr lan) = Inr lan"
  using lan_ok by (rule parse_ipv4_cidr)

lemma requests_example: "parse_vlsm_requests ''a,50 b 100'' = Inr ([(1, ''a'', 50), (1, ''b'', 100)], [])"
  by code_simp

lemma block_examples: "block_size 50 = 64" "block_size 100 = 128"
  by (code_simp, code_simp)

lemma by_hosts_example: "by_hosts [(1, ''a'', 50), (1, ''b'', 100)] = [(1, ''b'', 100), (1, ''a'', 50)]"
  by (simp add: by_hosts_def)

lemma lan_size: "num_addresses lan = 256"
  by (simp add: lan_def num_addresses_def)

lemma plan_vlsm_exact_witness:
  "\<exists>ns. plan_vlsm (\<lambda>_. False) (cidr lan) ''a,50 b 100'' =
     Inr \<lparr>tb_rows = map2 (\<lambda>(_, name, hosts) n. ipv4_subnet_row name hosts n) [(1 :: nat, ''b'', 100), (1, ''a'', 50)] ns,
          tb_summary = Some (cidr lan, 2), tb_errors = []\<rparr>"
proof -
  have fits: "(\<Sum>(_, _, hosts)\<leftarrow>[(1 :: nat, ''a'', 50), (1, ''b'', 100)]. block_size hosts) \<le> num_addresses lan"
    by (simp add: block_examples lan_size)
  have two: "length [(1 :: nat, ''a'', 50 :: int), (1, ''b'', 100)] = 2" by simp
  show ?thesis
    using plan_vlsm_exact [OF lan_parsed requests_example, of "\<lambda>_. False"] unfolding if_P [OF fits] by_hosts_example two by blast
qed

section \<open>Pages of subnets\<close>

definition subnets :: "ip_network \<Rightarrow> nat \<Rightarrow> ip_network list" where
  "subnets n p = map (\<lambda>i. \<lparr>nw_addr = word_of_int (low n + int i * 2 ^ (32 - p)), nw_plen = p\<rparr>) [0..<2 ^ (p - nw_plen n)]"

lemma subnet_facts:
  assumes "network_ok n" "nw_plen n < p" "p \<le> 32" "i < 2 ^ (p - nw_plen n)"
  shows "network_ok (subnets n p ! i)" "low (subnets n p ! i) = low n + int i * 2 ^ (32 - p)" "nw_plen (subnets n p ! i) = p"
    "strict_network (low n + int i * 2 ^ (32 - p)) p = Inr (subnets n p ! i)"
    "low n + int i * 2 ^ (32 - p) + 2 ^ (32 - p) \<le> low n + num_addresses n"
proof -
  have size: "num_addresses n = 2 ^ (p - nw_plen n) * 2 ^ (32 - p)"
    using assms by (simp add: num_addresses_def power_add [symmetric])
  have "int i + 1 \<le> 2 ^ (p - nw_plen n)" using assms(4) by (metis Suc_leI add.commute of_nat_Suc of_nat_le_numeral_power_cancel_iff)
  then have "(int i + 1) * 2 ^ (32 - p) \<le> num_addresses n" unfolding size by (intro mult_right_mono) simp_all
  then show fits: "low n + int i * 2 ^ (32 - p) + 2 ^ (32 - p) \<le> low n + num_addresses n" by (simp add: algebra_simps)
  have "2 ^ (32 - p) dvd low n + int i * 2 ^ (32 - p)"
    using assms(1) size by (auto simp: network_ok_dvd intro: dvd_add dvd_trans [OF dvd_triv_right])
  moreover have "low n + int i * 2 ^ (32 - p) < 2 ^ 32" using fits block_fits [OF assms(1)] zero_less_power [of "2 :: int" "32 - p"] by linarith
  ultimately obtain m where m: "strict_network (low n + int i * 2 ^ (32 - p)) p = Inr m" "network_ok m" "low m = low n + int i * 2 ^ (32 - p)" "nw_plen m = p"
    using strict_network_ok [of p "low n + int i * 2 ^ (32 - p)"] assms(3) low_range(1) [of n] by auto
  moreover have "subnets n p ! i = m"
    using m(1) assms(4) by (auto simp: subnets_def strict_network_def Let_def split: if_splits)
  ultimately show "network_ok (subnets n p ! i)" "low (subnets n p ! i) = low n + int i * 2 ^ (32 - p)" "nw_plen (subnets n p ! i) = p"
    "strict_network (low n + int i * 2 ^ (32 - p)) p = Inr (subnets n p ! i)" by simp_all
qed

lemma strict_networks_all:
  "list_all2 (\<lambda>c n. strict_network c p = Inr n) cs ns \<Longrightarrow> strict_networks cs p = Inr ns"
  by (induction rule: list_all2_induct) auto

lemma length_subnets [simp]: "length (subnets n p) = 2 ^ (p - nw_plen n)"
  by (simp add: subnets_def)

lemma div_block: "0 < b \<Longrightarrow> x div b = i \<longleftrightarrow> i * b \<le> x \<and> x < i * b + b" for x :: int
proof
  assume "0 < b" "x div b = i"
  then have "x = i * b + x mod b" using div_mult_mod_eq [of x b] by simp
  moreover have "0 \<le> x mod b" "x mod b < b" using \<open>0 < b\<close> by simp_all
  ultimately show "i * b \<le> x \<and> x < i * b + b" by linarith
next
  assume "0 < b" "i * b \<le> x \<and> x < i * b + b"
  then show "x div b = i" using int_div_pos_eq [of x b i "x - i * b"] by (simp add: mult.commute)
qed

lemma div_below: "0 < b \<Longrightarrow> x < n * b \<Longrightarrow> x div b < n" for x :: int
proof (rule ccontr)
  assume "0 < b" "x < n * b" "\<not> x div b < n"
  then have "n * b \<le> x div b * b" by (intro mult_right_mono) simp_all
  also have "\<dots> \<le> x" using \<open>0 < b\<close> div_block [of b x "x div b"] by simp
  finally show False using \<open>x < n * b\<close> by simp
qed

lemma addresses_subnet:
  assumes "network_ok n" "nw_plen n < p" "p \<le> 32" "i < 2 ^ (p - nw_plen n)"
  shows "addresses (subnets n p ! i) = {a \<in> addresses n. (a - low n) div 2 ^ (32 - p) = int i}"
proof -
  let ?b = "2 ^ (32 - p) :: int" and ?m = "subnets n p ! i"
  have m: "low ?m = low n + int i * ?b" "num_addresses ?m = ?b" and fits: "low n + int i * ?b + ?b \<le> low n + num_addresses n"
    using subnet_facts [OF assms] by (simp_all add: num_addresses_def)
  have block: "(a - low n) div ?b = int i \<longleftrightarrow> int i * ?b \<le> a - low n \<and> a - low n < int i * ?b + ?b" for a
    by (rule div_block) simp
  have "0 \<le> int i * ?b" by simp
  show ?thesis
  proof (rule set_eqI)
    fix a
    show "a \<in> addresses ?m \<longleftrightarrow> a \<in> {a \<in> addresses n. (a - low n) div ?b = int i}"
      unfolding mem_Collect_eq block addresses_def m atLeastLessThan_iff using fits \<open>0 \<le> int i * ?b\<close> by (safe; linarith)
  qed
qed

lemma subnets_partition:
  assumes "network_ok n" "nw_plen n < p" "p \<le> 32"
  shows "(\<Union>m\<in>set (subnets n p). addresses m) = addresses n"
    "sorted_wrt (\<lambda>m m'. addresses m \<inter> addresses m' = {}) (subnets n p)"
    "\<forall>m\<in>set (subnets n p). network_ok m \<and> nw_plen m = p"
proof -
  let ?b = "2 ^ (32 - p) :: int"
  note sub = addresses_subnet [OF assms]
  have size: "num_addresses n = 2 ^ (p - nw_plen n) * ?b"
    using assms by (simp add: num_addresses_def power_add [symmetric])
  have "\<exists>i<2 ^ (p - nw_plen n). a \<in> addresses (subnets n p ! i)" if a: "a \<in> addresses n" for a
  proof -
    have "0 \<le> (a - low n) div ?b" "(a - low n) div ?b < 2 ^ (p - nw_plen n)"
      using a div_below [of ?b "a - low n"] by (auto simp: addresses_def size pos_imp_zdiv_nonneg_iff)
    then have "nat ((a - low n) div ?b) < 2 ^ (p - nw_plen n)" by (simp add: nat_less_iff)
    moreover from this have "a \<in> addresses (subnets n p ! nat ((a - low n) div ?b))"
      using a sub [of "nat ((a - low n) div ?b)"] \<open>0 \<le> _\<close> by simp
    ultimately show ?thesis by blast
  qed
  moreover have "addresses (subnets n p ! i) \<subseteq> addresses n" if "i < 2 ^ (p - nw_plen n)" for i using sub [OF that] by auto
  ultimately show "(\<Union>m\<in>set (subnets n p). addresses m) = addresses n"
    by (force simp: in_set_conv_nth)
  show "sorted_wrt (\<lambda>m m'. addresses m \<inter> addresses m' = {}) (subnets n p)"
    unfolding sorted_wrt_iff_nth_less using sub by (auto simp: Let_def)
  show "\<forall>m\<in>set (subnets n p). network_ok m \<and> nw_plen m = p"
    using subnet_facts(1,3) [OF assms] by (auto simp: in_set_conv_nth)
qed

lemma split_page_slice:
  assumes "network_ok parent" "nw_plen parent < p" "p \<le> 32" "1 \<le> page" "1 \<le> page_size"
  shows "split_page parent p page page_size =
     Inr \<lparr>tb_rows = map (\<lambda>(i, n). ipv4_split_row (int i) n)
            (take (nat page_size) (drop (nat ((page - 1) * page_size)) (enumerate 1 (subnets parent p)))),
          tb_summary = Some \<lparr>sp_total = int (length (subnets parent p)), sp_page = page, sp_page_size = page_size,
            sp_pages = ceil_div (int (length (subnets parent p))) page_size\<rparr>,
          tb_errors = []\<rparr>"
proof -
  define k s where "k = nat page_size" and "s = nat ((page - 1) * page_size)"
  have ks: "page_size = int k" "page_start page page_size = int s" using assms by (simp_all add: k_def s_def page_start_def)
  have s: "nat ((page - 1) * int k) = s" using ks(1) by (simp add: s_def)
  let ?t = "2 ^ (p - nw_plen parent) :: nat"
  let ?ns = "take k (drop s (subnets parent p))"
  have count: "nat (max 0 (min page_size (2 ^ (p - nw_plen parent) - page_start page page_size))) = length ?ns"
  proof -
    have "int (min k (t - s)) = max 0 (min (int k) (int t - int s))" for t by arith
    from this [of ?t] have "int (length ?ns) = max 0 (min (int k) (2 ^ (p - nw_plen parent) - int s))" by (simp add: min.commute)
    then show ?thesis unfolding ks(2) [unfolded ks(1)] ks(1) by (metis nat_int)
  qed
  have "list_all2 (\<lambda>c n. strict_network c p = Inr n)
     (map (\<lambda>offset. uint (nw_addr parent) + (int s + int offset) * 2 ^ (32 - p)) [0..<length ?ns]) ?ns"
    using subnet_facts(4) [OF assms(1-3)] by (auto simp: list_all2_conv_all_nth low_def of_nat_add [symmetric] simp del: of_nat_add)
  from strict_networks_all [OF this] have sel: "strict_networks (map (\<lambda>offset. uint (nw_addr parent) + (int s + int offset) * 2 ^ (32 - p)) [0..<length ?ns]) p = Inr ?ns" .
  have rows: "map (\<lambda>(i, n). ipv4_split_row (int i + int s + 1) n) (enumerate 0 ?ns) =
     map (\<lambda>(i, n). ipv4_split_row (int i) n) (take k (drop s (enumerate 1 (subnets parent p))))"
    by (rule nth_equalityI) (auto simp: nth_enumerate_eq add.commute)
  show ?thesis
    unfolding split_page_def Let_def count unfolding ks(1) ks(2) [unfolded ks(1)] sel using rows s by simp
qed

text \<open>
  The pages of a split show the subnets of the parent in order, each with its number, and the summary
  counts them: the subnets have the asked prefix length, do not overlap and cover the parent exactly, and every page
  is the slice of their list for its number and size.
\<close>

theorem split_subnets_pages:
  assumes "parse_ipv4_network v6 parent_text = Inr parent" "nw_plen parent < p" "p \<le> 32"
  shows "let ns = subnets parent p; k = max 1 (min page_size 500); g = max 1 page in
     (\<Union>n\<in>set ns. addresses n) = addresses parent \<and> sorted_wrt (\<lambda>m n. addresses m \<inter> addresses n = {}) ns \<and>
     (\<forall>n\<in>set ns. network_ok n \<and> nw_plen n = p) \<and>
     split_subnets v6 parent_text (int p) page page_size =
       Inr \<lparr>tb_rows = map (\<lambda>(i, n). ipv4_split_row (int i) n) (take (nat k) (drop (nat ((g - 1) * k)) (enumerate 1 ns))),
            tb_summary = Some \<lparr>sp_total = int (length ns), sp_page = g, sp_page_size = k, sp_pages = ceil_div (int (length ns)) k\<rparr>,
            tb_errors = []\<rparr>"
proof -
  have ok: "network_ok parent" using assms(1) by (rule parsed_network_ok)
  have k: "1 \<le> max 1 page" "1 \<le> max 1 (min page_size 500)" by simp_all
  have "split_subnets v6 parent_text (int p) page page_size = split_page parent p (max 1 page) (max 1 (min page_size 500))"
    using assms by (simp add: split_subnets_def)
  then show ?thesis
    unfolding Let_def using split_page_slice [OF ok assms(2,3) k] subnets_partition [OF ok assms(2,3)] by metis
qed

lemma split_subnets_pages_witness:
  "split_subnets (\<lambda>_. False) (cidr lan) 26 2 3 =
     Inr \<lparr>tb_rows = map (\<lambda>(i, n). ipv4_split_row (int i) n) (take 3 (drop 3 (enumerate 1 (subnets lan 26)))),
          tb_summary = Some \<lparr>sp_total = 4, sp_page = 2, sp_page_size = 3, sp_pages = ceil_div 4 3\<rparr>, tb_errors = []\<rparr>"
  using split_subnets_pages [OF lan_parsed, of 26 3 2 "\<lambda>_. False"] by (simp add: Let_def lan_def)

end
