(* ===== verification/Ip_Routes.thy ===== *)
theory Ip_Routes
  imports Ip_Planning Py_Numbers "HOL-Library.AList"
begin

text \<open>
  \<^verbatim>\<open>services/network_tools/toolbox/ip_calc.py\<close>: reading wildcards, the calculator for one network and the
  summary of routes, with \<open>ipaddress.collapse_addresses\<close> of the standard library.
\<close>

section \<open>One network\<close>

text \<open>\<open>_ipv4_class\<close>\<close>

definition ipv4_class :: "32 word \<Rightarrow> string" where
  "ipv4_class a =
     (let first = octet 3 a in
      if first \<le> 127 then ''A'' else if first \<le> 191 then ''B'' else if first \<le> 223 then ''C'' else if first \<le> 239 then ''D'' else ''E'')"

definition prefix_note :: "ip_network \<Rightarrow> string" where
  "prefix_note n = (if nw_plen n = 31 then note_point_to_point else if nw_plen n = 32 then note_single_host else [])"

text \<open>\<open>ip_type\<close> is the classification of the \<open>ipaddress\<close> module.\<close>

definition ipv4_calculate :: "(string \<Rightarrow> bool) \<Rightarrow> (32 word \<Rightarrow> string) \<Rightarrow> string \<Rightarrow> pydict result" where
  "ipv4_calculate v6 ip_type s =
     (case parse_ipv4_network v6 s of
        Inl e \<Rightarrow> Inl e
      | Inr n \<Rightarrow> Inr
          ([(''input'', PStr (strip s)), (''network'', PStr (address_text (nw_addr n))), (''cidr'', PStr (cidr n)),
            (''broadcast'', PStr (address_text (broadcast_address n))), (''netmask'', PStr (address_text (netmask (nw_plen n)))),
            (''prefix_length'', PInt (int (nw_plen n))), (''wildcard'', PStr (address_text (hostmask (nw_plen n)))),
            (''total_addresses'', PInt (num_addresses n)), (''usable_hosts'', PInt (fst (ipv4_usable_bounds n)))] @
           bound_texts n @
           [(''ip_type'', PStr (ip_type (nw_addr n))), (''class'', PStr (ipv4_class (nw_addr n))), (''note'', PStr (prefix_note n))]))"

section \<open>Lines of networks\<close>

text \<open>Both functions read every line that is not blank and collect the errors.\<close>

fun read_networks :: "(string \<Rightarrow> ip_network result) \<Rightarrow> (nat \<times> string) list \<Rightarrow> ((string \<times> ip_network) list \<times> string list) result" where
  "read_networks parse [] = Inr ([], [])"
| "read_networks parse ((line_no, raw) # ls) =
     (let line = strip raw in
      case read_networks parse ls of
        Inl e \<Rightarrow> Inl e
      | Inr (ns, es) \<Rightarrow>
          (if line = [] then Inr (ns, es)
           else case parse line of
                  Inr n \<Rightarrow> Inr ((line, n) # ns, es)
                | Inl (ValueError m) \<Rightarrow> Inr (ns, line_error line_no (msg_line_error @ m) # es)
                | Inl e \<Rightarrow> Inl e))"

definition wildcard_row :: "string \<times> ip_network \<Rightarrow> pydict" where
  "wildcard_row = (\<lambda>(line, n).
     [(''input'', PStr line), (''network'', PStr (address_text (nw_addr n))), (''prefix'', PInt (int (nw_plen n)))] @
     mask_texts n @ [(''usable_hosts'', PInt (fst (ipv4_usable_bounds n)))])"

definition wildcard_calculate :: "(string \<Rightarrow> bool) \<Rightarrow> string \<Rightarrow> (pydict, nat) table_result result" where
  "wildcard_calculate v6 s =
     (case read_networks (wildcard_network v6) (numbered (splitlines s)) of
        Inl e \<Rightarrow> Inl e
      | Inr (ns, errors) \<Rightarrow> Inr \<lparr>tb_rows = map wildcard_row ns, tb_summary = Some (length ns), tb_errors = errors\<rparr>)"

section \<open>Collapsing\<close>

definition supernet :: "ip_network \<Rightarrow> ip_network" where
  "supernet n = (if nw_plen n = 0 then n else network_of (nw_addr n) (nw_plen n - 1))"

lemma delete_less: "map_of halves k = Some v \<Longrightarrow> length (AList.delete k halves) < length halves"
  by (induction halves) (auto simp: le_imp_less_Suc length_filter_le AList.delete_eq split: if_splits)

lemma update_length: "map_of halves k = None \<Longrightarrow> length (AList.update k v halves) = Suc (length halves)"
  by (induction halves) (auto split: if_splits)

text \<open>The first loop: the dict maps a supernet to the half of it that was seen.\<close>

function merge_loop :: "ip_network list \<Rightarrow> (ip_network \<times> ip_network) list \<Rightarrow> (ip_network \<times> ip_network) list" where
  "merge_loop to_merge halves =
     (if to_merge = [] then halves
      else let net = last to_merge; rest = butlast to_merge; super = supernet net in
           case map_of halves super of
             None \<Rightarrow> merge_loop rest (AList.update super net halves)
           | Some existing \<Rightarrow>
               (if existing \<noteq> net then merge_loop (rest @ [super]) (AList.delete super halves)
                else merge_loop rest halves))"
  by pat_completeness auto

termination
  by (relation "measure (\<lambda>(ns, hs). 2 * length ns + length hs)") (auto simp: update_length delete_less neq_Nil_conv)

declare merge_loop.simps [simp del]

definition network_le :: "ip_network \<Rightarrow> ip_network \<Rightarrow> bool" where
  "network_le m n = (nw_addr m < nw_addr n \<or> nw_addr m = nw_addr n \<and> netmask (nw_plen m) \<le> netmask (nw_plen n))"

fun insort_network :: "ip_network \<Rightarrow> ip_network list \<Rightarrow> ip_network list" where
  "insort_network n [] = [n]"
| "insort_network n (m # ms) = (if network_le n m then n # m # ms else m # insort_network n ms)"

text \<open>The second loop skips what the network before contains.\<close>

fun skip_subsumed :: "ip_network option \<Rightarrow> ip_network list \<Rightarrow> ip_network list" where
  "skip_subsumed prev [] = []"
| "skip_subsumed prev (n # ns) =
     (case prev of
        Some l \<Rightarrow> (if broadcast_address n \<le> broadcast_address l then skip_subsumed prev ns else n # skip_subsumed (Some n) ns)
      | None \<Rightarrow> n # skip_subsumed (Some n) ns)"

definition collapse_addresses :: "ip_network list \<Rightarrow> ip_network list" where
  "collapse_addresses ns = skip_subsumed None (foldr insort_network (map snd (merge_loop ns [])) [])"

section \<open>Route summaries\<close>

record route_summary =
  rs_input_count :: nat
  rs_unique_count :: nat
  rs_input_total :: int
  rs_summary_total :: int
  rs_utilization :: pyfloat
  rs_wasted :: int

definition route_row :: "ip_network \<Rightarrow> pydict" where
  "route_row n =
     [(''summary'', PStr (cidr n)), (''network'', PStr (address_text (nw_addr n))), (''prefix'', PInt (int (nw_plen n)))] @ mask_texts n @
     [(''range'', PStr (address_text (nw_addr n) @ '' - '' @ address_text (broadcast_address n))),
      (''total_addresses'', PInt (num_addresses n)), (''full_cover'', PBool True)]"

definition total_of :: "ip_network list \<Rightarrow> int" where
  "total_of ns = (\<Sum>n\<leftarrow>ns. num_addresses n)"

definition utilization_percent :: "int \<Rightarrow> int \<Rightarrow> pyfloat" where
  "utilization_percent used all = (if all = 0 then Fin 0 else fround2 (fscale (fdiv_int used all) 100))"

text \<open>\<open>order\<close> is the iteration order of a set of networks.\<close>

definition summarize_routes :: "(string \<Rightarrow> bool) \<Rightarrow> (ip_network list \<Rightarrow> ip_network list) \<Rightarrow> string \<Rightarrow> (pydict, route_summary) table_result result" where
  "summarize_routes v6 order s =
     (case read_networks (parse_ipv4_network v6) (numbered (splitlines s)) of
        Inl e \<Rightarrow> Inl e
      | Inr (ns, errors) \<Rightarrow>
          (if errors \<noteq> [] then Inr (failed_table errors)
           else let unique = sort_key (\<lambda>n. uint (nw_addr n)) (order (map snd ns)); collapsed = collapse_addresses unique in
                Inr \<lparr>tb_rows = map route_row collapsed,
                     tb_summary = Some \<lparr>rs_input_count = length ns, rs_unique_count = length unique,
                       rs_input_total = total_of unique, rs_summary_total = total_of collapsed,
                       rs_utilization = utilization_percent (total_of unique) (total_of collapsed),
                       rs_wasted = max (total_of collapsed - total_of unique) 0\<rparr>,
                     tb_errors = []\<rparr>))"

section \<open>Blocks\<close>

unbundle bit_operations_syntax

definition covers :: "ip_network list \<Rightarrow> int set" where
  "covers ns = (\<Union>n\<in>set ns. addresses n)"

definition networks_ok :: "ip_network list \<Rightarrow> bool" where
  "networks_ok ns = list_all network_ok ns"

lemma low_network_of: "low (network_of a p) = uint a div 2 ^ (32 - p) * 2 ^ (32 - p)"
proof -
  let ?k = "32 - p" and ?y = "a AND netmask p"
  have inside: "i < 32" if "bit a i" for i using bit_imp_le_length [OF that] by simp
  have drop: "uint (drop_bit k w) = drop_bit k (uint w)" for k and w :: "32 word"
    using uint_bounded [of w] by (simp add: unsigned_drop_bit_eq take_bit_int_eq_self)
  have "take_bit ?k ?y = 0" "drop_bit ?k ?y = drop_bit ?k a"
    by (auto intro!: bit_eqI inside simp: bit_take_bit_iff bit_and_iff bit_drop_bit_eq)
  then have "take_bit ?k (uint ?y) = 0" "drop_bit ?k (uint ?y) = drop_bit ?k (uint a)"
    by (metis unsigned_take_bit_eq uint_0_eq, metis drop)
  then have "uint ?y mod 2 ^ ?k = 0" "uint ?y div 2 ^ ?k = uint a div 2 ^ ?k"
    by (simp_all add: take_bit_eq_mod drop_bit_eq_div)
  then show ?thesis using div_mult_mod_eq [of "uint ?y" "2 ^ ?k"] by (simp add: low_def network_of_def)
qed

lemma num_dvd: "nw_plen m \<le> nw_plen n \<Longrightarrow> num_addresses n dvd num_addresses m"
  unfolding num_addresses_def by (intro le_imp_power_dvd) simp

lemma num_le_iff: "nw_plen m \<le> 32 \<Longrightarrow> nw_plen n \<le> 32 \<Longrightarrow> num_addresses m \<le> num_addresses n \<longleftrightarrow> nw_plen n \<le> nw_plen m"
  by (simp add: num_addresses_def) arith

lemma dvd_gap: "0 < b \<Longrightarrow> b dvd x \<Longrightarrow> b dvd y \<Longrightarrow> x < y \<Longrightarrow> x + b \<le> y" for x :: int
  by (metis add_le_cancel_left diff_add_cancel dvd_diff zdvd_imp_le add.commute diff_gt_0_iff_gt)

lemma supernet_halves:
  assumes "network_ok n" "0 < nw_plen n"
  shows "nw_plen (supernet n) = nw_plen n - 1" "num_addresses (supernet n) = 2 * num_addresses n"
    "low n = low (supernet n) \<or> low n = low (supernet n) + num_addresses n"
proof -
  let ?b = "num_addresses n"
  show p: "nw_plen (supernet n) = nw_plen n - 1" using assms by (simp add: supernet_def network_of_def)
  obtain q where q: "nw_plen n = Suc q" using assms(2) by (cases "nw_plen n") auto
  have "Suc q \<le> 32" using assms q by (simp add: network_ok_def)
  then have "32 - q = Suc (32 - Suc q)" by simp
  then show num: "num_addresses (supernet n) = 2 * ?b" using p q by (simp add: num_addresses_def)
  obtain j where j: "low n = ?b * j" using assms(1) by (auto simp: network_ok_dvd)
  have "low (supernet n) = low n div (2 * ?b) * (2 * ?b)"
  proof -
    have "supernet n = network_of (nw_addr n) (nw_plen n - 1)" using assms(2) by (simp add: supernet_def)
    moreover have "2 ^ (32 - (nw_plen n - 1)) = 2 * ?b" using num p by (simp add: num_addresses_def)
    ultimately show ?thesis using low_network_of [of "nw_addr n" "nw_plen n - 1"] by (simp only: low_def)
  qed
  also have "low n div (2 * ?b) = j div 2" using j num_addresses_pos [of n] by (simp add: mult.commute [of 2] del: num_addresses_pos)
  finally have "low (supernet n) = 2 * (j div 2) * ?b" by simp
  then show "low n = low (supernet n) \<or> low n = low (supernet n) + ?b"
    using j by (cases "even j") (auto elim!: evenE oddE simp: algebra_simps)
qed

lemma supernet_ok: "network_ok n \<Longrightarrow> network_ok (supernet n)"
  by (auto simp: supernet_def network_ok_dvd intro!: network_of_is_ok [unfolded network_ok_dvd])

lemma supernet_contains: "network_ok n \<Longrightarrow> addresses n \<subseteq> addresses (supernet n)"
proof (cases "nw_plen n = 0")
  case False
  assume "network_ok n"
  with False supernet_halves [of n] show ?thesis by (auto simp: addresses_def)
qed (simp add: supernet_def)

lemma siblings_cover:
  assumes "network_ok m" "network_ok n" "m \<noteq> n" "supernet m = supernet n"
  shows "addresses m \<union> addresses n = addresses (supernet n)"
proof -
  consider "nw_plen m = 0" | "nw_plen n = 0" | "0 < nw_plen m" "0 < nw_plen n" by auto
  then show ?thesis
  proof cases
    case 1
    then have "supernet n = m" using assms(4) by (simp add: supernet_def)
    then show ?thesis using supernet_contains [OF assms(2)] by auto
  next
    case 2
    then have "supernet m = n" using assms(4) by (simp add: supernet_def)
    then show ?thesis using supernet_contains [OF assms(1)] assms(4) by auto
  next
    case 3
    note m = supernet_halves [OF assms(1) 3(1)] and n = supernet_halves [OF assms(2) 3(2)]
    have "nw_plen m = nw_plen n" using m(1) n(1) 3 assms(4) by simp
    then have "low m \<noteq> low n" "num_addresses m = num_addresses n"
      using network_eqI assms(3) by (auto simp: num_addresses_def)
    then show ?thesis using m n assms(4) num_addresses_pos [of n] by (auto simp: addresses_def)
  qed
qed

section \<open>The merge loop\<close>

definition halves_ok :: "(ip_network \<times> ip_network) list \<Rightarrow> bool" where
  "halves_ok hs = (distinct (map fst hs) \<and> (\<forall>(k, n)\<in>set hs. k = supernet n \<and> network_ok n))"


lemma covers_simps [simp]: "covers [] = {}" "covers (n # ns) = addresses n \<union> covers ns" "covers (ms @ ns) = covers ms \<union> covers ns"
  by (auto simp: covers_def)

lemma set_delete: "distinct (map fst hs) \<Longrightarrow> (k, v) \<in> set hs \<Longrightarrow> insert (k, v) (set (AList.delete k hs)) = set hs"
  by (induction hs) (auto simp: AList.delete_eq image_iff)

lemma set_update: "map_of hs k = None \<Longrightarrow> set (AList.update k v hs) = insert (k, v) (set hs)"
  by (induction hs) (auto split: if_splits)

lemma covers_insert: "set ms = insert n (set ns) \<Longrightarrow> covers ms = addresses n \<union> covers ns"
  by (simp add: covers_def)

lemma merge_loop_inv:
  "networks_ok ns \<Longrightarrow> halves_ok hs \<Longrightarrow>
   halves_ok (merge_loop ns hs) \<and> covers (map snd (merge_loop ns hs)) = covers ns \<union> covers (map snd hs)"
proof (induction ns hs rule: merge_loop.induct)
  case (1 ns hs)
  show ?case
  proof (cases "ns = []")
    case True
    then show ?thesis using 1 by (simp add: merge_loop.simps [of "[]"])
  next
    case False
    define n where "n = last ns"
    have ns: "ns = butlast ns @ [n]" using False by (simp add: n_def)
    then have ok: "networks_ok (butlast ns)" "network_ok n" using 1(4) by (metis list.pred_inject(2) list_all_append networks_ok_def)+
    have cov: "covers ns = covers (butlast ns) \<union> addresses n" using ns covers_simps by (metis sup_bot_right)
    have loop: "merge_loop ns hs = (case map_of hs (supernet n) of
        None \<Rightarrow> merge_loop (butlast ns) (AList.update (supernet n) n hs)
      | Some e \<Rightarrow> (if e \<noteq> n then merge_loop (butlast ns @ [supernet n]) (AList.delete (supernet n) hs) else merge_loop (butlast ns) hs))"
      by (subst merge_loop.simps) (simp only: False if_False Let_def n_def)
    show ?thesis
    proof (cases "map_of hs (supernet n)")
      case None
      let ?hs = "AList.update (supernet n) n hs"
      have set: "set ?hs = insert (supernet n, n) (set hs)" using None by (rule set_update)
      then have "halves_ok ?hs" using 1(5) ok by (auto simp: halves_ok_def distinct_update)
      moreover have "covers (map snd ?hs) = addresses n \<union> covers (map snd hs)" using set by (intro covers_insert) simp
      ultimately show ?thesis using 1(1) [OF False n_def refl refl None] ok(1) cov loop None by auto
    next
      case (Some e)
      then have mem: "(supernet n, e) \<in> set hs" by (rule map_of_SomeD)
      then have e: "supernet e = supernet n" "network_ok e" using 1(5) by (auto simp: halves_ok_def)
      show ?thesis
      proof (cases "e = n")
        case True
        then have "addresses n \<subseteq> covers (map snd hs)" using mem by (force simp: covers_def)
        then show ?thesis using 1(3) [OF False n_def refl refl Some] ok(1) 1(5) cov loop Some True by auto
      next
        case other: False
        let ?hs = "AList.delete (supernet n) hs"
        have set: "insert (supernet n, e) (set ?hs) = set hs" using 1(5) mem by (intro set_delete) (simp add: halves_ok_def)
        then have "halves_ok ?hs" using 1(5) by (auto simp: halves_ok_def distinct_delete)
        moreover have "networks_ok (butlast ns @ [supernet n])" using ok by (simp add: networks_ok_def supernet_ok)
        moreover have "covers (map snd hs) = addresses e \<union> covers (map snd ?hs)"
          by (rule covers_insert) (metis image_insert list.set_map set snd_conv)
        moreover have "addresses e \<union> addresses n = addresses (supernet n)" using e ok(2) other by (intro siblings_cover) auto
        ultimately show ?thesis using 1(2) [OF False n_def refl refl Some other] cov loop Some other by auto
      qed
    qed
  qed
qed

section \<open>Sorting and skipping\<close>

lemma netmask_le: "p \<le> 32 \<Longrightarrow> q \<le> 32 \<Longrightarrow> netmask p \<le> netmask q \<longleftrightarrow> p \<le> q"
proof -
  assume "p \<le> 32" "q \<le> 32"
  have "uint (NOT w) = 2 ^ 32 - 1 - uint w" for w :: "32 word"
  proof -
    have "NOT w = - 1 - w" by (simp add: not_eq_complement)
    moreover have "uint (- 1 - w) = uint (- 1 :: 32 word) - uint w" using uint_minus_simple_iff [of "- 1" w] by simp
    ultimately show ?thesis by (simp add: unsigned_minus_1_eq_mask mask_eq_exp_minus_1)
  qed
  then have "uint (netmask p) = 2 ^ 32 - 2 ^ (32 - p)" "uint (netmask q) = 2 ^ 32 - 2 ^ (32 - q)"
    using \<open>p \<le> 32\<close> \<open>q \<le> 32\<close> by (simp_all add: netmask_def uint_hostmask)
  then show ?thesis using \<open>p \<le> 32\<close> \<open>q \<le> 32\<close> by (simp add: word_le_def) arith
qed

lemma network_le_total: "network_le m n \<or> network_le n m"
  by (auto simp: network_le_def)

lemma network_le_trans: "network_le l m \<Longrightarrow> network_le m n \<Longrightarrow> network_le l n"
  by (auto simp: network_le_def)

lemma set_insort [simp]: "set (insort_network n ns) = insert n (set ns)"
  by (induction ns) auto

lemma insort_sorted: "sorted_wrt network_le ns \<Longrightarrow> sorted_wrt network_le (insort_network n ns)"
proof (induction ns)
  case (Cons m ms)
  then show ?case using network_le_total [of m n] network_le_trans [of n m] by auto
qed simp

definition before :: "ip_network \<Rightarrow> ip_network \<Rightarrow> bool" where
  "before m n = (low m + num_addresses m \<le> low n)"

lemma before_trans: "before l m \<Longrightarrow> before m n \<Longrightarrow> before l n"
  unfolding before_def using num_addresses_pos [of m] by linarith

lemma next_block:
  assumes "network_ok l" "network_ok n" "network_le l n"
  shows "if broadcast_address n \<le> broadcast_address l then addresses n \<subseteq> addresses l else before l n"
proof -
  have p: "nw_plen l \<le> 32" "nw_plen n \<le> 32" using assms by (auto simp: network_ok_def)
  have d: "num_addresses l dvd low l" "num_addresses n dvd low n" using assms by (auto simp: network_ok_dvd)
  have le: "low l \<le> low n" "low l = low n \<Longrightarrow> num_addresses n \<le> num_addresses l"
    using assms(3) p by (auto simp: network_le_def low_def netmask_le num_le_iff word_less_def word_uint_eq_iff)
  have iff: "broadcast_address n \<le> broadcast_address l \<longleftrightarrow> low n + num_addresses n \<le> low l + num_addresses l"
    unfolding word_le_def uint_broadcast [OF assms(1)] uint_broadcast [OF assms(2)] by (rule iffI; linarith)
  show ?thesis
  proof (cases "low n + num_addresses n \<le> low l + num_addresses l")
    case True
    then show ?thesis using iff le(1) by (auto simp: addresses_def)
  next
    case False
    have "low l + num_addresses l \<le> low n"
    proof (rule ccontr)
      assume near: "\<not> low l + num_addresses l \<le> low n"
      consider "nw_plen l \<le> nw_plen n" | "nw_plen n \<le> nw_plen l" by linarith
      then show False
      proof cases
        case 1
        then have "num_addresses n dvd num_addresses l" by (rule num_dvd)
        then have "low n + num_addresses n \<le> low l + num_addresses l" using d near by (intro dvd_gap) (auto intro: dvd_trans)
        then show False using False by simp
      next
        case 2
        then have dvd: "num_addresses l dvd num_addresses n" by (rule num_dvd)
        show False
        proof (cases "low l = low n")
          case True
          then show False using le(2) False by simp
        next
          case other: False
          then have "low l + num_addresses l \<le> low n" using d dvd le(1) by (intro dvd_gap) (auto intro: dvd_trans)
          then show False using near by simp
        qed
      qed
    qed
    then show ?thesis using iff False by (simp add: before_def)
  qed
qed

lemma skip_subsumed_inv:
  assumes "networks_ok (l # ns)" "sorted_wrt network_le (l # ns)"
  shows "set (skip_subsumed (Some l) ns) \<subseteq> set ns \<and> sorted_wrt before (l # skip_subsumed (Some l) ns) \<and>
    addresses l \<union> covers (skip_subsumed (Some l) ns) = addresses l \<union> covers ns"
  using assms
proof (induction ns arbitrary: l)
  case (Cons n ns)
  have ok: "network_ok l" "network_ok n" "network_le l n" using Cons.prems by (auto simp: networks_ok_def)
  show ?case
  proof (cases "broadcast_address n \<le> broadcast_address l")
    case True
    then have "addresses n \<subseteq> addresses l" using next_block [OF ok] by simp
    then show ?thesis using Cons.IH [of l] Cons.prems True by (auto simp: networks_ok_def)
  next
    case False
    then have "before l n" using next_block [OF ok] by simp
    then show ?thesis using Cons.IH [of n] Cons.prems False by (auto simp: networks_ok_def intro: before_trans)
  qed
qed simp

lemma skip_all:
  assumes "networks_ok ns" "sorted_wrt network_le ns"
  shows "set (skip_subsumed None ns) \<subseteq> set ns \<and> sorted_wrt before (skip_subsumed None ns) \<and> covers (skip_subsumed None ns) = covers ns"
proof (cases ns)
  case (Cons n ms)
  then show ?thesis using skip_subsumed_inv [of n ms] assms by auto
qed simp

lemma insort_all: "sorted_wrt network_le (foldr insort_network ns []) \<and> set (foldr insort_network ns []) = set ns"
  by (induction ns) (auto simp: insort_sorted)

lemma collapse_exact:
  assumes "networks_ok ns"
  shows "covers (collapse_addresses ns) = covers ns \<and> networks_ok (collapse_addresses ns) \<and>
    sorted_wrt before (collapse_addresses ns) \<and> inj_on supernet (set (collapse_addresses ns))"
proof -
  define hs where "hs = merge_loop ns []"
  define vs where "vs = foldr insort_network (map snd hs) []"
  have h: "halves_ok hs" "covers (map snd hs) = covers ns"
    using merge_loop_inv [of ns "[]"] assms by (auto simp: hs_def halves_ok_def)
  have vs: "sorted_wrt network_le vs" "set vs = set (map snd hs)" unfolding vs_def using insort_all by blast+
  have ok: "networks_ok vs" using h(1) vs(2) by (auto simp: networks_ok_def list_all_iff halves_ok_def)
  have inj: "inj_on supernet (set vs)"
  proof (rule inj_onI)
    fix m n assume "m \<in> set vs" "n \<in> set vs" "supernet m = supernet n"
    then have "(supernet n, m) \<in> set hs" "(supernet n, n) \<in> set hs" using h(1) vs(2) by (auto simp: halves_ok_def)
    then show "m = n" using h(1) by (auto simp: halves_ok_def dest: eq_key_imp_eq_value)
  qed
  have "covers vs = covers ns" using vs(2) h(2) by (simp add: covers_def)
  moreover have "collapse_addresses ns = skip_subsumed None vs" by (simp add: collapse_addresses_def vs_def hs_def)
  ultimately show ?thesis
    using skip_all [OF ok vs(1)] ok inj by (auto simp: networks_ok_def list_all_iff intro: inj_on_subset)
qed


section \<open>Exact summaries\<close>

lemma card_covers: "sorted_wrt before ns \<Longrightarrow> int (card (covers ns)) = total_of ns"
proof (induction ns)
  case (Cons n ns)
  have "addresses n \<inter> covers ns = {}" using Cons.prems by (fastforce simp: covers_def addresses_def before_def)
  moreover have "finite (covers ns)" by (simp add: covers_def addresses_def)
  ultimately have "card (covers (n # ns)) = card (addresses n) + card (covers ns)"
    by (simp add: card_Un_disjoint addresses_def)
  then show ?case using Cons less_imp_le [OF num_addresses_pos [of n]] by (simp add: total_of_def addresses_def)
qed (simp add: total_of_def)

lemma card_covers_le: "int (card (covers ns)) \<le> total_of ns"
proof (induction ns)
  case (Cons n ns)
  have "card (covers (n # ns)) \<le> card (addresses n) + card (covers ns)" by (simp add: card_Un_le)
  then show ?case using Cons less_imp_le [OF num_addresses_pos [of n]] by (simp add: total_of_def addresses_def)
qed (simp add: total_of_def)

lemma read_networks_ok:
  "(\<And>s n. parse s = Inr n \<Longrightarrow> network_ok n) \<Longrightarrow> read_networks parse ls = Inr (ns, es) \<Longrightarrow> networks_ok (map snd ns)"
  by (induction parse ls arbitrary: ns es rule: read_networks.induct)
    (auto simp: networks_ok_def Let_def split: sum.splits if_splits pyerr.splits)

text \<open>
  C16. A route summary is exact and as short as possible: whatever the iteration order of the set of networks,
  its rows are networks in ascending order that do not overlap, cover exactly the addresses of the lines, and no two of
  them are the halves of one network; the summary counts the covered addresses. The number of wasted addresses is always
  0.
\<close>

theorem summarize_routes_exact:
  assumes "read_networks (parse_ipv4_network v6) (numbered (splitlines s)) = Inr (ns, [])"
    and "set (order (map snd ns)) = set (map snd ns)"
  shows "\<exists>cs u t. summarize_routes v6 order s =
      Inr \<lparr>tb_rows = map route_row cs,
           tb_summary = Some \<lparr>rs_input_count = length ns, rs_unique_count = length (order (map snd ns)), rs_input_total = u,
             rs_summary_total = int (card (covers (map snd ns))), rs_utilization = t, rs_wasted = 0\<rparr>, tb_errors = []\<rparr> \<and>
    covers cs = covers (map snd ns) \<and> sorted_wrt (\<lambda>m n. low m + num_addresses m \<le> low n) cs \<and>
    list_all network_ok cs \<and> inj_on supernet (set cs) \<and> int (card (covers (map snd ns))) \<le> u"
proof -
  define unique where "unique = sort_key (\<lambda>n. uint (nw_addr n)) (order (map snd ns))"
  have set: "set unique = set (map snd ns)" using assms(2) by (simp add: unique_def)
  have "networks_ok (map snd ns)" using parsed_network_ok assms(1) by (rule read_networks_ok)
  then have "networks_ok unique" using set by (simp add: networks_ok_def list_all_iff)
  note c = collapse_exact [OF this]
  have cov: "covers unique = covers (map snd ns)" using set by (simp add: covers_def)
  have t: "total_of (collapse_addresses unique) = int (card (covers (map snd ns)))"
    using card_covers [of "collapse_addresses unique"] c cov by simp
  have le: "int (card (covers (map snd ns))) \<le> total_of unique" using card_covers_le [of unique] cov by simp
  show ?thesis
  proof (intro exI conjI)
    show "summarize_routes v6 order s =
      Inr \<lparr>tb_rows = map route_row (collapse_addresses unique),
           tb_summary = Some \<lparr>rs_input_count = length ns, rs_unique_count = length (order (map snd ns)), rs_input_total = total_of unique,
             rs_summary_total = int (card (covers (map snd ns))),
             rs_utilization = utilization_percent (total_of unique) (total_of (collapse_addresses unique)), rs_wasted = 0\<rparr>, tb_errors = []\<rparr>"
      using assms(1) le by (simp add: summarize_routes_def Let_def unique_def [symmetric] t) (simp add: unique_def)
  qed (use c cov le in \<open>auto simp: networks_ok_def before_def [abs_def]\<close>)
qed


definition lan_half :: "nat \<Rightarrow> ip_network" where
  "lan_half i = \<lparr>nw_addr = 0x0A000000 + 128 * word_of_nat i, nw_plen = 25\<rparr>"

lemma digit_chars: "digit_char 0 = CHR ''0'' \<and> digit_char 1 = CHR ''1'' \<and> digit_char 2 = CHR ''2'' \<and> digit_char 5 = CHR ''5'' \<and> digit_char 8 = CHR ''8''"
  by code_simp

lemma lan_half_text: "cidr (lan_half 0) = ''10.0.0.0/25''" "cidr (lan_half 1) = ''10.0.0.128/25''"
  by (simp_all add: cidr_def address_text_def octet_def lan_half_def show_nat.simps digit_chars [simplified])

lemma lan_half_ok: "network_ok (lan_half 0)" "network_ok (lan_half 1)"
  by (simp_all add: lan_half_def network_ok_def hostmask_def mask_eq_exp_minus_1)

lemma lan_half_lines: "numbered (splitlines (''10.0.0.0/25'' @ CHR 0x0A # ''10.0.0.128/25'')) = [(1, ''10.0.0.0/25''), (2, ''10.0.0.128/25'')]"
  by code_simp

lemma lan_half_strip: "strip ''10.0.0.0/25'' = ''10.0.0.0/25'' \<and> strip ''10.0.0.128/25'' = ''10.0.0.128/25''"
  by code_simp

lemma lan_halves_read:
  "read_networks (parse_ipv4_network v6) (numbered (splitlines (''10.0.0.0/25'' @ CHR 0x0A # ''10.0.0.128/25''))) =
   Inr ([(''10.0.0.0/25'', lan_half 0), (''10.0.0.128/25'', lan_half 1)], [])"
  using parse_ipv4_cidr [OF lan_half_ok(1), of v6] parse_ipv4_cidr [OF lan_half_ok(2), of v6] lan_half_strip
  unfolding lan_half_lines lan_half_text by (simp add: Let_def)

lemma summarize_routes_exact_witness:
  "\<exists>t. summarize_routes (\<lambda>_. False) rev (''10.0.0.0/25'' @ CHR 0x0A # ''10.0.0.128/25'') = Inr t \<and> tb_errors t = []"
  using summarize_routes_exact [OF lan_halves_read, of rev "\<lambda>_. False"] by (auto simp: insert_commute)

text \<open>A name that ends in digits is cut when the separator is missing.\<close>

lemma glued_request: "parse_vlsm_requests ''lab12'' = Inr ([(1, ''lab1'', 2)], [])"
  by code_simp

end
