(* ===== verification/Station_Order.thy ===== *)
theory Station_Order
  imports Py_Numbers NC_Prelude "HOL-Library.Multiset" "HOL-Library.Product_Lexorder" "HOL-Library.List_Lexorder" "HOL-Library.Char_ord"
begin

text \<open>
  \<^verbatim>\<open>core/sources/rail_transit/station_ordering.py\<close>: the order of the stations of a line and of the rows of an access point
  plan. A station or row is a dictionary; \<open>loads\<close> parses JSON texts. The keys of \<open>sorted\<close> are tuples in
  lexicographic order. Mileages are ordered as doubles, NaN last: Python gives no order with NaN.
\<close>

section \<open>Doubles are ordered\<close>

instantiation pyfloat :: linorder
begin

fun less_eq_pyfloat :: "pyfloat \<Rightarrow> pyfloat \<Rightarrow> bool" where
  "less_eq_pyfloat NInf y = True"
| "less_eq_pyfloat (Fin a) y = (case y of NInf \<Rightarrow> False | Fin b \<Rightarrow> a \<le> b | _ \<Rightarrow> True)"
| "less_eq_pyfloat PInf y = (y = PInf \<or> y = FNaN)"
| "less_eq_pyfloat FNaN y = (y = FNaN)"

definition less_pyfloat :: "pyfloat \<Rightarrow> pyfloat \<Rightarrow> bool" where
  "less_pyfloat x y = (x \<le> y \<and> \<not> y \<le> x)"

instance
proof
  fix x y z :: pyfloat
  show "x < y \<longleftrightarrow> x \<le> y \<and> \<not> y \<le> x" by (rule less_pyfloat_def)
  show "x \<le> x" by (cases x) auto
  show "x \<le> y \<Longrightarrow> y \<le> z \<Longrightarrow> x \<le> z" by (cases x; cases y; cases z) auto
  show "x \<le> y \<Longrightarrow> y \<le> x \<Longrightarrow> x = y" by (cases x; cases y) auto
  show "x \<le> y \<or> y \<le> x" by (cases x; cases y) auto
qed

end

lemma pyfloat_less_iff: "x \<noteq> FNaN \<Longrightarrow> y \<noteq> FNaN \<Longrightarrow> x < y \<longleftrightarrow> flt x y"
  by (cases x; cases y) (auto simp: less_pyfloat_def)

section \<open>Fields\<close>

text \<open>\<open>_value\<close> and \<open>_text\<close> of a dictionary.\<close>

definition row_value :: "pydict \<Rightarrow> string \<Rightarrow> pyval \<Rightarrow> pyval" where
  "row_value row field default_value = (if dhas row field then dget row field else default_value)"

definition row_text :: "pydict \<Rightarrow> string \<Rightarrow> string \<Rightarrow> string" where
  "row_text row field default_text = text_of (row_value row field (PStr default_text))"

text \<open>\<open>value in (None, "")\<close>\<close>

definition blank :: "pyval \<Rightarrow> bool" where
  "blank v = (v = PNone \<or> v = PStr [])"

definition integer_of :: "pyval \<Rightarrow> int option result" where
  "integer_of v =
     (if blank v \<or> is_pbool v then Inr None
      else case py_int v of
             Inr i \<Rightarrow> Inr (Some i)
           | Inl TypeError \<Rightarrow> Inr None
           | Inl (ValueError _) \<Rightarrow> Inr None
           | Inl e \<Rightarrow> Inl e)"

definition METADATA_FIELDS :: "string list" where
  "METADATA_FIELDS = [''node_type'', ''path_code'', ''center_mileage_m'', ''canonical_station_name'', ''code'', ''source_order'',
     ''participates_in_direction'', ''sort_order'']"

definition merge_metadata :: "pydict \<Rightarrow> pydict \<Rightarrow> pydict" where
  "merge_metadata metadata result0 =
     fold (\<lambda>field r. if blank (dget r field) then dput field (dget metadata field) r else r) METADATA_FIELDS result0"

definition metadata_projection :: "(string \<Rightarrow> pyval option) \<Rightarrow> pydict \<Rightarrow> pydict" where
  "metadata_projection loads row =
     (let raw_payload = row_value row ''raw_payload_json'' (PStr []);
          r1 = (case loads (py_str (py_or raw_payload (PStr [CHR 0x7B, CHR 0x7D]))) of
                  Some (PDict metadata) \<Rightarrow> merge_metadata metadata row
                | _ \<Rightarrow> row);
          r2 = (if truthy (dget r1 ''id'') then r1 else dput ''id'' (row_value row ''station_id'' (PStr [])) r1);
          r3 = (if truthy (dget r2 ''name'') then r2 else dput ''name'' (row_value row ''station_name'' (PStr [])) r2);
          r4 = dsetdefault ''node_type'' (PStr ''station'') r3 in
      dsetdefault ''participates_in_direction'' (PBool (dget r4 ''node_type'' = PStr ''station'')) r4)"

section \<open>Keys\<close>

definition NON_MAINLINE_NODE_TYPES :: "string list" where
  "NON_MAINLINE_NODE_TYPES = [''depot'', ''parking_lot'', ''connection_point'', ''other'']"

definition NODE_TYPE_RANK :: "(string \<times> int) list" where
  "NODE_TYPE_RANK = [(''depot'', 0), (''parking_lot'', 1), (''connection_point'', 2), (''other'', 3), (''unknown'', 4), (''station'', 5)]"

definition or_text :: "string \<Rightarrow> string \<Rightarrow> string" where
  "or_text s t = (if s = [] then t else s)"

definition valid_mainline_order :: "pydict \<Rightarrow> int option result" where
  "valid_mainline_order row =
     (let node_type = or_text (casefold (row_text row ''node_type'' ''station'')) ''station'';
          sort_order = row_value row ''sort_order'' PNone;
          raw_order = (if blank sort_order then row_value row ''mainline_order'' PNone else sort_order) in
      if node_type \<in> set NON_MAINLINE_NODE_TYPES then Inr None
      else if node_type = ''station'' \<and> row_value row ''participates_in_direction'' (PBool True) = PBool False then Inr None
      else case integer_of raw_order of
             Inl e \<Rightarrow> Inl e
           | Inr (Some i) \<Rightarrow> Inr (if 0 \<le> i then Some i else None)
           | Inr None \<Rightarrow> Inr None)"

type_synonym fallback_key = "int \<times> string \<times> bool \<times> int \<times> bool \<times> pyfloat \<times> string \<times> string \<times> string \<times> string"

text \<open>The mileage and whether it is missing.\<close>

definition center_key :: "pyval \<Rightarrow> (bool \<times> pyfloat) result" where
  "center_key v =
     (if blank v then Inr (True, Fin 0)
      else case py_float v of
             Inr x \<Rightarrow> Inr (False, x)
           | Inl TypeError \<Rightarrow> Inr (True, Fin 0)
           | Inl (ValueError _) \<Rightarrow> Inr (True, Fin 0)
           | Inl e \<Rightarrow> Inl e)"

definition fallback_key :: "pydict \<Rightarrow> fallback_key result" where
  "fallback_key row =
     (let node_type = or_text (casefold (row_text row ''node_type'' ''unknown'')) ''unknown'' in
      case (center_key (row_value row ''center_mileage_m'' PNone), integer_of (row_value row ''source_order'' PNone)) of
        (Inr (center_missing, center), Inr source_order) \<Rightarrow>
          Inr (case map_of NODE_TYPE_RANK node_type of None \<Rightarrow> 6 | Some k \<Rightarrow> k,
               casefold (row_text row ''path_code'' []),
               source_order = None, case source_order of None \<Rightarrow> 0 | Some i \<Rightarrow> i,
               center_missing, center,
               casefold (row_text row ''canonical_station_name'' []), casefold (row_text row ''code'' []),
               casefold (row_text row ''name'' (row_text row ''station_name'' [])),
               row_text row ''id'' (row_text row ''station_id'' []))
      | (Inl e, _) \<Rightarrow> Inl e
      | (_, Inl e) \<Rightarrow> Inl e)"

type_synonym order_key = "int \<times> int \<times> fallback_key"

definition station_display_order_key :: "pydict \<Rightarrow> order_key result" where
  "station_display_order_key row =
     (case (valid_mainline_order row, fallback_key row) of
        (Inr (Some order), Inr k) \<Rightarrow> Inr (0, order, k)
      | (Inr None, Inr k) \<Rightarrow> Inr (1, 0, k)
      | (Inl e, _) \<Rightarrow> Inl e
      | (_, Inl e) \<Rightarrow> Inl e)"

fun map_result :: "('a \<Rightarrow> 'b result) \<Rightarrow> 'a list \<Rightarrow> 'b list result" where
  "map_result f [] = Inr []"
| "map_result f (x # xs) =
     (case f x of
        Inl e \<Rightarrow> Inl e
      | Inr y \<Rightarrow> (case map_result f xs of Inl e \<Rightarrow> Inl e | Inr ys \<Rightarrow> Inr (y # ys)))"

text \<open>\<open>sorted\<close> with \<open>reverse\<close> keeps the order of equal keys.\<close>

definition sorted_by :: "bool \<Rightarrow> ('a \<times> 'k::linorder) list \<Rightarrow> 'a list" where
  "sorted_by rv ps = map fst (if rv then rev (sort_key snd (rev ps)) else sort_key snd ps)"

definition sort_rail_stations :: "bool \<Rightarrow> pydict list \<Rightarrow> pydict list result" where
  "sort_rail_stations rv rows =
     (case map_result station_display_order_key rows of
        Inl e \<Rightarrow> Inl e
      | Inr ks \<Rightarrow> Inr (sorted_by rv (zip rows ks)))"

section \<open>Rows of a plan\<close>

record plan_item =
  pl_row :: pydict
  pl_station :: "pydict option"
  pl_station_id :: string
  pl_explicit :: "int option"
  pl_display :: "int option"
  pl_index :: nat
  pl_base :: order_key

definition legacy_sequence_is_explicit :: "int option \<Rightarrow> int \<Rightarrow> bool" where
  "legacy_sequence_is_explicit sequence_no max_order =
     (case sequence_no of None \<Rightarrow> False | Some s \<Rightarrow> 0 < s \<and> (max_order \<le> 0 \<or> max_order < s))"

definition station_id_of :: "pydict \<Rightarrow> string" where
  "station_id_of station = row_text station ''id'' (row_text station ''station_id'' [])"

text \<open>\<open>station_by_id.get\<close>: of several stations with one id the last one counts.\<close>

definition station_by_id :: "pydict list \<Rightarrow> string \<Rightarrow> pydict option" where
  "station_by_id stations i = (if i = [] then None else find (\<lambda>s. station_id_of s = i) (rev stations))"

definition explicit_order :: "int \<Rightarrow> pydict \<Rightarrow> int option result" where
  "explicit_order max_order row =
     (case integer_of (dget row ''planning_order'') of
        Inl e \<Rightarrow> Inl e
      | Inr p \<Rightarrow>
          (case p of
             Some i \<Rightarrow> if 0 < i then Inr (Some i) else
               (case integer_of (dget row ''sequence_no'') of
                  Inl e \<Rightarrow> Inl e | Inr s \<Rightarrow> Inr (if legacy_sequence_is_explicit s max_order then s else None))
           | None \<Rightarrow>
               (case integer_of (dget row ''sequence_no'') of
                  Inl e \<Rightarrow> Inl e | Inr s \<Rightarrow> Inr (if legacy_sequence_is_explicit s max_order then s else None))))"

definition prepare_item :: "pydict list \<Rightarrow> int \<Rightarrow> nat \<times> pydict \<Rightarrow> plan_item result" where
  "prepare_item stations max_order = (\<lambda>(index, row).
     (let station_id = row_text row ''station_id'' []; station = station_by_id stations station_id in
      case (explicit_order max_order row,
            case station of None \<Rightarrow> Inr None | Some s \<Rightarrow> valid_mainline_order s,
            station_display_order_key (case station of None \<Rightarrow> row | Some s \<Rightarrow> s)) of
        (Inr explicit, Inr mainline, Inr base) \<Rightarrow>
          Inr \<lparr>pl_row = row, pl_station = station, pl_station_id = station_id, pl_explicit = explicit,
               pl_display = (if explicit \<noteq> None then explicit else mainline), pl_index = index, pl_base = base\<rparr>
      | (Inl e, _) \<Rightarrow> Inl e
      | (_, Inl e, _) \<Rightarrow> Inl e
      | (_, _, Inl e) \<Rightarrow> Inl e))"

function next_free :: "int list \<Rightarrow> int \<Rightarrow> int" where
  "next_free used n = (if n \<in> set used then next_free used (n + 1) else n)"
  by pat_completeness auto
termination
proof (relation "measure (\<lambda>(used, n). length (filter (\<lambda>u. n \<le> u) used))", goal_cases)
  case (2 used n)
  have "filter (\<lambda>u. n + 1 \<le> u) used = filter (\<lambda>u. n + 1 \<le> u) (filter (\<lambda>u. n \<le> u) used)" by (auto intro: filter_cong)
  also have "length \<dots> < length (filter (\<lambda>u. n \<le> u) used)" by (rule length_filter_less [of n]) (use 2 in auto)
  finally show ?case by simp
qed simp

declare next_free.simps [simp del]

text \<open>The loop over the rows without an order: the numbers by index.\<close>

fun assign_orders :: "int list \<Rightarrow> int \<Rightarrow> plan_item list \<Rightarrow> (nat \<times> int) list" where
  "assign_orders used n [] = []"
| "assign_orders used n (i # is) =
     (let k = next_free used n in (pl_index i, k) # assign_orders (k # used) (k + 1) is)"

definition auto_key :: "plan_item \<Rightarrow> order_key \<times> string \<times> nat" where
  "auto_key i = (pl_base i, pl_station_id i, pl_index i)"

definition largest :: "int \<Rightarrow> int list \<Rightarrow> int" where
  "largest d xs = (if xs = [] then d else Max (set xs))"

definition number_items :: "int \<Rightarrow> plan_item list \<Rightarrow> plan_item list" where
  "number_items max_order prepared =
     (let used = List.map_filter pl_display prepared;
          auto_rows = sort_key auto_key (filter (\<lambda>i. pl_display i = None) prepared);
          numbers = assign_orders used (max max_order (largest max_order used) + 1) auto_rows in
      map (\<lambda>i. if pl_display i = None then i\<lparr>pl_display := map_of numbers (pl_index i)\<rparr> else i) prepared)"

definition final_key :: "plan_item \<Rightarrow> int \<times> order_key \<times> string \<times> nat" where
  "final_key i = (the (pl_display i), pl_base i, pl_station_id i, pl_index i)"

definition plan_row :: "plan_item \<Rightarrow> pydict" where
  "plan_row i =
     dput ''planning_order'' (case pl_explicit i of None \<Rightarrow> PNone | Some e \<Rightarrow> PInt e)
       (dput ''display_order'' (PInt (the (pl_display i))) (dput ''sequence_no'' (PInt (the (pl_display i))) (pl_row i)))"

definition max_mainline :: "pydict list \<Rightarrow> int result" where
  "max_mainline stations =
     (case map_result valid_mainline_order stations of
        Inl e \<Rightarrow> Inl e
      | Inr os \<Rightarrow> Inr (largest 0 (List.map_filter id os)))"

definition canonicalize_plan :: "(string \<Rightarrow> pyval option) \<Rightarrow> pydict list \<Rightarrow> pydict list \<Rightarrow> pydict list result" where
  "canonicalize_plan loads rows stations0 =
     (let stations = map (metadata_projection loads) stations0 in
      case max_mainline stations of
        Inl e \<Rightarrow> Inl e
      | Inr m \<Rightarrow>
          (case map_result (prepare_item stations m) (enumerate 0 rows) of
             Inl e \<Rightarrow> Inl e
           | Inr prepared \<Rightarrow> Inr (map plan_row (sort_key final_key (number_items m prepared)))))"


section \<open>Numbers of the rows\<close>

lemma map_result_all2: "map_result f xs = Inr ys \<Longrightarrow> list_all2 (\<lambda>x y. f x = Inr y) xs ys"
  by (induction xs arbitrary: ys) (auto split: sum.splits)

lemma map_result_Inr: "list_all2 (\<lambda>x y. f x = Inr y) xs ys \<Longrightarrow> map_result f xs = Inr ys"
  by (induction rule: list_all2_induct) auto

lemma largest_bounds: "x \<in> set xs \<Longrightarrow> x \<le> largest d xs" "xs \<noteq> [] \<Longrightarrow> largest d xs \<in> set xs"
  by (auto simp: largest_def)

lemma next_free_id: "\<forall>u\<in>set used. u < n \<Longrightarrow> next_free used n = n"
  by (subst next_free.simps) auto

lemma assign_orders_spec:
  "\<forall>u\<in>set used. u < n \<Longrightarrow>
   map fst (assign_orders used n is) = map pl_index is \<and> (\<forall>(k, v)\<in>set (assign_orders used n is). n \<le> v) \<and>
   distinct (map snd (assign_orders used n is))"
proof (induction "is" arbitrary: used n)
  case (Cons i "is")
  have free: "next_free used n = n" using Cons.prems by (rule next_free_id)
  have "\<forall>u\<in>set (n # used). u < n + 1" using Cons.prems by auto
  from Cons.IH [OF this] show ?case by (force simp: free Let_def)
qed simp

definition numbered_row :: "int \<Rightarrow> int option \<Rightarrow> pydict \<Rightarrow> pydict" where
  "numbered_row d e row =
     dput ''planning_order'' (case e of None \<Rightarrow> PNone | Some e \<Rightarrow> PInt e)
       (dput ''display_order'' (PInt d) (dput ''sequence_no'' (PInt d) row))"

definition station_of :: "pydict list \<Rightarrow> pydict \<Rightarrow> pydict option" where
  "station_of stations row = station_by_id stations (row_text row ''station_id'' [])"

definition mainline_of :: "pydict list \<Rightarrow> pydict \<Rightarrow> int option result" where
  "mainline_of stations row = (case station_of stations row of None \<Rightarrow> Inr None | Some s \<Rightarrow> valid_mainline_order s)"

definition base_of :: "pydict list \<Rightarrow> pydict \<Rightarrow> order_key result" where
  "base_of stations row = station_display_order_key (case station_of stations row of None \<Rightarrow> row | Some s \<Rightarrow> s)"

lemma prepare_item_iff:
  "prepare_item stations m (k, row) = Inr i \<longleftrightarrow>
   (\<exists>ex ml b. explicit_order m row = Inr ex \<and> mainline_of stations row = Inr ml \<and> base_of stations row = Inr b \<and>
      i = \<lparr>pl_row = row, pl_station = station_of stations row, pl_station_id = row_text row ''station_id'' [], pl_explicit = ex,
           pl_display = (if ex \<noteq> None then ex else ml), pl_index = k, pl_base = b\<rparr>)"
  unfolding prepare_item_def prod.case Let_def station_of_def [symmetric] mainline_of_def [symmetric] base_of_def [symmetric]
  by (auto split: sum.splits)

lemma prepare_item_row: "prepare_item stations m (k, row) = Inr i \<Longrightarrow> pl_row i = row \<and> pl_index i = k"
  unfolding prepare_item_iff by (elim exE conjE) simp

lemma number_items_spec:
  assumes "distinct (map pl_index ps)" "ns = number_items m ps"
  shows "list_all2 (\<lambda>i j. \<exists>d. j = i\<lparr>pl_display := Some d\<rparr> \<and> (case pl_display i of Some d' \<Rightarrow> d = d' | None \<Rightarrow>
      m < d \<and> (\<forall>j'\<in>set ns. pl_display j' = Some d \<longrightarrow> pl_index j' = pl_index i))) ps ns"
proof -
  define used where "used = List.map_filter pl_display ps"
  define auto_rows where "auto_rows = sort_key auto_key (filter (\<lambda>i. pl_display i = None) ps)"
  define start where "start = max m (largest m used) + 1"
  define numbers where "numbers = assign_orders used start auto_rows"
  have used_less: "u < start" if "u \<in> set used" for u using largest_bounds(1) [OF that, of m] by (simp add: start_def)
  note spec = assign_orders_spec [of used start auto_rows, folded numbers_def]
  have set_auto: "set auto_rows = {i \<in> set ps. pl_display i = None}" by (simp add: auto_rows_def)
  have ns: "ns = map (\<lambda>i. if pl_display i = None then i\<lparr>pl_display := map_of numbers (pl_index i)\<rparr> else i) ps"
    by (simp add: assms(2) number_items_def Let_def used_def auto_rows_def start_def numbers_def)
  have idx: "i = j" if "i \<in> set ps" "j \<in> set ps" "pl_index i = pl_index j" for i j
    using assms(1) that by (metis distinct_map inj_onD)
  have fresh: "\<exists>d. map_of numbers (pl_index i) = Some d \<and> start \<le> d" if "i \<in> set ps" "pl_display i = None" for i
  proof -
    have "pl_index i \<in> fst ` set numbers" using spec used_less that set_auto by (metis (mono_tags, lifting) image_eqI list.set_map mem_Collect_eq)
    then obtain d where "map_of numbers (pl_index i) = Some d" by (metis map_of_eq_None_iff not_None_eq)
    then show ?thesis using spec used_less by (force dest: map_of_SomeD)
  qed
  have inj: "k = k'" if "map_of numbers k = Some d" "map_of numbers k' = Some d" for k k' d
  proof -
    have "(k, d) \<in> set numbers" "(k', d) \<in> set numbers" using that by (auto dest: map_of_SomeD)
    then show ?thesis using spec used_less by (metis distinct_map inj_onD snd_conv prod.inject)
  qed
  have "\<exists>d. j = i\<lparr>pl_display := Some d\<rparr> \<and> (case pl_display i of Some d' \<Rightarrow> d = d' | None \<Rightarrow>
      m < d \<and> (\<forall>j'\<in>set ns. pl_display j' = Some d \<longrightarrow> pl_index j' = pl_index i))"
    if i: "i \<in> set ps" and j: "j = (if pl_display i = None then i\<lparr>pl_display := map_of numbers (pl_index i)\<rparr> else i)" for i j
  proof (cases "pl_display i")
    case (Some d)
    then show ?thesis using j by (intro exI [of _ d]) simp
  next
    case None
    then obtain d where d: "map_of numbers (pl_index i) = Some d" "start \<le> d" using fresh [OF i] by auto
    have "pl_index j' = pl_index i" if "j' \<in> set ns" "pl_display j' = Some d" for j'
    proof -
      obtain i' where i': "i' \<in> set ps" "j' = (if pl_display i' = None then i'\<lparr>pl_display := map_of numbers (pl_index i')\<rparr> else i')"
        using \<open>j' \<in> set ns\<close> ns by auto
      show ?thesis
      proof (cases "pl_display i'")
        case None
        then show ?thesis using inj [of "pl_index i'" d "pl_index i"] i' that d by simp
      next
        case (Some e)
        then have "e \<in> set used" using i'(1) by (force simp: used_def List.map_filter_def)
        then show ?thesis using used_less d i' that Some by fastforce
      qed
    qed
    then show ?thesis using j d None start_def by (intro exI [of _ d]) auto
  qed
  then show ?thesis unfolding ns [symmetric] by (subst ns) (auto simp: list_all2_map2 list.rel_refl_strong list_all2_same)
qed


lemma prepared_facts:
  assumes "map_result (prepare_item stations m) (enumerate 0 rows) = Inr ps"
  shows "length ps = length rows" "\<And>k. k < length rows \<Longrightarrow> prepare_item stations m (k, rows ! k) = Inr (ps ! k)"
    "map pl_index ps = [0..<length rows]"
proof -
  have all: "list_all2 (\<lambda>x y. prepare_item stations m x = Inr y) (enumerate 0 rows) ps" using assms by (rule map_result_all2)
  then show len: "length ps = length rows" by (simp add: list_all2_lengthD [symmetric])
  show p: "prepare_item stations m (k, rows ! k) = Inr (ps ! k)" if "k < length rows" for k
    using list_all2_nthD [OF all, of k] that by (simp add: nth_enumerate_eq)
  show "map pl_index ps = [0..<length rows]"
    by (rule nth_equalityI) (use prepare_item_row [OF p] len in auto)
qed

text \<open>The items of the answer.\<close>

definition answered :: "int \<Rightarrow> plan_item list \<Rightarrow> plan_item list" where
  "answered m ps = sort_key final_key (number_items m ps)"

lemma canonicalize_plan_iff:
  "canonicalize_plan loads rows stations = Inr out \<longleftrightarrow>
   (\<exists>m ps. max_mainline (map (metadata_projection loads) stations) = Inr m \<and>
      map_result (prepare_item (map (metadata_projection loads) stations) m) (enumerate 0 rows) = Inr ps \<and> out = map plan_row (answered m ps))"
  by (auto simp: canonicalize_plan_def Let_def answered_def split: sum.splits)

lemma answered_facts:
  assumes "map_result (prepare_item stations m) (enumerate 0 rows) = Inr ps"
  shows "mset (map pl_index (answered m ps)) = mset [0..<length rows]"
    "\<And>j. j \<in> set (answered m ps) \<Longrightarrow> pl_index j < length rows \<and> (\<exists>i d. prepare_item stations m (pl_index j, rows ! pl_index j) = Inr i \<and>
      j = i\<lparr>pl_display := Some d\<rparr> \<and> (case pl_display i of Some d' \<Rightarrow> d = d' | None \<Rightarrow>
        m < d \<and> (\<forall>j'\<in>set (answered m ps). pl_display j' = Some d \<longrightarrow> pl_index j' = pl_index j)))"
proof -
  note p = prepared_facts [OF assms]
  have "distinct (map pl_index ps)" unfolding p(3) by simp
  note spec = number_items_spec [OF this refl, of m]
  have set: "set (answered m ps) = set (number_items m ps)" by (simp add: answered_def)
  have idx: "map pl_index (number_items m ps) = map pl_index ps"
    by (rule nth_equalityI) (use spec in \<open>auto simp: list_all2_conv_all_nth\<close>)
  then show "mset (map pl_index (answered m ps)) = mset [0..<length rows]"
    unfolding answered_def mset_map mset_sort using p(3) by (metis mset_map)
  fix j assume "j \<in> set (answered m ps)"
  then obtain k where k: "k < length ps" "j = number_items m ps ! k"
    unfolding set using spec by (auto simp: in_set_conv_nth list_all2_lengthD)
  have "pl_index (ps ! k) = k" using p(1,3) k(1) by (metis add_0 length_map nth_map nth_upt)
  then show "pl_index j < length rows \<and> (\<exists>i d. prepare_item stations m (pl_index j, rows ! pl_index j) = Inr i \<and>
      j = i\<lparr>pl_display := Some d\<rparr> \<and> (case pl_display i of Some d' \<Rightarrow> d = d' | None \<Rightarrow>
        m < d \<and> (\<forall>j'\<in>set (answered m ps). pl_display j' = Some d \<longrightarrow> pl_index j' = pl_index j)))"
    using list_all2_nthD [OF spec k(1)] p(1) p(2) [of k] k unfolding set by (force split: option.splits)
qed

lemma answered_item:
  assumes "map_result (prepare_item stations m) (enumerate 0 rows) = Inr ps" "j \<in> set (answered m ps)"
  obtains i d where "pl_index j < length rows" "prepare_item stations m (pl_index j, rows ! pl_index j) = Inr i" "j = i\<lparr>pl_display := Some d\<rparr>"
    "case pl_display i of Some d' \<Rightarrow> d = d' | None \<Rightarrow>
        m < d \<and> (\<forall>j'\<in>set (answered m ps). pl_display j' = Some d \<longrightarrow> pl_index j' = pl_index j)"
  using answered_facts(2) [OF assms] by (elim conjE exE) (rule that)

lemma answered_sorted: "sorted (map final_key (answered m ps))"
  by (simp add: answered_def)

lemma fst_mono: "p \<le> q \<Longrightarrow> fst p \<le> fst q" for p q :: "'a::linorder \<times> 'b::linorder"
  by (auto simp: less_eq_prod_def)

lemma plan_row_numbered: "plan_row i = numbered_row (the (pl_display i)) (pl_explicit i) (pl_row i)"
  by (simp add: plan_row_def numbered_row_def)

text \<open>A row of the answer: its place in the question, its number and its explicit order.\<close>

definition triple :: "plan_item \<Rightarrow> nat \<times> int \<times> int option" where
  "triple j = (pl_index j, the (pl_display j), pl_explicit j)"

lemma answered_display:
  assumes "map_result (prepare_item stations m) (enumerate 0 rows) = Inr ps" "j \<in> set (answered m ps)"
  shows "pl_display j = Some (the (pl_display j))"
  by (rule answered_item [OF assms]) simp

lemma answered_rows:
  assumes "map_result (prepare_item stations m) (enumerate 0 rows) = Inr ps"
  shows "map plan_row (answered m ps) = map (\<lambda>(k, d, e). numbered_row d e (rows ! k)) (map triple (answered m ps))"
  unfolding map_map
proof (intro map_cong refl)
  fix j assume "j \<in> set (answered m ps)"
  then obtain i d where "prepare_item stations m (pl_index j, rows ! pl_index j) = Inr i" "j = i\<lparr>pl_display := Some d\<rparr>"
    by (rule answered_item [OF assms])
  then have "pl_row j = rows ! pl_index j" using prepare_item_row by (metis plan_item.ext_inject plan_item.surjective plan_item.update_convs(5))
  then show "plan_row j = ((\<lambda>(k, d, e). numbered_row d e (rows ! k)) \<circ> triple) j" by (simp add: plan_row_numbered triple_def)
qed

lemma answered_ascending: "sorted (map (\<lambda>(k, d, e). d) (map triple (answered m ps)))"
proof -
  have "sorted_wrt (\<lambda>i j. final_key i \<le> final_key j) (answered m ps)" using answered_sorted [of m ps] by (simp only: sorted_map)
  then have "sorted_wrt (\<lambda>i j. fst (final_key i) \<le> fst (final_key j)) (answered m ps)"
    by (rule sorted_wrt_mono_rel [rotated]) (rule fst_mono)
  then show ?thesis by (simp add: sorted_map sorted_wrt_map final_key_def triple_def)
qed

lemma answered_triple:
  assumes "map_result (prepare_item stations m) (enumerate 0 rows) = Inr ps" "x \<in> set (map triple (answered m ps))"
  shows "case x of (k, d, e) \<Rightarrow> \<exists>i. prepare_item stations m (k, rows ! k) = Inr i \<and> e = pl_explicit i \<and>
    (case pl_display i of Some d' \<Rightarrow> d = d' | None \<Rightarrow> m < d \<and> (\<forall>(k', d', e')\<in>set (map triple (answered m ps)). d' = d \<longrightarrow> k' = k))"
proof -
  obtain j where j: "j \<in> set (answered m ps)" and x: "x = triple j" using assms(2) by auto
  obtain i d where i: "prepare_item stations m (pl_index j, rows ! pl_index j) = Inr i"
    "j = i\<lparr>pl_display := Some d\<rparr>" "case pl_display i of Some d' \<Rightarrow> d = d' | None \<Rightarrow>
      m < d \<and> (\<forall>j'\<in>set (answered m ps). pl_display j' = Some d \<longrightarrow> pl_index j' = pl_index j)"
    using j by (rule answered_item [OF assms(1)])
  then have e: "pl_explicit j = pl_explicit i" and d: "the (pl_display j) = d" by simp_all
  have "case pl_display i of Some d' \<Rightarrow> d = d' | None \<Rightarrow> m < d \<and> (\<forall>(k', d', e')\<in>set (map triple (answered m ps)). d' = d \<longrightarrow> k' = pl_index j)"
  proof (cases "pl_display i")
    case None
    then have "pl_index j' = pl_index j" if "j' \<in> set (answered m ps)" "the (pl_display j') = d" for j'
      using i(3) that answered_display [OF assms(1) that(1)] by simp
    then show ?thesis using None i(3) by (fastforce simp: triple_def)
  qed (use i(3) in simp)
  then show ?thesis unfolding x triple_def [of j] prod.case d e by (intro exI [of _ i] conjI i(1) refl)
qed


section \<open>Ordering again\<close>

lemma row_value_numbered:
  "f \<notin> {''planning_order'', ''display_order'', ''sequence_no''} \<Longrightarrow> row_value (numbered_row d e row) f x = row_value row f x"
  by (simp add: row_value_def numbered_row_def dict_simps)

lemma row_text_numbered:
  "f \<notin> {''planning_order'', ''display_order'', ''sequence_no''} \<Longrightarrow> row_text (numbered_row d e row) f x = row_text row f x"
  by (simp add: row_text_def row_value_numbered)

lemma key_numbered: "station_display_order_key (numbered_row d e row) = station_display_order_key row"
proof -
  have "fallback_key (numbered_row d e row) = fallback_key row" unfolding fallback_key_def Let_def
    by (simp add: row_value_numbered row_text_numbered split: sum.split)
  moreover have "valid_mainline_order (numbered_row d e row) = valid_mainline_order row"
    unfolding valid_mainline_order_def Let_def by (simp add: row_value_numbered row_text_numbered cong: if_cong)
  ultimately show ?thesis by (simp only: station_display_order_key_def)
qed

lemma of_numbered:
  "station_of S (numbered_row d e row) = station_of S row" "mainline_of S (numbered_row d e row) = mainline_of S row"
  "base_of S (numbered_row d e row) = base_of S row" "row_text (numbered_row d e row) ''station_id'' [] = row_text row ''station_id'' []"
  by (simp_all add: station_of_def mainline_of_def base_of_def row_text_numbered key_numbered split: option.split)

lemma explicit_numbered:
  "(\<And>x. e = Some x \<Longrightarrow> 0 < x) \<Longrightarrow>
   explicit_order m (numbered_row d e row) = Inr (if e \<noteq> None then e else if 0 < d \<and> (m \<le> 0 \<or> m < d) then Some d else None)"
  by (cases e) (auto simp: explicit_order_def numbered_row_def dict_simps integer_of_def blank_def legacy_sequence_is_explicit_def)

lemma explicit_positive: "explicit_order m row = Inr (Some x) \<Longrightarrow> 0 < x"
  by (auto simp: explicit_order_def legacy_sequence_is_explicit_def split: sum.splits option.splits if_splits)

lemma mainline_bounds:
  assumes "max_mainline S = Inr m"
  shows "0 \<le> m" "mainline_of S row = Inr (Some k) \<Longrightarrow> 0 \<le> k \<and> k \<le> m"
proof -
  obtain os where os: "list_all2 (\<lambda>x y. valid_mainline_order x = Inr y) S os" and m: "m = largest 0 (List.map_filter id os)"
    using assms by (auto simp: max_mainline_def dest: map_result_all2 split: sum.splits)
  have nonneg: "0 \<le> k" if "valid_mainline_order s = Inr (Some k)" for s k
    using that by (auto simp: valid_mainline_order_def Let_def split: if_splits sum.splits option.splits)
  have mem: "k \<in> set (List.map_filter id os) \<longleftrightarrow> Some k \<in> set os" for k by (force simp: List.map_filter_def)
  have ge: "0 \<le> k" if "Some k \<in> set os" for k
    using that os nonneg by (auto simp: in_set_conv_nth list_all2_conv_all_nth)
  show "0 \<le> m"
  proof (cases "List.map_filter id os = []")
    case False
    then show ?thesis unfolding m using largest_bounds(2) [OF False, of 0] ge mem by blast
  qed (simp add: m largest_def)
  assume "mainline_of S row = Inr (Some k)"
  then obtain s where s: "station_of S row = Some s" "valid_mainline_order s = Inr (Some k)" by (auto simp: mainline_of_def split: option.splits)
  then have "find (\<lambda>s. station_id_of s = row_text row ''station_id'' []) (rev S) = Some s"
    by (auto simp: station_of_def station_by_id_def split: if_splits)
  then have "s \<in> set (rev S)" by (metis find_Some_iff nth_mem)
  then have "s \<in> set S" by simp
  then have "Some k \<in> set os" using os s(2) by (auto simp: in_set_conv_nth list_all2_conv_all_nth)
  then show "0 \<le> k \<and> k \<le> m" using ge mem largest_bounds(1) unfolding m by blast
qed

lemma update_other: "filter (\<lambda>kv. fst kv \<noteq> k) (dput k v r) = filter (\<lambda>kv. fst kv \<noteq> k) r"
  unfolding dput_def by (induction r) auto

definition without_planning :: "pydict \<Rightarrow> pydict" where
  "without_planning row = filter (\<lambda>kv. fst kv \<noteq> ''planning_order'') row"

lemma renumbered: "without_planning (numbered_row d e' (numbered_row d e row)) = without_planning (numbered_row d e row)"
proof -
  have "dput ''display_order'' (PInt d) (dput ''sequence_no'' (PInt d) (numbered_row d e row)) = numbered_row d e row"
    by (simp add: dput_same numbered_row_def dict_simps)
  then show ?thesis unfolding numbered_row_def [of d e' "numbered_row d e row"] by (simp add: without_planning_def update_other)
qed

text \<open>The second pass finds every row at its place.\<close>

lemma second_item:
  assumes "max_mainline S = Inr m" "prepare_item S m (k, row) = Inr i" "j = i\<lparr>pl_display := Some d\<rparr>"
    and "case pl_display i of Some d' \<Rightarrow> d = d' | None \<Rightarrow> m < d"
  shows "\<exists>e. prepare_item S m (p, plan_row j) = Inr (j\<lparr>pl_row := plan_row j, pl_explicit := e, pl_index := p\<rparr>)"
proof -
  obtain ex ml b where i: "explicit_order m row = Inr ex" "mainline_of S row = Inr ml" "base_of S row = Inr b"
    "i = \<lparr>pl_row = row, pl_station = station_of S row, pl_station_id = row_text row ''station_id'' [], pl_explicit = ex,
           pl_display = (if ex \<noteq> None then ex else ml), pl_index = k, pl_base = b\<rparr>"
    using assms(2) unfolding prepare_item_iff by blast
  have row: "plan_row j = numbered_row d ex row" by (simp add: plan_row_numbered assms(3) i(4))
  have pos: "0 < x" if "ex = Some x" for x using explicit_positive i(1) that by simp
  define e where "e = (if ex \<noteq> None then ex else if 0 < d \<and> (m \<le> 0 \<or> m < d) then Some d else None)"
  have ex': "explicit_order m (plan_row j) = Inr e" unfolding row e_def using pos by (rule explicit_numbered)
  have "(if e \<noteq> None then e else ml) = Some d"
  proof (cases ex)
    case (Some x)
    then show ?thesis using assms(4) by (simp add: e_def i(4))
  next
    case None
    show ?thesis
    proof (cases ml)
      case (Some l)
      then show ?thesis using None assms(4) mainline_bounds [OF assms(1)] i(2) by (auto simp: e_def i(4))
    next
      case m: None
      then show ?thesis using None assms(4) mainline_bounds(1) [OF assms(1)] by (auto simp: e_def i(4))
    qed
  qed
  then show ?thesis
    unfolding prepare_item_iff ex' unfolding row of_numbered using i by (intro exI [of _ e] exI [of _ ml] exI [of _ b]) (simp add: assms(3) row)
qed

lemma key_position: "(a, b, c, i) \<le> (a', b', c', i') \<Longrightarrow> p \<le> q \<Longrightarrow> (a, b, c, p) \<le> (a', b', c', q)"
  for a a' :: "'a::linorder" and b b' :: "'b::linorder" and c c' :: "'c::linorder" and i i' p q :: "'d::linorder"
  by (auto simp: less_eq_prod_def)

text \<open>The item of the second pass for an item of the answer at a place.\<close>

definition again :: "(nat \<Rightarrow> plan_item \<Rightarrow> int option) \<Rightarrow> nat \<Rightarrow> plan_item \<Rightarrow> plan_item" where
  "again ex p j = j\<lparr>pl_row := plan_row j, pl_explicit := ex p j, pl_index := p\<rparr>"

lemma again_key: "final_key (again ex p j) = (the (pl_display j), pl_base j, pl_station_id j, p)"
  by (simp add: final_key_def again_def)

lemma again_prepared:
  assumes "max_mainline S = Inr m" "map_result (prepare_item S m) (enumerate 0 rows) = Inr ps"
  shows "\<exists>ex. \<forall>p. \<forall>j\<in>set (answered m ps). prepare_item S m (p, plan_row j) = Inr (again ex p j)"
proof -
  have "\<exists>e. prepare_item S m (p, plan_row j) = Inr (j\<lparr>pl_row := plan_row j, pl_explicit := e, pl_index := p\<rparr>)"
    if j: "j \<in> set (answered m ps)" for p j
  proof -
    obtain i d where i: "prepare_item S m (pl_index j, rows ! pl_index j) = Inr i" "j = i\<lparr>pl_display := Some d\<rparr>"
      "case pl_display i of Some d' \<Rightarrow> d = d' | None \<Rightarrow>
        m < d \<and> (\<forall>j'\<in>set (answered m ps). pl_display j' = Some d \<longrightarrow> pl_index j' = pl_index j)"
      using j by (rule answered_item [OF assms(2)])
    then have "case pl_display i of Some d' \<Rightarrow> d = d' | None \<Rightarrow> m < d" by (simp split: option.splits)
    then show ?thesis by (rule second_item [OF assms(1) i(1,2)])
  qed
  then have "prepare_item S m (p, plan_row j) =
      Inr (again (\<lambda>p j. SOME e. prepare_item S m (p, plan_row j) = Inr (j\<lparr>pl_row := plan_row j, pl_explicit := e, pl_index := p\<rparr>)) p j)"
    if "j \<in> set (answered m ps)" for p j
    unfolding again_def using that by (intro someI_ex [where P = "\<lambda>e. prepare_item S m (p, plan_row j) = Inr (j\<lparr>pl_row := plan_row j, pl_explicit := e, pl_index := p\<rparr>)"])
  then show ?thesis by blast
qed

lemma again_answered:
  assumes "map_result (prepare_item S m) (enumerate 0 rows) = Inr ps"
  shows "answered m (map2 (again ex) [0..<length (answered m ps)] (answered m ps)) = map2 (again ex) [0..<length (answered m ps)] (answered m ps)"
proof -
  define js where "js = answered m ps"
  define qs where "qs = map2 (again ex) [0..<length js] js"
  have len: "length qs = length js" and nth: "\<And>p. p < length js \<Longrightarrow> qs ! p = again ex p (js ! p)" by (simp_all add: qs_def)
  have "pl_display i \<noteq> None" if i: "i \<in> set qs" for i
  proof -
    obtain p where p: "p < length js" "i = again ex p (js ! p)" using i nth len by (metis in_set_conv_nth)
    have "pl_display (js ! p) \<noteq> None" using answered_display [OF assms, folded js_def, OF nth_mem [OF p(1)]] by (metis option.discI)
    then show ?thesis by (simp add: p(2) again_def)
  qed
  then have "number_items m qs = qs" unfolding number_items_def Let_def by (intro map_idI) simp
  moreover have "sorted (map final_key qs)"
    unfolding sorted_iff_nth_mono_less
  proof (intro allI impI)
    fix a b assume ab: "a < b" "b < length (map final_key qs)"
    then have "final_key (js ! a) \<le> final_key (js ! b)"
      using answered_sorted [of m ps] by (simp add: js_def [symmetric] sorted_iff_nth_mono_less len)
    then have "(the (pl_display (js ! a)), pl_base (js ! a), pl_station_id (js ! a), a) \<le> (the (pl_display (js ! b)), pl_base (js ! b), pl_station_id (js ! b), b)"
      unfolding final_key_def by (rule key_position) (use ab in simp)
    moreover have "map final_key qs ! a = final_key (again ex a (js ! a))" "map final_key qs ! b = final_key (again ex b (js ! b))"
      using ab nth len by simp_all
    ultimately show "map final_key qs ! a \<le> map final_key qs ! b" by (simp only: again_key)
  qed
  ultimately have "answered m qs = qs" unfolding answered_def by (simp add: sort_key_id_if_sorted)
  then show ?thesis by (simp only: qs_def js_def)
qed


section \<open>A plan with a depot\<close>

definition line_stations :: "pydict list" where
  "line_stations = [[(''id'', PStr ''s1''), (''sort_order'', PInt 930)], [(''id'', PStr ''n27''), (''node_type'', PStr ''depot'')]]"

definition depot_plan :: "pydict list" where
  "depot_plan = [[(''station_id'', PStr ''n27''), (''sequence_no'', PInt 2)], [(''station_id'', PStr ''s1''), (''sequence_no'', PInt 1)]]"

lemma depot_plan_ordered:
  "canonicalize_plan (\<lambda>_. None) depot_plan line_stations = Inr
     [[(''station_id'', PStr ''s1''), (''sequence_no'', PInt 930), (''display_order'', PInt 930), (''planning_order'', PNone)],
      [(''station_id'', PStr ''n27''), (''sequence_no'', PInt 931), (''display_order'', PInt 931), (''planning_order'', PNone)]]"
  by code_simp

text \<open>The number that the first pass made up is an explicit order for the second pass.\<close>

lemma number_becomes_explicit:
  "canonicalize_plan (\<lambda>_. None)
     [[(''station_id'', PStr ''s1''), (''sequence_no'', PInt 930), (''display_order'', PInt 930), (''planning_order'', PNone)],
      [(''station_id'', PStr ''n27''), (''sequence_no'', PInt 931), (''display_order'', PInt 931), (''planning_order'', PNone)]] line_stations = Inr
     [[(''station_id'', PStr ''s1''), (''sequence_no'', PInt 930), (''display_order'', PInt 930), (''planning_order'', PNone)],
      [(''station_id'', PStr ''n27''), (''sequence_no'', PInt 931), (''display_order'', PInt 931), (''planning_order'', PInt 931)]]"
  by code_simp

text \<open>An infinite order in a stored row raises out of the ordering.\<close>

lemma infinite_order_raises: "canonicalize_plan loads [[(''planning_order'', PFloat ''inf'')]] [] = Inl OverflowError"
  by code_simp




end
