(* ===== verification/Spec2Isabelle.thy ===== *)
theory Spec2Isabelle
  imports Runtime_Outcomes Event_Hub Optical_State Deep_Scheduler_Props Schedule_Window Recent_History Shutdown_Manager
    Command_Guard Wireless_IE Track_Mileage Ap_Identity Task_History Rssi_Zero_Runs Task_Authority
    Process_Lock Traffic_Events Text_Encoding Log_Pages Mesh_Links Task_Sessions Upgrade_Safety Ip_Routes Station_Order
begin

text \<open>
  A verification library for NetConsole, the desktop program that collects, tests and analyses the wireless
  network of railways. Its backend is a Python package (\<^verbatim>\<open>src/netconsole\<close>, the paths below are relative to it) behind a
  web interface. The models cover the parts on which the data and the devices depend: the job center with its worker
  processes, the decisions what may run and what may be sent to a device, the classification and matching of
  measured data, the files and tables it keeps, and the upgrade of its databases.

  \<^bold>\<open>How the parts interact.\<close> A task is a background job that the task runtime starts as a worker process. The worker
  writes JSON lines; the runtime reads them with the stream decoder and the frame reader of the worker protocol,
  cleans the events of exports and publishes them through the event hub to the subscribers of the web interface. Which
  tasks may start is decided by the concurrency policy (collections on one device), by the unattended scheduler with its
  daily window (collections of many trains within budgets) and by the shutdown manager (none after the shutdown began).
  Services that send commands to a device check them with the command guard; what devices answer is cleaned by the text
  codecs and classified by the optical, mesh, zero-run and wireless components, whose records refer to access points that
  the identity resolution matches. Results are kept in bounded histories, in the table of online sessions and in the
  index of task authorities; operations that several processes may start at once, such as the automatic cleanup, hold
  the interprocess lock. At the start of the program the recovery ends an interrupted database upgrade before the
  services open the databases.

  \<^bold>\<open>Shared theories.\<close> \<^verbatim>\<open>NC_Prelude\<close> holds the universe of Python values \<open>pyval\<close>, dictionaries as association lists in
  insertion order, errors (\<open>pyerr\<close>, a result is \<open>pyerr + 'a\<close>) and the string functions; \<^verbatim>\<open>NC_Texts\<close> the literals that
  are not ASCII; \<^verbatim>\<open>Py_Float\<close> and \<^verbatim>\<open>Py_Numbers\<close> the doubles and conversions. \<^verbatim>\<open>Chunk_Reader\<close>, \<^verbatim>\<open>Latest_Buffer\<close>,
  \<^verbatim>\<open>Step_System\<close> and \<^verbatim>\<open>Fault_Programs\<close> are the contracts and the program logic several components share.

  \<^bold>\<open>Components.\<close> A theory declares the state as a record, the data as datatypes and one definition per operation, with
  the names of the source, and then its lemmas.
  \<^item> \<^verbatim>\<open>Worker_Protocol\<close>: job models and the JSON-lines protocol (\<^verbatim>\<open>models/task_state.py\<close>, \<^verbatim>\<open>services/job_center/\<close> \<^verbatim>\<open>job_models.py\<close>,
    \<^verbatim>\<open>job_events.py\<close>, \<^verbatim>\<open>worker_protocol.py\<close>). What is accepted is a well-formed event; what the builders write is accepted; frames
    do not depend on the pieces in which they arrive.
  \<^item> \<^verbatim>\<open>Text_Decoder\<close>, \<^verbatim>\<open>Text_Encoding\<close>: the strict UTF-8 stream decoder and the decoding of unknown encodings (\<^verbatim>\<open>utils/text_encoding.py\<close>).
  \<^item> \<^verbatim>\<open>Export_Safety\<close>: what leaves an export task for the web (\<^verbatim>\<open>web_export_event_safety.py\<close>): no entry under a sensitive key at any depth.
  \<^item> \<^verbatim>\<open>Event_Hub\<close>: \<^verbatim>\<open>runtime/task_event_hub.py\<close>; a stream refines a buffer that holds the latest events.
  \<^item> \<^verbatim>\<open>Task_Runtime\<close>, \<^verbatim>\<open>Runtime_Props\<close>, \<^verbatim>\<open>Runtime_Outcomes\<close>: \<^verbatim>\<open>runtime/task_runtime.py\<close>; the two locked sections of \<open>prepare\<close> are
    separate steps, so the registry invariant holds in every interleaving; the terminal state, events and files of a
    completed task; nothing registers after the shutdown began.
  \<^item> \<^verbatim>\<open>Mr_Concurrency\<close>: \<^verbatim>\<open>services/online_mr/concurrency_policy.py\<close>; the budget is never exceeded by admitted collections.
  \<^item> \<^verbatim>\<open>Deep_Scheduler\<close>, \<^verbatim>\<open>Deep_Scheduler_Props\<close>, \<^verbatim>\<open>Schedule_Window\<close>: \<^verbatim>\<open>services/ground_unattended/\<close> \<^verbatim>\<open>deep_scheduler.py\<close> and \<^verbatim>\<open>schedule.py\<close>;
    starts and stops within the budgets, one forced stop per collection, evidence for a covered round, the daily window.
  \<^item> \<^verbatim>\<open>Shutdown_Manager\<close>: \<^verbatim>\<open>core/shutdown_manager.py\<close>; the wait ends by its deadline. The clock and the processes are operations of
    a world that the theorems restrict to clocks that run.
  \<^item> \<^verbatim>\<open>Command_Guard\<close>: \<^verbatim>\<open>services/command_guard.py\<close>; the decision is characterised and what is accepted is harmless.
  \<^item> \<^verbatim>\<open>Optical_Severity\<close>, \<^verbatim>\<open>Optical_State\<close>, \<^verbatim>\<open>Interface_Name\<close>: \<^verbatim>\<open>core/optical_severity_engine.py\<close>, \<^verbatim>\<open>ap_optical_capability.py\<close>,
    \<^verbatim>\<open>optical_rx_threshold.py\<close>, \<^verbatim>\<open>state_engine.py\<close>, \<^verbatim>\<open>core/sources\<close> and \<^verbatim>\<open>utils/interface_normalize.py\<close>; bands, orders, evidence for a normal state.
  \<^item> \<^verbatim>\<open>Wireless_IE\<close>: \<^verbatim>\<open>services/network_tools/wireless_ie_parser.py\<close>; the bytes are read exactly or an error says why not.
  \<^item> \<^verbatim>\<open>Track_Mileage\<close>: \<^verbatim>\<open>utils/mileage.py\<close>; what is displayed is read back.
  \<^item> \<^verbatim>\<open>Ap_Identity\<close>: \<^verbatim>\<open>core/ap_identity/normalizers.py\<close>, \<^verbatim>\<open>services/ap_identity\<close>; resolving refines the ranking of evidence.
  \<^item> \<^verbatim>\<open>Task_History\<close>, \<^verbatim>\<open>Recent_History\<close>: \<^verbatim>\<open>models/task_history_policy.py\<close>, \<^verbatim>\<open>core/storage/current_history_retention.py\<close>; projections of
    results, bounded histories.
  \<^item> \<^verbatim>\<open>Rssi_Zero_Runs\<close>, \<^verbatim>\<open>Mesh_Links\<close>: \<^verbatim>\<open>services/mesh_rssi_zero_runs.py\<close>, \<^verbatim>\<open>core/storage/mesh_link_analyzer.py\<close>, \<^verbatim>\<open>models/mesh_analysis_params.py\<close>;
    the runs and the links partition the rows.
  \<^item> \<^verbatim>\<open>Task_Authority\<close>: \<^verbatim>\<open>services/job_center/task_authority_index.py\<close>; the file refines a map from tasks to sets of sites.
  \<^item> \<^verbatim>\<open>Process_Lock\<close>: \<^verbatim>\<open>core/interprocess_lock.py\<close> as a step system of all threads of all processes; mutual exclusion, and no
    state, handle or lock stays behind.
  \<^item> \<^verbatim>\<open>Traffic_Events\<close>: \<^verbatim>\<open>services/traffic/event_hub.py\<close>; only droppable events are dropped.
  \<^item> \<^verbatim>\<open>Log_Pages\<close>: \<^verbatim>\<open>core/pagination.py\<close>, \<^verbatim>\<open>core/log_pagination.py\<close>; reading backwards in chunks gives the lines of the file, and pages
    are slices of the selected lines. The loops are partial functions, and the theorems state that they return.
  \<^item> \<^verbatim>\<open>Task_Sessions\<close>: \<^verbatim>\<open>repositories/online_mr_task_session_repository.py\<close>; the keys of the table in every sequence of operations of
    all sites, and recovery after a restart.
  \<^item> \<^verbatim>\<open>Database_Upgrade\<close>: \<^verbatim>\<open>services/database_upgrade\<close> and \<^verbatim>\<open>services/mesh_parsed_rebuild_service.py\<close>: the upgrade, its exception
    handler, the two adapters and the recovery, as programs in which every effect may fail or be the last one.
    \<^verbatim>\<open>Upgrade_Undo\<close>, \<^verbatim>\<open>Upgrade_Steps\<close>, \<^verbatim>\<open>Upgrade_Adapters\<close>, \<^verbatim>\<open>Upgrade_Mesh\<close> and \<^verbatim>\<open>Upgrade_Recovery\<close> carry the conditions on the files from step
    to step; \<^verbatim>\<open>Upgrade_Safety\<close> states what a start finds.
  \<^item> \<^verbatim>\<open>Station_Order\<close>: \<^verbatim>\<open>core/sources/rail_transit/station_ordering.py\<close>; the canonical order numbers the rows of a plan, and a second
    pass keeps it.
  \<^item> \<^verbatim>\<open>Ip_Networks\<close>, \<^verbatim>\<open>Ip_Planning\<close>, \<^verbatim>\<open>Ip_Routes\<close>: \<^verbatim>\<open>services/network_tools/toolbox/ip_calc.py\<close>; exact plans, pages and route summaries.

  \<^bold>\<open>Interfaces.\<close> \<open>chunk_reader\<close> (the result does not depend on the pieces) is interpreted on the frame reader and on the
  decoder; \<open>latest_buffer\<close> on the streams of the event hub; \<open>frame_blind\<close> and \<open>protocol_frame\<close> (what the protocol handlers
  keep of a task) on the fields and invariants of the runtime; \<open>step_system\<close> (an invariant of every run) on the
  lock, the session table and the traffic streams; \<open>upgrade_adapter\<close> (what the coordinator needs of an adapter) on
  the adapter that restores a backup, and its contract is shown for the adapter that rebuilds mesh data. The
  properties rest on the facts of these interpretations.

  \<^bold>\<open>Conventions.\<close> A string is the list of its UTF-8 bytes; character classes, case and white space are those of ASCII. Integers are
  unbounded, addresses are words of 32 bits, and a float is an IEEE double with one zero. A lock makes its section one step. Time is
  a number or a text whose parser is a parameter. The polling loops of the shutdown take one unit of fuel for each 50
  milliseconds of the time limit, which the theorem shows to be enough; the faults of an upgrade are a list with one entry per
  effect, and the theorems hold for every list. Recovery of sessions handles at most 1000 rows in one query, as the code
  does, and its theorem says so.

  \<^bold>\<open>Parameters\<close> stand for code outside the repository or for its data: the JSON parser and printer, ISO times, hashes, the
  shuffle of the scheduler, time zones, codecs other than UTF-8, the redaction of paths and addresses by regular expressions, the
  content and the backup of SQLite, the import of raw logs, the iteration order of a set, the classification of
  addresses. Where a theorem needs something of them, it is a hypothesis with a witness.

  \<^bold>\<open>Not modelled.\<close> The web routers and application services (request handling over these parts), the SQL repositories
  and the schema of \<^verbatim>\<open>core/database.py\<close> (their meaning is that of SQLite), SSH and SNMP sessions, the parsers of device output,
  exports and reports, the web and desktop user interface, the agent in Go, the launcher, scripts and tests. Inside
  the modelled parts: logging, the start of processes and threads, the creation and permissions of files, the
  production-maintenance and component-resume branches of the recovery, authority checks of journals and backups, and the
  IPv6 calculator.
\<close>

end
